(* ===== verification/Go_Prelude.thy ===== *)
theory Go_Prelude
  imports Main "HOL-Library.Word" "HOL-Library.AList" "HOL-Library.Multiset"
begin

text \<open>
  Shared ground of the development: how values of the Go runtime are represented, and the
  generic facts about them that the component theories use.

  \<^item> A Go map is an association list with distinct keys (\<open>gomap_ok\<close>). A \<open>range\<close> loop visits the
    entries in list order; Go leaves the order open, and the theorems hold for every list. Lookup is
    \<open>map_of\<close>, assignment is \<open>AList.update\<close>, \<open>delete\<close> is \<open>AList.delete\<close>, \<open>maps.Copy dst src\<close> is
    \<open>AList.merge dst src\<close>.
  \<^item> A Go set (\<open>map[string]struct{}\<close>) is a list of its elements.
  \<^item> A Go string is a list of bytes (\<open>string\<close>); the functions of package \<open>strings\<close> and \<open>strconv\<close>
    that the sources call are defined here.
  \<^item> An \<open>error\<close> result is a value of type \<open>error\<close>; a function \<open>(T, error)\<close> returns \<open>error + T\<close>
    when it changes no state, and otherwise the new state together with the error.
\<close>

named_theorems wf_rules
named_theorems go_simps

subsection \<open>Errors\<close>

text \<open>The gRPC status codes the sources use. \<open>StatusErr c m\<close> is \<open>status.Errorf(c, m)\<close>; \<open>StatusText c e\<close> is
  \<open>status.Errorf(c, "%s", e.Error())\<close>, whose message is the text of another error.\<close>

datatype grpc_code = Unavailable | InvalidArgument | CanceledCode | OtherCode nat

text \<open>
  \<open>Errorf f args\<close> is \<open>errors.New(f)\<close> or \<open>fmt.Errorf(f, args...)\<close>, \<open>Wrapf f args e\<close> the form with \<open>%w\<close>
  around \<open>e\<close>; \<open>Panic\<close> is a run-time panic, \<open>External\<close> an error made by code outside the repository.
\<close>

datatype error =
    Errorf string "string list"
  | Wrapf string "string list" error
  | MissingRequestResource "string list"
  | SkipFetchError
  | ContextCanceled
  | EOF
  | StatusErr grpc_code string
  | StatusText grpc_code error
  | ErrInit
  | ErrNilResp
  | Panic string
  | External nat

type_synonym 'a result = "error + 'a"

text \<open>\<open>errors.As(err, \<dots>)\<close> and \<open>errors.Is\<close> follow the chain of wrapped errors.\<close>

fun unwrapped :: "error \<Rightarrow> error" where
  "unwrapped (Wrapf f args e) = unwrapped e"
| "unwrapped e = e"

subsection \<open>Loops that can fail\<close>

fun rmap :: "('a \<Rightarrow> 'b result) \<Rightarrow> 'a list \<Rightarrow> 'b list result" where
  "rmap f [] = Inr []"
| "rmap f (x # xs) =
     (case f x of
        Inl e \<Rightarrow> Inl e
      | Inr y \<Rightarrow> (case rmap f xs of Inl e \<Rightarrow> Inl e | Inr ys \<Rightarrow> Inr (y # ys)))"

fun rfilter :: "('a \<Rightarrow> bool result) \<Rightarrow> 'a list \<Rightarrow> 'a list result" where
  "rfilter f [] = Inr []"
| "rfilter f (x # xs) =
     (case f x of
        Inl e \<Rightarrow> Inl e
      | Inr b \<Rightarrow> (case rfilter f xs of
                    Inl e \<Rightarrow> Inl e
                  | Inr ys \<Rightarrow> Inr (if b then x # ys else ys)))"

fun rfold :: "('a \<Rightarrow> 's \<Rightarrow> 's result) \<Rightarrow> 'a list \<Rightarrow> 's \<Rightarrow> 's result" where
  "rfold f [] s = Inr s"
| "rfold f (x # xs) s = (case f x s of Inl e \<Rightarrow> Inl e | Inr s' \<Rightarrow> rfold f xs s')"

subsection \<open>Go maps and sets\<close>

type_synonym ('k, 'v) gomap = "('k \<times> 'v) list"

definition gomap_ok :: "('k, 'v) gomap \<Rightarrow> bool" where
  "gomap_ok m \<longleftrightarrow> distinct (map fst m)"

text \<open>Indexing a map of maps: a missing key reads as the nil (empty) map.\<close>

definition gsub :: "('a, ('k, 'v) gomap) gomap \<Rightarrow> 'a \<Rightarrow> ('k, 'v) gomap" where
  "gsub m a = (case map_of m a of None \<Rightarrow> [] | Some s \<Rightarrow> s)"

definition set_add :: "'a \<Rightarrow> 'a list \<Rightarrow> 'a list" where
  "set_add x xs = (if x \<in> set xs then xs else xs @ [x])"

subsection \<open>Package strings\<close>

definition HasPrefix :: "string \<Rightarrow> string \<Rightarrow> bool" where
  "HasPrefix s p \<longleftrightarrow> take (length p) s = p"

definition HasSuffix :: "string \<Rightarrow> string \<Rightarrow> bool" where
  "HasSuffix s p \<longleftrightarrow> length p \<le> length s \<and> drop (length s - length p) s = p"

definition TrimSuffix :: "string \<Rightarrow> string \<Rightarrow> string" where
  "TrimSuffix s p = (if HasSuffix s p then take (length s - length p) s else s)"

subsection \<open>Package strconv\<close>

definition digit :: "nat \<Rightarrow> char" where
  "digit d = char_of (48 + d)"

fun dec_nat :: "nat \<Rightarrow> string" where
  "dec_nat n = (if n < 10 then [digit n] else dec_nat (n div 10) @ [digit (n mod 10)])"

declare dec_nat.simps [simp del]

definition FormatUint :: "64 word \<Rightarrow> string" where
  "FormatUint w = dec_nat (unat w)"

definition FormatInt :: "64 word \<Rightarrow> string" where
  "FormatInt w =
     (if sint w < 0 then CHR ''-'' # dec_nat (nat (- sint w)) else dec_nat (nat (sint w)))"

text \<open>The inverse reading of a decimal numeral, used to state that numerals are unambiguous.\<close>

definition undec :: "string \<Rightarrow> nat" where
  "undec s = foldl (\<lambda>a c. 10 * a + (of_char c - 48)) 0 s"

section \<open>Lemmas\<close>

subsection \<open>Maps\<close>

lemma gomap_ok_Nil [simp, wf_rules]: "gomap_ok []"
  by (simp add: gomap_ok_def)

lemma gomap_ok_update [simp, wf_rules]: "gomap_ok m \<Longrightarrow> gomap_ok (AList.update k v m)"
  by (simp add: gomap_ok_def distinct_update)

lemma gomap_ok_delete [simp, wf_rules]: "gomap_ok m \<Longrightarrow> gomap_ok (AList.delete k m)"
  by (simp add: gomap_ok_def distinct_delete)

lemma gomap_ok_merge [simp, wf_rules]: "gomap_ok m \<Longrightarrow> gomap_ok (AList.merge m m')"
  by (simp add: gomap_ok_def distinct_merge)

lemma gomap_ok_filter [simp, wf_rules]: "gomap_ok m \<Longrightarrow> gomap_ok (filter P m)"
  by (induction m) (auto simp: gomap_ok_def)

lemma gomap_ok_Cons [simp]: "gomap_ok (p # m) \<longleftrightarrow> fst p \<notin> fst ` set m \<and> gomap_ok m"
  by (simp add: gomap_ok_def)

lemma map_of_update [simp]: "map_of (AList.update k v m) = (map_of m)(k \<mapsto> v)"
  by (rule update_conv')

lemma map_of_delete [simp]: "map_of (AList.delete k m) = (map_of m)(k := None)"
  by (rule delete_conv')

lemma map_of_merge [simp]: "map_of (AList.merge m m') = map_of m ++ map_of m'"
  by (rule merge_conv')

lemma map_of_iff: "gomap_ok m \<Longrightarrow> map_of m k = Some v \<longleftrightarrow> (k, v) \<in> set m"
  by (simp add: gomap_ok_def)

lemma map_of_in_dom: "map_of m k = None \<longleftrightarrow> k \<notin> fst ` set m"
  by (simp add: map_of_eq_None_iff)

lemma map_of_filter_ok:
  assumes "gomap_ok m"
  shows "map_of (filter (\<lambda>p. P (fst p)) m) k = (if P k then map_of m k else None)"
  using assms by (induction m) (auto simp: map_of_in_dom)

lemma map_of_filter_le: "gomap_ok m \<Longrightarrow> map_of (filter Q m) \<subseteq>\<^sub>m map_of m"
proof (rule map_le_def [THEN iffD2], intro ballI)
  fix k assume ok: "gomap_ok m" and "k \<in> dom (map_of (filter Q m))"
  then obtain v where v: "map_of (filter Q m) k = Some v" by blast
  then have "(k, v) \<in> set m" by (auto dest!: map_of_SomeD)
  with ok v show "map_of (filter Q m) k = map_of m k" by (simp add: map_of_iff [symmetric])
qed

lemma length_gomap: "gomap_ok m \<Longrightarrow> length m = card (dom (map_of m))"
  by (metis gomap_ok_def distinct_card dom_map_of_conv_image_fst length_map set_map)

lemma gomap_empty_iff: "m = [] \<longleftrightarrow> map_of m = Map.empty"
proof
  assume "map_of m = Map.empty"
  then have "fst ` set m = {}" by (metis dom_empty dom_map_of_conv_image_fst)
  then show "m = []" by simp
qed simp

text \<open>A fold of updates over a list of keys whose values are a function of the key.\<close>

lemma map_of_fold_update:
  "map_of (fold (\<lambda>n m. AList.update n (f n) m) ns m) =
     (\<lambda>k. if k \<in> set ns then Some (f k) else map_of m k)"
  by (induction ns arbitrary: m) (auto simp: fun_eq_iff)

lemma map_of_fold_delete:
  "map_of (fold AList.delete ns m) = (\<lambda>k. if k \<in> set ns then None else map_of m k)"
  by (induction ns arbitrary: m) (auto simp: fun_eq_iff)

lemma gomap_ok_fold_update [wf_rules]:
  "gomap_ok m \<Longrightarrow> gomap_ok (fold (\<lambda>n m. AList.update n (f n) m) ns m)"
  by (induction ns arbitrary: m) auto

lemma gomap_ok_fold_delete [wf_rules]: "gomap_ok m \<Longrightarrow> gomap_ok (fold AList.delete ns m)"
  by (induction ns arbitrary: m) auto

lemma map_of_fold_update_pairs:
  "map_of (fold (\<lambda>(n, x) m. AList.update n (f n x) m) ps m) =
     map_of m ++ map_of (map (\<lambda>(n, x). (n, f n x)) (rev ps))"
  by (induction ps arbitrary: m) (auto simp: map_add_def fun_eq_iff split: option.splits)

lemma map_of_fold_update_other:
  "k \<notin> fst ` set ps \<Longrightarrow> map_of (fold (\<lambda>(n, x) m. AList.update n (f n x) m) ps m) k = map_of m k"
  by (induction ps arbitrary: m) auto

lemma gomap_ok_fold_update_pairs [wf_rules]:
  "gomap_ok m \<Longrightarrow> gomap_ok (fold (\<lambda>(n, x) m. AList.update n (f n x) m) ps m)"
  by (induction ps arbitrary: m) auto

lemma gomap_ok_rev [simp]: "gomap_ok (rev m) \<longleftrightarrow> gomap_ok m"
  by (simp add: gomap_ok_def flip: rev_map)

lemma map_of_rev_ok:
  assumes "gomap_ok m"
  shows "map_of (rev m) = map_of m"
proof -
  have "distinct (map fst (rev m))" using assms gomap_ok_rev unfolding gomap_ok_def by blast
  moreover have "distinct (map fst m)" using assms by (simp add: gomap_ok_def)
  ultimately show ?thesis using map_of_inject_set by fastforce
qed

lemma map_of_map_values: "map_of (map (\<lambda>(n, x). (n, f n x)) m) k = map_option (f k) (map_of m k)"
  by (induction m) auto

lemma gsub_update [simp]: "gsub (AList.update a s m) b = (if a = b then s else gsub m b)"
  by (simp add: gsub_def)

lemma gsub_delete [simp]: "gsub (AList.delete a m) b = (if a = b then [] else gsub m b)"
  by (simp add: gsub_def)

lemma gsub_Nil [simp]: "gsub [] a = []"
  by (simp add: gsub_def)

lemma set_set_add [simp]: "set (set_add x xs) = insert x (set xs)"
  by (auto simp: set_add_def)

lemma distinct_set_add [simp, wf_rules]: "distinct xs \<Longrightarrow> distinct (set_add x xs)"
  by (auto simp: set_add_def)

lemma set_fold_set_add [simp]: "set (fold set_add ns xs) = set ns \<union> set xs"
  by (induction ns arbitrary: xs) auto

lemma distinct_fold_set_add [simp]: "distinct xs \<Longrightarrow> distinct (fold set_add ns xs)"
  by (induction ns arbitrary: xs) auto

subsection \<open>Counters\<close>

lemma unat_inc: "w + 1 \<noteq> 0 \<Longrightarrow> unat (w + 1) = Suc (unat w)"
  for w :: "'a::len word"
  using unatSuc [of w] by (simp add: add.commute)

lemma word_less_inc: "w + 1 \<noteq> 0 \<Longrightarrow> w < w + 1"
  for w :: "'a::len word"
  by (simp add: word_less_nat_alt unat_inc)

subsection \<open>Failing loops\<close>

lemma rfilter_Inr:
  "rfilter f xs = Inr ys \<longleftrightarrow>
     (\<forall>x\<in>set xs. \<exists>b. f x = Inr b) \<and> ys = filter (\<lambda>x. f x = Inr True) xs"
proof (induction xs arbitrary: ys)
  case (Cons x xs)
  show ?case
  proof (cases "rfilter f xs")
    case (Inl e)
    with Cons.IH have "\<not> (\<forall>x\<in>set xs. \<exists>b. f x = Inr b)" by auto
    with Inl show ?thesis by (auto split: sum.splits)
  next
    case (Inr zs)
    with Cons.IH show ?thesis by (auto split: sum.splits)
  qed
qed auto

lemma rfilter_total:
  "(\<And>x. x \<in> set xs \<Longrightarrow> f x = Inr (P x)) \<Longrightarrow> rfilter f xs = Inr (filter P xs)"
  by (induction xs) auto

lemma rmap_Inr:
  "rmap f xs = Inr ys \<longleftrightarrow> list_all2 (\<lambda>x y. f x = Inr y) xs ys"
proof (induction xs arbitrary: ys)
  case (Cons x xs)
  show ?case
  proof (cases "rmap f xs")
    case (Inl e)
    with Cons.IH have "\<not> list_all2 (\<lambda>x y. f x = Inr y) xs zs" for zs by (metis sum.distinct(1))
    with Inl show ?thesis by (auto simp: list_all2_Cons1 split: sum.splits)
  next
    case (Inr zs)
    then have "list_all2 (\<lambda>x y. f x = Inr y) xs us \<longleftrightarrow> us = zs" for us
      using Cons.IH by (metis sum.inject(2))
    with Inr show ?thesis by (auto simp: list_all2_Cons1 split: sum.splits)
  qed
qed auto

lemma rmap_member:
  "rmap f xs = Inr ys \<Longrightarrow> x \<in> set xs \<Longrightarrow> \<exists>y\<in>set ys. f x = Inr y"
  by (induction xs arbitrary: ys) (auto split: sum.splits)

lemma rmap_total: "(\<And>x. x \<in> set xs \<Longrightarrow> f x = Inr (g x)) \<Longrightarrow> rmap f xs = Inr (map g xs)"
  by (induction xs) auto

lemma rfold_append:
  "rfold f (xs @ ys) s = (case rfold f xs s of Inl e \<Rightarrow> Inl e | Inr s' \<Rightarrow> rfold f ys s')"
  by (induction xs arbitrary: s) (auto split: sum.splits)

lemma rfold_invariant:
  assumes "rfold f xs s = Inr t" and "I s"
    and "\<And>x s s'. x \<in> set xs \<Longrightarrow> I s \<Longrightarrow> f x s = Inr s' \<Longrightarrow> I s'"
  shows "I t"
  using assms
proof (induction xs arbitrary: s)
  case (Cons x xs)
  from Cons.prems(1) obtain s' where s': "f x s = Inr s'" "rfold f xs s' = Inr t"
    by (auto split: sum.splits)
  have "I s'" using Cons.prems(2,3) s'(1) by auto
  with s'(2) show ?case by (rule Cons.IH) (use Cons.prems(3) in auto)
qed simp

subsection \<open>Strings and numerals\<close>

lemma HasPrefix_iff: "HasPrefix s p \<longleftrightarrow> (\<exists>t. s = p @ t)"
  unfolding HasPrefix_def by (metis append_eq_conv_conj append_take_drop_id)

lemma HasPrefix_refl [simp]: "HasPrefix s s"
  by (simp add: HasPrefix_def)

lemma HasPrefix_Nil [simp]: "HasPrefix s []"
  by (simp add: HasPrefix_def)

lemma HasPrefix_trans: "HasPrefix s p \<Longrightarrow> HasPrefix p q \<Longrightarrow> HasPrefix s q"
  by (auto simp: HasPrefix_iff)

lemma HasSuffix_iff: "HasSuffix s p \<longleftrightarrow> (\<exists>t. s = t @ p)"
  unfolding HasSuffix_def
  by (metis append_eq_conv_conj append_take_drop_id diff_le_self length_append length_drop
      le_add2 add_diff_cancel_right')

lemma TrimSuffix_append [simp]: "TrimSuffix (t @ p) p = t"
  by (simp add: TrimSuffix_def HasSuffix_def)

lemma digit_simps [simp]:
  "digit 0 = CHR ''0''" "digit 1 = CHR ''1''" "digit (Suc 0) = CHR ''1''" "digit 2 = CHR ''2''"
  by code_simp+

lemma dec_nat_not_Nil [simp]: "dec_nat n \<noteq> []"
  by (subst dec_nat.simps) simp

lemma undec_snoc: "undec (s @ [c]) = 10 * undec s + (of_char c - 48)"
  by (simp add: undec_def)

lemma digit_value: "d < 10 \<Longrightarrow> of_char (digit d) - (48::nat) = d"
  by (simp add: digit_def of_char_of)

lemma undec_dec_nat [simp]: "undec (dec_nat n) = n"
proof (induction n rule: dec_nat.induct)
  case (1 n)
  show ?case
  proof (cases "n < 10")
    case True
    then show ?thesis
      by (subst dec_nat.simps) (simp add: undec_def digit_value)
  next
    case False
    then have "undec (dec_nat n) = 10 * undec (dec_nat (n div 10)) + n mod 10"
      by (subst dec_nat.simps) (simp add: undec_snoc digit_value)
    with 1 False show ?thesis by simp
  qed
qed

lemma dec_nat_inject [simp]: "dec_nat m = dec_nat n \<longleftrightarrow> m = n"
  by (metis undec_dec_nat)

lemma FormatUint_inject [simp]: "FormatUint v = FormatUint w \<longleftrightarrow> v = w"
  by (simp add: FormatUint_def word_unat_eq_iff)

lemma FormatUint_not_Nil [simp]: "FormatUint w \<noteq> []"
  by (simp add: FormatUint_def)

lemma digit_not_minus: "d < 10 \<Longrightarrow> digit d \<noteq> CHR ''-''"
proof -
  assume "d < 10"
  then have "of_char (digit d) = 48 + d" by (simp add: digit_def of_char_of)
  moreover have "of_char (CHR ''-'') = (45 :: nat)" by simp
  ultimately show ?thesis by auto
qed

lemma dec_nat_no_minus: "CHR ''-'' \<notin> set (dec_nat n)"
proof (induction n rule: dec_nat.induct)
  case (1 n)
  have d: "CHR ''-'' \<noteq> digit (n mod 10)" "n < 10 \<Longrightarrow> CHR ''-'' \<noteq> digit n"
    using digit_not_minus [of "n mod 10"] digit_not_minus [of n] by auto
  show ?case by (subst dec_nat.simps) (use 1 d in simp)
qed

lemma FormatInt_inject [simp]: "FormatInt v = FormatInt w \<longleftrightarrow> v = w"
proof
  assume eq: "FormatInt v = FormatInt w"
  have clash: "dec_nat m \<noteq> CHR ''-'' # dec_nat n" for m n
    using dec_nat_no_minus [of m] by (metis list.set_intros(1))
  have "sint v = sint w"
    using eq clash clash [symmetric] by (auto simp: FormatInt_def split: if_splits)
  then show "v = w" by (simp add: signed_word_eqI)
qed simp

lemma FormatInt_not_Nil [simp]: "FormatInt w \<noteq> []"
  by (simp add: FormatInt_def)

end
