(* ===== verification/Sha256.thy ===== *)
theory Sha256
  imports Go_Prelude
begin

text \<open>
  The version of a resource in the delta protocol is \<open>HashResource\<close> of \<open>src/pkg/cache/v3/resource.go\<close>:
  the lower-case hexadecimal form of the SHA-256 digest of the marshaled bytes. The packages
  \<open>crypto/sha256\<close> and \<open>encoding/hex\<close> of the Go standard library are defined here (FIPS 180-4 for the
  digest), on 32-bit words, so that \<open>HashResource\<close> is an executable definition.
\<close>

unbundle bit_operations_syntax

type_synonym byte = "8 word"
type_synonym u32 = "32 word"
type_synonym sha_state = "u32 \<times> u32 \<times> u32 \<times> u32 \<times> u32 \<times> u32 \<times> u32 \<times> u32"

section \<open>Definitions\<close>

text \<open>
  The constants are, as the standard gives them, the first 32 bits of the fractional parts of the cube
  roots (rounds) and square roots (initial state) of the first primes: \<open>root_bits k p\<close> is the integer
  part of the \<open>k\<close>-th root of \<open>p\<close>, scaled by \<open>2 ^ 32\<close>, modulo \<open>2 ^ 32\<close>, computed bit by bit.
\<close>

definition root_bits :: "nat \<Rightarrow> nat \<Rightarrow> u32" where
  "root_bits k p =
     word_of_nat (fold (\<lambda>b r. if (r + 2 ^ b) ^ k \<le> p * 2 ^ (32 * k) then r + 2 ^ b else r) (rev [0..<40]) 0)"

definition first_primes :: "nat list" where
  "first_primes = [
     2, 3, 5, 7, 11, 13, 17, 19, 23, 29, 31, 37, 41, 43, 47, 53,
     59, 61, 67, 71, 73, 79, 83, 89, 97, 101, 103, 107, 109, 113, 127, 131,
     137, 139, 149, 151, 157, 163, 167, 173, 179, 181, 191, 193, 197, 199, 211, 223,
     227, 229, 233, 239, 241, 251, 257, 263, 269, 271, 277, 281, 283, 293, 307, 311]"

definition sha_K :: "u32 list" where
  "sha_K = map (root_bits 3) first_primes"

definition sha_H0 :: sha_state where
  "sha_H0 = (root_bits 2 2, root_bits 2 3, root_bits 2 5, root_bits 2 7,
             root_bits 2 11, root_bits 2 13, root_bits 2 17, root_bits 2 19)"

definition rotr32 :: "nat \<Rightarrow> u32 \<Rightarrow> u32" where
  "rotr32 n x = (drop_bit n x) OR (push_bit (32 - n) x)"

definition big_sigma0 :: "u32 \<Rightarrow> u32" where
  "big_sigma0 x = (rotr32 2 x) XOR (rotr32 13 x) XOR (rotr32 22 x)"

definition big_sigma1 :: "u32 \<Rightarrow> u32" where
  "big_sigma1 x = (rotr32 6 x) XOR (rotr32 11 x) XOR (rotr32 25 x)"

definition small_sigma0 :: "u32 \<Rightarrow> u32" where
  "small_sigma0 x = (rotr32 7 x) XOR (rotr32 18 x) XOR (drop_bit 3 x)"

definition small_sigma1 :: "u32 \<Rightarrow> u32" where
  "small_sigma1 x = (rotr32 17 x) XOR (rotr32 19 x) XOR (drop_bit 10 x)"

definition sha_ch :: "u32 \<Rightarrow> u32 \<Rightarrow> u32 \<Rightarrow> u32" where
  "sha_ch x y z = (x AND y) XOR ((NOT x) AND z)"

definition sha_maj :: "u32 \<Rightarrow> u32 \<Rightarrow> u32 \<Rightarrow> u32" where
  "sha_maj x y z = (x AND y) XOR (x AND z) XOR (y AND z)"

text \<open>The round keeps a window of the next sixteen schedule words.\<close>

definition sha_round :: "u32 \<Rightarrow> sha_state \<times> u32 list \<Rightarrow> sha_state \<times> u32 list" where
  "sha_round k = (\<lambda>((a, b, c, d, e, f, g, h), ws).
     let t1 = h + big_sigma1 e + sha_ch e f g + k + ws ! 0;
         t2 = big_sigma0 a + sha_maj a b c;
         w = small_sigma1 (ws ! 14) + ws ! 9 + small_sigma0 (ws ! 1) + ws ! 0
     in ((t1 + t2, a, b, c, d + t1, e, f, g), tl ws @ [w]))"

definition sha_block :: "u32 list \<Rightarrow> sha_state \<Rightarrow> sha_state" where
  "sha_block ws s =
     (case (s, fst (fold sha_round sha_K (s, ws))) of
        ((a, b, c, d, e, f, g, h), (a', b', c', d', e', f', g', h')) \<Rightarrow>
          (a + a', b + b', c + c', d + d', e + e', f + f', g + g', h + h'))"

definition be32 :: "byte \<Rightarrow> byte \<Rightarrow> byte \<Rightarrow> byte \<Rightarrow> u32" where
  "be32 a b c d =
     (push_bit 24 (ucast a)) OR (push_bit 16 (ucast b)) OR (push_bit 8 (ucast c)) OR (ucast d)"

fun words32 :: "byte list \<Rightarrow> u32 list" where
  "words32 (a # b # c # d # bs) = be32 a b c d # words32 bs"
| "words32 bs = []"

fun sha_blocks :: "u32 list \<Rightarrow> sha_state \<Rightarrow> sha_state" where
  "sha_blocks ws s =
     (if length ws < 16 then s else sha_blocks (drop 16 ws) (sha_block (take 16 ws) s))"

declare sha_blocks.simps [simp del]

definition bytes_be :: "nat \<Rightarrow> nat \<Rightarrow> byte list" where
  "bytes_be n x = map (\<lambda>i. of_nat (x div 256 ^ (n - 1 - i))) [0..<n]"

definition sha_pad :: "byte list \<Rightarrow> byte list" where
  "sha_pad bs =
     bs @ [0x80] @ replicate ((119 - length bs mod 64) mod 64) 0
        @ bytes_be 8 (8 * length bs mod 2 ^ 64)"

definition sha256_sum :: "byte list \<Rightarrow> byte list" where
  "sha256_sum bs =
     (case sha_blocks (words32 (sha_pad bs)) sha_H0 of (a, b, c, d, e, f, g, h) \<Rightarrow>
        concat (map (\<lambda>w. bytes_be 4 (unat w)) [a, b, c, d, e, f, g, h]))"

definition hex_digit :: "nat \<Rightarrow> char" where
  "hex_digit d = char_of (if d < 10 then 48 + d else 87 + d)"

definition EncodeToString :: "byte list \<Rightarrow> string" where
  "EncodeToString bs = concat (map (\<lambda>b. [hex_digit (unat b div 16), hex_digit (unat b mod 16)]) bs)"

text \<open>\<open>HashResource\<close>.\<close>

definition HashResource :: "byte list \<Rightarrow> string" where
  "HashResource resource = EncodeToString (sha256_sum resource)"

section \<open>Lemmas\<close>

lemma length_EncodeToString [simp]: "length (EncodeToString bs) = 2 * length bs"
  by (induction bs) (simp_all add: EncodeToString_def)

lemma length_bytes_be [simp]: "length (bytes_be n x) = n"
  by (simp add: bytes_be_def)

lemma length_sha256_sum [simp]: "length (sha256_sum bs) = 32"
  by (simp add: sha256_sum_def split: prod.splits)

lemma hex_digit_inject: "c < 16 \<Longrightarrow> d < 16 \<Longrightarrow> hex_digit c = hex_digit d \<longleftrightarrow> c = d"
  by (auto simp: hex_digit_def char_of_eq_iff take_bit_nat_def split: if_splits)

text \<open>Hexadecimal encoding loses nothing: two equal versions come from equal digests.\<close>

lemma EncodeToString_inject [simp]: "EncodeToString bs = EncodeToString cs \<longleftrightarrow> bs = cs"
proof (induction bs arbitrary: cs)
  case Nil
  then show ?case by (cases cs) (simp_all add: EncodeToString_def)
next
  case (Cons b bs)
  have lt: "unat (x :: byte) div 16 < 16" for x
    using unsigned_less [of x, where ?'a = nat] by (simp add: div_less_iff_less_mult)
  show ?case
  proof (cases cs)
    case Nil
    then show ?thesis by (simp add: EncodeToString_def)
  next
    case (Cons c cs')
    have "unat b div 16 = unat c div 16 \<and> unat b mod 16 = unat c mod 16 \<longleftrightarrow> b = c"
      by (metis div_mult_mod_eq word_unat_eq_iff)
    then show ?thesis
      using Cons.IH [of cs'] Cons
      by (auto simp: EncodeToString_def hex_digit_inject lt)
  qed
qed

lemma length_HashResource: "length (HashResource bs) = 64"
  by (simp add: HashResource_def)

lemma HashResource_not_Nil [simp]: "HashResource bs \<noteq> []"
  using length_HashResource [of bs] by auto

end
