(* ===== verification/Xds_Types.thy ===== *)
theory Xds_Types
  imports Sha256
begin

text \<open>
  The data the discovery services exchange: type URLs (\<open>src/pkg/resource/v3/resource.go\<close>), response
  types (\<open>src/pkg/cache/types/types.go\<close>), the protobuf messages as far as the Go code reads them,
  and the functions of \<open>src/pkg/cache/v3/resource.go\<close> that classify them.

  A protobuf message is a \<open>Resource\<close>: one constructor per message type the code distinguishes in a type
  switch, the fields it reads, and an opaque string for all the other fields. \<open>MNil\<close> is the nil
  interface value.
\<close>

section \<open>Definitions\<close>

subsection \<open>Type URLs\<close>

definition APITypePrefix :: string where
  "APITypePrefix = ''type.googleapis.com/''"

definition EndpointType :: string where
  "EndpointType = APITypePrefix @ ''envoy.config.endpoint.v3.ClusterLoadAssignment''"
definition ClusterType :: string where
  "ClusterType = APITypePrefix @ ''envoy.config.cluster.v3.Cluster''"
definition RouteType :: string where
  "RouteType = APITypePrefix @ ''envoy.config.route.v3.RouteConfiguration''"
definition ScopedRouteType :: string where
  "ScopedRouteType = APITypePrefix @ ''envoy.config.route.v3.ScopedRouteConfiguration''"
definition VirtualHostType :: string where
  "VirtualHostType = APITypePrefix @ ''envoy.config.route.v3.VirtualHost''"
definition ListenerType :: string where
  "ListenerType = APITypePrefix @ ''envoy.config.listener.v3.Listener''"
definition SecretType :: string where
  "SecretType = APITypePrefix @ ''envoy.extensions.transport_sockets.tls.v3.Secret''"
definition ExtensionConfigType :: string where
  "ExtensionConfigType = APITypePrefix @ ''envoy.config.core.v3.TypedExtensionConfig''"
definition RuntimeType :: string where
  "RuntimeType = APITypePrefix @ ''envoy.service.runtime.v3.Runtime''"
definition ThriftRouteType :: string where
  "ThriftRouteType = APITypePrefix @ ''envoy.extensions.filters.network.thrift_proxy.v3.RouteConfiguration''"
definition RateLimitConfigType :: string where
  "RateLimitConfigType = APITypePrefix @ ''ratelimit.config.ratelimit.v3.RateLimitConfig''"
definition LbEndpointType :: string where
  "LbEndpointType = APITypePrefix @ ''envoy.config.endpoint.v3.LbEndpoint''"
definition AnyType :: string where
  "AnyType = ''''"

subsection \<open>Response types\<close>

text \<open>The constants of \<open>types.ResponseType\<close> in the order of their \<open>iota\<close> values.\<close>

datatype ResponseType =
    Cluster | Endpoint | LbEndpoint | Listener | Route | ScopedRoute | VirtualHost | Secret
  | Runtime | ExtensionConfig | RateLimitConfig | UnknownType

definition response_types :: "ResponseType list" where
  "response_types = [Cluster, Endpoint, LbEndpoint, Listener, Route, ScopedRoute, VirtualHost,
     Secret, Runtime, ExtensionConfig, RateLimitConfig]"

fun rt_index :: "ResponseType \<Rightarrow> nat" where
  "rt_index Cluster = 0"
| "rt_index Endpoint = 1"
| "rt_index LbEndpoint = 2"
| "rt_index Listener = 3"
| "rt_index Route = 4"
| "rt_index ScopedRoute = 5"
| "rt_index VirtualHost = 6"
| "rt_index Secret = 7"
| "rt_index Runtime = 8"
| "rt_index ExtensionConfig = 9"
| "rt_index RateLimitConfig = 10"
| "rt_index UnknownType = 11"

instantiation ResponseType :: linorder
begin
definition less_eq_ResponseType :: "ResponseType \<Rightarrow> ResponseType \<Rightarrow> bool" where
  "less_eq_ResponseType s t \<longleftrightarrow> rt_index s \<le> rt_index t"
definition less_ResponseType :: "ResponseType \<Rightarrow> ResponseType \<Rightarrow> bool" where
  "less_ResponseType s t \<longleftrightarrow> rt_index s < rt_index t"
instance
proof
  fix s t :: ResponseType
  have inj: "rt_index s = rt_index t \<Longrightarrow> s = t" by (cases s; cases t; simp)
  assume "s \<le> t" and "t \<le> s"
  then have "rt_index s = rt_index t" by (simp add: less_eq_ResponseType_def)
  then show "s = t" by (rule inj)
qed (auto simp: less_eq_ResponseType_def less_ResponseType_def)
end

definition GetResponseType :: "string \<Rightarrow> ResponseType" where
  "GetResponseType typeURL =
     (if typeURL = EndpointType then Endpoint
      else if typeURL = ClusterType then Cluster
      else if typeURL = RouteType then Route
      else if typeURL = ScopedRouteType then ScopedRoute
      else if typeURL = VirtualHostType then VirtualHost
      else if typeURL = ListenerType then Listener
      else if typeURL = SecretType then Secret
      else if typeURL = RuntimeType then Runtime
      else if typeURL = ExtensionConfigType then ExtensionConfig
      else if typeURL = RateLimitConfigType then RateLimitConfig
      else if typeURL = LbEndpointType then LbEndpoint
      else UnknownType)"

fun GetResponseTypeURL :: "ResponseType \<Rightarrow> string result" where
  "GetResponseTypeURL Endpoint = Inr EndpointType"
| "GetResponseTypeURL Cluster = Inr ClusterType"
| "GetResponseTypeURL Route = Inr RouteType"
| "GetResponseTypeURL ScopedRoute = Inr ScopedRouteType"
| "GetResponseTypeURL VirtualHost = Inr VirtualHostType"
| "GetResponseTypeURL Listener = Inr ListenerType"
| "GetResponseTypeURL Secret = Inr SecretType"
| "GetResponseTypeURL Runtime = Inr RuntimeType"
| "GetResponseTypeURL ExtensionConfig = Inr ExtensionConfigType"
| "GetResponseTypeURL RateLimitConfig = Inr RateLimitConfigType"
| "GetResponseTypeURL LbEndpoint = Inr LbEndpointType"
| "GetResponseTypeURL UnknownType =
     Inl (Errorf ''couldn't map response type %v to known resource type'' [''UnknownType''])"

definition ResourceRequiresFullStateInSotw :: "string \<Rightarrow> bool" where
  "ResourceRequiresFullStateInSotw typeURL =
     (if typeURL = ClusterType then True else if typeURL = ListenerType then True else False)"

subsection \<open>Messages\<close>

type_synonym duration = "64 word"

text \<open>\<open>anypb.Any\<close>: a type URL and a marshaled message.\<close>

record any =
  any_TypeUrl :: string
  any_Value :: "byte list"

text \<open>\<open>discovery.Resource\<close>, the wrapper of one resource in a response.\<close>

record discovery_resource =
  dr_Name :: string
  dr_Version :: string
  dr_Resource :: "any option"
  dr_Ttl :: "duration option"

datatype discovery_type = STATIC | STRICT_DNS | LOGICAL_DNS | EDS | ORIGINAL_DST

text \<open>The oneof \<open>cluster_discovery_type\<close> of \<open>cluster.Cluster\<close>.\<close>

datatype cluster_discovery =
  NoDiscoveryType | Cluster_Type discovery_type | Cluster_ClusterType string

record cluster_msg =
  cl_Name :: string
  cl_Discovery :: cluster_discovery
  cl_EdsServiceName :: "string option" \<comment> \<open>\<open>EdsClusterConfig\<close>, by its \<open>ServiceName\<close>\<close>
  cl_Rest :: string

text \<open>
  \<open>hcm.HttpConnectionManager\<close>: \<open>GetRds().GetRouteConfigName()\<close> (empty when absent) and the route
  names of \<open>GetScopedRoutes().GetScopedRouteConfigurationsList()\<close>.
\<close>

record http_connection_manager =
  hcm_RdsRouteConfigName :: string
  hcm_ScopedRouteConfigurationNames :: "string list"

record filter_msg =
  flt_TypedConfig :: "any option"

type_synonym filter_chain = "filter_msg list"

record listener_msg =
  ln_Name :: string
  ln_FilterChains :: "filter_chain list"
  ln_DefaultFilterChain :: "filter_chain option"
  ln_Rest :: string

datatype Resource =
    MNil
  | MClusterLoadAssignment string string
  | MCluster cluster_msg
  | MRouteConfiguration string string
  | MScopedRouteConfiguration string string string \<comment> \<open>name, route configuration name, rest\<close>
  | MListener listener_msg
  | MRuntime string string
  | MDiscoveryResource discovery_resource
  | MNamed string string string \<comment> \<open>another message with \<open>GetName\<close>: full name, name, rest\<close>
  | MOther string string \<comment> \<open>another message without \<open>GetName\<close>: full name, rest\<close>

fun GetResourceName :: "Resource \<Rightarrow> string" where
  "GetResourceName (MClusterLoadAssignment clusterName _) = clusterName"
| "GetResourceName (MCluster c) = cl_Name c"
| "GetResourceName (MRouteConfiguration name _) = name"
| "GetResourceName (MScopedRouteConfiguration name _ _) = name"
| "GetResourceName (MListener l) = ln_Name l"
| "GetResourceName (MRuntime name _) = name"
| "GetResourceName (MDiscoveryResource r) = dr_Name r"
| "GetResourceName (MNamed _ name _) = name"
| "GetResourceName (MOther _ _) = ''''"
| "GetResourceName MNil = ''''"

record ResourceWithTTL =
  rt_Resource :: Resource
  rt_TTL :: "duration option"

definition GetResourceNames :: "ResourceWithTTL list \<Rightarrow> string list" where
  "GetResourceNames resources = map (\<lambda>r. GetResourceName (rt_Resource r)) resources"

text \<open>
  \<open>proto.Marshal\<close> is code of the protobuf module: a parameter of the definitions that marshal.
  \<open>MarshalResource\<close> calls it with deterministic output, so it is a function of the message.
\<close>

type_synonym marshaler = "Resource \<Rightarrow> byte list result"

definition MarshalResource :: "marshaler \<Rightarrow> Resource \<Rightarrow> byte list result" where
  "MarshalResource marshal resource = marshal resource"

subsection \<open>Requests and responses\<close>

record Node =
  node_Id :: string
  node_Rest :: string

record DiscoveryRequest =
  req_VersionInfo :: string
  req_Node :: "Node option"
  req_ResourceNames :: "string list"
  req_TypeUrl :: string
  req_ResponseNonce :: string
  req_ErrorDetail :: "string option"

record DeltaDiscoveryRequest =
  dreq_Node :: "Node option"
  dreq_TypeUrl :: string
  dreq_ResourceNamesSubscribe :: "string list"
  dreq_ResourceNamesUnsubscribe :: "string list"
  dreq_InitialResourceVersions :: "(string, string) gomap"
  dreq_ResponseNonce :: string
  dreq_ErrorDetail :: "string option"

record DiscoveryResponse =
  resp_VersionInfo :: string
  resp_Resources :: "any list"
  resp_TypeUrl :: string
  resp_Nonce :: string

record DeltaDiscoveryResponse =
  dresp_SystemVersionInfo :: string
  dresp_Resources :: "discovery_resource list"
  dresp_RemovedResources :: "string list"
  dresp_TypeUrl :: string
  dresp_Nonce :: string

text \<open>\<open>NodeHash\<close> is an interface: a parameter of the snapshot cache. \<open>IDHash\<close> is the one the
  repository provides.\<close>

type_synonym node_hash = "Node option \<Rightarrow> string"

definition IDHash :: node_hash where
  "IDHash node = (case node of None \<Rightarrow> '''' | Some n \<Rightarrow> node_Id n)"

section \<open>Lemmas\<close>

lemmas type_url_defs =
  APITypePrefix_def EndpointType_def ClusterType_def RouteType_def ScopedRouteType_def
  VirtualHostType_def ListenerType_def SecretType_def ExtensionConfigType_def RuntimeType_def
  ThriftRouteType_def RateLimitConfigType_def LbEndpointType_def AnyType_def

lemma type_urls_neq [simp]:
  "EndpointType \<noteq> ClusterType \<and> EndpointType \<noteq> RouteType \<and>
   EndpointType \<noteq> ScopedRouteType \<and> EndpointType \<noteq> VirtualHostType \<and>
   EndpointType \<noteq> ListenerType \<and> EndpointType \<noteq> SecretType \<and>
   EndpointType \<noteq> ExtensionConfigType \<and> EndpointType \<noteq> RuntimeType \<and>
   EndpointType \<noteq> ThriftRouteType \<and> EndpointType \<noteq> RateLimitConfigType \<and>
   EndpointType \<noteq> LbEndpointType \<and> EndpointType \<noteq> AnyType \<and>
   ClusterType \<noteq> RouteType \<and> ClusterType \<noteq> ScopedRouteType \<and>
   ClusterType \<noteq> VirtualHostType \<and> ClusterType \<noteq> ListenerType \<and>
   ClusterType \<noteq> SecretType \<and> ClusterType \<noteq> ExtensionConfigType \<and>
   ClusterType \<noteq> RuntimeType \<and> ClusterType \<noteq> ThriftRouteType \<and>
   ClusterType \<noteq> RateLimitConfigType \<and> ClusterType \<noteq> LbEndpointType \<and>
   ClusterType \<noteq> AnyType \<and> RouteType \<noteq> ScopedRouteType \<and>
   RouteType \<noteq> VirtualHostType \<and> RouteType \<noteq> ListenerType \<and>
   RouteType \<noteq> SecretType \<and> RouteType \<noteq> ExtensionConfigType \<and>
   RouteType \<noteq> RuntimeType \<and> RouteType \<noteq> ThriftRouteType \<and>
   RouteType \<noteq> RateLimitConfigType \<and> RouteType \<noteq> LbEndpointType \<and>
   RouteType \<noteq> AnyType \<and> ScopedRouteType \<noteq> VirtualHostType \<and>
   ScopedRouteType \<noteq> ListenerType \<and> ScopedRouteType \<noteq> SecretType \<and>
   ScopedRouteType \<noteq> ExtensionConfigType \<and> ScopedRouteType \<noteq> RuntimeType \<and>
   ScopedRouteType \<noteq> ThriftRouteType \<and> ScopedRouteType \<noteq> RateLimitConfigType \<and>
   ScopedRouteType \<noteq> LbEndpointType \<and> ScopedRouteType \<noteq> AnyType \<and>
   VirtualHostType \<noteq> ListenerType \<and> VirtualHostType \<noteq> SecretType \<and>
   VirtualHostType \<noteq> ExtensionConfigType \<and> VirtualHostType \<noteq> RuntimeType \<and>
   VirtualHostType \<noteq> ThriftRouteType \<and> VirtualHostType \<noteq> RateLimitConfigType \<and>
   VirtualHostType \<noteq> LbEndpointType \<and> VirtualHostType \<noteq> AnyType \<and>
   ListenerType \<noteq> SecretType \<and> ListenerType \<noteq> ExtensionConfigType \<and>
   ListenerType \<noteq> RuntimeType \<and> ListenerType \<noteq> ThriftRouteType \<and>
   ListenerType \<noteq> RateLimitConfigType \<and> ListenerType \<noteq> LbEndpointType \<and>
   ListenerType \<noteq> AnyType \<and> SecretType \<noteq> ExtensionConfigType \<and>
   SecretType \<noteq> RuntimeType \<and> SecretType \<noteq> ThriftRouteType \<and>
   SecretType \<noteq> RateLimitConfigType \<and> SecretType \<noteq> LbEndpointType \<and>
   SecretType \<noteq> AnyType \<and> ExtensionConfigType \<noteq> RuntimeType \<and>
   ExtensionConfigType \<noteq> ThriftRouteType \<and> ExtensionConfigType \<noteq> RateLimitConfigType \<and>
   ExtensionConfigType \<noteq> LbEndpointType \<and> ExtensionConfigType \<noteq> AnyType \<and>
   RuntimeType \<noteq> ThriftRouteType \<and> RuntimeType \<noteq> RateLimitConfigType \<and>
   RuntimeType \<noteq> LbEndpointType \<and> RuntimeType \<noteq> AnyType \<and>
   ThriftRouteType \<noteq> RateLimitConfigType \<and> ThriftRouteType \<noteq> LbEndpointType \<and>
   ThriftRouteType \<noteq> AnyType \<and> RateLimitConfigType \<noteq> LbEndpointType \<and>
   RateLimitConfigType \<noteq> AnyType \<and> LbEndpointType \<noteq> AnyType"
  by (simp add: type_url_defs)

lemma type_urls_neq_sym [simp]:
  "ClusterType \<noteq> EndpointType \<and> RouteType \<noteq> EndpointType \<and>
   ScopedRouteType \<noteq> EndpointType \<and> VirtualHostType \<noteq> EndpointType \<and>
   ListenerType \<noteq> EndpointType \<and> SecretType \<noteq> EndpointType \<and>
   ExtensionConfigType \<noteq> EndpointType \<and> RuntimeType \<noteq> EndpointType \<and>
   ThriftRouteType \<noteq> EndpointType \<and> RateLimitConfigType \<noteq> EndpointType \<and>
   LbEndpointType \<noteq> EndpointType \<and> AnyType \<noteq> EndpointType \<and>
   RouteType \<noteq> ClusterType \<and> ScopedRouteType \<noteq> ClusterType \<and>
   VirtualHostType \<noteq> ClusterType \<and> ListenerType \<noteq> ClusterType \<and>
   SecretType \<noteq> ClusterType \<and> ExtensionConfigType \<noteq> ClusterType \<and>
   RuntimeType \<noteq> ClusterType \<and> ThriftRouteType \<noteq> ClusterType \<and>
   RateLimitConfigType \<noteq> ClusterType \<and> LbEndpointType \<noteq> ClusterType \<and>
   AnyType \<noteq> ClusterType \<and> ScopedRouteType \<noteq> RouteType \<and>
   VirtualHostType \<noteq> RouteType \<and> ListenerType \<noteq> RouteType \<and>
   SecretType \<noteq> RouteType \<and> ExtensionConfigType \<noteq> RouteType \<and>
   RuntimeType \<noteq> RouteType \<and> ThriftRouteType \<noteq> RouteType \<and>
   RateLimitConfigType \<noteq> RouteType \<and> LbEndpointType \<noteq> RouteType \<and>
   AnyType \<noteq> RouteType \<and> VirtualHostType \<noteq> ScopedRouteType \<and>
   ListenerType \<noteq> ScopedRouteType \<and> SecretType \<noteq> ScopedRouteType \<and>
   ExtensionConfigType \<noteq> ScopedRouteType \<and> RuntimeType \<noteq> ScopedRouteType \<and>
   ThriftRouteType \<noteq> ScopedRouteType \<and> RateLimitConfigType \<noteq> ScopedRouteType \<and>
   LbEndpointType \<noteq> ScopedRouteType \<and> AnyType \<noteq> ScopedRouteType \<and>
   ListenerType \<noteq> VirtualHostType \<and> SecretType \<noteq> VirtualHostType \<and>
   ExtensionConfigType \<noteq> VirtualHostType \<and> RuntimeType \<noteq> VirtualHostType \<and>
   ThriftRouteType \<noteq> VirtualHostType \<and> RateLimitConfigType \<noteq> VirtualHostType \<and>
   LbEndpointType \<noteq> VirtualHostType \<and> AnyType \<noteq> VirtualHostType \<and>
   SecretType \<noteq> ListenerType \<and> ExtensionConfigType \<noteq> ListenerType \<and>
   RuntimeType \<noteq> ListenerType \<and> ThriftRouteType \<noteq> ListenerType \<and>
   RateLimitConfigType \<noteq> ListenerType \<and> LbEndpointType \<noteq> ListenerType \<and>
   AnyType \<noteq> ListenerType \<and> ExtensionConfigType \<noteq> SecretType \<and>
   RuntimeType \<noteq> SecretType \<and> ThriftRouteType \<noteq> SecretType \<and>
   RateLimitConfigType \<noteq> SecretType \<and> LbEndpointType \<noteq> SecretType \<and>
   AnyType \<noteq> SecretType \<and> RuntimeType \<noteq> ExtensionConfigType \<and>
   ThriftRouteType \<noteq> ExtensionConfigType \<and> RateLimitConfigType \<noteq> ExtensionConfigType \<and>
   LbEndpointType \<noteq> ExtensionConfigType \<and> AnyType \<noteq> ExtensionConfigType \<and>
   ThriftRouteType \<noteq> RuntimeType \<and> RateLimitConfigType \<noteq> RuntimeType \<and>
   LbEndpointType \<noteq> RuntimeType \<and> AnyType \<noteq> RuntimeType \<and>
   RateLimitConfigType \<noteq> ThriftRouteType \<and> LbEndpointType \<noteq> ThriftRouteType \<and>
   AnyType \<noteq> ThriftRouteType \<and> LbEndpointType \<noteq> RateLimitConfigType \<and>
   AnyType \<noteq> RateLimitConfigType \<and> AnyType \<noteq> LbEndpointType"
  by (simp add: type_url_defs)

lemma GetResponseType_simps [simp]:
  "GetResponseType EndpointType = Endpoint"
  "GetResponseType ClusterType = Cluster"
  "GetResponseType RouteType = Route"
  "GetResponseType ScopedRouteType = ScopedRoute"
  "GetResponseType VirtualHostType = VirtualHost"
  "GetResponseType ListenerType = Listener"
  "GetResponseType SecretType = Secret"
  "GetResponseType RuntimeType = Runtime"
  "GetResponseType ExtensionConfigType = ExtensionConfig"
  "GetResponseType RateLimitConfigType = RateLimitConfig"
  "GetResponseType LbEndpointType = LbEndpoint"
  "GetResponseType ThriftRouteType = UnknownType"
  "GetResponseType AnyType = UnknownType"
  by (simp_all add: GetResponseType_def)

lemma rt_index_inject [simp]: "rt_index s = rt_index t \<longleftrightarrow> s = t"
  by (cases s; cases t; simp)

lemma rt_index_bound: "rt_index t < length response_types \<longleftrightarrow> t \<noteq> UnknownType"
  by (cases t) (simp_all add: response_types_def)

lemma response_types_nth: "t \<noteq> UnknownType \<Longrightarrow> response_types ! rt_index t = t"
  by (cases t) (simp_all add: response_types_def)

lemma set_response_types: "set response_types = UNIV - {UnknownType}"
proof -
  have "t \<in> set response_types" if "t \<noteq> UnknownType" for t
    using that by (cases t) (simp_all add: response_types_def)
  then show ?thesis by (auto simp: response_types_def)
qed

lemma distinct_response_types: "distinct response_types"
  by (simp add: response_types_def)

lemma GetResponseTypeURL_Inr:
  "GetResponseTypeURL t = Inr u \<Longrightarrow> t \<noteq> UnknownType \<and> GetResponseType u = t"
  by (cases t) auto

lemma GetResponseTypeURL_of_GetResponseType:
  "GetResponseType u \<noteq> UnknownType \<Longrightarrow> GetResponseTypeURL (GetResponseType u) = Inr u"
  by (auto simp: GetResponseType_def split: if_splits)

lemma GetResponseTypeURL_known: "t \<noteq> UnknownType \<Longrightarrow> \<exists>u. GetResponseTypeURL t = Inr u"
  by (cases t) auto

lemma GetResponseType_inject:
  "GetResponseType u = GetResponseType v \<Longrightarrow> GetResponseType u \<noteq> UnknownType \<Longrightarrow> u = v"
  by (metis GetResponseTypeURL_of_GetResponseType sum.inject(2))

end
