(* ===== verification/Subscription.thy ===== *)
theory Subscription
  imports Xds_Types
begin

text \<open>
  The server's view of what a client subscribes to for one resource type:
  \<open>src/pkg/server/stream/v3/subscription.go\<close>, whose struct \<open>Subscription\<close> also implements the interface
  \<open>cache.Subscription\<close> the caches read. A \<open>nil\<close> map and an empty map are the same empty list here.
\<close>

section \<open>Definitions\<close>

definition explicitWildcard :: string where
  "explicitWildcard = ''*''"

definition globSuffix :: string where
  "globSuffix = ''/*''"

record Subscription =
  sub_wildcard :: bool
  sub_allowLegacyWildcard :: bool
  sub_subscribedResourceNames :: "string list"
  sub_subscribedPrefixes :: "string list"
  sub_returnedResources :: "(string, string) gomap"

definition newSubscription :: "bool \<Rightarrow> bool \<Rightarrow> (string, string) gomap \<Rightarrow> Subscription" where
  "newSubscription emptyRequest allowLegacyWildcard initialResourceVersions =
     \<lparr>sub_wildcard = (emptyRequest \<and> allowLegacyWildcard),
      sub_allowLegacyWildcard = allowLegacyWildcard,
      sub_subscribedResourceNames = [],
      sub_subscribedPrefixes = [],
      sub_returnedResources = initialResourceVersions\<rparr>"

definition matchesAnyPrefix :: "string list \<Rightarrow> string \<Rightarrow> bool" where
  "matchesAnyPrefix prefixes name = list_ex (\<lambda>prefix. HasPrefix name prefix) prefixes"

text \<open>One iteration of the loop over the requested names in \<open>SetResourceSubscription\<close>: the resources,
  the prefixes and the explicit-wildcard flag collected so far.\<close>

definition classify_name ::
  "string \<Rightarrow> string list \<times> string list \<times> bool \<Rightarrow> string list \<times> string list \<times> bool" where
  "classify_name resource = (\<lambda>(names, prefixes, explicitWildcardSet).
     if resource = explicitWildcard then (names, prefixes, True)
     else if HasSuffix resource globSuffix
     then (names, set_add (TrimSuffix resource ''*'') prefixes, explicitWildcardSet)
     else (set_add resource names, prefixes, explicitWildcardSet))"

definition SetResourceSubscription :: "Subscription \<Rightarrow> string list \<Rightarrow> Subscription" where
  "SetResourceSubscription s subscribed =
     (if sub_allowLegacyWildcard s \<and> subscribed = [] then s
      else
        (case fold classify_name subscribed ([], [], False) of
           (names, prefixes, explicitWildcardSet) \<Rightarrow>
             s\<lparr>sub_allowLegacyWildcard := False,
               sub_returnedResources :=
                 (if explicitWildcardSet then sub_returnedResources s
                  else filter (\<lambda>p. fst p \<in> set names \<or> matchesAnyPrefix prefixes (fst p))
                         (sub_returnedResources s)),
               sub_wildcard := explicitWildcardSet,
               sub_subscribedResourceNames := names,
               sub_subscribedPrefixes := prefixes\<rparr>))"

definition NewSotwSubscription :: "string list \<Rightarrow> bool \<Rightarrow> Subscription" where
  "NewSotwSubscription subscribed allowLegacyWildcard =
     SetResourceSubscription (newSubscription (subscribed = []) allowLegacyWildcard []) subscribed"

text \<open>The two loops of \<open>UpdateResourceSubscriptions\<close>.\<close>

definition subscribe_name :: "string \<Rightarrow> Subscription \<Rightarrow> Subscription" where
  "subscribe_name resource s =
     (if resource = explicitWildcard then s\<lparr>sub_wildcard := True\<rparr>
      else if HasSuffix resource globSuffix
      then s\<lparr>sub_subscribedPrefixes := set_add (TrimSuffix resource ''*'') (sub_subscribedPrefixes s)\<rparr>
      else s\<lparr>sub_subscribedResourceNames := set_add resource (sub_subscribedResourceNames s)\<rparr>)"

definition unsubscribe_name :: "string \<Rightarrow> Subscription \<Rightarrow> Subscription" where
  "unsubscribe_name resource s =
     (if resource = explicitWildcard then s\<lparr>sub_wildcard := False\<rparr>
      else if HasSuffix resource globSuffix
      then s\<lparr>sub_subscribedPrefixes := removeAll (TrimSuffix resource ''*'') (sub_subscribedPrefixes s)\<rparr>
      else s\<lparr>sub_returnedResources :=
               (if resource \<in> set (sub_subscribedResourceNames s) \<and> sub_wildcard s
                then AList.update resource '''' (sub_returnedResources s)
                else AList.delete resource (sub_returnedResources s)),
             sub_subscribedResourceNames := removeAll resource (sub_subscribedResourceNames s)\<rparr>)"

definition UpdateResourceSubscriptions ::
  "Subscription \<Rightarrow> string list \<Rightarrow> string list \<Rightarrow> Subscription" where
  "UpdateResourceSubscriptions s subscribed unsubscribed =
     (if sub_allowLegacyWildcard s \<and> subscribed = [] then s
      else fold unsubscribe_name unsubscribed
             (fold subscribe_name subscribed (s\<lparr>sub_allowLegacyWildcard := False\<rparr>)))"

definition NewDeltaSubscription ::
  "string list \<Rightarrow> string list \<Rightarrow> (string, string) gomap \<Rightarrow> bool \<Rightarrow> Subscription" where
  "NewDeltaSubscription subscribed unsubscribed initialResourceVersions allowLegacyWildcard =
     UpdateResourceSubscriptions
       (newSubscription (subscribed = []) allowLegacyWildcard initialResourceVersions)
       subscribed unsubscribed"

definition SubscribedResources :: "Subscription \<Rightarrow> string list" where
  "SubscribedResources s = sub_subscribedResourceNames s"

definition SubscribedPrefixes :: "Subscription \<Rightarrow> string list" where
  "SubscribedPrefixes s = sub_subscribedPrefixes s"

definition IsWildcard :: "Subscription \<Rightarrow> bool" where
  "IsWildcard s = sub_wildcard s"

definition ReturnedResources :: "Subscription \<Rightarrow> (string, string) gomap" where
  "ReturnedResources s = sub_returnedResources s"

definition SetReturnedResources :: "Subscription \<Rightarrow> (string, string) gomap \<Rightarrow> Subscription" where
  "SetReturnedResources s resourceVersions = s\<lparr>sub_returnedResources := resourceVersions\<rparr>"

text \<open>Representation invariant, and the names of a request by kind.\<close>

definition subscription_ok :: "Subscription \<Rightarrow> bool" where
  "subscription_ok s \<longleftrightarrow>
     distinct (sub_subscribedResourceNames s) \<and> distinct (sub_subscribedPrefixes s) \<and>
     gomap_ok (sub_returnedResources s)"

definition is_glob :: "string \<Rightarrow> bool" where
  "is_glob n \<longleftrightarrow> n \<noteq> explicitWildcard \<and> HasSuffix n globSuffix"

definition is_exact :: "string \<Rightarrow> bool" where
  "is_exact n \<longleftrightarrow> n \<noteq> explicitWildcard \<and> \<not> HasSuffix n globSuffix"

definition exact_names :: "string list \<Rightarrow> string set" where
  "exact_names ns = {n \<in> set ns. is_exact n}"

definition glob_prefixes :: "string list \<Rightarrow> string set" where
  "glob_prefixes ns = (\<lambda>n. TrimSuffix n ''*'') ` {n \<in> set ns. is_glob n}"

text \<open>The names a subscription covers.\<close>

definition covers :: "Subscription \<Rightarrow> string \<Rightarrow> bool" where
  "covers s n \<longleftrightarrow> sub_wildcard s \<or> n \<in> set (sub_subscribedResourceNames s) \<or>
     matchesAnyPrefix (sub_subscribedPrefixes s) n"

section \<open>Lemmas\<close>

lemmas subscription_accessors [simp] =
  SubscribedResources_def SubscribedPrefixes_def IsWildcard_def ReturnedResources_def

lemma matchesAnyPrefix_iff: "matchesAnyPrefix ps n \<longleftrightarrow> (\<exists>p\<in>set ps. HasPrefix n p)"
  by (simp add: matchesAnyPrefix_def list_ex_iff)

lemma explicitWildcard_not_glob: "\<not> HasSuffix explicitWildcard globSuffix"
  by (simp add: explicitWildcard_def globSuffix_def HasSuffix_def)

text \<open>A glob ends in a separator once its star is removed.\<close>

lemma glob_prefix_form: "is_glob n \<Longrightarrow> \<exists>t. TrimSuffix n ''*'' = t @ ''/'' \<and> n = t @ ''/*''"
proof -
  assume "is_glob n"
  then obtain t where n: "n = t @ ''/*''" by (auto simp: is_glob_def globSuffix_def HasSuffix_iff)
  then have "n = (t @ ''/'') @ ''*''" by simp
  then have "TrimSuffix n ''*'' = t @ ''/''" by (metis TrimSuffix_append)
  with n show ?thesis by blast
qed

lemma fold_classify_name:
  "fold classify_name ns (rs, ps, b) = (rs', ps', b') \<Longrightarrow>
     set rs' = set rs \<union> exact_names ns \<and> set ps' = set ps \<union> glob_prefixes ns \<and>
     b' = (b \<or> explicitWildcard \<in> set ns) \<and>
     (distinct rs \<longrightarrow> distinct rs') \<and> (distinct ps \<longrightarrow> distinct ps')"
proof (induction ns arbitrary: rs ps b)
  case Nil
  then show ?case by (simp add: exact_names_def glob_prefixes_def)
next
  case (Cons n ns)
  obtain rs1 ps1 b1 where one: "classify_name n (rs, ps, b) = (rs1, ps1, b1)"
    by (metis prod_cases3)
  with Cons.prems have rest: "fold classify_name ns (rs1, ps1, b1) = (rs', ps', b')" by simp
  have "set rs1 = set rs \<union> exact_names [n] \<and> set ps1 = set ps \<union> glob_prefixes [n] \<and>
      b1 = (b \<or> n = explicitWildcard) \<and>
      (distinct rs \<longrightarrow> distinct rs1) \<and> (distinct ps \<longrightarrow> distinct ps1)"
    using one unfolding classify_name_def exact_names_def glob_prefixes_def
    by (auto simp: is_exact_def is_glob_def split: if_splits)
  moreover have "exact_names (n # ns) = exact_names [n] \<union> exact_names ns"
    by (auto simp: exact_names_def)
  moreover have "glob_prefixes (n # ns) = glob_prefixes [n] \<union> glob_prefixes ns"
    by (auto simp: glob_prefixes_def)
  ultimately show ?case using Cons.IH [OF rest] by auto
qed

lemma newSubscription_ok [wf_rules]: "gomap_ok m \<Longrightarrow> subscription_ok (newSubscription e a m)"
  by (simp add: newSubscription_def subscription_ok_def)

lemma SetResourceSubscription_ok [wf_rules]:
  "subscription_ok s \<Longrightarrow> subscription_ok (SetResourceSubscription s ns)"
  by (auto simp: SetResourceSubscription_def subscription_ok_def dest!: fold_classify_name
      split: prod.splits)

lemma NewSotwSubscription_ok [wf_rules]: "subscription_ok (NewSotwSubscription ns a)"
  by (simp add: NewSotwSubscription_def wf_rules)

lemma subscribe_name_ok [wf_rules]: "subscription_ok s \<Longrightarrow> subscription_ok (subscribe_name n s)"
  by (simp add: subscribe_name_def subscription_ok_def)

lemma unsubscribe_name_ok [wf_rules]: "subscription_ok s \<Longrightarrow> subscription_ok (unsubscribe_name n s)"
  by (simp add: unsubscribe_name_def subscription_ok_def distinct_removeAll)

lemma fold_keeps: "(\<And>x s. P s \<Longrightarrow> P (f x s)) \<Longrightarrow> P s \<Longrightarrow> P (fold f xs s)"
  by (induction xs arbitrary: s) auto

lemma subscription_ok_legacy [simp]:
  "subscription_ok (s\<lparr>sub_allowLegacyWildcard := b\<rparr>) = subscription_ok s"
  by (simp add: subscription_ok_def)

lemma UpdateResourceSubscriptions_ok [wf_rules]:
  "subscription_ok s \<Longrightarrow> subscription_ok (UpdateResourceSubscriptions s ns us)"
  unfolding UpdateResourceSubscriptions_def
  by (auto intro!: fold_keeps [of subscription_ok] simp: wf_rules)

lemma NewDeltaSubscription_ok [wf_rules]:
  "gomap_ok m \<Longrightarrow> subscription_ok (NewDeltaSubscription ns us m a)"
  by (simp add: NewDeltaSubscription_def wf_rules)

lemma SetReturnedResources_ok [wf_rules]:
  "subscription_ok s \<Longrightarrow> gomap_ok m \<Longrightarrow> subscription_ok (SetReturnedResources s m)"
  by (simp add: SetReturnedResources_def subscription_ok_def)

subsection \<open>State-of-the-world subscriptions\<close>

lemma SetResourceSubscription_effect:
  assumes "\<not> sub_allowLegacyWildcard s \<or> ns \<noteq> []"
  shows "sub_wildcard (SetResourceSubscription s ns) \<longleftrightarrow> explicitWildcard \<in> set ns"
    and "set (sub_subscribedResourceNames (SetResourceSubscription s ns)) = exact_names ns"
    and "set (sub_subscribedPrefixes (SetResourceSubscription s ns)) = glob_prefixes ns"
    and "\<not> sub_allowLegacyWildcard (SetResourceSubscription s ns)"
    and "sub_returnedResources (SetResourceSubscription s ns) =
       (if explicitWildcard \<in> set ns then sub_returnedResources s
        else filter (\<lambda>p. fst p \<in> exact_names ns \<or> (\<exists>q\<in>glob_prefixes ns. HasPrefix (fst p) q))
               (sub_returnedResources s))"
  using assms
  by (auto simp: SetResourceSubscription_def matchesAnyPrefix_iff dest!: fold_classify_name
      split: prod.splits)

lemma SetResourceSubscription_legacy [simp]:
  "sub_allowLegacyWildcard s \<Longrightarrow> SetResourceSubscription s [] = s"
  by (simp add: SetResourceSubscription_def)

lemma legacy_after: "sub_allowLegacyWildcard (SetResourceSubscription s ns) \<longleftrightarrow>
    sub_allowLegacyWildcard s \<and> ns = []"
  using SetResourceSubscription_effect(4) [of s ns] by auto

text \<open>The legacy flag and the wildcard flag over a whole stream of requests.\<close>

lemma sotw_stream_legacy:
  "sub_allowLegacyWildcard (foldl SetResourceSubscription s rs) \<longleftrightarrow>
     sub_allowLegacyWildcard s \<and> (\<forall>r\<in>set rs. r = [])"
  by (induction rs arbitrary: s) (auto simp: legacy_after)

lemma sotw_stream_all_empty:
  "sub_allowLegacyWildcard s \<Longrightarrow> (\<forall>r\<in>set rs. r = []) \<Longrightarrow> foldl SetResourceSubscription s rs = s"
  by (induction rs) auto

lemma sotw_stream_wildcard:
  assumes "sub_allowLegacyWildcard s \<longrightarrow> sub_wildcard s"
  shows "sub_wildcard (foldl SetResourceSubscription s rs) =
    (if sub_allowLegacyWildcard s \<and> (\<forall>r\<in>set rs. r = []) then True
     else if rs = [] then sub_wildcard s else explicitWildcard \<in> set (last rs))"
proof (cases rs rule: rev_cases)
  case Nil
  with assms show ?thesis by simp
next
  case (snoc rs' r)
  show ?thesis
  proof (cases "sub_allowLegacyWildcard s \<and> (\<forall>r\<in>set rs. r = [])")
    case True
    with assms sotw_stream_all_empty [of s rs] show ?thesis by simp
  next
    case False
    with snoc have "\<not> sub_allowLegacyWildcard (foldl SetResourceSubscription s rs') \<or> r \<noteq> []"
      by (auto simp: sotw_stream_legacy)
    then show ?thesis
      using snoc False SetResourceSubscription_effect(1) by auto
  qed
qed

subsection \<open>Delta subscriptions\<close>

lemma fold_subscribe_name:
  "set (sub_subscribedResourceNames (fold subscribe_name ns s)) =
     set (sub_subscribedResourceNames s) \<union> exact_names ns"
  "set (sub_subscribedPrefixes (fold subscribe_name ns s)) =
     set (sub_subscribedPrefixes s) \<union> glob_prefixes ns"
  "sub_wildcard (fold subscribe_name ns s) \<longleftrightarrow> sub_wildcard s \<or> explicitWildcard \<in> set ns"
  "sub_returnedResources (fold subscribe_name ns s) = sub_returnedResources s"
  "sub_allowLegacyWildcard (fold subscribe_name ns s) = sub_allowLegacyWildcard s"
  by (induction ns arbitrary: s)
    (auto simp: subscribe_name_def exact_names_def glob_prefixes_def is_exact_def is_glob_def)

lemma fold_unsubscribe_name:
  "set (sub_subscribedResourceNames (fold unsubscribe_name us s)) =
     set (sub_subscribedResourceNames s) - exact_names us"
  "set (sub_subscribedPrefixes (fold unsubscribe_name us s)) =
     set (sub_subscribedPrefixes s) - glob_prefixes us"
  "sub_wildcard (fold unsubscribe_name us s) \<longleftrightarrow> sub_wildcard s \<and> explicitWildcard \<notin> set us"
  "sub_allowLegacyWildcard (fold unsubscribe_name us s) = sub_allowLegacyWildcard s"
  by (induction us arbitrary: s)
    (auto simp: unsubscribe_name_def exact_names_def glob_prefixes_def is_exact_def is_glob_def)

text \<open>A name that is not unsubscribed keeps its returned version.\<close>

lemma fold_unsubscribe_returned_other:
  "n \<notin> exact_names us \<Longrightarrow>
     map_of (sub_returnedResources (fold unsubscribe_name us s)) n = map_of (sub_returnedResources s) n"
  by (induction us arbitrary: s)
    (auto simp: unsubscribe_name_def exact_names_def is_exact_def)

text \<open>A name that is unsubscribed is marked with the empty version when it was subscribed by name, the
  wildcard was still there when its turn came, and the request names it only once; otherwise it is
  forgotten.\<close>

lemma fold_unsubscribe_returned:
  assumes "n \<in> exact_names us"
  shows "map_of (sub_returnedResources (fold unsubscribe_name us s)) n =
    (if n \<in> set (sub_subscribedResourceNames s) \<and> sub_wildcard s \<and>
        explicitWildcard \<notin> set (takeWhile (\<lambda>u. u \<noteq> n) us) \<and> count_list us n = 1
     then Some '''' else None)"
  using assms
proof (induction us arbitrary: s)
  case (Cons u us)
  show ?case
  proof (cases "u = n")
    case True
    then have names: "n \<notin> set (sub_subscribedResourceNames (unsubscribe_name u s))"
      and ret: "map_of (sub_returnedResources (unsubscribe_name u s)) n =
        (if n \<in> set (sub_subscribedResourceNames s) \<and> sub_wildcard s then Some '''' else None)"
      using Cons.prems by (auto simp: unsubscribe_name_def exact_names_def is_exact_def)
    show ?thesis
    proof (cases "n \<in> exact_names us")
      case again: True
      then have "count_list us n \<noteq> 0" by (auto simp: exact_names_def count_list_0_iff)
      with Cons.IH [OF again, of "unsubscribe_name u s"] names True show ?thesis by simp
    next
      case False
      then have "count_list us n = 0" using Cons.prems True by (auto simp: exact_names_def count_list_0_iff)
      with fold_unsubscribe_returned_other [OF False, of "unsubscribe_name u s"] ret True show ?thesis by simp
    qed
  next
    case False
    with Cons.prems have "n \<in> exact_names us" by (auto simp: exact_names_def)
    moreover have "n \<in> set (sub_subscribedResourceNames (unsubscribe_name u s)) \<longleftrightarrow>
        n \<in> set (sub_subscribedResourceNames s)"
      using False by (auto simp: unsubscribe_name_def)
    moreover have "sub_wildcard (unsubscribe_name u s) \<longleftrightarrow> sub_wildcard s \<and> u \<noteq> explicitWildcard"
      by (auto simp: unsubscribe_name_def)
    ultimately show ?thesis using Cons.IH [of "unsubscribe_name u s"] False by auto
  qed
qed (simp add: exact_names_def)

end
