(* ===== verification/Responses.thy ===== *)
theory Responses
  imports Xds_Types
begin

text \<open>
  Cached resources (\<open>src/pkg/cache/v3/cached_resource.go\<close>) and the responses the caches hand to the
  servers (\<open>src/pkg/cache/v3/cache.go\<close>): the lazily marshaled \<open>RawResponse\<close> and \<open>RawDeltaResponse\<close> and
  the pre-built passthrough responses.

  The closures \<open>marshalFunc\<close> and \<open>computeResourceVersionFunc\<close> are \<open>sync.OnceValues\<close> of a deterministic
  computation on an immutable resource, so each field holds the value of the closure. The pointer
  \<open>marshaledResponse\<close> is an option, and the methods that fill it return the updated response.
  A \<open>context.Context\<close> only matters through its \<open>Done\<close> channel: for \<open>Context d\<close>, \<open>d c\<close> says that a
  \<open>select\<close> between a send on channel \<open>c\<close> and \<open>ctx.Done()\<close> takes the latter; \<open>Background\<close> is never done.
\<close>

section \<open>Definitions\<close>

type_synonym chan = nat

datatype go_context = Background | Context "chan \<Rightarrow> bool"

fun ctx_done :: "go_context \<Rightarrow> chan \<Rightarrow> bool" where
  "ctx_done Background c = False"
| "ctx_done (Context d) c = d c"

subsection \<open>Cached resources\<close>

record cachedResource =
  cr_name :: string
  cr_resource :: Resource
  cr_ttl :: "duration option"
  cr_cacheVersion :: string
  cr_marshalFunc :: "byte list result"
  cr_computeResourceVersionFunc :: "string result"

definition newCachedResource :: "marshaler \<Rightarrow> string \<Rightarrow> Resource \<Rightarrow> string \<Rightarrow> cachedResource" where
  "newCachedResource marshal name res cacheVersion =
     (let marshalFunc = MarshalResource marshal res in
      \<lparr>cr_name = name, cr_resource = res, cr_ttl = None, cr_cacheVersion = cacheVersion,
       cr_marshalFunc = marshalFunc,
       cr_computeResourceVersionFunc =
         (case marshalFunc of
            Inl e \<Rightarrow> Inl (Wrapf ''marshaling resource: %w'' [] e)
          | Inr marshaled \<Rightarrow> Inr (HashResource marshaled))\<rparr>)"

definition newCachedResourceWithTTL ::
  "marshaler \<Rightarrow> string \<Rightarrow> ResourceWithTTL \<Rightarrow> string \<Rightarrow> cachedResource" where
  "newCachedResourceWithTTL marshal name res cacheVersion =
     (newCachedResource marshal name (rt_Resource res) cacheVersion)\<lparr>cr_ttl := rt_TTL res\<rparr>"

definition getMarshaledResource :: "cachedResource \<Rightarrow> byte list result" where
  "getMarshaledResource c = cr_marshalFunc c"

definition getResourceVersion :: "cachedResource \<Rightarrow> string result" where
  "getResourceVersion c = cr_computeResourceVersionFunc c"

definition cr_getVersion :: "cachedResource \<Rightarrow> bool \<Rightarrow> string result" where
  "cr_getVersion c useResourceVersion =
     (if \<not> useResourceVersion then Inr (cr_cacheVersion c) else getResourceVersion c)"

definition getCachedResourceNames :: "cachedResource list \<Rightarrow> string list" where
  "getCachedResourceNames resources = map (\<lambda>r. GetResourceName (cr_resource r)) resources"

subsection \<open>State-of-the-world responses\<close>

record RawResponse =
  raw_Request :: "DiscoveryRequest option"
  raw_Version :: string
  raw_resources :: "cachedResource list"
  raw_returnedResources :: "(string, string) gomap"
  raw_Heartbeat :: bool
  raw_Ctx :: go_context
  raw_marshaledResponse :: "DiscoveryResponse option"

definition req_getTypeUrl :: "DiscoveryRequest option \<Rightarrow> string" where
  "req_getTypeUrl r = (case r of None \<Rightarrow> '''' | Some q \<Rightarrow> req_TypeUrl q)"

definition deltaResourceTypeURL :: string where
  "deltaResourceTypeURL = ''type.googleapis.com/envoy.service.discovery.v3.Resource''"

definition marshalTTLResource :: "marshaler \<Rightarrow> RawResponse \<Rightarrow> cachedResource \<Rightarrow> any result" where
  "marshalTTLResource marshal r resource =
     (let buildResource =
        (case getMarshaledResource resource of
           Inl e \<Rightarrow> Inl (Wrapf ''marshaling: %w'' [] e)
         | Inr marshaled \<Rightarrow>
             Inr \<lparr>any_TypeUrl = req_getTypeUrl (raw_Request r), any_Value = marshaled\<rparr>)
      in case cr_ttl resource of
           None \<Rightarrow> buildResource
         | Some ttl \<Rightarrow>
             (let wrapped = \<lparr>dr_Name = GetResourceName (cr_resource resource), dr_Version = '''',
                             dr_Resource = None, dr_Ttl = Some ttl\<rparr>;
                  filled = (if \<not> raw_Heartbeat r
                            then (case buildResource of
                                    Inl e \<Rightarrow> Inl e
                                  | Inr rsrc \<Rightarrow> Inr (wrapped\<lparr>dr_Resource := Some rsrc\<rparr>))
                            else Inr wrapped)
              in case filled of
                   Inl e \<Rightarrow> Inl e
                 | Inr w \<Rightarrow>
                     (case MarshalResource marshal (MDiscoveryResource w) of
                        Inl e \<Rightarrow> Inl (Wrapf ''marshaling discovery resource: %w'' [] e)
                      | Inr marshaled \<Rightarrow>
                          Inr \<lparr>any_TypeUrl = deltaResourceTypeURL, any_Value = marshaled\<rparr>)))"

definition GetDiscoveryResponse ::
  "marshaler \<Rightarrow> RawResponse \<Rightarrow> DiscoveryResponse result \<times> RawResponse" where
  "GetDiscoveryResponse marshal r =
     (case raw_marshaledResponse r of
        Some m \<Rightarrow> (Inr m, r)
      | None \<Rightarrow>
          (case rmap (\<lambda>resource.
                  case marshalTTLResource marshal r resource of
                    Inl e \<Rightarrow> Inl (Wrapf ''processing %s: %w''
                                   [GetResourceName (cr_resource resource)] e)
                  | Inr a \<Rightarrow> Inr a) (raw_resources r) of
             Inl e \<Rightarrow> (Inl e, r)
           | Inr marshaledResources \<Rightarrow>
               (let m = \<lparr>resp_VersionInfo = raw_Version r, resp_Resources = marshaledResources,
                         resp_TypeUrl = req_getTypeUrl (raw_Request r), resp_Nonce = ''''\<rparr>
                in (Inr m, r\<lparr>raw_marshaledResponse := Some m\<rparr>))))"

definition raw_GetRawResources :: "RawResponse \<Rightarrow> ResourceWithTTL list" where
  "raw_GetRawResources r =
     map (\<lambda>res. \<lparr>rt_Resource = cr_resource res, rt_TTL = cr_ttl res\<rparr>) (raw_resources r)"

definition NewTestRawResponse ::
  "marshaler \<Rightarrow> DiscoveryRequest option \<Rightarrow> string \<Rightarrow> ResourceWithTTL list \<Rightarrow> RawResponse" where
  "NewTestRawResponse marshal req version resources =
     \<lparr>raw_Request = req, raw_Version = version,
      raw_resources =
        map (\<lambda>res. (newCachedResource marshal (GetResourceName (rt_Resource res)) (rt_Resource res)
                      version)\<lparr>cr_ttl := rt_TTL res\<rparr>) resources,
      raw_returnedResources = [], raw_Heartbeat = False, raw_Ctx = Background,
      raw_marshaledResponse = None\<rparr>"

subsection \<open>Delta responses\<close>

record RawDeltaResponse =
  rawd_DeltaRequest :: "DeltaDiscoveryRequest option"
  rawd_SystemVersionInfo :: string
  rawd_resources :: "cachedResource list"
  rawd_removedResources :: "string list"
  rawd_returnedResources :: "(string, string) gomap"
  rawd_Ctx :: go_context
  rawd_marshaledResponse :: "DeltaDiscoveryResponse option"

definition dreq_getTypeUrl :: "DeltaDiscoveryRequest option \<Rightarrow> string" where
  "dreq_getTypeUrl r = (case r of None \<Rightarrow> '''' | Some q \<Rightarrow> dreq_TypeUrl q)"

definition GetDeltaDiscoveryResponse ::
  "RawDeltaResponse \<Rightarrow> DeltaDiscoveryResponse result \<times> RawDeltaResponse" where
  "GetDeltaDiscoveryResponse r =
     (case rawd_marshaledResponse r of
        Some m \<Rightarrow> (Inr m, r)
      | None \<Rightarrow>
          (case rmap (\<lambda>resource.
                  case getMarshaledResource resource of
                    Inl e \<Rightarrow> Inl (Wrapf ''processing %s: %w'' [cr_name resource] e)
                  | Inr marshaledResource \<Rightarrow>
                      (case getResourceVersion resource of
                         Inl e \<Rightarrow> Inl (Wrapf ''processing version of %s: %w'' [cr_name resource] e)
                       | Inr version \<Rightarrow>
                           Inr \<lparr>dr_Name = cr_name resource, dr_Version = version,
                                dr_Resource = Some \<lparr>any_TypeUrl = dreq_getTypeUrl (rawd_DeltaRequest r),
                                                    any_Value = marshaledResource\<rparr>,
                                dr_Ttl = None\<rparr>)) (rawd_resources r) of
             Inl e \<Rightarrow> (Inl e, r)
           | Inr marshaledResources \<Rightarrow>
               (let m = \<lparr>dresp_SystemVersionInfo = rawd_SystemVersionInfo r,
                         dresp_Resources = marshaledResources,
                         dresp_RemovedResources = rawd_removedResources r,
                         dresp_TypeUrl = dreq_getTypeUrl (rawd_DeltaRequest r),
                         dresp_Nonce = ''''\<rparr>
                in (Inr m, r\<lparr>rawd_marshaledResponse := Some m\<rparr>))))"

definition rawd_GetRawResources :: "RawDeltaResponse \<Rightarrow> ResourceWithTTL list" where
  "rawd_GetRawResources r =
     map (\<lambda>res. \<lparr>rt_Resource = cr_resource res, rt_TTL = cr_ttl res\<rparr>) (rawd_resources r)"

definition NewTestRawDeltaResponse ::
  "marshaler \<Rightarrow> DeltaDiscoveryRequest option \<Rightarrow> string \<Rightarrow> ResourceWithTTL list \<Rightarrow> string list \<Rightarrow>
     (string, string) gomap \<Rightarrow> RawDeltaResponse" where
  "NewTestRawDeltaResponse marshal req version resources removedResources nextVersionMap =
     \<lparr>rawd_DeltaRequest = req, rawd_SystemVersionInfo = version,
      rawd_resources =
        map (\<lambda>res. let name = GetResourceName (rt_Resource res) in
               (newCachedResource marshal name (rt_Resource res)
                  (case map_of nextVersionMap name of None \<Rightarrow> '''' | Some v \<Rightarrow> v))
               \<lparr>cr_ttl := rt_TTL res\<rparr>) resources,
      rawd_removedResources = removedResources, rawd_returnedResources = nextVersionMap,
      rawd_Ctx = Background, rawd_marshaledResponse = None\<rparr>"

subsection \<open>Passthrough responses and the response interfaces\<close>

record PassthroughResponse =
  pt_Request :: "DiscoveryRequest option"
  pt_DiscoveryResponse :: "DiscoveryResponse option"
  pt_ctx :: go_context
  pt_ReturnedResources :: "(string, string) gomap"

record DeltaPassthroughResponse =
  dpt_DeltaRequest :: "DeltaDiscoveryRequest option"
  dpt_NextVersionMap :: "(string, string) gomap"
  dpt_DeltaDiscoveryResponse :: "DeltaDiscoveryResponse option"
  dpt_ctx :: go_context

definition pt_GetVersion :: "PassthroughResponse \<Rightarrow> string result" where
  "pt_GetVersion r =
     (case pt_DiscoveryResponse r of
        Some d \<Rightarrow> Inr (resp_VersionInfo d)
      | None \<Rightarrow> Inl (Errorf ''DiscoveryResponse is nil'' []))"

definition pt_GetResponseVersion :: "PassthroughResponse \<Rightarrow> string" where
  "pt_GetResponseVersion r =
     (case pt_DiscoveryResponse r of Some d \<Rightarrow> resp_VersionInfo d | None \<Rightarrow> '''')"

definition dpt_GetSystemVersion :: "DeltaPassthroughResponse \<Rightarrow> string result" where
  "dpt_GetSystemVersion r =
     (case dpt_DeltaDiscoveryResponse r of
        Some d \<Rightarrow> Inr (dresp_SystemVersionInfo d)
      | None \<Rightarrow> Inl (Errorf ''DeltaDiscoveryResponse is nil'' []))"

definition dpt_GetResponseVersion :: "DeltaPassthroughResponse \<Rightarrow> string" where
  "dpt_GetResponseVersion r =
     (case dpt_DeltaDiscoveryResponse r of Some d \<Rightarrow> dresp_SystemVersionInfo d | None \<Rightarrow> '''')"

text \<open>The interfaces \<open>Response\<close> and \<open>DeltaResponse\<close>: the two implementations and the methods.\<close>

datatype Response = RawR RawResponse | PassthroughR PassthroughResponse

datatype DeltaResponse = RawDR RawDeltaResponse | PassthroughDR DeltaPassthroughResponse

fun GetRequest :: "Response \<Rightarrow> DiscoveryRequest option" where
  "GetRequest (RawR r) = raw_Request r"
| "GetRequest (PassthroughR r) = pt_Request r"

fun GetResponseVersion :: "Response \<Rightarrow> string" where
  "GetResponseVersion (RawR r) = raw_Version r"
| "GetResponseVersion (PassthroughR r) = pt_GetResponseVersion r"

fun GetReturnedResources :: "Response \<Rightarrow> (string, string) gomap" where
  "GetReturnedResources (RawR r) = raw_returnedResources r"
| "GetReturnedResources (PassthroughR r) = pt_ReturnedResources r"

text \<open>The discovery response; a nil pointer of a passthrough response is \<open>None\<close>.\<close>

fun response_GetDiscoveryResponse ::
  "marshaler \<Rightarrow> Response \<Rightarrow> DiscoveryResponse option result" where
  "response_GetDiscoveryResponse marshal (RawR r) =
     (case fst (GetDiscoveryResponse marshal r) of Inl e \<Rightarrow> Inl e | Inr d \<Rightarrow> Inr (Some d))"
| "response_GetDiscoveryResponse marshal (PassthroughR r) = Inr (pt_DiscoveryResponse r)"

fun GetDeltaRequest :: "DeltaResponse \<Rightarrow> DeltaDiscoveryRequest option" where
  "GetDeltaRequest (RawDR r) = rawd_DeltaRequest r"
| "GetDeltaRequest (PassthroughDR r) = dpt_DeltaRequest r"

fun delta_GetResponseVersion :: "DeltaResponse \<Rightarrow> string" where
  "delta_GetResponseVersion (RawDR r) = rawd_SystemVersionInfo r"
| "delta_GetResponseVersion (PassthroughDR r) = dpt_GetResponseVersion r"

fun delta_GetReturnedResources :: "DeltaResponse \<Rightarrow> (string, string) gomap" where
  "delta_GetReturnedResources (RawDR r) = rawd_returnedResources r"
| "delta_GetReturnedResources (PassthroughDR r) = dpt_NextVersionMap r"

fun response_GetDeltaDiscoveryResponse ::
  "DeltaResponse \<Rightarrow> DeltaDiscoveryResponse option result" where
  "response_GetDeltaDiscoveryResponse (RawDR r) =
     (case fst (GetDeltaDiscoveryResponse r) of Inl e \<Rightarrow> Inl e | Inr d \<Rightarrow> Inr (Some d))"
| "response_GetDeltaDiscoveryResponse (PassthroughDR r) = Inr (dpt_DeltaDiscoveryResponse r)"

section \<open>Lemmas\<close>

lemma cr_getVersion_cache [simp]: "cr_getVersion c False = Inr (cr_cacheVersion c)"
  by (simp add: cr_getVersion_def)

lemma newCachedResource_fields [simp]:
  "cr_name (newCachedResource m n r v) = n"
  "cr_resource (newCachedResource m n r v) = r"
  "cr_cacheVersion (newCachedResource m n r v) = v"
  "cr_ttl (newCachedResource m n r v) = None"
  "cr_marshalFunc (newCachedResource m n r v) = m r"
  by (simp_all add: newCachedResource_def Let_def MarshalResource_def)

lemma newCachedResourceWithTTL_fields [simp]:
  "cr_name (newCachedResourceWithTTL m n r v) = n"
  "cr_resource (newCachedResourceWithTTL m n r v) = rt_Resource r"
  "cr_cacheVersion (newCachedResourceWithTTL m n r v) = v"
  "cr_ttl (newCachedResourceWithTTL m n r v) = rt_TTL r"
  "cr_marshalFunc (newCachedResourceWithTTL m n r v) = m (rt_Resource r)"
  by (simp_all add: newCachedResourceWithTTL_def)

text \<open>The resource version is a function of the marshaled bytes only.\<close>

lemma getResourceVersion_new:
  "getResourceVersion (newCachedResource m n r v) =
     (case m r of Inl e \<Rightarrow> Inl (Wrapf ''marshaling resource: %w'' [] e) | Inr b \<Rightarrow> Inr (HashResource b))"
  by (simp add: getResourceVersion_def newCachedResource_def Let_def MarshalResource_def)

text \<open>The version of a cached resource is stable: the constructor fixes it.\<close>

lemma getResourceVersion_newTTL:
  "getResourceVersion (newCachedResourceWithTTL m n r v) =
     getResourceVersion (newCachedResource m n (rt_Resource r) v)"
  by (simp add: getResourceVersion_def newCachedResourceWithTTL_def)

lemma GetDiscoveryResponse_cases:
  assumes "GetDiscoveryResponse marshal r = (res, r')"
  shows "(\<exists>m. res = Inr m \<and> raw_marshaledResponse r' = Some m \<and>
             r' = r\<lparr>raw_marshaledResponse := Some m\<rparr>) \<or> (\<exists>e. res = Inl e \<and> r' = r)"
proof (cases "raw_marshaledResponse r")
  case None
  with assms show ?thesis
    by (auto simp: GetDiscoveryResponse_def Let_def split: sum.splits)
next
  case (Some m)
  with assms have "res = Inr m" and "r' = r" by (auto simp: GetDiscoveryResponse_def)
  with Some show ?thesis by (cases r) auto
qed

lemma GetDeltaDiscoveryResponse_cases:
  assumes "GetDeltaDiscoveryResponse r = (res, r')"
  shows "(\<exists>m. res = Inr m \<and> rawd_marshaledResponse r' = Some m \<and>
             r' = r\<lparr>rawd_marshaledResponse := Some m\<rparr>) \<or> (\<exists>e. res = Inl e \<and> r' = r)"
proof (cases "rawd_marshaledResponse r")
  case None
  with assms show ?thesis
    by (auto simp: GetDeltaDiscoveryResponse_def Let_def split: sum.splits)
next
  case (Some m)
  with assms have "res = Inr m" and "r' = r" by (auto simp: GetDeltaDiscoveryResponse_def)
  with Some show ?thesis by (cases r) auto
qed

end
