(* ===== verification/Watches.thy ===== *)
theory Watches
  imports Subscription Responses
begin

text \<open>
  Open watches and the per-node status of \<open>src/pkg/cache/v3/status.go\<close>, the interface \<open>watch\<close> of
  \<open>src/pkg/cache/v3/linear.go\<close> with its two implementations, and the response order of
  \<open>src/pkg/cache/v3/order.go\<close>.

  A channel is a number (\<open>chan\<close>); a send is recorded as the pair of the channel and the response. An
  \<open>int64\<close> or \<open>uint64\<close> identifier is a \<open>64 word\<close>. \<open>sort.Sort\<close> is not stable; it is modelled by the stable
  \<open>sort_key\<close>, whose input order is the arbitrary iteration order of a Go map, so that every order of
  the ties is covered.
\<close>

section \<open>Definitions\<close>

subsection \<open>Watches\<close>

record ResponseWatch =
  rw_Request :: DiscoveryRequest
  rw_Response :: chan
  rw_subscription :: Subscription
  rw_fullStateResponses :: bool

record DeltaResponseWatch =
  drw_Request :: DeltaDiscoveryRequest
  drw_Response :: chan
  drw_subscription :: Subscription

datatype watch = SotwWatch ResponseWatch | DeltaWatch DeltaResponseWatch

datatype WatchResponse = WRaw RawResponse | WDelta RawDeltaResponse

fun isDelta :: "watch \<Rightarrow> bool" where
  "isDelta (SotwWatch w) = False"
| "isDelta (DeltaWatch w) = True"

fun useResourceVersion :: "watch \<Rightarrow> bool" where
  "useResourceVersion (SotwWatch w) = False"
| "useResourceVersion (DeltaWatch w) = True"

fun sendFullStateResponses :: "watch \<Rightarrow> bool" where
  "sendFullStateResponses (SotwWatch w) = rw_fullStateResponses w"
| "sendFullStateResponses (DeltaWatch w) = False"

fun getSubscription :: "watch \<Rightarrow> Subscription" where
  "getSubscription (SotwWatch w) = rw_subscription w"
| "getSubscription (DeltaWatch w) = drw_subscription w"

definition rw_buildResponse ::
  "ResponseWatch \<Rightarrow> cachedResource list \<Rightarrow> (string, string) gomap \<Rightarrow> string \<Rightarrow> RawResponse" where
  "rw_buildResponse w updatedResources returnedVersions version =
     \<lparr>raw_Request = Some (rw_Request w), raw_Version = version, raw_resources = updatedResources,
      raw_returnedResources = returnedVersions, raw_Heartbeat = False, raw_Ctx = Background,
      raw_marshaledResponse = None\<rparr>"

definition drw_buildResponse ::
  "DeltaResponseWatch \<Rightarrow> cachedResource list \<Rightarrow> string list \<Rightarrow> (string, string) gomap \<Rightarrow> string \<Rightarrow>
     RawDeltaResponse" where
  "drw_buildResponse w updatedResources removedResources returnedVersions version =
     \<lparr>rawd_DeltaRequest = Some (drw_Request w), rawd_SystemVersionInfo = version,
      rawd_resources = updatedResources, rawd_removedResources = removedResources,
      rawd_returnedResources = returnedVersions, rawd_Ctx = Background,
      rawd_marshaledResponse = None\<rparr>"

fun buildResponse ::
  "watch \<Rightarrow> cachedResource list \<Rightarrow> string list \<Rightarrow> (string, string) gomap \<Rightarrow> string \<Rightarrow> WatchResponse" where
  "buildResponse (SotwWatch w) updated removed returned version =
     WRaw (rw_buildResponse w updated returned version)"
| "buildResponse (DeltaWatch w) updated removed returned version =
     WDelta (drw_buildResponse w updated removed returned version)"

text \<open>\<open>sendResponse\<close>: the channel of the watch receives the response.\<close>

type_synonym sends = "(chan \<times> WatchResponse) list"

fun sendResponse :: "watch \<Rightarrow> WatchResponse \<Rightarrow> chan \<times> WatchResponse" where
  "sendResponse (SotwWatch w) resp = (rw_Response w, resp)"
| "sendResponse (DeltaWatch w) resp = (drw_Response w, resp)"

fun wr_GetReturnedResources :: "WatchResponse \<Rightarrow> (string, string) gomap" where
  "wr_GetReturnedResources (WRaw r) = raw_returnedResources r"
| "wr_GetReturnedResources (WDelta r) = rawd_returnedResources r"

fun wr_GetResponseVersion :: "WatchResponse \<Rightarrow> string" where
  "wr_GetResponseVersion (WRaw r) = raw_Version r"
| "wr_GetResponseVersion (WDelta r) = rawd_SystemVersionInfo r"

fun wr_resources :: "WatchResponse \<Rightarrow> cachedResource list" where
  "wr_resources (WRaw r) = raw_resources r"
| "wr_resources (WDelta r) = rawd_resources r"

subsection \<open>Response order\<close>

record key =
  key_ID :: "64 word"
  key_TypeURL :: string

definition keys_Less :: "key list \<Rightarrow> nat \<Rightarrow> nat \<Rightarrow> bool" where
  "keys_Less k i j \<longleftrightarrow>
     GetResponseType (key_TypeURL (k ! i)) < GetResponseType (key_TypeURL (k ! j))"

definition sort_keys :: "key list \<Rightarrow> key list" where
  "sort_keys = sort_key (\<lambda>k. GetResponseType (key_TypeURL k))"

subsection \<open>Status of a node\<close>

record statusInfo =
  si_node :: "Node option"
  si_watches :: "(64 word, ResponseWatch) gomap"
  si_orderedWatches :: "key list"
  si_deltaWatches :: "(64 word, DeltaResponseWatch) gomap"
  si_orderedDeltaWatches :: "key list"
  si_lastWatchRequestTime :: int
  si_lastDeltaWatchRequestTime :: int

text \<open>The zero \<open>time.Time\<close> is 0.\<close>

definition newStatusInfo :: "Node option \<Rightarrow> statusInfo" where
  "newStatusInfo node =
     \<lparr>si_node = node, si_watches = [], si_orderedWatches = [], si_deltaWatches = [],
      si_orderedDeltaWatches = [], si_lastWatchRequestTime = 0, si_lastDeltaWatchRequestTime = 0\<rparr>"

definition GetNumWatches :: "statusInfo \<Rightarrow> nat" where
  "GetNumWatches info = length (si_watches info)"

definition GetNumDeltaWatches :: "statusInfo \<Rightarrow> nat" where
  "GetNumDeltaWatches info = length (si_deltaWatches info)"

definition setLastWatchRequestTime :: "int \<Rightarrow> statusInfo \<Rightarrow> statusInfo" where
  "setLastWatchRequestTime t info = info\<lparr>si_lastWatchRequestTime := t\<rparr>"

definition setLastDeltaWatchRequestTime :: "int \<Rightarrow> statusInfo \<Rightarrow> statusInfo" where
  "setLastDeltaWatchRequestTime t info = info\<lparr>si_lastDeltaWatchRequestTime := t\<rparr>"

definition setDeltaResponseWatch ::
  "64 word \<Rightarrow> DeltaResponseWatch \<Rightarrow> statusInfo \<Rightarrow> statusInfo" where
  "setDeltaResponseWatch wid drw info =
     info\<lparr>si_deltaWatches := AList.update wid drw (si_deltaWatches info)\<rparr>"

definition orderResponseWatches :: "statusInfo \<Rightarrow> statusInfo" where
  "orderResponseWatches info =
     info\<lparr>si_orderedWatches :=
            sort_keys (map (\<lambda>(wid, w). \<lparr>key_ID = wid, key_TypeURL = req_TypeUrl (rw_Request w)\<rparr>)
                         (si_watches info))\<rparr>"

definition orderResponseDeltaWatches :: "statusInfo \<Rightarrow> statusInfo" where
  "orderResponseDeltaWatches info =
     info\<lparr>si_orderedDeltaWatches :=
            sort_keys (map (\<lambda>(wid, w). \<lparr>key_ID = wid, key_TypeURL = dreq_TypeUrl (drw_Request w)\<rparr>)
                         (si_deltaWatches info))\<rparr>"

definition statusInfo_ok :: "statusInfo \<Rightarrow> bool" where
  "statusInfo_ok info \<longleftrightarrow> gomap_ok (si_watches info) \<and> gomap_ok (si_deltaWatches info)"

section \<open>The watch interface\<close>

text \<open>
  What a cache may rely on for any implementation of \<open>watch\<close>: the built response carries the version
  and the returned versions it was given and the resources to send, and a watch that wants every
  resource in each response is not a delta watch.
\<close>

locale watch_interface =
  fixes delta :: "'w \<Rightarrow> bool"
    and resource_version :: "'w \<Rightarrow> bool"
    and full_state :: "'w \<Rightarrow> bool"
    and build :: "'w \<Rightarrow> cachedResource list \<Rightarrow> string list \<Rightarrow> (string, string) gomap \<Rightarrow> string \<Rightarrow> 'r"
    and returned :: "'r \<Rightarrow> (string, string) gomap"
    and version :: "'r \<Rightarrow> string"
    and resources :: "'r \<Rightarrow> cachedResource list"
  assumes returned_build: "returned (build w us rs m v) = m"
    and version_build: "version (build w us rs m v) = v"
    and resources_build: "resources (build w us rs m v) = us"
    and full_state_sotw: "full_state w \<Longrightarrow> \<not> delta w"
    and resource_version_delta: "resource_version w \<longleftrightarrow> delta w"
begin

lemma build_fields:
  "returned (build w us rs m v) = m \<and> version (build w us rs m v) = v \<and>
   resources (build w us rs m v) = us"
  by (simp add: returned_build version_build resources_build)

lemma full_state_cache_version: "full_state w \<Longrightarrow> \<not> resource_version w"
  by (simp add: resource_version_delta full_state_sotw)

end

interpretation watch: watch_interface isDelta useResourceVersion sendFullStateResponses
  buildResponse wr_GetReturnedResources wr_GetResponseVersion wr_resources
proof
  fix w :: watch and us rs m v
  show "wr_GetReturnedResources (buildResponse w us rs m v) = m"
    by (cases w) (simp_all add: rw_buildResponse_def drw_buildResponse_def)
  show "wr_GetResponseVersion (buildResponse w us rs m v) = v"
    by (cases w) (simp_all add: rw_buildResponse_def drw_buildResponse_def)
  show "wr_resources (buildResponse w us rs m v) = us"
    by (cases w) (simp_all add: rw_buildResponse_def drw_buildResponse_def)
  show "sendFullStateResponses w \<Longrightarrow> \<not> isDelta w" by (cases w) simp_all
  show "useResourceVersion w = isDelta w" by (cases w) simp_all
qed

section \<open>Lemmas\<close>

lemmas watch_simps [simp] =
  watch.returned_build watch.version_build watch.resources_build

lemma sorted_sort_keys:
  "sorted (map (\<lambda>k. GetResponseType (key_TypeURL k)) (sort_keys ks))"
  by (simp add: sort_keys_def)

lemma set_sort_keys [simp]: "set (sort_keys ks) = set ks"
  by (simp add: sort_keys_def)

lemma distinct_sort_keys [simp]: "distinct (map f (sort_keys ks)) = distinct (map f ks)"
  by (metis mset_eq_imp_distinct_iff mset_map mset_sort sort_keys_def)

lemma newStatusInfo_ok [wf_rules]: "statusInfo_ok (newStatusInfo n)"
  by (simp add: statusInfo_ok_def newStatusInfo_def)

text \<open>\<open>Less\<close> is what the sorted order is about: no later key is less than an earlier one.\<close>

lemma sort_keys_Less:
  assumes "i < j" and "j < length ks"
  shows "\<not> keys_Less (sort_keys ks) j i"
proof -
  have "sorted (map (\<lambda>k. GetResponseType (key_TypeURL k)) (sort_keys ks))"
    by (rule sorted_sort_keys)
  then have "GetResponseType (key_TypeURL (sort_keys ks ! i)) \<le>
      GetResponseType (key_TypeURL (sort_keys ks ! j))"
    using assms by (simp add: sorted_iff_nth_mono sort_keys_def)
  then show ?thesis by (simp add: keys_Less_def)
qed

end
