(* ===== verification/Stream_Properties.thy ===== *)
theory Stream_Properties
  imports Watches
begin

text \<open>
  Properties of subscriptions, of the type tables and of the responses handed to the servers.
\<close>

section \<open>Properties\<close>

text \<open>C32: over a whole state-of-the-world stream, in the default mode that allows the legacy wildcard. After the first request \<open>r\<close> and any further requests
  \<open>rs\<close>, the subscription is a wildcard exactly when the last request names the explicit wildcard, or
  when no request so far named anything (the legacy wildcard): once a name was sent, an empty request
  is a subscription to nothing.\<close>

theorem sotw_wildcard_over_stream:
  "IsWildcard (foldl SetResourceSubscription (NewSotwSubscription r True) rs) \<longleftrightarrow>
     explicitWildcard \<in> set (last (r # rs)) \<or> (\<forall>q\<in>set (r # rs). q = [])"
proof -
  let ?s = "newSubscription (r = []) True ([] :: (string, string) gomap)"
  have eq: "foldl SetResourceSubscription (NewSotwSubscription r True) rs = foldl SetResourceSubscription ?s (r # rs)"
    by (simp add: NewSotwSubscription_def)
  show ?thesis
  proof (cases "r = []")
    case True
    then have "sub_allowLegacyWildcard ?s \<longrightarrow> sub_wildcard ?s" by (simp add: newSubscription_def)
    from sotw_stream_wildcard [OF this, of "r # rs"] show ?thesis
      unfolding eq by (auto simp: newSubscription_def)
  next
    case False
    let ?t = "SetResourceSubscription ?s r"
    have t: "\<not> sub_allowLegacyWildcard ?t" "sub_wildcard ?t \<longleftrightarrow> explicitWildcard \<in> set r"
      using SetResourceSubscription_effect [of ?s r] False by simp_all
    then have "sub_wildcard (foldl SetResourceSubscription ?t rs) =
        (if rs = [] then sub_wildcard ?t else explicitWildcard \<in> set (last rs))"
      using sotw_stream_wildcard [of ?t rs] by simp
    then show ?thesis unfolding eq using False t by auto
  qed
qed

theorem sotw_wildcard_over_stream_witness:
  "IsWildcard (foldl SetResourceSubscription (NewSotwSubscription [] True) [[], []]) \<and>
   \<not> IsWildcard (foldl SetResourceSubscription (NewSotwSubscription [''a''] True) [[]])"
  using sotw_wildcard_over_stream [of "[]" "[[], []]"] sotw_wildcard_over_stream [of "[''a'']" "[[]]"] by simp

text \<open>C33: the effect of every delta request on a subscription. Under the legacy wildcard a request that
  subscribes to nothing changes nothing. Any other request ends the legacy wildcard, adds the names
  and prefixes it subscribes to and then takes away those it unsubscribes from. The subscription is a
  wildcard afterwards if it was one or the request subscribes to \<open>*\<close>, and the request does not
  unsubscribe from \<open>*\<close>. A version already returned is forgotten exactly for the unsubscribed names, except
  that a name which was subscribed explicitly, and whose turn comes while the wildcard is still
  there, is marked with the empty version so that it is sent again, if the request names it once.\<close>

theorem delta_subscription_effect:
  "if sub_allowLegacyWildcard s \<and> ns = [] then UpdateResourceSubscriptions s ns us = s
   else
     \<not> sub_allowLegacyWildcard (UpdateResourceSubscriptions s ns us) \<and>
     set (SubscribedResources (UpdateResourceSubscriptions s ns us)) =
       (set (SubscribedResources s) \<union> exact_names ns) - exact_names us \<and>
     set (SubscribedPrefixes (UpdateResourceSubscriptions s ns us)) =
       (set (SubscribedPrefixes s) \<union> glob_prefixes ns) - glob_prefixes us \<and>
     (IsWildcard (UpdateResourceSubscriptions s ns us) \<longleftrightarrow>
        (IsWildcard s \<or> explicitWildcard \<in> set ns) \<and> explicitWildcard \<notin> set us) \<and>
     (\<forall>n. map_of (ReturnedResources (UpdateResourceSubscriptions s ns us)) n =
        (if n \<in> exact_names us
         then if n \<in> set (SubscribedResources s) \<union> exact_names ns \<and> (IsWildcard s \<or> explicitWildcard \<in> set ns) \<and>
                explicitWildcard \<notin> set (takeWhile (\<lambda>u. u \<noteq> n) us) \<and> count_list us n = 1
              then Some '''' else None
         else map_of (ReturnedResources s) n))"
proof (cases "sub_allowLegacyWildcard s \<and> ns = []")
  case False
  let ?s = "fold subscribe_name ns (s\<lparr>sub_allowLegacyWildcard := False\<rparr>)"
  have eq: "UpdateResourceSubscriptions s ns us = fold unsubscribe_name us ?s"
    using False by (auto simp: UpdateResourceSubscriptions_def)
  have "map_of (sub_returnedResources (fold unsubscribe_name us ?s)) n =
       (if n \<in> exact_names us
        then if n \<in> set (sub_subscribedResourceNames s) \<union> exact_names ns \<and> (sub_wildcard s \<or> explicitWildcard \<in> set ns) \<and>
               explicitWildcard \<notin> set (takeWhile (\<lambda>u. u \<noteq> n) us) \<and> count_list us n = 1
             then Some '''' else None
        else map_of (sub_returnedResources s) n)" for n
    using fold_unsubscribe_returned [of n us ?s] fold_unsubscribe_returned_other [of n us ?s]
    by (simp add: fold_subscribe_name)
  then show ?thesis
    unfolding eq subscription_accessors if_not_P [OF False]
    by (simp add: fold_unsubscribe_name fold_subscribe_name)
qed (simp add: UpdateResourceSubscriptions_def)

theorem delta_subscription_effect_witness:
  "map_of (ReturnedResources (UpdateResourceSubscriptions
     (NewDeltaSubscription [''*'', ''a''] [] [(''a'', ''1'')] True) [] [''a'', ''*''])) ''a'' = Some '''' \<and>
   \<not> IsWildcard (UpdateResourceSubscriptions (NewDeltaSubscription [''*'', ''a''] [] [(''a'', ''1'')] True) [] [''a'', ''*''])"
proof -
  let ?s = "NewDeltaSubscription [''*'', ''a''] [] [(''a'', ''1'')] True"
  have s: "\<not> sub_allowLegacyWildcard ?s" "sub_wildcard ?s" "sub_subscribedResourceNames ?s = [''a'']"
    by (simp_all add: NewDeltaSubscription_def UpdateResourceSubscriptions_def newSubscription_def
        subscribe_name_def explicitWildcard_def globSuffix_def HasSuffix_def set_add_def)
  have e: "exact_names [''a'', ''*''] = {''a''}"
    by (auto simp: exact_names_def is_exact_def explicitWildcard_def globSuffix_def HasSuffix_def)
  from delta_subscription_effect [of ?s "[]" "[''a'', ''*'']"] s e show ?thesis
    by (simp add: explicitWildcard_def)
qed

text \<open>The two type tables are inverse to each other: a type URL that maps to a known response type is
  the URL of that type, and every response type but \<open>UnknownType\<close> has a URL that maps back to it.\<close>

theorem type_tables_inverse:
  "(\<forall>u. GetResponseType u \<noteq> UnknownType \<longrightarrow> GetResponseTypeURL (GetResponseType u) = Inr u) \<and>
   (\<forall>t. t \<noteq> UnknownType \<longrightarrow> (\<exists>u. GetResponseTypeURL t = Inr u \<and> GetResponseType u = t)) \<and>
   (\<exists>e. GetResponseTypeURL UnknownType = Inl e)"
proof (intro conjI allI impI)
  show "GetResponseTypeURL (GetResponseType u) = Inr u" if "GetResponseType u \<noteq> UnknownType" for u
    by (rule GetResponseTypeURL_of_GetResponseType [OF that])
  show "\<exists>u. GetResponseTypeURL t = Inr u \<and> GetResponseType u = t" if "t \<noteq> UnknownType" for t
    using GetResponseTypeURL_known [OF that] GetResponseTypeURL_Inr by blast
  show "\<exists>e. GetResponseTypeURL UnknownType = Inl e" by simp
qed

theorem type_tables_inverse_witness:
  "GetResponseTypeURL (GetResponseType ClusterType) = Inr ClusterType"
  using type_tables_inverse by simp

text \<open>Marshaling a response is done once. After a successful call the stored response is returned by
  every further call, whatever the marshaler would do then, and a failed call leaves the response as it
  was.\<close>

theorem discovery_response_memoised:
  assumes "GetDiscoveryResponse m r = (res, r')"
  shows "case res of
      Inr d \<Rightarrow> GetDiscoveryResponse m' r' = (Inr d, r') \<and> raw_resources r' = raw_resources r
    | Inl e \<Rightarrow> r' = r"
  using GetDiscoveryResponse_cases [OF assms] by (auto simp: GetDiscoveryResponse_def)

theorem discovery_response_memoised_witness:
  "\<exists>d r'. GetDiscoveryResponse (\<lambda>r. Inr [])
      (NewTestRawResponse (\<lambda>r. Inr []) None ''v'' []) = (Inr d, r') \<and>
    GetDiscoveryResponse (\<lambda>r. Inl EOF) r' = (Inr d, r')"
proof -
  let ?r = "NewTestRawResponse (\<lambda>r. Inr []) None ''v'' []"
  obtain res r' where r: "GetDiscoveryResponse (\<lambda>r. Inr []) ?r = (res, r')" by fastforce
  moreover obtain d where "res = Inr d"
    using r by (auto simp: GetDiscoveryResponse_def NewTestRawResponse_def Let_def)
  ultimately show ?thesis using discovery_response_memoised [OF r, of "\<lambda>r. Inl EOF"] by simp
qed

end
