(* ===== verification/Linear.thy ===== *)
theory Linear
  imports Watches
begin

text \<open>
  \<open>LinearCache\<close> of \<open>src/pkg/cache/v3/linear.go\<close>: one collection of opaque resources of one type, the
  watches opened on it, and the notification of the watches when resources change.

  Every method holds the mutex for its whole body, so each is one atomic step of the state. A method
  returns the new state, the responses it sent on watch channels (in order) and its error, if any:
  the error does not undo what was done before it. The cancel functions handed to the server are
  values of the datatype \<open>cancel\<close>, run by \<open>runCancel\<close>.
\<close>

section \<open>Definitions\<close>

type_synonym watches = "(64 word, watch) gomap"

record LinearCache =
  lc_typeURL :: string
  lc_resources :: "(string, cachedResource) gomap"
  lc_resourceWatches :: "(string, watches) gomap"
  lc_prefixWatches :: "(string, watches) gomap"
  lc_wildcardWatches :: watches
  lc_currentWatchID :: "64 word"
  lc_version :: "64 word"
  lc_versionPrefix :: string
  lc_watchCount :: "64 word"

definition lc_getVersion :: "LinearCache \<Rightarrow> string" where
  "lc_getVersion cache = lc_versionPrefix cache @ FormatUint (lc_version cache)"

subsection \<open>Construction\<close>

datatype LinearCacheOption =
    WithVersionPrefix string
  | WithInitialResources "(string, Resource) gomap"
  | WithLogger

fun applyOption :: "marshaler \<Rightarrow> LinearCacheOption \<Rightarrow> LinearCache \<Rightarrow> LinearCache" where
  "applyOption marshal (WithVersionPrefix prefix) cache = cache\<lparr>lc_versionPrefix := prefix\<rparr>"
| "applyOption marshal (WithInitialResources resources) cache =
     cache\<lparr>lc_resources :=
       fold (\<lambda>(name, resource) m. AList.update name (newCachedResource marshal name resource '''') m)
         resources (lc_resources cache)\<rparr>"
| "applyOption marshal WithLogger cache = cache"

definition NewLinearCache :: "marshaler \<Rightarrow> string \<Rightarrow> LinearCacheOption list \<Rightarrow> LinearCache" where
  "NewLinearCache marshal typeURL opts =
     (let out = fold (applyOption marshal) opts
        \<lparr>lc_typeURL = typeURL, lc_resources = [], lc_resourceWatches = [], lc_prefixWatches = [],
         lc_wildcardWatches = [], lc_currentWatchID = 0, lc_version = 0, lc_versionPrefix = '''',
         lc_watchCount = 0\<rparr>
      in out\<lparr>lc_resources :=
               map (\<lambda>(name, resource). (name, resource\<lparr>cr_cacheVersion := lc_getVersion out\<rparr>))
                 (lc_resources out)\<rparr>)"

subsection \<open>Computing a response\<close>

definition isSubscribedTo :: "Subscription \<Rightarrow> string \<Rightarrow> bool" where
  "isSubscribedTo sub resourceName =
     (if resourceName \<in> set (SubscribedResources sub) then True
      else list_ex (\<lambda>prefix. HasPrefix resourceName prefix) (SubscribedPrefixes sub))"

text \<open>The comparison \<open>computeResourceChange\<close> makes for one resource, in each of its three loops.\<close>

definition resourceChanged ::
  "(string, string) gomap \<Rightarrow> bool \<Rightarrow> string \<Rightarrow> cachedResource \<Rightarrow> bool result" where
  "resourceChanged knownVersions useRV resourceName resource =
     (case map_of knownVersions resourceName of
        None \<Rightarrow> Inr True
      | Some knownVersion \<Rightarrow>
          (case cr_getVersion resource useRV of
             Inl e \<Rightarrow> Inl (Wrapf ''failed to compute version of %s: %w'' [resourceName] e)
           | Inr resourceVersion \<Rightarrow> Inr (knownVersion \<noteq> resourceVersion)))"

definition computeResourceChange ::
  "LinearCache \<Rightarrow> Subscription \<Rightarrow> bool \<Rightarrow> (string list \<times> string list) result" where
  "computeResourceChange cache sub useRV =
     (let knownVersions = ReturnedResources sub in
      if IsWildcard sub then
        (case rfilter (\<lambda>(resourceName, resource). resourceChanged knownVersions useRV resourceName resource)
                (lc_resources cache) of
           Inl e \<Rightarrow> Inl e
         | Inr changed \<Rightarrow>
             Inr (map fst changed,
                  filter (\<lambda>resourceName. map_of (lc_resources cache) resourceName = None)
                    (map fst knownVersions)))
      else
        (case rfilter (\<lambda>resourceName.
                 case map_of (lc_resources cache) resourceName of
                   None \<Rightarrow> Inr False
                 | Some res \<Rightarrow> resourceChanged knownVersions useRV resourceName res)
                (SubscribedResources sub) of
           Inl e \<Rightarrow> Inl e
         | Inr exact \<Rightarrow>
             (case (if SubscribedPrefixes sub = [] then Inr []
                    else rfilter (\<lambda>(cachedName, res).
                           if cachedName \<in> set (SubscribedResources sub) then Inr False
                           else if list_ex (\<lambda>prefix. HasPrefix cachedName prefix) (SubscribedPrefixes sub)
                           then resourceChanged knownVersions useRV cachedName res
                           else Inr False) (lc_resources cache)) of
                Inl e \<Rightarrow> Inl e
              | Inr prefixed \<Rightarrow>
                  Inr (exact @ map fst prefixed,
                       filter (\<lambda>resourceName. map_of (lc_resources cache) resourceName = None \<or>
                                 \<not> isSubscribedTo sub resourceName)
                         (map fst knownVersions)))))"

text \<open>The names the \<open>default\<close> branch of \<open>computeResponse\<close> returns.\<close>

definition subscribedInCache :: "LinearCache \<Rightarrow> Subscription \<Rightarrow> string list" where
  "subscribedInCache cache sub =
     filter (\<lambda>resourceName. map_of (lc_resources cache) resourceName \<noteq> None) (SubscribedResources sub)
     @ (if SubscribedPrefixes sub = [] then []
        else filter (\<lambda>cachedName. cachedName \<notin> set (SubscribedResources sub) \<and>
                       list_ex (\<lambda>prefix. HasPrefix cachedName prefix) (SubscribedPrefixes sub))
               (map fst (lc_resources cache)))"

text \<open>The loop that collects the resources to send and records their versions. A name that is not
  in the cache would make \<open>getVersion\<close> dereference nil.\<close>

definition addReturned ::
  "LinearCache \<Rightarrow> bool \<Rightarrow> string \<Rightarrow> cachedResource list \<times> (string, string) gomap \<Rightarrow>
     (cachedResource list \<times> (string, string) gomap) result" where
  "addReturned cache useRV resourceName acc =
     (case map_of (lc_resources cache) resourceName of
        None \<Rightarrow> Inl (Panic ''nil pointer dereference'')
      | Some c \<Rightarrow>
          (case cr_getVersion c useRV of
             Inl e \<Rightarrow> Inl (Wrapf ''failed to compute version of %s: %w'' [resourceName] e)
           | Inr version \<Rightarrow> Inr (fst acc @ [c], AList.update resourceName version (snd acc))))"

definition computeResponse ::
  "LinearCache \<Rightarrow> watch \<Rightarrow> bool \<Rightarrow> WatchResponse option result" where
  "computeResponse cache w replyEvenIfEmpty =
     (let sub = getSubscription w in
      case computeResourceChange cache sub (useResourceVersion w) of
        Inl e \<Rightarrow> Inl e
      | Inr (changedResources, removedResources) \<Rightarrow>
          if changedResources = [] \<and> removedResources = [] \<and> \<not> replyEvenIfEmpty then Inr None
          else if \<not> sendFullStateResponses w \<and> \<not> isDelta w \<and> \<not> replyEvenIfEmpty \<and>
                  changedResources = [] then Inr None
          else
            (let resourcesToReturn =
               (if \<not> sendFullStateResponses w then changedResources
                else if IsWildcard sub then map fst (lc_resources cache)
                else subscribedInCache cache sub)
             in case rfold (addReturned cache (useResourceVersion w)) resourcesToReturn
                       ([], ReturnedResources sub) of
                  Inl e \<Rightarrow> Inl e
                | Inr (resources, returnedVersions) \<Rightarrow>
                    Inr (Some (buildResponse w resources removedResources
                      (fold AList.delete removedResources returnedVersions)
                      (lc_getVersion cache)))))"

subsection \<open>Tracking watches\<close>

text \<open>\<open>nextWatchID\<close>: the new identifier, or the panic on overflow.\<close>

definition nextWatchID :: "LinearCache \<Rightarrow> LinearCache \<times> 64 word result" where
  "nextWatchID cache =
     (let cache' = cache\<lparr>lc_currentWatchID := lc_currentWatchID cache + 1\<rparr> in
      if lc_currentWatchID cache' = 0 then (cache', Inl (Panic ''watch id count overflow''))
      else (cache', Inr (lc_currentWatchID cache')))"

definition index_add :: "64 word \<Rightarrow> watch \<Rightarrow> string \<Rightarrow> (string, watches) gomap \<Rightarrow> (string, watches) gomap"
  where "index_add watchID w name index =
     AList.update name (AList.update watchID w (gsub index name)) index"

definition index_remove :: "64 word \<Rightarrow> string \<Rightarrow> (string, watches) gomap \<Rightarrow> (string, watches) gomap"
  where "index_remove watchID name index =
     (let ws = AList.delete watchID (gsub index name) in
      if ws = [] then AList.delete name index else AList.update name ws index)"

datatype cancel =
    NilCancel
  | NoopCancel
  | CancelWildcard "64 word"
  | CancelWatch "64 word" Subscription

definition trackWatch :: "LinearCache \<Rightarrow> watch \<Rightarrow> LinearCache \<times> cancel result" where
  "trackWatch cache w =
     (case nextWatchID (cache\<lparr>lc_watchCount := lc_watchCount cache + 1\<rparr>) of
        (cache, Inl e) \<Rightarrow> (cache, Inl e)
      | (cache, Inr watchID) \<Rightarrow>
          (let sub = getSubscription w in
           if IsWildcard sub
           then (cache\<lparr>lc_wildcardWatches := AList.update watchID w (lc_wildcardWatches cache)\<rparr>,
                 Inr (CancelWildcard watchID))
           else (cache\<lparr>lc_resourceWatches :=
                         fold (index_add watchID w) (SubscribedResources sub) (lc_resourceWatches cache),
                       lc_prefixWatches :=
                         fold (index_add watchID w) (SubscribedPrefixes sub) (lc_prefixWatches cache)\<rparr>,
                 Inr (CancelWatch watchID sub))))"

definition removeWildcardWatch :: "64 word \<Rightarrow> LinearCache \<Rightarrow> LinearCache" where
  "removeWildcardWatch watchID cache =
     cache\<lparr>lc_watchCount := lc_watchCount cache - 1,
           lc_wildcardWatches := AList.delete watchID (lc_wildcardWatches cache)\<rparr>"

definition removeWatch :: "64 word \<Rightarrow> Subscription \<Rightarrow> LinearCache \<Rightarrow> LinearCache" where
  "removeWatch watchID sub cache =
     cache\<lparr>lc_resourceWatches :=
             fold (index_remove watchID) (SubscribedResources sub) (lc_resourceWatches cache),
           lc_prefixWatches :=
             fold (index_remove watchID) (SubscribedPrefixes sub) (lc_prefixWatches cache),
           lc_watchCount := lc_watchCount cache - 1\<rparr>"

text \<open>Calling a cancel function; \<open>watch.close()\<close> of the server skips a nil one.\<close>

fun runCancel :: "cancel \<Rightarrow> LinearCache \<Rightarrow> LinearCache" where
  "runCancel NilCancel cache = cache"
| "runCancel NoopCancel cache = cache"
| "runCancel (CancelWildcard watchID) cache = removeWildcardWatch watchID cache"
| "runCancel (CancelWatch watchID sub) cache = removeWatch watchID sub cache"

subsection \<open>Notification\<close>

text \<open>The watches impacted by the modified names, in one map.\<close>

definition triggeredWatches :: "LinearCache \<Rightarrow> string list \<Rightarrow> watches" where
  "triggeredWatches cache modified =
     fold (\<lambda>name triggered.
       fold (\<lambda>(prefix, pw) triggered.
               if HasPrefix name prefix then AList.merge triggered pw else triggered)
         (lc_prefixWatches cache)
         (AList.merge triggered (gsub (lc_resourceWatches cache) name))) modified []"

text \<open>One iteration of a notification loop; \<open>remove\<close> is the removal the loop uses. The error stops
  the loop and the method.\<close>

fun notifyLoop ::
  "(64 word \<Rightarrow> watch \<Rightarrow> LinearCache \<Rightarrow> LinearCache) \<Rightarrow> watches \<Rightarrow> LinearCache \<Rightarrow> sends \<Rightarrow>
     LinearCache \<times> sends \<times> error option" where
  "notifyLoop remove [] cache out = (cache, out, None)"
| "notifyLoop remove ((watchID, w) # ws) cache out =
     (case computeResponse cache w False of
        Inl e \<Rightarrow> (cache, out, Some e)
      | Inr None \<Rightarrow> notifyLoop remove ws cache out
      | Inr (Some response) \<Rightarrow>
          notifyLoop remove ws (remove watchID w cache) (out @ [sendResponse w response]))"

definition notifyAll :: "LinearCache \<Rightarrow> string list \<Rightarrow> LinearCache \<times> sends \<times> error option" where
  "notifyAll cache modified =
     (case notifyLoop (\<lambda>watchID w. removeWatch watchID (getSubscription w))
             (triggeredWatches cache modified) cache [] of
        (cache, out, Some e) \<Rightarrow> (cache, out, Some e)
      | (cache, out, None) \<Rightarrow>
          notifyLoop (\<lambda>watchID w. removeWildcardWatch watchID) (lc_wildcardWatches cache) cache out)"

subsection \<open>Updates\<close>

definition UpdateResource ::
  "marshaler \<Rightarrow> string \<Rightarrow> Resource \<Rightarrow> LinearCache \<Rightarrow> LinearCache \<times> sends \<times> error option" where
  "UpdateResource marshal name res cache =
     (if res = MNil then (cache, [], Some (Errorf ''nil resource'' []))
      else
        (let cache = cache\<lparr>lc_version := lc_version cache + 1\<rparr>;
             cache = cache\<lparr>lc_resources :=
               AList.update name (newCachedResource marshal name res (lc_getVersion cache))
                 (lc_resources cache)\<rparr>
         in notifyAll cache [name]))"

definition DeleteResource :: "string \<Rightarrow> LinearCache \<Rightarrow> LinearCache \<times> sends \<times> error option" where
  "DeleteResource name cache =
     (let cache = cache\<lparr>lc_version := lc_version cache + 1,
                        lc_resources := AList.delete name (lc_resources cache)\<rparr>
      in notifyAll cache [name])"

definition UpdateResources ::
  "marshaler \<Rightarrow> (string, Resource) gomap \<Rightarrow> string list \<Rightarrow> LinearCache \<Rightarrow>
     LinearCache \<times> sends \<times> error option" where
  "UpdateResources marshal toUpdate toDelete cache =
     (let cache = cache\<lparr>lc_version := lc_version cache + 1\<rparr>;
          version = lc_getVersion cache;
          cache = cache\<lparr>lc_resources :=
            fold AList.delete toDelete
              (fold (\<lambda>(name, resource) m.
                       AList.update name (newCachedResource marshal name resource version) m)
                 toUpdate (lc_resources cache))\<rparr>
      in notifyAll cache (map fst toUpdate @ toDelete))"

definition SetResources ::
  "marshaler \<Rightarrow> (string, Resource) gomap \<Rightarrow> LinearCache \<Rightarrow> LinearCache \<times> sends \<times> error option" where
  "SetResources marshal resources cache =
     (let cache = cache\<lparr>lc_version := lc_version cache + 1\<rparr>;
          version = lc_getVersion cache;
          deleted = filter (\<lambda>name. map_of resources name = None) (map fst (lc_resources cache));
          cache = cache\<lparr>lc_resources :=
            fold (\<lambda>(name, resource) m.
                    AList.update name (newCachedResource marshal name resource version) m)
              resources (fold AList.delete deleted (lc_resources cache))\<rparr>
      in notifyAll cache (deleted @ map fst resources))"

definition lc_GetResources :: "LinearCache \<Rightarrow> (string, Resource) gomap" where
  "lc_GetResources cache = map (\<lambda>(k, v). (k, cr_resource v)) (lc_resources cache)"

subsection \<open>Creating watches\<close>

definition lc_CreateWatch ::
  "DiscoveryRequest \<Rightarrow> Subscription \<Rightarrow> chan \<Rightarrow> LinearCache \<Rightarrow> LinearCache \<times> sends \<times> cancel result" where
  "lc_CreateWatch request sub value cache =
     (if req_TypeUrl request \<noteq> lc_typeURL cache
      then (cache, [], Inl (Errorf ''request type %s does not match cache type %s''
                              [req_TypeUrl request, lc_typeURL cache]))
      else
        (let replyEvenIfEmpty =
               (req_VersionInfo request = '''' \<or>
                \<not> HasPrefix (req_VersionInfo request) (lc_versionPrefix cache));
             w = SotwWatch \<lparr>rw_Request = request, rw_Response = value, rw_subscription = sub,
                   rw_fullStateResponses = ResourceRequiresFullStateInSotw (lc_typeURL cache)\<rparr>
         in case computeResponse cache w replyEvenIfEmpty of
              Inl e \<Rightarrow> (cache, [], Inl (Wrapf ''failed to compute the watch respnse: %w'' [] e))
            | Inr (Some response) \<Rightarrow> (cache, [sendResponse w response], Inr NoopCancel)
            | Inr None \<Rightarrow> (case trackWatch cache w of (cache, c) \<Rightarrow> (cache, [], c))))"

definition lc_CreateDeltaWatch ::
  "DeltaDiscoveryRequest \<Rightarrow> Subscription \<Rightarrow> chan \<Rightarrow> LinearCache \<Rightarrow>
     LinearCache \<times> sends \<times> cancel result" where
  "lc_CreateDeltaWatch request sub value cache =
     (if dreq_TypeUrl request \<noteq> lc_typeURL cache
      then (cache, [], Inl (Errorf ''request type %s does not match cache type %s''
                              [dreq_TypeUrl request, lc_typeURL cache]))
      else
        (let w = DeltaWatch \<lparr>drw_Request = request, drw_Response = value, drw_subscription = sub\<rparr>;
             replyEvenIfEmpty = (IsWildcard sub \<and> dreq_ResponseNonce request = '''')
         in case computeResponse cache w replyEvenIfEmpty of
              Inl e \<Rightarrow> (cache, [], Inl (Wrapf ''failed to compute the watch respnse: %w'' [] e))
            | Inr (Some response) \<Rightarrow> (cache, [sendResponse w response], Inr NilCancel)
            | Inr None \<Rightarrow> (case trackWatch cache w of (cache, c) \<Rightarrow> (cache, [], c))))"

definition lc_Fetch :: "DiscoveryRequest \<Rightarrow> LinearCache \<Rightarrow> Response result" where
  "lc_Fetch request cache = Inl (Errorf ''fetch is not implemented by LinearCache'' [])"

subsection \<open>Counters\<close>

definition NumResources :: "LinearCache \<Rightarrow> nat" where
  "NumResources cache = length (lc_resources cache)"

definition NumWatches :: "LinearCache \<Rightarrow> string \<Rightarrow> nat" where
  "NumWatches cache name =
     fold (\<lambda>(prefix, pw) count. if HasPrefix name prefix then count + length pw else count)
       (lc_prefixWatches cache)
       (length (gsub (lc_resourceWatches cache) name) + length (lc_wildcardWatches cache))"

definition NumPrefixWatches :: "LinearCache \<Rightarrow> nat" where
  "NumPrefixWatches cache = fold (\<lambda>(prefix, pw) count. count + length pw) (lc_prefixWatches cache) 0"

definition NumWildcardWatches :: "LinearCache \<Rightarrow> nat" where
  "NumWildcardWatches cache = length (lc_wildcardWatches cache)"

definition NumCacheWatches :: "LinearCache \<Rightarrow> int" where
  "NumCacheWatches cache = sint (lc_watchCount cache)"

end
