(* ===== verification/Linear_Response.thy ===== *)
theory Linear_Response
  imports Linear
begin

text \<open>
  What a response of the linear cache contains. The reference is \<open>linear_view\<close>: the versions of the
  cached resources that a subscription covers. Every response leaves the client, as the server
  records it, with exactly that view; no response is computed for a client that already has it.
\<close>

section \<open>Definitions\<close>

definition linear_ok :: "LinearCache \<Rightarrow> bool" where
  "linear_ok c \<longleftrightarrow> gomap_ok (lc_resources c) \<and> (\<forall>(n, r)\<in>set (lc_resources c). cr_name r = n)"

definition cached_version :: "LinearCache \<Rightarrow> bool \<Rightarrow> string \<Rightarrow> string option" where
  "cached_version c rv n =
     (case map_of (lc_resources c) n of
        None \<Rightarrow> None
      | Some r \<Rightarrow> (case cr_getVersion r rv of Inl e \<Rightarrow> None | Inr v \<Rightarrow> Some v))"

definition linear_view :: "LinearCache \<Rightarrow> Subscription \<Rightarrow> bool \<Rightarrow> string \<Rightarrow> string option" where
  "linear_view c sub rv n = (if covers sub n then cached_version c rv n else None)"

text \<open>Every covered resource has a version (for delta: it can be marshaled).\<close>

definition versions_ok :: "LinearCache \<Rightarrow> Subscription \<Rightarrow> bool \<Rightarrow> bool" where
  "versions_ok c sub rv \<longleftrightarrow>
     (\<forall>(n, r)\<in>set (lc_resources c). covers sub n \<longrightarrow> (\<exists>v. cr_getVersion r rv = Inr v))"

text \<open>The names \<open>computeResponse\<close> puts in a response.\<close>

definition names_to_return :: "LinearCache \<Rightarrow> watch \<Rightarrow> string list \<Rightarrow> string list" where
  "names_to_return c w changed =
     (if \<not> sendFullStateResponses w then changed
      else if sub_wildcard (getSubscription w) then map fst (lc_resources c)
      else subscribedInCache c (getSubscription w))"

text \<open>The tests of the two loops for subscriptions that are not wildcards, and what both loops have to give:
  the changed and the removed names.\<close>

definition changed_by_name :: "LinearCache \<Rightarrow> Subscription \<Rightarrow> bool \<Rightarrow> string \<Rightarrow> bool result" where
  "changed_by_name c sub rv n =
     (case map_of (lc_resources c) n of
        None \<Rightarrow> Inr False
      | Some r \<Rightarrow> resourceChanged (sub_returnedResources sub) rv n r)"

definition changed_by_prefix :: "Subscription \<Rightarrow> bool \<Rightarrow> string \<times> cachedResource \<Rightarrow> bool result" where
  "changed_by_prefix sub rv x =
     (case x of (n, r) \<Rightarrow>
        if n \<in> set (sub_subscribedResourceNames sub) then Inr False
        else if list_ex (\<lambda>prefix. HasPrefix n prefix) (sub_subscribedPrefixes sub)
        then resourceChanged (sub_returnedResources sub) rv n r
        else Inr False)"

definition change_of :: "LinearCache \<Rightarrow> Subscription \<Rightarrow> bool \<Rightarrow> string list \<Rightarrow> string list \<Rightarrow> bool" where
  "change_of c sub rv ch rm \<longleftrightarrow>
     set ch = {n. \<exists>r. map_of (lc_resources c) n = Some r \<and> covers sub n \<and>
                 resourceChanged (sub_returnedResources sub) rv n r = Inr True} \<and>
     (\<forall>n r. map_of (lc_resources c) n = Some r \<longrightarrow> covers sub n \<longrightarrow>
        (\<exists>b. resourceChanged (sub_returnedResources sub) rv n r = Inr b)) \<and>
     set rm = {n \<in> fst ` set (sub_returnedResources sub). map_of (lc_resources c) n = None \<or> \<not> covers sub n} \<and>
     (subscription_ok sub \<longrightarrow> distinct ch \<and> distinct rm)"

section \<open>Lemmas\<close>

lemma covers_iff: "covers sub n \<longleftrightarrow> sub_wildcard sub \<or> isSubscribedTo sub n"
  by (auto simp: covers_def isSubscribedTo_def matchesAnyPrefix_def)

lemma resourceChanged_total:
  "cr_getVersion r rv = Inr v \<Longrightarrow> resourceChanged K rv n r = Inr (map_of K n \<noteq> Some v)"
  by (simp add: resourceChanged_def split: option.splits)

lemma resourceChanged_False:
  "resourceChanged K rv n r = Inr False \<longleftrightarrow>
     (\<exists>v. cr_getVersion r rv = Inr v \<and> map_of K n = Some v)"
  by (auto simp: resourceChanged_def split: option.splits sum.splits)

lemma resourceChanged_True:
  "resourceChanged K rv n r = Inr True \<Longrightarrow> cr_getVersion r rv = Inr v \<Longrightarrow> map_of K n \<noteq> Some v"
  by (auto simp: resourceChanged_def split: option.splits sum.splits)

text \<open>The changed and removed names, for wildcard and non-wildcard subscriptions alike.\<close>

lemma computeResourceChange_wildcard:
  assumes ok: "gomap_ok (lc_resources c)" and comp: "computeResourceChange c sub rv = Inr (ch, rm)" and wild: "sub_wildcard sub"
  shows "change_of c sub rv ch rm"
proof -
  let ?K = "sub_returnedResources sub" and ?R = "lc_resources c"
  have f: "\<forall>x\<in>set ?R. \<exists>b. (case x of (n, r) \<Rightarrow> resourceChanged ?K rv n r) = Inr b"
    and ch: "ch = map fst (filter (\<lambda>x. (case x of (n, r) \<Rightarrow> resourceChanged ?K rv n r) = Inr True) ?R)"
    and rm: "rm = filter (\<lambda>n. map_of ?R n = None) (map fst ?K)"
    using comp wild by (auto simp: computeResourceChange_def Let_def rfilter_Inr split: sum.splits)
  have dist: "distinct (map fst (filter P ?R))" for P
    using gomap_ok_filter [OF ok] by (simp add: gomap_ok_def)
  show ?thesis
    using f wild unfolding change_of_def
    by (auto simp: ch rm map_of_iff [OF ok] covers_def dist subscription_ok_def gomap_ok_def image_iff)
qed

text \<open>Without a wildcard the changed names are those subscribed to by name, then those matched by a prefix only.\<close>

lemma computeResourceChange_named:
  assumes "computeResourceChange c sub rv = Inr (ch, rm)" and "\<not> sub_wildcard sub"
  obtains ex px where "ch = ex @ map fst px"
    and "rm = filter (\<lambda>n. map_of (lc_resources c) n = None \<or> \<not> isSubscribedTo sub n) (map fst (sub_returnedResources sub))"
    and "rfilter (changed_by_name c sub rv) (sub_subscribedResourceNames sub) = Inr ex"
    and "\<forall>x\<in>set (lc_resources c). \<exists>b. changed_by_prefix sub rv x = Inr b"
    and "px = filter (\<lambda>x. changed_by_prefix sub rv x = Inr True) (lc_resources c)"
proof -
  from assms obtain ex px where
    ex: "rfilter (changed_by_name c sub rv) (sub_subscribedResourceNames sub) = Inr ex" and
    px: "(if sub_subscribedPrefixes sub = [] then Inr [] else rfilter (changed_by_prefix sub rv) (lc_resources c)) = Inr px" and
    ch: "ch = ex @ map fst px" and
    rm: "rm = filter (\<lambda>n. map_of (lc_resources c) n = None \<or> \<not> isSubscribedTo sub n) (map fst (sub_returnedResources sub))"
    unfolding computeResourceChange_def Let_def subscription_accessors changed_by_name_def [abs_def] changed_by_prefix_def [abs_def]
    by (auto split: sum.splits)
  have "(\<forall>x\<in>set (lc_resources c). \<exists>b. changed_by_prefix sub rv x = Inr b) \<and>
      px = filter (\<lambda>x. changed_by_prefix sub rv x = Inr True) (lc_resources c)"
  proof (cases "sub_subscribedPrefixes sub = []")
    case True
    then have "changed_by_prefix sub rv x = Inr False" for x by (cases x) (simp add: changed_by_prefix_def)
    with px True show ?thesis by auto
  next
    case False
    with px show ?thesis by (simp add: rfilter_Inr)
  qed
  with ex ch rm show thesis by (intro that) auto
qed

lemma computeResourceChange_not_wildcard:
  assumes ok: "gomap_ok (lc_resources c)" and comp: "computeResourceChange c sub rv = Inr (ch, rm)" and wild: "\<not> sub_wildcard sub"
  shows "change_of c sub rv ch rm"
proof -
  let ?K = "sub_returnedResources sub" and ?R = "lc_resources c" and ?N = "set (sub_subscribedResourceNames sub)"
  let ?pre = "\<lambda>n. list_ex (\<lambda>prefix. HasPrefix n prefix) (sub_subscribedPrefixes sub)"
  note mem = map_of_iff [OF ok]
  obtain ex px where ch: "ch = ex @ map fst px" and rm: "rm = filter (\<lambda>n. map_of ?R n = None \<or> \<not> isSubscribedTo sub n) (map fst ?K)"
    and ex: "rfilter (changed_by_name c sub rv) (sub_subscribedResourceNames sub) = Inr ex"
    and pb: "\<forall>x\<in>set ?R. \<exists>b. changed_by_prefix sub rv x = Inr b"
    and px: "px = filter (\<lambda>x. changed_by_prefix sub rv x = Inr True) ?R"
    using computeResourceChange_named [OF comp wild] by blast
  note ex' = ex [unfolded rfilter_Inr]
  have cov: "covers sub n \<longleftrightarrow> n \<in> ?N \<or> ?pre n" for n using wild by (simp add: covers_def matchesAnyPrefix_def)
  have name: "changed_by_name c sub rv n = resourceChanged ?K rv n r" if "map_of ?R n = Some r" for n r
    using that by (simp add: changed_by_name_def)
  have pre: "changed_by_prefix sub rv (n, r) = (if n \<in> ?N then Inr False else if ?pre n then resourceChanged ?K rv n r else Inr False)" for n r
    by (simp add: changed_by_prefix_def)
  have "n \<in> set ex \<longleftrightarrow> n \<in> ?N \<and> (\<exists>r. map_of ?R n = Some r \<and> resourceChanged ?K rv n r = Inr True)" for n
    using ex' by (auto simp: changed_by_name_def split: option.splits)
  moreover have "n \<in> fst ` set px \<longleftrightarrow> n \<notin> ?N \<and> ?pre n \<and> (\<exists>r. map_of ?R n = Some r \<and> resourceChanged ?K rv n r = Inr True)" for n
    unfolding px mem by (force simp: pre split: if_splits)
  ultimately have "set ch = {n. \<exists>r. map_of ?R n = Some r \<and> covers sub n \<and> resourceChanged ?K rv n r = Inr True}"
    unfolding ch cov set_append set_map by blast
  moreover have "\<exists>b. resourceChanged ?K rv n r = Inr b" if "map_of ?R n = Some r" "covers sub n" for n r
    using ex' pb [rule_format, of "(n, r)"] name [OF that(1)] that(2) that(1) [unfolded mem] unfolding cov pre by (metis (no_types, lifting))
  moreover have "set rm = {n \<in> fst ` set ?K. map_of ?R n = None \<or> \<not> covers sub n}" by (auto simp: rm covers_iff wild)
  moreover have "distinct ch \<and> distinct rm" if "subscription_ok sub"
  proof -
    have "distinct (map fst px)" using gomap_ok_filter [OF ok] by (simp add: px gomap_ok_def)
    then show ?thesis using that ex' by (auto simp: ch rm px pre subscription_ok_def gomap_ok_def split: if_splits)
  qed
  ultimately show ?thesis unfolding change_of_def by blast
qed

lemma computeResourceChange_Inr:
  assumes ok: "gomap_ok (lc_resources c)"
    and comp: "computeResourceChange c sub rv = Inr (ch, rm)"
  shows "set ch = {n. \<exists>r. map_of (lc_resources c) n = Some r \<and> covers sub n \<and>
                      resourceChanged (sub_returnedResources sub) rv n r = Inr True}"
    and "\<forall>n r. map_of (lc_resources c) n = Some r \<longrightarrow> covers sub n \<longrightarrow>
                 (\<exists>b. resourceChanged (sub_returnedResources sub) rv n r = Inr b)"
    and "set rm = {n \<in> fst ` set (sub_returnedResources sub).
                     map_of (lc_resources c) n = None \<or> \<not> covers sub n}"
    and "subscription_ok sub \<Longrightarrow> distinct ch \<and> distinct rm"
proof -
  have "change_of c sub rv ch rm"
    using computeResourceChange_wildcard [OF ok comp] computeResourceChange_not_wildcard [OF ok comp] by blast
  then show "set ch = {n. \<exists>r. map_of (lc_resources c) n = Some r \<and> covers sub n \<and>
                      resourceChanged (sub_returnedResources sub) rv n r = Inr True}"
    and "\<forall>n r. map_of (lc_resources c) n = Some r \<longrightarrow> covers sub n \<longrightarrow>
                 (\<exists>b. resourceChanged (sub_returnedResources sub) rv n r = Inr b)"
    and "set rm = {n \<in> fst ` set (sub_returnedResources sub).
                     map_of (lc_resources c) n = None \<or> \<not> covers sub n}"
    and "subscription_ok sub \<Longrightarrow> distinct ch \<and> distinct rm"
    unfolding change_of_def by blast+
qed

lemma rfold_addReturned:
  "rfold (addReturned c rv) ns (rs, K) = Inr (rs', K') \<Longrightarrow>
     (\<forall>n\<in>set ns. cached_version c rv n \<noteq> None) \<and>
     rs' = rs @ map (\<lambda>n. the (map_of (lc_resources c) n)) ns \<and>
     map_of K' = (\<lambda>k. if k \<in> set ns then cached_version c rv k else map_of K k) \<and>
     (gomap_ok K \<longrightarrow> gomap_ok K')"
proof (induction ns arbitrary: rs K)
  case (Cons n ns)
  from Cons.prems obtain p where p: "addReturned c rv n (rs, K) = Inr p"
    and fold_p: "rfold (addReturned c rv) ns p = Inr (rs', K')"
    by (auto split: sum.splits)
  from p obtain r v where
    r: "map_of (lc_resources c) n = Some r" "cr_getVersion r rv = Inr v" and
    pv: "p = (rs @ [r], AList.update n v K)"
    by (auto simp: addReturned_def split: option.splits sum.splits)
  note rest = fold_p [unfolded pv]
  from r have "cached_version c rv n = Some v" by (simp add: cached_version_def)
  with Cons.IH [OF rest] r show ?case by (auto simp: fun_eq_iff)
qed auto

lemma rfold_addReturned_total:
  "(\<And>n. n \<in> set ns \<Longrightarrow> cached_version c rv n \<noteq> None) \<Longrightarrow>
     \<exists>rs' K'. rfold (addReturned c rv) ns (rs, K) = Inr (rs', K')"
proof (induction ns arbitrary: rs K)
  case (Cons n ns)
  have "cached_version c rv n \<noteq> None" by (rule Cons.prems) simp
  then obtain r v where "map_of (lc_resources c) n = Some r" "cr_getVersion r rv = Inr v"
    by (auto simp: cached_version_def split: option.splits sum.splits)
  then show ?case
    using Cons.IH [of "rs @ [r]" "AList.update n v K"] Cons.prems by (simp add: addReturned_def)
qed auto

lemma set_subscribedInCache:
  "\<not> sub_wildcard sub \<Longrightarrow>
     set (subscribedInCache c sub) = {n. covers sub n \<and> map_of (lc_resources c) n \<noteq> None}"
  by (auto simp: subscribedInCache_def covers_def matchesAnyPrefix_def map_of_in_dom map_of_eq_None_iff
      split: if_splits)

lemma distinct_subscribedInCache:
  "subscription_ok sub \<Longrightarrow> gomap_ok (lc_resources c) \<Longrightarrow> distinct (subscribedInCache c sub)"
  by (auto simp: subscribedInCache_def subscription_ok_def gomap_ok_def)

lemma computeResponse_eq:
  assumes "computeResourceChange c (getSubscription w) (useResourceVersion w) = Inr (ch, rm)"
  shows "computeResponse c w reply =
    (if ch = [] \<and> rm = [] \<and> \<not> reply \<or>
        \<not> sendFullStateResponses w \<and> \<not> isDelta w \<and> \<not> reply \<and> ch = [] then Inr None
     else case rfold (addReturned c (useResourceVersion w)) (names_to_return c w ch)
                 ([], sub_returnedResources (getSubscription w)) of
            Inl e \<Rightarrow> Inl e
          | Inr (rs, K) \<Rightarrow>
              Inr (Some (buildResponse w rs rm (fold AList.delete rm K) (lc_getVersion c))))"
  unfolding computeResponse_def Let_def names_to_return_def subscription_accessors assms by simp

lemma computeResponse_change:
  assumes "computeResponse c w reply = Inr x"
  obtains ch rm where
    "computeResourceChange c (getSubscription w) (useResourceVersion w) = Inr (ch, rm)"
  using assms
  by (cases "computeResourceChange c (getSubscription w) (useResourceVersion w)")
    (auto simp: computeResponse_def)

lemma computeResponse_Some:
  assumes "computeResponse c w reply = Inr (Some resp)"
  obtains ch rm rs K where
    "computeResourceChange c (getSubscription w) (useResourceVersion w) = Inr (ch, rm)"
    "rfold (addReturned c (useResourceVersion w)) (names_to_return c w ch)
       ([], sub_returnedResources (getSubscription w)) = Inr (rs, K)"
    "resp = buildResponse w rs rm (fold AList.delete rm K) (lc_getVersion c)"
proof -
  obtain ch rm where chg: "computeResourceChange c (getSubscription w) (useResourceVersion w) = Inr (ch, rm)"
    by (rule computeResponse_change [OF assms])
  from assms show ?thesis
    unfolding computeResponse_eq [OF chg]
    by (auto split: if_splits sum.splits intro: that [OF chg])
qed

lemma names_to_return_covered:
  assumes ok: "gomap_ok (lc_resources c)"
    and comp: "computeResourceChange c (getSubscription w) rv = Inr (ch, rm)"
  shows "set ch \<subseteq> set (names_to_return c w ch)"
    and "set (names_to_return c w ch) \<subseteq>
      {n. covers (getSubscription w) n \<and> map_of (lc_resources c) n \<noteq> None}"
proof -
  let ?sub = "getSubscription w"
  have ch: "set ch \<subseteq> {n. covers ?sub n \<and> map_of (lc_resources c) n \<noteq> None}"
    using computeResourceChange_Inr(1) [OF ok comp] by auto
  have all: "sub_wildcard ?sub \<Longrightarrow> fst ` set (lc_resources c) =
      {n. covers ?sub n \<and> map_of (lc_resources c) n \<noteq> None}"
    by (auto simp: covers_def map_of_eq_None_iff)
  show "set ch \<subseteq> set (names_to_return c w ch)"
    using ch all by (auto simp: names_to_return_def set_subscribedInCache)
  show "set (names_to_return c w ch) \<subseteq>
      {n. covers ?sub n \<and> map_of (lc_resources c) n \<noteq> None}"
    using ch all by (auto simp: names_to_return_def set_subscribedInCache)
qed

text \<open>The central fact: whatever the kind of watch, the versions recorded with a response are the view.\<close>

lemma response_returns_view:
  assumes ok: "gomap_ok (lc_resources c)"
    and comp: "computeResponse c w reply = Inr (Some resp)"
  shows "map_of (wr_GetReturnedResources resp) =
    linear_view c (getSubscription w) (useResourceVersion w)"
proof -
  let ?sub = "getSubscription w" and ?rv = "useResourceVersion w"
  let ?K = "sub_returnedResources ?sub"
  obtain ch rm rs K where
    chg: "computeResourceChange c ?sub ?rv = Inr (ch, rm)" and
    fld: "rfold (addReturned c ?rv) (names_to_return c w ch) ([], ?K) = Inr (rs, K)" and
    resp: "resp = buildResponse w rs rm (fold AList.delete rm K) (lc_getVersion c)"
    by (rule computeResponse_Some [OF comp])
  note CH = computeResourceChange_Inr [OF ok chg]
  note N = names_to_return_covered [OF ok chg]
  have K: "map_of K = (\<lambda>k. if k \<in> set (names_to_return c w ch) then cached_version c ?rv k
      else map_of ?K k)"
    using rfold_addReturned [OF fld] by blast
  have ret: "map_of (wr_GetReturnedResources resp) n = (if n \<in> set rm then None else map_of K n)" for n
    by (simp add: resp map_of_fold_delete)
  have "map_of (wr_GetReturnedResources resp) n = linear_view c ?sub ?rv n" for n
  proof (cases "covers ?sub n \<and> map_of (lc_resources c) n \<noteq> None")
    case True
    then obtain r where r: "map_of (lc_resources c) n = Some r" by auto
    from True CH(3) have "n \<notin> set rm" by auto
    moreover have "map_of K n = cached_version c ?rv n"
    proof (cases "n \<in> set (names_to_return c w ch)")
      case True
      then show ?thesis by (simp add: K)
    next
      case False
      with N(1) have "n \<notin> set ch" by auto
      with CH(1) True r have "resourceChanged ?K ?rv n r \<noteq> Inr True" by auto
      moreover obtain b where "resourceChanged ?K ?rv n r = Inr b" using CH(2) True r by auto
      ultimately have "resourceChanged ?K ?rv n r = Inr False" by (cases b) auto
      then show ?thesis using False r by (auto simp: resourceChanged_False K cached_version_def)
    qed
    ultimately show ?thesis using True by (simp add: ret linear_view_def)
  next
    case False
    then have view: "linear_view c ?sub ?rv n = None"
      by (auto simp: linear_view_def cached_version_def)
    have "n \<notin> set (names_to_return c w ch)" using N(2) False by auto
    then have "n \<in> set rm \<or> map_of K n = None"
      using False CH(3) by (auto simp: K map_of_eq_None_iff)
    with view show ?thesis by (auto simp: ret)
  qed
  then show ?thesis by blast
qed

lemma rfilter_ex: "(\<And>x. x \<in> set xs \<Longrightarrow> \<exists>b. f x = Inr b) \<Longrightarrow> \<exists>ys. rfilter f xs = Inr ys"
  by (simp add: rfilter_Inr)

lemma computeResourceChange_total:
  assumes "\<forall>n r. map_of (lc_resources c) n = Some r \<longrightarrow> covers sub n \<longrightarrow>
      (\<exists>b. resourceChanged (sub_returnedResources sub) rv n r = Inr b)"
    and "gomap_ok (lc_resources c)"
  shows "\<exists>ch rm. computeResourceChange c sub rv = Inr (ch, rm)"
proof -
  let ?K = "sub_returnedResources sub" and ?R = "lc_resources c"
  have tot: "\<exists>b. resourceChanged ?K rv n r = Inr b" if "(n, r) \<in> set ?R" "covers sub n" for n r
    using assms that by (simp add: map_of_iff)
  show ?thesis
  proof (cases "sub_wildcard sub")
    case True
    obtain ys where "rfilter (\<lambda>(n, r). resourceChanged ?K rv n r) ?R = Inr ys"
      using rfilter_ex [of ?R "\<lambda>(n, r). resourceChanged ?K rv n r"] tot True
      by (auto simp: covers_def)
    with True show ?thesis by (simp add: computeResourceChange_def)
  next
    case False
    let ?sub1 = "\<lambda>n. case map_of ?R n of None \<Rightarrow> Inr False | Some r \<Rightarrow> resourceChanged ?K rv n r"
    let ?sub2 = "\<lambda>(n, r). if n \<in> set (sub_subscribedResourceNames sub) then Inr False
        else if list_ex (\<lambda>p. HasPrefix n p) (sub_subscribedPrefixes sub)
        then resourceChanged ?K rv n r else Inr False"
    have "\<exists>b. ?sub1 n = Inr b" if "n \<in> set (sub_subscribedResourceNames sub)" for n
      using assms(1) that by (auto simp: covers_def split: option.splits)
    then obtain ex where ex: "rfilter ?sub1 (sub_subscribedResourceNames sub) = Inr ex"
      using rfilter_ex [of _ ?sub1] by blast
    have "\<exists>b. ?sub2 x = Inr b" if "x \<in> set ?R" for x
      using tot that by (cases x) (auto simp: covers_def matchesAnyPrefix_def)
    then obtain px where px: "rfilter ?sub2 ?R = Inr px"
      using rfilter_ex [of _ ?sub2] by blast
    show ?thesis
      unfolding computeResourceChange_def Let_def subscription_accessors
      using False ex px by (auto split: sum.splits)
  qed
qed

text \<open>When no response is due.\<close>

lemma computeResponse_None_iff:
  assumes ok: "gomap_ok (lc_resources c)"
  shows "computeResponse c w False = Inr None \<longleftrightarrow>
    (\<forall>n r. map_of (lc_resources c) n = Some r \<longrightarrow> covers (getSubscription w) n \<longrightarrow>
       resourceChanged (sub_returnedResources (getSubscription w)) (useResourceVersion w) n r = Inr False) \<and>
    (isDelta w \<or> sendFullStateResponses w \<longrightarrow>
       (\<forall>n\<in>fst ` set (sub_returnedResources (getSubscription w)).
          map_of (lc_resources c) n \<noteq> None \<and> covers (getSubscription w) n))"
    (is "_ \<longleftrightarrow> ?changed \<and> ?removed")
proof
  let ?sub = "getSubscription w" and ?rv = "useResourceVersion w"
  assume none: "computeResponse c w False = Inr None"
  obtain ch rm where chg: "computeResourceChange c ?sub ?rv = Inr (ch, rm)"
    by (rule computeResponse_change [OF none])
  note CH = computeResourceChange_Inr [OF ok chg]
  have ch: "ch = [] \<and> (isDelta w \<or> sendFullStateResponses w \<longrightarrow> rm = [])"
    using none unfolding computeResponse_eq [OF chg] by (auto split: if_splits sum.splits)
  have ?changed
  proof (intro allI impI)
    fix n r assume n: "map_of (lc_resources c) n = Some r" and cov: "covers ?sub n"
    with CH(2) obtain b where b: "resourceChanged (sub_returnedResources ?sub) ?rv n r = Inr b" by blast
    with n cov CH(1) ch show "resourceChanged (sub_returnedResources ?sub) ?rv n r = Inr False"
      by (cases b) auto
  qed
  moreover have ?removed using CH(3) ch by auto
  ultimately show "?changed \<and> ?removed" ..
next
  let ?sub = "getSubscription w" and ?rv = "useResourceVersion w"
  assume H: "?changed \<and> ?removed"
  obtain ch rm where chg: "computeResourceChange c ?sub ?rv = Inr (ch, rm)"
    using computeResourceChange_total [of c ?sub ?rv] H ok by auto
  note CH = computeResourceChange_Inr [OF ok chg]
  have "n \<notin> set ch" for n using CH(1) H by auto
  then have "ch = []" by (metis list.set_intros(1) neq_Nil_conv)
  moreover have "n \<notin> set rm" if "isDelta w \<or> sendFullStateResponses w" for n
    using CH(3) H that by auto
  then have "isDelta w \<or> sendFullStateResponses w \<longrightarrow> rm = []"
    by (metis list.set_intros(1) neq_Nil_conv)
  ultimately show "computeResponse c w False = Inr None"
    unfolding computeResponse_eq [OF chg] by auto
qed

text \<open>Only resources the subscription covers matter for whether a response is due.\<close>

lemma computeResponse_None_cong:
  assumes "gomap_ok (lc_resources c)" and "gomap_ok (lc_resources c')"
    and "\<And>n. covers (getSubscription w) n \<Longrightarrow> map_of (lc_resources c') n = map_of (lc_resources c) n"
  shows "computeResponse c' w False = Inr None \<longleftrightarrow> computeResponse c w False = Inr None"
proof -
  let ?cov = "covers (getSubscription w)"
  have swap: "(\<forall>n r. A n r \<longrightarrow> C n \<longrightarrow> P n r) \<longleftrightarrow> (\<forall>n. C n \<longrightarrow> (\<forall>r. A n r \<longrightarrow> P n r))"
    for A :: "string \<Rightarrow> cachedResource \<Rightarrow> bool" and C P
    by blast
  have "(\<forall>n r. map_of (lc_resources c') n = Some r \<longrightarrow> ?cov n \<longrightarrow> P n r) \<longleftrightarrow>
      (\<forall>n r. map_of (lc_resources c) n = Some r \<longrightarrow> ?cov n \<longrightarrow> P n r)" for P
    unfolding swap using assms(3) by simp
  moreover have "(\<forall>n\<in>S. map_of (lc_resources c') n \<noteq> None \<and> ?cov n) \<longleftrightarrow>
      (\<forall>n\<in>S. map_of (lc_resources c) n \<noteq> None \<and> ?cov n)" for S
    using assms(3) by (metis (no_types, lifting))
  ultimately show ?thesis
    unfolding computeResponse_None_iff [OF assms(1)] computeResponse_None_iff [OF assms(2)]
    by simp
qed

text \<open>The only error: a covered resource whose version cannot be computed.\<close>

lemma versions_ok_sotw: "versions_ok c sub False"
  by (auto simp: versions_ok_def)

lemma computeResponse_total:
  assumes ok: "gomap_ok (lc_resources c)"
    and ver: "versions_ok c (getSubscription w) (useResourceVersion w)"
  shows "\<exists>x. computeResponse c w reply = Inr x"
proof -
  let ?sub = "getSubscription w" and ?rv = "useResourceVersion w"
  have v: "\<exists>v. cr_getVersion r ?rv = Inr v" if "map_of (lc_resources c) n = Some r" "covers ?sub n" for n r
    using ver that ok by (auto simp: versions_ok_def map_of_iff)
  obtain ch rm where chg: "computeResourceChange c ?sub ?rv = Inr (ch, rm)"
    using computeResourceChange_total [of c ?sub ?rv] v ok resourceChanged_total by metis
  have "cached_version c ?rv n \<noteq> None" if "n \<in> set (names_to_return c w ch)" for n
    using names_to_return_covered(2) [OF ok chg] that v by (fastforce simp: cached_version_def)
  then obtain rs K where "rfold (addReturned c ?rv) (names_to_return c w ch)
      ([], sub_returnedResources ?sub) = Inr (rs, K)"
    using rfold_addReturned_total [of "names_to_return c w ch" c ?rv] by blast
  then show ?thesis unfolding computeResponse_eq [OF chg] by auto
qed

lemma linear_view_eq_iff:
  assumes ok: "gomap_ok (lc_resources c)" and K: "gomap_ok K"
  shows "(\<forall>n r. map_of (lc_resources c) n = Some r \<longrightarrow> covers sub n \<longrightarrow>
            resourceChanged K rv n r = Inr False) \<and>
         (\<forall>n\<in>fst ` set K. map_of (lc_resources c) n \<noteq> None \<and> covers sub n) \<longleftrightarrow>
     versions_ok c sub rv \<and> map_of K = linear_view c sub rv" (is "?L1 \<and> ?L2 \<longleftrightarrow> _")
proof
  assume L: "?L1 \<and> ?L2"
  then have "versions_ok c sub rv"
    using ok by (fastforce simp: versions_ok_def map_of_iff resourceChanged_False)
  moreover have "map_of K n = linear_view c sub rv n" for n
  proof (cases "covers sub n \<and> map_of (lc_resources c) n \<noteq> None")
    case True
    then obtain r where r: "map_of (lc_resources c) n = Some r" "covers sub n" by auto
    with L have "resourceChanged K rv n r = Inr False" by blast
    then obtain v where "cr_getVersion r rv = Inr v" "map_of K n = Some v"
      unfolding resourceChanged_False by blast
    with r show ?thesis by (simp add: linear_view_def cached_version_def)
  next
    case False
    with L have "map_of K n = None" by (auto simp: map_of_in_dom)
    with False show ?thesis by (auto simp: linear_view_def cached_version_def)
  qed
  ultimately show "versions_ok c sub rv \<and> map_of K = linear_view c sub rv" by blast
next
  assume R: "versions_ok c sub rv \<and> map_of K = linear_view c sub rv"
  have ?L1
  proof (intro allI impI)
    fix n r assume n: "map_of (lc_resources c) n = Some r" and cov: "covers sub n"
    then obtain v where "cr_getVersion r rv = Inr v"
      using R ok by (auto simp: versions_ok_def map_of_iff)
    with n cov R show "resourceChanged K rv n r = Inr False"
      by (simp add: resourceChanged_False linear_view_def cached_version_def)
  qed
  moreover have ?L2
  proof
    fix n assume "n \<in> fst ` set K"
    then have "linear_view c sub rv n \<noteq> None" using R map_of_in_dom by metis
    then show "map_of (lc_resources c) n \<noteq> None \<and> covers sub n"
      by (auto simp: linear_view_def cached_version_def split: if_splits option.splits)
  qed
  ultimately show "?L1 \<and> ?L2" ..
qed

lemma delta_None_iff:
  assumes "gomap_ok (lc_resources c)" and "subscription_ok (drw_subscription w)"
  shows "computeResponse c (DeltaWatch w) False = Inr None \<longleftrightarrow>
    versions_ok c (drw_subscription w) True \<and>
    map_of (sub_returnedResources (drw_subscription w)) = linear_view c (drw_subscription w) True"
  using computeResponse_None_iff [OF assms(1), of "DeltaWatch w"]
    linear_view_eq_iff [OF assms(1), of "sub_returnedResources (drw_subscription w)"
      "drw_subscription w" True] assms(2)
  by (simp add: subscription_ok_def)

text \<open>When a response could be computed, every covered resource had a version.\<close>

lemma linear_covered_version:
  assumes ok: "gomap_ok (lc_resources c)" and comp: "computeResponse c w reply = Inr (Some resp)"
    and n: "map_of (lc_resources c) n = Some r" "covers (getSubscription w) n"
  shows "\<exists>v. cr_getVersion r (useResourceVersion w) = Inr v"
proof -
  let ?sub = "getSubscription w" and ?rv = "useResourceVersion w"
  let ?K = "sub_returnedResources ?sub"
  obtain ch rm rs K where
    chg: "computeResourceChange c ?sub ?rv = Inr (ch, rm)" and
    fld: "rfold (addReturned c ?rv) (names_to_return c w ch) ([], ?K) = Inr (rs, K)"
    by (rule computeResponse_Some [OF comp])
  note CH = computeResourceChange_Inr [OF ok chg]
  obtain b where b: "resourceChanged ?K ?rv n r = Inr b" using CH(2) n by blast
  show ?thesis
  proof (cases b)
    case True
    with b n CH(1) names_to_return_covered(1) [OF ok chg] have "n \<in> set (names_to_return c w ch)" by auto
    with rfold_addReturned [OF fld] have "cached_version c ?rv n \<noteq> None" by blast
    with n show ?thesis by (auto simp: cached_version_def split: sum.splits)
  next
    case False
    with b show ?thesis by (simp add: resourceChanged_False) blast
  qed
qed

end
