(* ===== verification/Linear_Watch.thy ===== *)
theory Linear_Watch
  imports Linear_Response
begin

text \<open>
  The watches of the linear cache. The three maps \<open>wildcardWatches\<close>, \<open>resourceWatches\<close> and
  \<open>prefixWatches\<close> implement one table from watch identifiers to open watches (\<open>watch_index\<close>): each
  operation on the maps is the corresponding update of the table. A notification answers and closes
  exactly the watches that are out of date, so no reachable cache keeps a stale watch.
\<close>

section \<open>Definitions\<close>

type_synonym watch_table = "64 word \<rightharpoonup> watch"

definition wildcard_watch :: "watch \<Rightarrow> bool" where
  "wildcard_watch w = sub_wildcard (getSubscription w)"

definition named_watch :: "string \<Rightarrow> watch \<Rightarrow> bool" where
  "named_watch n w \<longleftrightarrow> \<not> wildcard_watch w \<and> n \<in> set (sub_subscribedResourceNames (getSubscription w))"

definition prefix_watch :: "string \<Rightarrow> watch \<Rightarrow> bool" where
  "prefix_watch p w \<longleftrightarrow> \<not> wildcard_watch w \<and> p \<in> set (sub_subscribedPrefixes (getSubscription w))"

definition table_filter :: "(watch \<Rightarrow> bool) \<Rightarrow> watch_table \<Rightarrow> watch_table" where
  "table_filter P T = (\<lambda>i. case T i of None \<Rightarrow> None | Some w \<Rightarrow> if P w then Some w else None)"

definition index_ok :: "(string, watches) gomap \<Rightarrow> bool" where
  "index_ok idx \<longleftrightarrow> gomap_ok idx \<and> (\<forall>(n, ws)\<in>set idx. ws \<noteq> [] \<and> gomap_ok ws)"

definition watch_index :: "watch_table \<Rightarrow> LinearCache \<Rightarrow> bool" where
  "watch_index T c \<longleftrightarrow>
     (\<forall>i\<in>dom T. i \<noteq> 0 \<and> i \<le> lc_currentWatchID c) \<and>
     gomap_ok (lc_wildcardWatches c) \<and> index_ok (lc_resourceWatches c) \<and> index_ok (lc_prefixWatches c) \<and>
     map_of (lc_wildcardWatches c) = table_filter wildcard_watch T \<and>
     (\<forall>n. map_of (gsub (lc_resourceWatches c) n) = table_filter (named_watch n) T) \<and>
     (\<forall>p. map_of (gsub (lc_prefixWatches c) p) = table_filter (prefix_watch p) T)"

definition count_ok :: "watch_table \<Rightarrow> LinearCache \<Rightarrow> bool" where
  "count_ok T c \<longleftrightarrow> finite (dom T) \<and> lc_watchCount c = of_nat (card (dom T))"

text \<open>A watch some map of the cache holds.\<close>

definition tracked :: "LinearCache \<Rightarrow> 64 word \<Rightarrow> watch \<Rightarrow> bool" where
  "tracked c i w \<longleftrightarrow> map_of (lc_wildcardWatches c) i = Some w \<or>
     (\<exists>n. map_of (gsub (lc_resourceWatches c) n) i = Some w) \<or>
     (\<exists>p. map_of (gsub (lc_prefixWatches c) p) i = Some w)"

text \<open>Closing a watch, the way the server's cancel functions and the notification loops do.\<close>

definition close_watch :: "64 word \<Rightarrow> watch \<Rightarrow> LinearCache \<Rightarrow> LinearCache" where
  "close_watch i w c =
     (if wildcard_watch w then removeWildcardWatch i c else removeWatch i (getSubscription w) c)"

section \<open>Lemmas\<close>

lemma table_filter_Some [simp]: "table_filter P T i = Some w \<longleftrightarrow> T i = Some w \<and> P w"
  by (auto simp: table_filter_def split: option.splits)

lemma table_filter_upd:
  "table_filter P (T(i \<mapsto> w)) = (if P w then (table_filter P T)(i \<mapsto> w) else (table_filter P T)(i := None))"
  by (auto simp: table_filter_def fun_eq_iff)

lemma table_filter_del [simp]: "table_filter P (T(i := None)) = (table_filter P T)(i := None)"
  by (auto simp: table_filter_def fun_eq_iff)

lemma table_filter_None: "T i = None \<Longrightarrow> table_filter P T i = None"
  by (simp add: table_filter_def)

subsection \<open>The index maps\<close>

lemma gsub_index_add:
  "gsub (index_add i w n idx) m = (if m = n then AList.update i w (gsub idx n) else gsub idx m)"
  by (simp add: index_add_def)

lemma gsub_index_remove:
  "gsub (index_remove i n idx) m = (if m = n then AList.delete i (gsub idx n) else gsub idx m)"
  by (auto simp: index_remove_def Let_def)

lemma gsub_fold_index_add:
  "map_of (gsub (fold (index_add i w) ns idx) m) =
     (if m \<in> set ns then (map_of (gsub idx m))(i \<mapsto> w) else map_of (gsub idx m))"
  by (induction ns arbitrary: idx) (auto simp: gsub_index_add)

lemma gsub_fold_index_remove:
  "map_of (gsub (fold (index_remove i) ns idx) m) =
     (if m \<in> set ns then (map_of (gsub idx m))(i := None) else map_of (gsub idx m))"
  by (induction ns arbitrary: idx) (auto simp: gsub_index_remove)

lemma gomap_ok_gsub: "index_ok idx \<Longrightarrow> gomap_ok (gsub idx n)"
  by (auto simp: index_ok_def gsub_def map_of_iff split: option.splits)

lemma update_not_Nil [simp]: "AList.update k v m \<noteq> []"
  by (cases m) auto

lemma index_ok_update:
  "index_ok idx \<Longrightarrow> ws \<noteq> [] \<Longrightarrow> gomap_ok ws \<Longrightarrow> index_ok (AList.update n ws idx)"
  by (auto simp: index_ok_def map_of_iff [symmetric] split: if_splits)

lemma index_ok_delete: "index_ok idx \<Longrightarrow> index_ok (AList.delete n idx)"
  by (auto simp: index_ok_def AList.delete_eq)

lemma index_ok_add: "index_ok idx \<Longrightarrow> index_ok (index_add i w n idx)"
  by (simp add: index_add_def index_ok_update gomap_ok_gsub)

lemma index_ok_remove: "index_ok idx \<Longrightarrow> index_ok (index_remove i n idx)"
  by (simp add: index_remove_def Let_def index_ok_update index_ok_delete gomap_ok_gsub)

lemma index_ok_fold_add: "index_ok idx \<Longrightarrow> index_ok (fold (index_add i w) ns idx)"
  by (induction ns arbitrary: idx) (auto simp: index_ok_add)

lemma index_ok_fold_remove: "index_ok idx \<Longrightarrow> index_ok (fold (index_remove i) ns idx)"
  by (induction ns arbitrary: idx) (auto simp: index_ok_remove)

lemma index_entry:
  assumes "index_ok idx"
  shows "(n, ws) \<in> set idx \<longleftrightarrow> ws = gsub idx n \<and> ws \<noteq> []"
  using assms by (force simp: index_ok_def gsub_def map_of_iff [symmetric] split: option.splits)

subsection \<open>Opening and closing watches\<close>

lemma watch_index_fresh:
  assumes "watch_index T c" and "lc_currentWatchID c + 1 \<noteq> 0"
  shows "T (lc_currentWatchID c + 1) = None"
proof (rule ccontr)
  assume "T (lc_currentWatchID c + 1) \<noteq> None"
  with assms(1) have "lc_currentWatchID c + 1 \<le> lc_currentWatchID c"
    by (auto simp: watch_index_def)
  with word_less_inc [OF assms(2)] show False by simp
qed

lemma trackWatch_index:
  assumes inv: "watch_index T c" and id: "lc_currentWatchID c + 1 \<noteq> 0"
  shows "\<exists>cn. trackWatch c w = (fst (trackWatch c w), Inr cn)"
    and "watch_index (T(lc_currentWatchID c + 1 \<mapsto> w)) (fst (trackWatch c w))"
    and "lc_watchCount (fst (trackWatch c w)) = lc_watchCount c + 1"
    and "lc_resources (fst (trackWatch c w)) = lc_resources c"
    and "lc_getVersion (fst (trackWatch c w)) = lc_getVersion c"
proof -
  let ?i = "lc_currentWatchID c + 1"
  have fresh: "T ?i = None" by (rule watch_index_fresh [OF assms])
  have le: "lc_currentWatchID c \<le> ?i" using word_less_inc [OF id] by simp
  have none: "(table_filter P T)(?i := None) = table_filter P T" for P
    using fresh by (auto simp: fun_eq_iff table_filter_def)
  show "\<exists>cn. trackWatch c w = (fst (trackWatch c w), Inr cn)"
    using id by (auto simp: trackWatch_def nextWatchID_def Let_def)
  show "watch_index (T(?i \<mapsto> w)) (fst (trackWatch c w))"
    using inv id le none
    by (auto simp: watch_index_def trackWatch_def nextWatchID_def Let_def table_filter_upd
        gsub_fold_index_add index_ok_fold_add wildcard_watch_def named_watch_def prefix_watch_def
        intro: order_trans)
  show "lc_watchCount (fst (trackWatch c w)) = lc_watchCount c + 1"
    "lc_resources (fst (trackWatch c w)) = lc_resources c"
    "lc_getVersion (fst (trackWatch c w)) = lc_getVersion c"
    using id by (auto simp: trackWatch_def nextWatchID_def Let_def lc_getVersion_def)
qed

text \<open>Closing a watch removes it from the table; closing one that is no longer there changes no map.\<close>

lemma close_watch_index:
  assumes inv: "watch_index T c" and own: "T i = Some w \<or> T i = None"
  shows "watch_index (T(i := None)) (close_watch i w c)"
proof -
  have same: "(table_filter P T)(i := None) = table_filter P T" if "\<not> P w" for P
    using own that by (auto simp: fun_eq_iff table_filter_def)
  show ?thesis
    using inv same
    by (auto simp: watch_index_def close_watch_def removeWildcardWatch_def removeWatch_def
        gsub_fold_index_remove index_ok_fold_remove wildcard_watch_def named_watch_def prefix_watch_def)
qed

lemma close_watch_frame [simp]:
  "lc_resources (close_watch i w c) = lc_resources c"
  "lc_version (close_watch i w c) = lc_version c"
  "lc_versionPrefix (close_watch i w c) = lc_versionPrefix c"
  "lc_typeURL (close_watch i w c) = lc_typeURL c"
  "lc_currentWatchID (close_watch i w c) = lc_currentWatchID c"
  "lc_watchCount (close_watch i w c) = lc_watchCount c - 1"
  by (simp_all add: close_watch_def removeWildcardWatch_def removeWatch_def)

lemma count_ok_close:
  assumes "count_ok T c" and "T i = Some w"
  shows "count_ok (T(i := None)) (close_watch i w c)"
proof -
  have "finite (dom T)" and "i \<in> dom T" using assms by (auto simp: count_ok_def)
  then have "card (dom T) = Suc (card (dom T - {i}))" by (rule card.remove)
  with assms show ?thesis by (simp add: count_ok_def)
qed

lemma count_ok_track:
  assumes "watch_index T c" and "count_ok T c" and "lc_currentWatchID c + 1 \<noteq> 0"
  shows "count_ok (T(lc_currentWatchID c + 1 \<mapsto> w)) (fst (trackWatch c w))"
  using watch_index_fresh [OF assms(1,3)] trackWatch_index(3) [OF assms(1,3)] assms(2)
  by (simp add: count_ok_def domIff insert_absorb card_insert_if algebra_simps)

end
