(* ===== verification/Linear_Notify.thy ===== *)
theory Linear_Notify
  imports Linear_Watch
begin

text \<open>
  Notification of the linear cache's watches, and the runs of the cache. \<open>linear_run m c cs M\<close> holds when
  \<open>c\<close> is reached from a new cache by updates, watch creations and calls of the cancel functions, in any
  order and number; \<open>cs\<close> holds every cancel function handed out so far. An update may report an error: its
  notification stops at the first watch whose response cannot be computed, and the watches after it
  learn nothing of the change. \<open>M\<close> holds the names that such updates changed and that no later
  update without error has changed again.
\<close>

section \<open>Definitions\<close>

text \<open>The table after a notification that got through the watches \<open>ws\<close>: those of them for which a response
  was due are closed.\<close>

definition close_visited :: "LinearCache \<Rightarrow> watches \<Rightarrow> watch_table \<Rightarrow> watch_table" where
  "close_visited c ws T =
     (\<lambda>i. if \<exists>w. (i, w) \<in> set ws \<and> computeResponse c w False \<noteq> Inr None then None else T i)"

text \<open>The watches that a change of the names \<open>ns\<close> concerns. A notification that reports the error \<open>e\<close> got through
  some of them, one without error through all.\<close>

definition hit :: "string list \<Rightarrow> watch \<Rightarrow> bool" where
  "hit ns w \<longleftrightarrow> wildcard_watch w \<or> (\<exists>n\<in>set ns. covers (getSubscription w) n)"

definition visits :: "LinearCache \<Rightarrow> watch_table \<Rightarrow> string list \<Rightarrow> watches \<Rightarrow> error option \<Rightarrow> bool" where
  "visits c T ns ws e \<longleftrightarrow> gomap_ok ws \<and> (\<forall>(i, w)\<in>set ws. T i = Some w \<and> hit ns w) \<and>
     (case e of
        None \<Rightarrow> \<forall>i w. T i = Some w \<longrightarrow> hit ns w \<longrightarrow> (i, w) \<in> set ws
      | Some x \<Rightarrow> \<exists>i w. T i = Some w \<and> hit ns w \<and> computeResponse c w False = Inl x)"

text \<open>No open watch is out of date, except perhaps those that cover a name of \<open>M\<close>.\<close>

definition misses :: "string set \<Rightarrow> watch \<Rightarrow> bool" where
  "misses M w \<longleftrightarrow> (\<exists>n\<in>M. covers (getSubscription w) n)"

definition no_stale :: "string set \<Rightarrow> watch_table \<Rightarrow> LinearCache \<Rightarrow> bool" where
  "no_stale M T c \<longleftrightarrow> (\<forall>i w. T i = Some w \<longrightarrow> \<not> misses M w \<longrightarrow> computeResponse c w False = Inr None)"

text \<open>The update operations.\<close>

datatype linear_op =
    OpUpdate string Resource
  | OpDelete string
  | OpUpdateAll "(string, Resource) gomap" "string list"
  | OpSet "(string, Resource) gomap"

fun linear_apply :: "marshaler \<Rightarrow> linear_op \<Rightarrow> LinearCache \<Rightarrow> LinearCache \<times> sends \<times> error option" where
  "linear_apply m (OpUpdate n r) c = UpdateResource m n r c"
| "linear_apply m (OpDelete n) c = DeleteResource n c"
| "linear_apply m (OpUpdateAll us ds) c = UpdateResources m us ds c"
| "linear_apply m (OpSet rs) c = SetResources m rs c"

text \<open>The state right before the notification of an operation, and the names it reports.\<close>

fun linear_write :: "marshaler \<Rightarrow> linear_op \<Rightarrow> LinearCache \<Rightarrow> LinearCache" where
  "linear_write m (OpUpdate n r) c =
     (let c' = c\<lparr>lc_version := lc_version c + 1\<rparr>
      in c'\<lparr>lc_resources := AList.update n (newCachedResource m n r (lc_getVersion c')) (lc_resources c)\<rparr>)"
| "linear_write m (OpDelete n) c =
     c\<lparr>lc_version := lc_version c + 1, lc_resources := AList.delete n (lc_resources c)\<rparr>"
| "linear_write m (OpUpdateAll us ds) c =
     (let c' = c\<lparr>lc_version := lc_version c + 1\<rparr>
      in c'\<lparr>lc_resources := fold AList.delete ds
            (fold (\<lambda>(n, r) a. AList.update n (newCachedResource m n r (lc_getVersion c')) a) us
               (lc_resources c))\<rparr>)"
| "linear_write m (OpSet rs) c =
     (let c' = c\<lparr>lc_version := lc_version c + 1\<rparr>
      in c'\<lparr>lc_resources :=
            fold (\<lambda>(n, r) a. AList.update n (newCachedResource m n r (lc_getVersion c')) a) rs
              (fold AList.delete (filter (\<lambda>n. map_of rs n = None) (map fst (lc_resources c)))
                 (lc_resources c))\<rparr>)"

fun linear_modified :: "linear_op \<Rightarrow> LinearCache \<Rightarrow> string list" where
  "linear_modified (OpUpdate n r) c = [n]"
| "linear_modified (OpDelete n) c = [n]"
| "linear_modified (OpUpdateAll us ds) c = map fst us @ ds"
| "linear_modified (OpSet rs) c =
     filter (\<lambda>n. map_of rs n = None) (map fst (lc_resources c)) @ map fst rs"

text \<open>The one update that is refused before it changes anything, and what an update does to \<open>M\<close>.\<close>

fun rejected :: "linear_op \<Rightarrow> bool" where
  "rejected (OpUpdate n r) \<longleftrightarrow> r = MNil"
| "rejected _ \<longleftrightarrow> False"

definition missed :: "linear_op \<Rightarrow> LinearCache \<Rightarrow> error option \<Rightarrow> string set \<Rightarrow> string set" where
  "missed op c e M =
     (if rejected op then M
      else case e of
        None \<Rightarrow> M - set (linear_modified op c)
      | Some x \<Rightarrow> M \<union> set (linear_modified op c))"

inductive linear_run :: "marshaler \<Rightarrow> LinearCache \<Rightarrow> cancel set \<Rightarrow> string set \<Rightarrow> bool" for m where
  run_new: "linear_run m (NewLinearCache m typeURL opts) {} {}"
| run_update: "linear_run m c cs M \<Longrightarrow> linear_apply m op c = (c', out, e) \<Longrightarrow>
    linear_run m c' cs (missed op c e M)"
| run_CreateWatch: "linear_run m c cs M \<Longrightarrow>
    lc_CreateWatch req sub ch c = (c', out, Inr cn) \<Longrightarrow> linear_run m c' (insert cn cs) M"
| run_CreateDeltaWatch: "linear_run m c cs M \<Longrightarrow>
    lc_CreateDeltaWatch dreq sub ch c = (c', out, Inr cn) \<Longrightarrow> linear_run m c' (insert cn cs) M"
| run_cancel: "linear_run m c cs M \<Longrightarrow> cn \<in> cs \<Longrightarrow> linear_run m (runCancel cn c) cs M"

inductive_cases linear_run_cases: "linear_run m c cs M"

text \<open>A cancel function belongs to the watch of its identifier, if that is still open.\<close>

fun cancel_ok :: "watch_table \<Rightarrow> LinearCache \<Rightarrow> cancel \<Rightarrow> bool" where
  "cancel_ok T c (CancelWildcard i) \<longleftrightarrow> i \<le> lc_currentWatchID c \<and> (\<forall>w. T i = Some w \<longrightarrow> wildcard_watch w)"
| "cancel_ok T c (CancelWatch i sub) \<longleftrightarrow> i \<le> lc_currentWatchID c \<and> \<not> sub_wildcard sub \<and>
     (\<forall>w. T i = Some w \<longrightarrow> \<not> wildcard_watch w \<and> getSubscription w = sub)"
| "cancel_ok T c _ \<longleftrightarrow> True"

definition run_inv :: "string set \<Rightarrow> watch_table \<Rightarrow> LinearCache \<Rightarrow> cancel set \<Rightarrow> bool" where
  "run_inv M T c cs \<longleftrightarrow> linear_ok c \<and> watch_index T c \<and> no_stale M T c \<and> (\<forall>cn\<in>cs. cancel_ok T c cn)"

section \<open>Lemmas\<close>

subsection \<open>Which watches a change triggers\<close>

lemma merge_Some_iff:
  assumes "map_of a \<subseteq>\<^sub>m T" and "map_of b \<subseteq>\<^sub>m T"
  shows "map_of (AList.merge a b) i = Some w \<longleftrightarrow> map_of a i = Some w \<or> map_of b i = Some w"
    and "map_of (AList.merge a b) \<subseteq>\<^sub>m T"
proof -
  have "map_of a i = Some w \<Longrightarrow> map_of b i = Some v \<Longrightarrow> v = w" for i v w
    using assms by (metis domI map_le_def option.inject)
  then show eq: "map_of (AList.merge a b) i = Some w \<longleftrightarrow> map_of a i = Some w \<or> map_of b i = Some w" for i w
    by (auto simp: map_add_Some_iff) (metis not_Some_eq)
  show "map_of (AList.merge a b) \<subseteq>\<^sub>m T"
    unfolding map_le_def
  proof
    fix i assume "i \<in> dom (map_of (AList.merge a b))"
    then obtain w where "map_of (AList.merge a b) i = Some w" by (meson domD)
    then show "map_of (AList.merge a b) i = T i"
      using eq [of i w] assms by (metis domI map_le_def)
  qed
qed

lemma fold_merge_prefix:
  assumes "\<forall>(p, pw)\<in>set idx. map_of pw \<subseteq>\<^sub>m T" and "map_of a \<subseteq>\<^sub>m T"
  shows "map_of (fold (\<lambda>(p, pw) a. if HasPrefix n p then AList.merge a pw else a) idx a) \<subseteq>\<^sub>m T \<and>
    (map_of (fold (\<lambda>(p, pw) a. if HasPrefix n p then AList.merge a pw else a) idx a) i = Some w \<longleftrightarrow>
      map_of a i = Some w \<or> (\<exists>(p, pw)\<in>set idx. HasPrefix n p \<and> map_of pw i = Some w))"
  using assms
proof (induction idx arbitrary: a)
  case (Cons e idx)
  obtain p pw where e: "e = (p, pw)" by (cases e)
  let ?a = "if HasPrefix n p then AList.merge a pw else a"
  have le: "map_of pw \<subseteq>\<^sub>m T" using Cons.prems e by simp
  have "map_of ?a \<subseteq>\<^sub>m T" using merge_Some_iff(2) Cons.prems(2) le by auto
  moreover have "map_of ?a i = Some w \<longleftrightarrow>
      map_of a i = Some w \<or> HasPrefix n p \<and> map_of pw i = Some w"
    using merge_Some_iff(1) [OF Cons.prems(2) le] by auto
  ultimately show ?case using Cons.IH [of ?a] Cons.prems e by (simp split del: if_split)
qed auto

lemma table_filter_le: "table_filter P T \<subseteq>\<^sub>m T"
  unfolding map_le_def by (metis domD table_filter_Some)

lemma prefix_entry_watch:
  assumes inv: "watch_index T c"
  shows "(\<exists>(p, pw)\<in>set (lc_prefixWatches c). HasPrefix n p \<and> map_of pw i = Some w) \<longleftrightarrow>
    T i = Some w \<and> (\<exists>p. HasPrefix n p \<and> prefix_watch p w)"
proof -
  have ok: "index_ok (lc_prefixWatches c)"
    and sub: "\<And>p. map_of (gsub (lc_prefixWatches c) p) = table_filter (prefix_watch p) T"
    using inv by (auto simp: watch_index_def)
  have "(\<exists>(p, pw)\<in>set (lc_prefixWatches c). HasPrefix n p \<and> map_of pw i = Some w) \<longleftrightarrow>
      (\<exists>p. HasPrefix n p \<and> map_of (gsub (lc_prefixWatches c) p) i = Some w)"
  proof
    assume "\<exists>(p, pw)\<in>set (lc_prefixWatches c). HasPrefix n p \<and> map_of pw i = Some w"
    then obtain p pw where "(p, pw) \<in> set (lc_prefixWatches c)" "HasPrefix n p" "map_of pw i = Some w"
      by blast
    then show "\<exists>p. HasPrefix n p \<and> map_of (gsub (lc_prefixWatches c) p) i = Some w"
      by (auto simp: index_entry [OF ok])
  next
    assume "\<exists>p. HasPrefix n p \<and> map_of (gsub (lc_prefixWatches c) p) i = Some w"
    then obtain p where p: "HasPrefix n p" "map_of (gsub (lc_prefixWatches c) p) i = Some w" by blast
    then have "gsub (lc_prefixWatches c) p \<noteq> []" by auto
    then have "(p, gsub (lc_prefixWatches c) p) \<in> set (lc_prefixWatches c)"
      by (simp add: index_entry [OF ok])
    with p show "\<exists>(p, pw)\<in>set (lc_prefixWatches c). HasPrefix n p \<and> map_of pw i = Some w" by blast
  qed
  then show ?thesis by (auto simp: sub)
qed

lemma covers_named_or_prefix:
  "\<not> wildcard_watch w \<and> covers (getSubscription w) n \<longleftrightarrow>
     named_watch n w \<or> (\<exists>p. HasPrefix n p \<and> prefix_watch p w)"
  by (auto simp: covers_def named_watch_def prefix_watch_def wildcard_watch_def matchesAnyPrefix_iff)



lemma triggeredWatches_iff:
  assumes inv: "watch_index T c"
  shows "map_of (triggeredWatches c ns) i = Some w \<longleftrightarrow>
    T i = Some w \<and> \<not> wildcard_watch w \<and> (\<exists>n\<in>set ns. covers (getSubscription w) n)"
proof -
  let ?step = "\<lambda>n a. fold (\<lambda>(p, pw) a. if HasPrefix n p then AList.merge a pw else a)
      (lc_prefixWatches c) (AList.merge a (gsub (lc_resourceWatches c) n))"
  have idx: "index_ok (lc_prefixWatches c)" using inv by (simp add: watch_index_def)
  have rw: "map_of (gsub (lc_resourceWatches c) n) = table_filter (named_watch n) T" for n
    using inv by (simp add: watch_index_def)
  have pw: "\<forall>(p, pw)\<in>set (lc_prefixWatches c). map_of pw \<subseteq>\<^sub>m T"
    using inv index_entry [OF idx] table_filter_le by (fastforce simp: watch_index_def)
  have step: "map_of (?step n a) \<subseteq>\<^sub>m T \<and> (map_of (?step n a) i = Some w \<longleftrightarrow>
      map_of a i = Some w \<or> T i = Some w \<and> \<not> wildcard_watch w \<and> covers (getSubscription w) n)"
    if a: "map_of a \<subseteq>\<^sub>m T" for n a
  proof -
    let ?b = "AList.merge a (gsub (lc_resourceWatches c) n)"
    have le: "map_of (gsub (lc_resourceWatches c) n) \<subseteq>\<^sub>m T" by (simp add: rw table_filter_le)
    have b: "map_of ?b \<subseteq>\<^sub>m T" by (rule merge_Some_iff(2) [OF a le])
    have "map_of ?b i = Some w \<longleftrightarrow> map_of a i = Some w \<or> T i = Some w \<and> named_watch n w"
      unfolding merge_Some_iff(1) [OF a le] rw by simp
    then show ?thesis
      using fold_merge_prefix [OF pw b, of n i w]
      unfolding prefix_entry_watch [OF inv] covers_named_or_prefix by argo
  qed
  have "map_of (fold ?step ns a) \<subseteq>\<^sub>m T \<and> (map_of (fold ?step ns a) i = Some w \<longleftrightarrow>
      map_of a i = Some w \<or>
      T i = Some w \<and> \<not> wildcard_watch w \<and> (\<exists>n\<in>set ns. covers (getSubscription w) n))"
    if "map_of a \<subseteq>\<^sub>m T" for a
    using that
  proof (induction ns arbitrary: a)
    case (Cons n ns)
    from step [OF Cons.prems, of n] Cons.IH [of "?step n a"] show ?case by auto
  qed auto
  from this [of "[]"] show ?thesis by (simp add: triggeredWatches_def)
qed

lemma gomap_ok_triggered: "gomap_ok (triggeredWatches c ns)"
proof -
  have inner: "gomap_ok a \<Longrightarrow> gomap_ok (fold (\<lambda>(p, pw) a. if HasPrefix n p then AList.merge a pw else a) idx a)"
    for n idx and a :: watches
    by (rule fold_keeps [of gomap_ok]) (auto split: prod.splits)
  show ?thesis unfolding triggeredWatches_def
    by (rule fold_keeps [of gomap_ok]) (auto intro: inner)
qed

subsection \<open>The notification loops\<close>

lemma computeResourceChange_cong:
  assumes "lc_resources c' = lc_resources c"
  shows "computeResourceChange c' sub rv = computeResourceChange c sub rv"
  unfolding computeResourceChange_def Let_def assms ..

lemma addReturned_cong:
  "lc_resources c' = lc_resources c \<Longrightarrow> addReturned c' rv = addReturned c rv"
  by (simp add: addReturned_def fun_eq_iff)

lemma computeResponse_cong:
  assumes "lc_resources c' = lc_resources c" and "lc_getVersion c' = lc_getVersion c"
  shows "computeResponse c' w reply = computeResponse c w reply"
  unfolding computeResponse_def Let_def subscribedInCache_def computeResourceChange_cong [OF assms(1)]
    addReturned_cong [OF assms(1)] assms ..

lemma lc_getVersion_close [simp]: "lc_getVersion (close_watch i w c) = lc_getVersion c"
  by (simp add: lc_getVersion_def)

lemma notifyLoop_cong:
  "(\<And>i w c. (i, w) \<in> set ws \<Longrightarrow> rem i w c = rem' i w c) \<Longrightarrow>
     notifyLoop rem ws c out = notifyLoop rem' ws c out"
proof (induction ws arbitrary: c out)
  case (Cons e ws)
  then show ?case by (cases e) (auto split: sum.splits option.splits)
qed simp

text \<open>A loop without error closes and answers the due watches of its list and nothing else.\<close>

lemma notifyLoop_None:
  assumes "notifyLoop close_watch ws c out = (c', out', None)"
  shows "c' = fold (\<lambda>(i, w). close_watch i w) (filter (\<lambda>(i, w). computeResponse c w False \<noteq> Inr None) ws) c \<and>
    (\<forall>(i, w)\<in>set ws. \<exists>x. computeResponse c w False = Inr x)"
  using assms
proof (induction ws arbitrary: c out)
  case (Cons e ws)
  obtain i w where e: "e = (i, w)" by (cases e)
  show ?case
  proof (cases "computeResponse c w False")
    case (Inl err)
    with Cons.prems(1) e show ?thesis by simp
  next
    case (Inr x)
    show ?thesis
    proof (cases x)
      case None
      with Inr Cons e show ?thesis by simp
    next
      case (Some resp)
      let ?c = "close_watch i w c"
      have same: "computeResponse ?c v False = computeResponse c v False" for v
        by (rule computeResponse_cong) simp_all
      have "notifyLoop close_watch ws ?c (out @ [sendResponse w resp]) = (c', out', None)"
        using Cons.prems e Inr Some by simp
      from Cons.IH [OF this] e Inr Some show ?thesis by (simp add: same)
    qed
  qed
qed simp

lemma fold_close_index:
  assumes "watch_index T c" and "gomap_ok ws" and "\<And>i w. (i, w) \<in> set ws \<Longrightarrow> T i = Some w"
  shows "watch_index (\<lambda>i. if map_of ws i = None then T i else None) (fold (\<lambda>(i, w). close_watch i w) ws c)"
  using assms
proof (induction ws arbitrary: T c)
  case (Cons e ws)
  obtain i w where e: "e = (i, w)" by (cases e)
  have inv: "watch_index (T(i := None)) (close_watch i w c)"
    using close_watch_index Cons.prems(1,3) e by simp
  have notin: "i \<notin> fst ` set ws" using Cons.prems(2) e by simp
  have ok: "gomap_ok ws" using Cons.prems(2) by simp
  have own: "(T(i := None)) j = Some v" if "(j, v) \<in> set ws" for j v
    using that notin Cons.prems(3) [of j v] by force
  from Cons.IH [OF inv ok own]
  have "watch_index (\<lambda>j. if map_of ws j = None then (T(i := None)) j else None)
      (fold (\<lambda>(i, w). close_watch i w) ws (close_watch i w c))" .
  moreover have "(\<lambda>j. if map_of ws j = None then (T(i := None)) j else None) =
      (\<lambda>j. if map_of (e # ws) j = None then T j else None)"
    by (auto simp: e fun_eq_iff)
  ultimately show ?case by (simp add: e)
qed simp

lemma fold_close_count:
  assumes "count_ok T c" and "gomap_ok ws" and "\<And>i w. (i, w) \<in> set ws \<Longrightarrow> T i = Some w"
  shows "count_ok (\<lambda>i. if map_of ws i = None then T i else None) (fold (\<lambda>(i, w). close_watch i w) ws c)"
  using assms
proof (induction ws arbitrary: T c)
  case (Cons e ws)
  obtain i w where e: "e = (i, w)" by (cases e)
  have inv: "count_ok (T(i := None)) (close_watch i w c)"
    using count_ok_close Cons.prems(1,3) e by simp
  have notin: "i \<notin> fst ` set ws" using Cons.prems(2) e by simp
  have own: "(T(i := None)) j = Some v" if "(j, v) \<in> set ws" for j v
    using that notin Cons.prems(3) [of j v] by force
  from Cons.IH [OF inv _ own] Cons.prems(2)
  have "count_ok (\<lambda>j. if map_of ws j = None then (T(i := None)) j else None)
      (fold (\<lambda>(i, w). close_watch i w) ws (close_watch i w c))" by simp
  moreover have "(\<lambda>j. if map_of ws j = None then (T(i := None)) j else None) =
      (\<lambda>j. if map_of (e # ws) j = None then T j else None)"
    by (auto simp: e fun_eq_iff)
  ultimately show ?case by (simp add: e)
qed simp

lemma fold_close_frame:
  "lc_resources (fold (\<lambda>(i, w). close_watch i w) ws c) = lc_resources c"
  "lc_getVersion (fold (\<lambda>(i, w). close_watch i w) ws c) = lc_getVersion c"
  "lc_typeURL (fold (\<lambda>(i, w). close_watch i w) ws c) = lc_typeURL c"
  "lc_version (fold (\<lambda>(i, w). close_watch i w) ws c) = lc_version c"
  "lc_currentWatchID (fold (\<lambda>(i, w). close_watch i w) ws c) = lc_currentWatchID c"
  by (induction ws arbitrary: c) auto

subsection \<open>A whole notification\<close>

lemma in_triggered:
  assumes "watch_index T c" and "(i, w) \<in> set (triggeredWatches c ns)"
  shows "T i = Some w \<and> \<not> wildcard_watch w"
  using assms triggeredWatches_iff [OF assms(1)] by (simp add: map_of_iff [OF gomap_ok_triggered, symmetric])

lemma in_wildcard:
  assumes "watch_index T c"
  shows "(i, w) \<in> set (lc_wildcardWatches c) \<longleftrightarrow> T i = Some w \<and> wildcard_watch w"
  using assms by (simp add: map_of_iff [symmetric] watch_index_def)

text \<open>One loop without error, on the table.\<close>

lemma notifyLoop_table:
  assumes inv: "watch_index T c" and ok: "gomap_ok ws"
    and own: "\<And>i w. (i, w) \<in> set ws \<Longrightarrow> T i = Some w"
    and loop: "notifyLoop close_watch ws c out = (c', out', None)"
  defines "T' \<equiv> \<lambda>i. if \<exists>w. (i, w) \<in> set ws \<and> computeResponse c w False \<noteq> Inr None then None else T i"
  shows "watch_index T' c'" and "count_ok T c \<Longrightarrow> count_ok T' c'"
    and "lc_resources c' = lc_resources c" and "lc_getVersion c' = lc_getVersion c"
    and "lc_currentWatchID c' = lc_currentWatchID c"
    and "(i, w) \<in> set ws \<Longrightarrow> \<exists>x. computeResponse c w False = Inr x"
proof -
  let ?due = "filter (\<lambda>(i, w). computeResponse c w False \<noteq> Inr None) ws"
  have c': "c' = fold (\<lambda>(i, w). close_watch i w) ?due c"
    and tot: "\<forall>(i, w)\<in>set ws. \<exists>x. computeResponse c w False = Inr x"
    using notifyLoop_None [OF loop] by auto
  have T': "T' = (\<lambda>i. if map_of ?due i = None then T i else None)"
    by (auto simp: T'_def fun_eq_iff map_of_eq_None_iff image_iff split: if_splits)
  have due: "gomap_ok ?due" "\<And>i w. (i, w) \<in> set ?due \<Longrightarrow> T i = Some w"
    using ok own by (auto intro: gomap_ok_filter)
  show "watch_index T' c'" unfolding T' c' by (rule fold_close_index [OF inv due])
  show "count_ok T' c'" if "count_ok T c" unfolding T' c' by (rule fold_close_count [OF that due])
  show "lc_resources c' = lc_resources c" "lc_getVersion c' = lc_getVersion c"
    "lc_currentWatchID c' = lc_currentWatchID c"
    by (simp_all add: c' fold_close_frame)
  show "\<exists>x. computeResponse c w False = Inr x" if "(i, w) \<in> set ws" using tot that by blast
qed

text \<open>The responses a notification sends: one for each due watch.\<close>

lemma notifyLoop_sends:
  assumes "notifyLoop close_watch ws c out = (c', out', None)"
  shows "set out' = set out \<union>
    {sendResponse w resp |i w resp. (i, w) \<in> set ws \<and> computeResponse c w False = Inr (Some resp)}"
  using assms
proof (induction ws arbitrary: c out)
  case (Cons e ws)
  obtain i w where e: "e = (i, w)" by (cases e)
  consider (err) x where "computeResponse c w False = Inl x" | (none) "computeResponse c w False = Inr None"
    | (some) resp where "computeResponse c w False = Inr (Some resp)"
    by (metis not_None_eq obj_sumE)
  then show ?case
  proof cases
    case err
    with Cons.prems(1) e show ?thesis by simp
  next
    case none
    with Cons.prems e have "set out' = set out \<union>
      {sendResponse w resp |i w resp. (i, w) \<in> set ws \<and> computeResponse c w False = Inr (Some resp)}"
      by (intro Cons.IH) simp_all
    with none e show ?thesis by auto
  next
    case some
    let ?c = "close_watch i w c"
    have same: "computeResponse ?c v False = computeResponse c v False" for v
      by (rule computeResponse_cong) simp_all
    have "set out' = set (out @ [sendResponse w resp]) \<union>
      {sendResponse w resp |i w resp. (i, w) \<in> set ws \<and> computeResponse ?c w False = Inr (Some resp)}"
      using Cons.prems e some by (intro Cons.IH) simp_all
    with some e same show ?thesis by auto
  qed
qed simp

text \<open>A loop that stops with an error is the loop over the watches before the one that failed.\<close>

lemma notifyLoop_prefix:
  assumes "notifyLoop rem ws c out = (c', out', e)"
  obtains ws1 ws2 where "ws = ws1 @ ws2" "notifyLoop rem ws1 c out = (c', out', None)"
    "case e of None \<Rightarrow> ws2 = [] | Some x \<Rightarrow> \<exists>i w ws3. ws2 = (i, w) # ws3 \<and> computeResponse c' w False = Inl x"
proof -
  have "\<exists>ws1 ws2. ws = ws1 @ ws2 \<and> notifyLoop rem ws1 c out = (c', out', None) \<and>
      (case e of None \<Rightarrow> ws2 = [] | Some x \<Rightarrow> \<exists>i w ws3. ws2 = (i, w) # ws3 \<and> computeResponse c' w False = Inl x)"
    using assms
  proof (induction ws arbitrary: c out)
    case (Cons p ws)
    obtain i w where p: "p = (i, w)" by (cases p)
    show ?case
    proof (cases "computeResponse c w False")
      case (Inl x)
      with Cons.prems p show ?thesis by (intro exI [of _ "[]"] exI [of _ "p # ws"]) auto
    next
      case (Inr resp)
      let ?c = "if resp = None then c else rem i w c"
        and ?out = "case resp of None \<Rightarrow> out | Some r \<Rightarrow> out @ [sendResponse w r]"
      have "notifyLoop rem ws ?c ?out = (c', out', e)" using Cons.prems p Inr by (cases resp) auto
      from Cons.IH [OF this] obtain ws1 ws2 where
        "ws = ws1 @ ws2" "notifyLoop rem ws1 ?c ?out = (c', out', None)"
        "case e of None \<Rightarrow> ws2 = [] | Some x \<Rightarrow> \<exists>i w ws3. ws2 = (i, w) # ws3 \<and> computeResponse c' w False = Inl x"
        by blast
      with p Inr show ?thesis by (intro exI [of _ "p # ws1"] exI [of _ ws2]) (auto split: option.splits)
    qed
  qed simp
  with that show thesis by blast
qed

lemma notifyLoop_append:
  "notifyLoop rem ws1 c out = (c1, out1, None) \<Longrightarrow>
     notifyLoop rem (ws1 @ ws2) c out = notifyLoop rem ws2 c1 out1"
proof (induction ws1 arbitrary: c out)
  case (Cons p ws1)
  then show ?case by (cases p) (auto split: sum.splits option.splits)
qed simp

lemma notifyLoop_same:
  assumes "notifyLoop close_watch ws c out = (c', out', None)"
  shows "computeResponse c' w reply = computeResponse c w reply"
  using notifyLoop_None [OF assms] by (intro computeResponse_cong) (auto simp: fold_close_frame)

text \<open>A whole notification is one loop over the watches it gets through, triggered ones first.\<close>

lemma notifyAll_visits:
  assumes inv: "watch_index T c" and run: "notifyAll c ns = (c', out, e)"
  obtains ws where "visits c T ns ws e" "notifyLoop close_watch ws c [] = (c', out, None)"
proof -
  let ?tw = "triggeredWatches c ns"
  have tw: "(i, w) \<in> set ?tw \<longleftrightarrow> T i = Some w \<and> \<not> wildcard_watch w \<and> (\<exists>n\<in>set ns. covers (getSubscription w) n)" for i w
    using triggeredWatches_iff [OF inv] by (simp add: map_of_iff [OF gomap_ok_triggered, symmetric])
  obtain c1 out1 e1 where l1: "notifyLoop (\<lambda>i w. removeWatch i (getSubscription w)) ?tw c [] = (c1, out1, e1)"
    by (metis prod_cases3)
  have l1': "notifyLoop close_watch ?tw c [] = (c1, out1, e1)"
    unfolding l1 [symmetric] by (rule notifyLoop_cong) (simp add: tw close_watch_def)
  show thesis
  proof (cases e1)
    case (Some x)
    then have r: "c' = c1" "out = out1" "e = Some x" using run l1 by (simp_all add: notifyAll_def)
    obtain ws1 ws2 i w where ws: "?tw = ws1 @ (i, w) # ws2" "notifyLoop close_watch ws1 c [] = (c1, out1, None)"
      "computeResponse c1 w False = Inl x"
      using Some by (cases rule: notifyLoop_prefix [OF l1']) auto
    have "gomap_ok ws1" using gomap_ok_triggered [of c ns] by (simp add: ws(1) gomap_ok_def)
    moreover have "T i = Some w \<and> hit ns w" if "(i, w) \<in> set ?tw" for i w using that tw by (auto simp: hit_def)
    moreover have "computeResponse c w False = Inl x" using ws(3) notifyLoop_same [OF ws(2)] by simp
    ultimately have "visits c T ns ws1 e" unfolding visits_def r(3) by (fastforce simp: ws(1))
    with ws(2) r show thesis by (intro that) simp_all
  next
    case None
    let ?ww = "lc_wildcardWatches c1"
    have l2: "notifyLoop (\<lambda>i w. removeWildcardWatch i) ?ww c1 out1 = (c', out, e)"
      using run l1 None by (simp add: notifyAll_def)
    note l1n = l1' [unfolded None]
    have own: "T i = Some w" if "(i, w) \<in> set ?tw" for i w using that by (simp add: tw)
    have i1: "watch_index (close_visited c ?tw T) c1"
      using notifyLoop_table(1) [OF inv gomap_ok_triggered own l1n] unfolding close_visited_def by blast
    have ww: "(i, w) \<in> set ?ww \<longleftrightarrow> T i = Some w \<and> wildcard_watch w" for i w
      unfolding in_wildcard [OF i1] by (auto simp: close_visited_def tw)
    have okw: "gomap_ok ?ww" using i1 by (simp add: watch_index_def)
    have l2': "notifyLoop close_watch ?ww c1 out1 = (c', out, e)"
      unfolding l2 [symmetric] by (rule notifyLoop_cong) (simp add: ww close_watch_def)
    obtain ws1 ws2 where ws: "?ww = ws1 @ ws2" "notifyLoop close_watch ws1 c1 out1 = (c', out, None)"
      "case e of None \<Rightarrow> ws2 = [] | Some x \<Rightarrow> \<exists>i w ws3. ws2 = (i, w) # ws3 \<and> computeResponse c' w False = Inl x"
      by (rule notifyLoop_prefix [OF l2'])
    have loop: "notifyLoop close_watch (?tw @ ws1) c [] = (c', out, None)"
      using notifyLoop_append [OF l1n] ws(2) by simp
    have "fst ` set ?tw \<inter> fst ` set ?ww = {}" using tw ww by fastforce
    then have "gomap_ok (?tw @ ws1)" using gomap_ok_triggered [of c ns] okw by (auto simp: ws(1) gomap_ok_def)
    moreover have "T i = Some w \<and> hit ns w" if "(i, w) \<in> set (?tw @ ?ww)" for i w using that tw ww by (auto simp: hit_def)
    moreover have "case e of None \<Rightarrow> \<forall>i w. T i = Some w \<longrightarrow> hit ns w \<longrightarrow> (i, w) \<in> set (?tw @ ws1)
        | Some x \<Rightarrow> \<exists>i w. T i = Some w \<and> hit ns w \<and> computeResponse c w False = Inl x"
    proof (cases e)
      case None
      then show ?thesis using ws(1,3) tw ww by (auto simp: hit_def)
    next
      case (Some x)
      with ws(3) obtain i w ws3 where "ws2 = (i, w) # ws3" "computeResponse c' w False = Inl x" by auto
      moreover from this ws(1) have "(i, w) \<in> set ?ww" by simp
      ultimately have "(i, w) \<in> set ?ww" "computeResponse c' w False = Inl x" by blast+
      with ww notifyLoop_same [OF loop] Some show ?thesis by (auto simp: hit_def)
    qed
    ultimately have "visits c T ns (?tw @ ws1) e" by (auto simp: visits_def ws(1))
    with loop show thesis by (rule that [rotated])
  qed
qed

text \<open>What a notification that gets through the watches \<open>ws\<close> does to the table of open watches.\<close>

lemma visits_table:
  assumes inv: "watch_index T c" and vis: "visits c T ns ws e"
    and loop: "notifyLoop close_watch ws c [] = (c', out, None)"
  shows "watch_index (close_visited c ws T) c'" and "count_ok T c \<Longrightarrow> count_ok (close_visited c ws T) c'"
    and "lc_resources c' = lc_resources c" and "lc_getVersion c' = lc_getVersion c"
    and "lc_currentWatchID c' = lc_currentWatchID c"
    and "(i, w) \<in> set ws \<Longrightarrow> \<exists>x. computeResponse c w False = Inr x"
    and "set out = {sendResponse w resp |i w resp. (i, w) \<in> set ws \<and> computeResponse c w False = Inr (Some resp)}"
proof -
  have ok: "gomap_ok ws" and own: "\<And>i w. (i, w) \<in> set ws \<Longrightarrow> T i = Some w" using vis by (auto simp: visits_def)
  note L = notifyLoop_table [OF inv ok own loop, folded close_visited_def]
  show "watch_index (close_visited c ws T) c'" "lc_resources c' = lc_resources c" "lc_getVersion c' = lc_getVersion c"
    "lc_currentWatchID c' = lc_currentWatchID c"
    using L by blast+
  show "count_ok (close_visited c ws T) c'" if "count_ok T c" using L(2) that by blast
  show "\<exists>x. computeResponse c w False = Inr x" if "(i, w) \<in> set ws" using L(6) that by blast
  show "set out = {sendResponse w resp |i w resp. (i, w) \<in> set ws \<and> computeResponse c w False = Inr (Some resp)}"
    using notifyLoop_sends [OF loop] by simp
qed

lemma close_visited_Some:
  assumes "visits c T ns ws e"
  shows "close_visited c ws T i = Some w \<longleftrightarrow> T i = Some w \<and> ((i, w) \<in> set ws \<longrightarrow> computeResponse c w False = Inr None)"
proof -
  have "w' = w" if "(i, w') \<in> set ws" "T i = Some w" for w' using assms that by (fastforce simp: visits_def)
  then show ?thesis unfolding close_visited_def by auto
qed

subsection \<open>The update operations\<close>

lemma linear_apply_eq:
  "linear_apply m op c =
     (case op of
        OpUpdate n MNil \<Rightarrow> (c, [], Some (Errorf ''nil resource'' []))
      | _ \<Rightarrow> notifyAll (linear_write m op c) (linear_modified op c))"
  by (cases op)
    (auto simp: UpdateResource_def DeleteResource_def UpdateResources_def SetResources_def Let_def
      split: Resource.splits)

lemma linear_apply_cases:
  assumes "linear_apply m op c = (c', out, e)"
  obtains (rejected) "rejected op" "c' = c" "out = []" "e \<noteq> None"
  | (notified) "\<not> rejected op" "notifyAll (linear_write m op c) (linear_modified op c) = (c', out, e)"
  using assms unfolding linear_apply_eq
  by (cases op) (auto split: Resource.splits simp del: linear_write.simps)

lemma linear_write_frame [simp]:
  "lc_version (linear_write m op c) = lc_version c + 1"
  "lc_versionPrefix (linear_write m op c) = lc_versionPrefix c"
  "lc_typeURL (linear_write m op c) = lc_typeURL c"
  "lc_currentWatchID (linear_write m op c) = lc_currentWatchID c"
  "lc_watchCount (linear_write m op c) = lc_watchCount c"
  "lc_wildcardWatches (linear_write m op c) = lc_wildcardWatches c"
  "lc_resourceWatches (linear_write m op c) = lc_resourceWatches c"
  "lc_prefixWatches (linear_write m op c) = lc_prefixWatches c"
  by (cases op; simp add: Let_def)+

lemma watch_index_write [simp]: "watch_index T (linear_write m op c) = watch_index T c"
  by (simp add: watch_index_def)

lemma linear_ok_iff:
  "linear_ok c \<longleftrightarrow> gomap_ok (lc_resources c) \<and> (\<forall>n r. map_of (lc_resources c) n = Some r \<longrightarrow> cr_name r = n)"
  by (auto simp: linear_ok_def map_of_iff)

lemma linear_ok_update:
  "linear_ok c \<Longrightarrow> cr_name r = n \<Longrightarrow> linear_ok (c\<lparr>lc_resources := AList.update n r (lc_resources c)\<rparr>)"
  by (simp add: linear_ok_iff)

lemma linear_ok_fold_update:
  assumes "linear_ok c" and "\<And>n r. cr_name (f n r) = n"
  shows "linear_ok (c\<lparr>lc_resources := fold (\<lambda>(n, r) a. AList.update n (f n r) a) us (lc_resources c)\<rparr>)"
  using assms(1)
proof (induction us arbitrary: c)
  case (Cons u us)
  obtain n r where u: "u = (n, r)" by (cases u)
  from Cons.IH [OF linear_ok_update [OF Cons.prems assms(2)], of n r] show ?case by (simp add: u)
qed simp

lemma linear_ok_fold_delete:
  "linear_ok c \<Longrightarrow> linear_ok (c\<lparr>lc_resources := fold AList.delete ds (lc_resources c)\<rparr>)"
proof (induction ds arbitrary: c)
  case (Cons d ds)
  have "linear_ok (c\<lparr>lc_resources := AList.delete d (lc_resources c)\<rparr>)"
    using Cons.prems by (auto simp: linear_ok_def AList.delete_eq)
  from Cons.IH [OF this] show ?case by simp
qed simp

lemma linear_ok_cong: "lc_resources c' = lc_resources c \<Longrightarrow> linear_ok c' = linear_ok c"
  by (simp add: linear_ok_def)

lemma cr_name_new [simp]: "cr_name (newCachedResource m n r v) = n"
  by (simp add: newCachedResource_def newCachedResourceWithTTL_def Let_def)

lemma linear_ok_write [wf_rules]:
  assumes "linear_ok c"
  shows "linear_ok (linear_write m op c)"
proof (cases op)
  case (OpUpdate n r)
  with linear_ok_update [OF assms cr_name_new] show ?thesis by (simp add: Let_def linear_ok_def)
next
  case (OpDelete n)
  with linear_ok_fold_delete [OF assms, of "[n]"] show ?thesis by (simp add: linear_ok_def)
next
  case (OpUpdateAll us ds)
  with linear_ok_fold_delete [OF linear_ok_fold_update [OF assms cr_name_new]] show ?thesis
    by (simp add: Let_def linear_ok_def)
next
  case (OpSet rs)
  with linear_ok_fold_update [OF linear_ok_fold_delete [OF assms] cr_name_new] show ?thesis
    by (simp add: Let_def linear_ok_def)
qed

text \<open>An operation leaves every resource outside the names it reports as it was.\<close>

lemma linear_write_other:
  assumes "n \<notin> set (linear_modified op c)"
  shows "map_of (lc_resources (linear_write m op c)) n = map_of (lc_resources c) n"
  using assms by (cases op) (auto simp: Let_def map_of_fold_delete map_of_fold_update_other map_of_eq_None_iff)

subsection \<open>Every reachable cache\<close>

lemma computeResponse_None_reply:
  assumes "computeResponse c w reply = Inr None"
  shows "computeResponse c w False = Inr None"
proof -
  obtain ch rm where
    chg: "computeResourceChange c (getSubscription w) (useResourceVersion w) = Inr (ch, rm)"
    by (rule computeResponse_change [OF assms])
  from assms show ?thesis
    unfolding computeResponse_eq [OF chg] by (auto split: if_splits sum.splits)
qed

lemma no_stale_cong:
  assumes "lc_resources c' = lc_resources c" and "lc_getVersion c' = lc_getVersion c"
  shows "no_stale M T c' = no_stale M T c"
  unfolding no_stale_def computeResponse_cong [OF assms] ..

text \<open>Among the watches a notification does not touch, none becomes stale.\<close>

lemma untouched_not_stale:
  assumes ok: "linear_ok c" and old: "computeResponse c w False = Inr None"
    and out: "\<not> (\<exists>n\<in>set (linear_modified op c). covers (getSubscription w) n)"
  shows "computeResponse (linear_write m op c) w False = Inr None"
proof -
  have "map_of (lc_resources (linear_write m op c)) n = map_of (lc_resources c) n"
    if "covers (getSubscription w) n" for n
    using out that by (intro linear_write_other) blast
  then show ?thesis
    using computeResponse_None_cong [of c "linear_write m op c" w] ok old linear_ok_write [OF ok]
    by (simp add: linear_ok_def)
qed

lemma no_stale_update:
  assumes ok: "linear_ok c" and old: "no_stale M T c" and op: "\<not> rejected op"
    and vis: "visits (linear_write m op c) T (linear_modified op c) ws e"
  shows "no_stale (missed op c e M) (close_visited (linear_write m op c) ws T) (linear_write m op c)"
  unfolding no_stale_def close_visited_Some [OF vis]
proof (intro allI impI)
  fix i w assume w: "T i = Some w \<and> ((i, w) \<in> set ws \<longrightarrow> computeResponse (linear_write m op c) w False = Inr None)"
    and free: "\<not> misses (missed op c e M) w"
  show "computeResponse (linear_write m op c) w False = Inr None"
  proof (cases "e = None \<and> hit (linear_modified op c) w")
    case True
    with vis w show ?thesis by (auto simp: visits_def)
  next
    case False
    then have out: "\<not> (\<exists>n\<in>set (linear_modified op c). covers (getSubscription w) n)"
      using free op by (cases e) (auto simp: hit_def misses_def missed_def)
    then have "\<not> misses M w" using free op by (auto simp: misses_def missed_def split: option.splits)
    then have "computeResponse c w False = Inr None" using old w unfolding no_stale_def by blast
    then show ?thesis by (rule untouched_not_stale [OF ok _ out])
  qed
qed

lemma cancel_ok_sub:
  "cancel_ok T c cn \<Longrightarrow> (\<And>i w. T' i = Some w \<Longrightarrow> T i = Some w) \<Longrightarrow>
     lc_currentWatchID c' = lc_currentWatchID c \<Longrightarrow> cancel_ok T' c' cn"
  by (cases cn) auto

lemma run_inv_new: "run_inv {} Map.empty (NewLinearCache m typeURL opts) {}"
proof -
  have step: "linear_ok c \<and> watch_index Map.empty c \<Longrightarrow>
      linear_ok (applyOption m opt c) \<and> watch_index Map.empty (applyOption m opt c)" for opt c
    using linear_ok_fold_update [of c "\<lambda>n r. newCachedResource m n r ''''"]
    by (cases opt) (auto simp: linear_ok_def watch_index_def)
  let ?c0 = "\<lparr>lc_typeURL = typeURL, lc_resources = [], lc_resourceWatches = [], lc_prefixWatches = [],
         lc_wildcardWatches = [], lc_currentWatchID = 0, lc_version = 0, lc_versionPrefix = '''',
         lc_watchCount = 0\<rparr>"
  have "linear_ok ?c0 \<and> watch_index Map.empty ?c0"
    by (auto simp: linear_ok_def watch_index_def index_ok_def gsub_def table_filter_def)
  then have "linear_ok (fold (applyOption m) opts ?c0) \<and> watch_index Map.empty (fold (applyOption m) opts ?c0)"
    by (rule fold_keeps [where P = "\<lambda>c. linear_ok c \<and> watch_index Map.empty c", rotated]) (use step in blast)
  then have "linear_ok (NewLinearCache m typeURL opts)" "watch_index Map.empty (NewLinearCache m typeURL opts)"
    by (auto simp: NewLinearCache_def Let_def linear_ok_def watch_index_def gomap_ok_def comp_def case_prod_beta)
  then show ?thesis by (simp add: run_inv_def no_stale_def)
qed

lemma run_inv_update:
  assumes inv: "run_inv M T c cs" and op: "\<not> rejected op"
    and vis: "visits (linear_write m op c) T (linear_modified op c) ws e"
    and loop: "notifyLoop close_watch ws (linear_write m op c) [] = (c', out, None)"
  shows "run_inv (missed op c e M) (close_visited (linear_write m op c) ws T) c' cs"
proof -
  let ?c = "linear_write m op c" and ?T = "close_visited (linear_write m op c) ws T"
  have I: "linear_ok c" "watch_index T c" "no_stale M T c" "\<forall>cn\<in>cs. cancel_ok T c cn"
    using inv by (auto simp: run_inv_def)
  have idx: "watch_index T ?c" using I(2) by simp
  note N = visits_table [OF idx vis loop]
  have "no_stale (missed op c e M) ?T c'"
    using no_stale_update [OF I(1,3) op vis] no_stale_cong [OF N(3,4)] by simp
  moreover have "linear_ok c'" using linear_ok_cong [OF N(3)] linear_ok_write [OF I(1)] by simp
  moreover have "cancel_ok ?T c' cn" if "cn \<in> cs" for cn
  proof (rule cancel_ok_sub [of T c])
    show "cancel_ok T c cn" using I(4) that by blast
    show "T i = Some w" if "?T i = Some w" for i w using that close_visited_Some [OF vis] by blast
    show "lc_currentWatchID c' = lc_currentWatchID c" using N(5) by simp
  qed
  ultimately show ?thesis using N(1) unfolding run_inv_def by blast
qed

lemma run_inv_apply:
  assumes inv: "run_inv M T c cs" and app: "linear_apply m op c = (c', out, e)"
  shows "\<exists>T'. run_inv (missed op c e M) T' c' cs"
  using app
proof (cases rule: linear_apply_cases)
  case rejected
  with inv show ?thesis by (auto simp: missed_def)
next
  case notified
  have "watch_index T (linear_write m op c)" using inv by (simp add: run_inv_def)
  then obtain ws where "visits (linear_write m op c) T (linear_modified op c) ws e"
    "notifyLoop close_watch ws (linear_write m op c) [] = (c', out, None)"
    using notified(2) by (rule notifyAll_visits)
  with run_inv_update [OF inv notified(1)] show ?thesis by blast
qed

lemma trackWatch_Inr:
  assumes "trackWatch c w = (c', Inr cn)"
  shows "lc_currentWatchID c + 1 \<noteq> 0" and "lc_currentWatchID c' = lc_currentWatchID c + 1"
    and "cn = (if wildcard_watch w then CancelWildcard (lc_currentWatchID c + 1)
               else CancelWatch (lc_currentWatchID c + 1) (getSubscription w))"
  using assms
  by (auto simp: trackWatch_def nextWatchID_def Let_def wildcard_watch_def split: if_splits)

lemma run_inv_track:
  assumes inv: "run_inv M T c cs" and none: "computeResponse c w reply = Inr None"
    and track: "trackWatch c w = (c', Inr cn)"
  shows "run_inv M (T(lc_currentWatchID c + 1 \<mapsto> w)) c' (insert cn cs)"
proof -
  let ?i = "lc_currentWatchID c + 1"
  have I: "linear_ok c" "watch_index T c" "no_stale M T c" "\<forall>cn\<in>cs. cancel_ok T c cn"
    using inv by (auto simp: run_inv_def)
  note tr = trackWatch_Inr [OF track]
  note t = trackWatch_index [OF I(2) tr(1), of w, unfolded track, simplified]
  have less: "j < ?i" if "j \<le> lc_currentWatchID c" for j
    using that word_less_inc [OF tr(1)] by simp
  have "no_stale M (T(?i \<mapsto> w)) c"
    using I(3) computeResponse_None_reply [OF none] by (auto simp: no_stale_def)
  then have "no_stale M (T(?i \<mapsto> w)) c'" using no_stale_cong [OF t(4,5)] by blast
  moreover have "cancel_ok (T(?i \<mapsto> w)) c' k" if "cancel_ok T c k" for k
    using that less tr(2) by (cases k) (auto simp: less_le)
  moreover have "cancel_ok (T(?i \<mapsto> w)) c' cn" using tr(2,3) by (auto simp: wildcard_watch_def)
  moreover have "linear_ok c'" using linear_ok_cong [OF t(4)] I(1) by simp
  ultimately show ?thesis using t(2) I(4) by (simp add: run_inv_def)
qed

lemma cancel_ok_close:
  "cancel_ok T c cn \<Longrightarrow> cancel_ok (T(i := None)) (close_watch i w c) cn"
  by (cases cn) auto

lemma no_stale_close: "no_stale M T c \<Longrightarrow> no_stale M (T(i := None)) (close_watch i w c)"
  by (subst no_stale_cong) (auto simp: no_stale_def)

lemma run_inv_close:
  assumes inv: "run_inv M T c cs" and own: "T i = Some w \<or> T i = None"
  shows "run_inv M (T(i := None)) (close_watch i w c) cs"
  using inv close_watch_index [of T c i w] own no_stale_close cancel_ok_close
    linear_ok_cong [of "close_watch i w c" c]
  by (simp add: run_inv_def)

text \<open>A cancel function closes the watch it was issued for, open or not.\<close>

fun cancelled :: "cancel \<Rightarrow> watch_table \<Rightarrow> watch_table" where
  "cancelled (CancelWildcard i) T = T(i := None)"
| "cancelled (CancelWatch i sub) T = T(i := None)"
| "cancelled _ T = T"

lemma run_inv_cancel:
  assumes inv: "run_inv M T c cs" and cn: "cn \<in> cs"
  shows "run_inv M (cancelled cn T) (runCancel cn c) cs"
proof -
  have ok: "cancel_ok T c cn" using inv cn by (simp add: run_inv_def)
  have ex: "\<exists>w. getSubscription w = sub" for sub
    by (rule exI [of _ "DeltaWatch \<lparr>drw_Request = undefined, drw_Response = undefined, drw_subscription = sub\<rparr>"])
      simp
  show ?thesis
  proof (cases cn)
    case (CancelWildcard i)
    obtain w0 where "getSubscription w0 = (newSubscription True True [])\<lparr>sub_wildcard := True\<rparr>"
      using ex by blast
    then have "wildcard_watch w0" by (simp add: wildcard_watch_def)
    then obtain w where "wildcard_watch w" and "T i = Some w \<or> T i = None"
      using ok CancelWildcard by (cases "T i") auto
    with run_inv_close [OF inv, of i w] CancelWildcard show ?thesis by (simp add: close_watch_def)
  next
    case (CancelWatch i sub)
    obtain w0 where "getSubscription w0 = sub" using ex by blast
    then obtain w where "\<not> wildcard_watch w" and "getSubscription w = sub" and "T i = Some w \<or> T i = None"
      using ok CancelWatch by (cases "T i") (auto simp: wildcard_watch_def)
    with run_inv_close [OF inv, of i w] CancelWatch show ?thesis by (simp add: close_watch_def)
  qed (use inv in auto)
qed

theorem linear_run_inv:
  assumes "linear_run m c cs M"
  shows "\<exists>T. run_inv M T c cs"
  using assms
proof induction
  case (run_new typeURL opts)
  show ?case using run_inv_new by blast
next
  case (run_update c cs M op c' out e)
  then show ?case using run_inv_apply by blast
next
  case (run_CreateWatch c cs M req sub ch c' out cn)
  then obtain T where T: "run_inv M T c cs" by blast
  from run_CreateWatch.hyps(2) consider "c' = c" "cn = NoopCancel"
    | w reply where "computeResponse c w reply = Inr None" "trackWatch c w = (c', Inr cn)"
    by (auto simp: lc_CreateWatch_def Let_def split: if_splits sum.splits option.splits prod.splits)
  then show ?case
  proof cases
    case 1
    with T have "run_inv M T c' (insert cn cs)" by (simp add: run_inv_def)
    then show ?thesis by blast
  qed (use run_inv_track [OF T] in blast)
next
  case (run_CreateDeltaWatch c cs M dreq sub ch c' out cn)
  then obtain T where T: "run_inv M T c cs" by blast
  from run_CreateDeltaWatch.hyps(2) consider "c' = c" "cn = NilCancel"
    | w reply where "computeResponse c w reply = Inr None" "trackWatch c w = (c', Inr cn)"
    by (auto simp: lc_CreateDeltaWatch_def Let_def split: if_splits sum.splits option.splits prod.splits)
  then show ?case
  proof cases
    case 1
    with T have "run_inv M T c' (insert cn cs)" by (simp add: run_inv_def)
    then show ?thesis by blast
  qed (use run_inv_track [OF T] in blast)
next
  case (run_cancel c cs M cn)
  then show ?case using run_inv_cancel by blast
qed

end
