(* ===== verification/Linear_Properties.thy ===== *)
theory Linear_Properties
  imports Linear_Notify
begin

text \<open>
  The properties of the linear cache: what a response holds, when one is sent, and that no reachable
  cache keeps a client waiting for something it could be told.
\<close>

section \<open>Definitions for the examples\<close>

definition ex_marshal :: marshaler where
  "ex_marshal r = Inr []"

definition ex_sub :: Subscription where
  "ex_sub = NewDeltaSubscription [''a''] [] [] False"

definition ex_dreq :: DeltaDiscoveryRequest where
  "ex_dreq = \<lparr>dreq_Node = None, dreq_TypeUrl = ''T'', dreq_ResourceNamesSubscribe = [''a''],
     dreq_ResourceNamesUnsubscribe = [], dreq_InitialResourceVersions = [], dreq_ResponseNonce = '''',
     dreq_ErrorDetail = None\<rparr>"

definition ex_watch :: DeltaResponseWatch where
  "ex_watch = \<lparr>drw_Request = ex_dreq, drw_Response = 7, drw_subscription = ex_sub\<rparr>"

definition ex_cache0 :: LinearCache where
  "ex_cache0 = NewLinearCache ex_marshal ''T'' []"

definition ex_cache1 :: LinearCache where
  "ex_cache1 = fst (lc_CreateDeltaWatch ex_dreq ex_sub 7 ex_cache0)"

definition ex_res :: Resource where
  "ex_res = MNamed ''M'' ''a'' ''body''"

definition ex_cached :: cachedResource where
  "ex_cached = newCachedResource ex_marshal ''a'' ex_res ''1''"

definition ex_cache2 :: LinearCache where
  "ex_cache2 = ex_cache0\<lparr>lc_resources := [(''a'', ex_cached)], lc_version := 1\<rparr>"

definition ex_cache4 :: LinearCache where
  "ex_cache4 = ex_cache2\<lparr>lc_currentWatchID := 1\<rparr>"

definition ex_resp :: RawDeltaResponse where
  "ex_resp = \<lparr>rawd_DeltaRequest = Some ex_dreq, rawd_SystemVersionInfo = ''1'', rawd_resources = [ex_cached],
     rawd_removedResources = [], rawd_returnedResources = [(''a'', HashResource [])],
     rawd_Ctx = Background, rawd_marshaledResponse = None\<rparr>"

definition ex_sotw :: ResponseWatch where
  "ex_sotw = \<lparr>rw_Request = \<lparr>req_VersionInfo = '''', req_Node = None, req_ResourceNames = [''a''],
       req_TypeUrl = ''T'', req_ResponseNonce = '''', req_ErrorDetail = None\<rparr>,
     rw_Response = 8, rw_subscription = ex_sub, rw_fullStateResponses = True\<rparr>"

definition ex_cache3 :: LinearCache where
  "ex_cache3 = ex_cache0\<lparr>lc_resources :=
     [(''a'', newCachedResource (\<lambda>r. Inl (Errorf ''bad'' [])) ''a'' ex_res ''1'')]\<rparr>"

section \<open>Lemmas\<close>

lemma ex_sub_eq: "ex_sub = \<lparr>sub_wildcard = False, sub_allowLegacyWildcard = False,
    sub_subscribedResourceNames = [''a''], sub_subscribedPrefixes = [], sub_returnedResources = []\<rparr>"
  by (simp add: ex_sub_def NewDeltaSubscription_def UpdateResourceSubscriptions_def newSubscription_def
      subscribe_name_def explicitWildcard_def globSuffix_def HasSuffix_def set_add_def)

lemma ex_cache0_eq: "ex_cache0 = \<lparr>lc_typeURL = ''T'', lc_resources = [], lc_resourceWatches = [],
    lc_prefixWatches = [], lc_wildcardWatches = [], lc_currentWatchID = 0, lc_version = 0,
    lc_versionPrefix = '''', lc_watchCount = 0\<rparr>"
  by (simp add: ex_cache0_def NewLinearCache_def)

lemma ex_none: "computeResponse ex_cache0 (DeltaWatch ex_watch) False = Inr None"
  by (simp add: computeResponse_def computeResourceChange_def ex_cache0_eq ex_watch_def ex_sub_eq)

lemma ex_create: "lc_CreateDeltaWatch ex_dreq ex_sub 7 ex_cache0 =
    (ex_cache0\<lparr>lc_resourceWatches := [(''a'', [(1, DeltaWatch ex_watch)])], lc_currentWatchID := 1,
       lc_watchCount := 1\<rparr>, [], Inr (CancelWatch 1 ex_sub))"
  by (simp add: lc_CreateDeltaWatch_def ex_watch_def trackWatch_def nextWatchID_def index_add_def
      gsub_def ex_cache0_eq ex_dreq_def ex_sub_eq computeResponse_def computeResourceChange_def Let_def)

lemma ex_cache1_eq: "ex_cache1 = \<lparr>lc_typeURL = ''T'', lc_resources = [],
    lc_resourceWatches = [(''a'', [(1, DeltaWatch ex_watch)])],
    lc_prefixWatches = [], lc_wildcardWatches = [], lc_currentWatchID = 1, lc_version = 0,
    lc_versionPrefix = '''', lc_watchCount = 1\<rparr>"
  unfolding ex_cache1_def ex_create by (simp add: ex_cache0_eq)

lemma ex_run1: "linear_run ex_marshal ex_cache1 {CancelWatch 1 ex_sub} {}"
  using run_CreateDeltaWatch [OF run_new [of ex_marshal "''T''" "[]"], folded ex_cache0_def,
      of ex_dreq ex_sub 7]
  by (simp add: ex_cache1_def ex_create)

lemma ex_tracked1: "tracked ex_cache1 1 (DeltaWatch ex_watch)"
  unfolding tracked_def by (rule disjI2, rule disjI1, rule exI [of _ "''a''"])
    (simp add: ex_cache1_eq gsub_def)

lemma FormatUint_0_1: "FormatUint 0 = ''0''" "FormatUint 1 = ''1''"
  by (simp_all add: FormatUint_def dec_nat.simps [of 0] dec_nat.simps [of "Suc 0"])

lemma ex_version: "cr_getVersion ex_cached True = Inr (HashResource [])"
  by (simp add: ex_cached_def cr_getVersion_def getResourceVersion_def newCachedResource_def
      MarshalResource_def ex_marshal_def)

lemma computeResponse_delta_reply:
  "computeResponse c (DeltaWatch w) reply = Inr None \<longleftrightarrow> \<not> reply \<and> computeResponse c (DeltaWatch w) False = Inr None"
proof
  assume none: "computeResponse c (DeltaWatch w) reply = Inr None"
  obtain ch rm where "computeResourceChange c (getSubscription (DeltaWatch w)) (useResourceVersion (DeltaWatch w)) = Inr (ch, rm)"
    by (rule computeResponse_change [OF none])
  from none computeResponse_eq [OF this, of reply] computeResponse_None_reply [OF none]
  show "\<not> reply \<and> computeResponse c (DeltaWatch w) False = Inr None"
    by (auto split: if_splits sum.splits)
qed auto

lemma tracked_iff:
  assumes "watch_index T c"
  shows "tracked c i w \<longleftrightarrow> T i = Some w \<and> (\<exists>n. covers (getSubscription w) n)"
proof -
  have "tracked c i w \<longleftrightarrow> T i = Some w \<and>
      (wildcard_watch w \<or> (\<exists>n. named_watch n w) \<or> (\<exists>p. prefix_watch p w))"
    using assms by (auto simp: tracked_def watch_index_def)
  also have "(wildcard_watch w \<or> (\<exists>n. named_watch n w) \<or> (\<exists>p. prefix_watch p w)) \<longleftrightarrow>
      (\<exists>n. covers (getSubscription w) n)"
  proof (cases "wildcard_watch w")
    case True
    then show ?thesis by (auto simp: covers_def wildcard_watch_def)
  next
    case False
    then have "(\<exists>n. covers (getSubscription w) n) \<longleftrightarrow>
        (\<exists>n. named_watch n w \<or> (\<exists>p. HasPrefix n p \<and> prefix_watch p w))"
      using covers_named_or_prefix by blast
    also have "\<dots> \<longleftrightarrow> (\<exists>n. named_watch n w) \<or> (\<exists>p. prefix_watch p w)"
      using HasPrefix_refl by blast
    finally show ?thesis using False by blast
  qed
  finally show ?thesis .
qed

text \<open>Computing a state-of-the-world response never fails, and computing a delta response can fail
  only because a resource that the subscription covers cannot be marshaled; a name missing from the
  cache never makes the code dereference nil.\<close>

lemma linear_response_errors:
  assumes "linear_ok c" and "computeResponse c w reply = Inl e"
  shows "isDelta w \<and>
    (\<exists>n r e'. map_of (lc_resources c) n = Some r \<and> covers (getSubscription w) n \<and> getResourceVersion r = Inl e')"
proof (rule ccontr)
  assume no: "\<not> ?thesis"
  have ok: "gomap_ok (lc_resources c)" using assms(1) by (simp add: linear_ok_def)
  have "versions_ok c (getSubscription w) (useResourceVersion w)"
  proof (cases w)
    case (SotwWatch v)
    then show ?thesis by (simp add: versions_ok_sotw)
  next
    case (DeltaWatch v)
    have "\<exists>x. getResourceVersion r = Inr x" if "(n, r) \<in> set (lc_resources c)" "covers (drw_subscription v) n" for n r
      using no that DeltaWatch map_of_iff [OF ok, of n r] by (cases "getResourceVersion r") auto
    then show ?thesis using DeltaWatch by (auto simp: versions_ok_def cr_getVersion_def)
  qed
  then show False using computeResponse_total [OF ok, of w reply] assms(2) by auto
qed

text \<open>What an update does to the watches of a reachable cache, in terms of the table of open watches.\<close>

lemma linear_update_table:
  assumes inv: "run_inv M T c cs" and app: "linear_apply m op c = (c', out, e)" and op: "\<not> rejected op"
  obtains ws where "visits c' T (linear_modified op c) ws e" "watch_index (close_visited c' ws T) c'"
    "set out = {sendResponse w resp |i w resp. (i, w) \<in> set ws \<and> computeResponse c' w False = Inr (Some resp)}"
    "\<And>i w. (i, w) \<in> set ws \<Longrightarrow> \<exists>x. computeResponse c' w False = Inr x"
    "run_inv (missed op c e M) (close_visited c' ws T) c' cs"
proof -
  let ?c = "linear_write m op c" and ?ns = "linear_modified op c"
  have run: "notifyAll ?c ?ns = (c', out, e)" using app op by (cases rule: linear_apply_cases) auto
  have idx: "watch_index T ?c" using inv by (simp add: run_inv_def)
  obtain ws where vis: "visits ?c T ?ns ws e" and loop: "notifyLoop close_watch ws ?c [] = (c', out, None)"
    using idx run by (rule notifyAll_visits)
  have same: "computeResponse ?c w False = computeResponse c' w False" for w
    using notifyLoop_same [OF loop] by simp
  have vis': "visits c' T ?ns ws e" using vis unfolding visits_def same .
  have tab: "close_visited ?c ws T = close_visited c' ws T" by (simp add: close_visited_def same)
  show thesis
    using that [OF vis'] visits_table [OF idx vis loop] run_inv_update [OF inv op vis loop]
    by (simp add: tab same)
qed

section \<open>Properties\<close>

text \<open>C10: in every cache that is reached by updates, watch creations and cancellations, whatever their
  order and whether or not the updates report an error, an open watch is up to date: the response that
  would be computed for it now is "nothing to send". The only watches excepted are those that cover a
  name which an update that reported an error changed, and which no later update without error has
  changed again.\<close>

theorem linear_no_stale_watch:
  assumes "linear_run m c cs M" and "tracked c i w" and "\<not> misses M w"
  shows "computeResponse c w False = Inr None"
proof -
  obtain T where "run_inv M T c cs" using linear_run_inv [OF assms(1)] ..
  then show ?thesis using tracked_iff [of T c i w] assms(2,3) by (auto simp: run_inv_def no_stale_def)
qed

theorem linear_no_stale_watch_witness:
  "linear_run ex_marshal ex_cache1 {CancelWatch 1 ex_sub} {} \<and> tracked ex_cache1 1 (DeltaWatch ex_watch) \<and>
   computeResponse ex_cache1 (DeltaWatch ex_watch) False = Inr None"
  using linear_no_stale_watch [OF ex_run1 ex_tracked1] ex_run1 ex_tracked1 by (simp add: misses_def)

text \<open>C11: an update of a reachable cache, with or without an error. It sends only responses that are
  due, each to an open watch the changed names concern and computed on the new state, and it closes a
  watch only by answering it. When it reports no error it sends all the responses that are due, and the
  concerned watches it leaves open are up to date. When it reports one, either it was refused and changed
  nothing, or computing the response of a concerned delta watch failed with this error. The watches that
  are not concerned stay up to date.\<close>

theorem linear_update_notifies:
  assumes "linear_run m c cs M" and "linear_apply m op c = (c', out, e)"
  shows "set out \<subseteq> {sendResponse w resp |i w resp. tracked c i w \<and> hit (linear_modified op c) w \<and>
       computeResponse c' w False = Inr (Some resp)} \<and>
    (\<forall>i w. tracked c' i w \<longrightarrow> tracked c i w) \<and>
    (\<forall>i w. tracked c i w \<longrightarrow> \<not> tracked c' i w \<longrightarrow>
       (\<exists>resp. computeResponse c' w False = Inr (Some resp) \<and> sendResponse w resp \<in> set out)) \<and>
    (case e of
       None \<Rightarrow>
         {sendResponse w resp |i w resp. tracked c i w \<and> hit (linear_modified op c) w \<and>
            computeResponse c' w False = Inr (Some resp)} \<subseteq> set out \<and>
         (\<forall>i w. tracked c' i w \<longrightarrow> hit (linear_modified op c) w \<longrightarrow> computeResponse c' w False = Inr None)
     | Some x \<Rightarrow>
         rejected op \<and> c' = c \<and> out = [] \<or>
         (\<exists>i w. tracked c i w \<and> hit (linear_modified op c) w \<and> isDelta w \<and> computeResponse c' w False = Inl x)) \<and>
    (\<forall>i w. tracked c i w \<longrightarrow> \<not> hit (linear_modified op c) w \<longrightarrow> \<not> misses M w \<longrightarrow>
       tracked c' i w \<and> computeResponse c' w False = Inr None)"
proof -
  obtain T where T: "run_inv M T c cs" using linear_run_inv [OF assms(1)] ..
  have I: "watch_index T c" "no_stale M T c" using T by (auto simp: run_inv_def)
  note tr = tracked_iff [OF I(1)]
  show ?thesis
  proof (cases "rejected op")
    case True
    from assms(2) have "c' = c \<and> out = [] \<and> e \<noteq> None"
      using True by (cases rule: linear_apply_cases) simp_all
    moreover from this obtain x where "e = Some x" by auto
    moreover have "\<forall>i w. tracked c i w \<longrightarrow> \<not> hit (linear_modified op c) w \<longrightarrow> \<not> misses M w \<longrightarrow>
        computeResponse c w False = Inr None"
      using I(2) unfolding tr no_stale_def by blast
    ultimately show ?thesis using True by simp
  next
    case False
    let ?hit = "hit (linear_modified op c)"
    obtain ws where vis: "visits c' T (linear_modified op c) ws e" and idx: "watch_index (close_visited c' ws T) c'"
      and out: "set out = {sendResponse w resp |i w resp. (i, w) \<in> set ws \<and> computeResponse c' w False = Inr (Some resp)}"
      and tot: "\<And>i w. (i, w) \<in> set ws \<Longrightarrow> \<exists>x. computeResponse c' w False = Inr x"
      and inv': "run_inv (missed op c e M) (close_visited c' ws T) c' cs"
      by (rule linear_update_table [OF T assms(2) False]) (rule that; assumption)
    have ws: "T i = Some w \<and> ?hit w" if "(i, w) \<in> set ws" for i w using vis that by (auto simp: visits_def)
    have hit: "\<exists>n. covers (getSubscription w) n" if "?hit w" for w
      using that by (auto simp: hit_def wildcard_watch_def covers_def)
    note tr' = tracked_iff [OF idx, unfolded close_visited_Some [OF vis]]
    have 1: "set out \<subseteq> {sendResponse w resp |i w resp. tracked c i w \<and> ?hit w \<and>
        computeResponse c' w False = Inr (Some resp)}"
      unfolding out tr using ws hit by blast
    have 2: "\<forall>i w. tracked c' i w \<longrightarrow> tracked c i w" by (simp add: tr tr')
    have 3: "\<forall>i w. tracked c i w \<longrightarrow> \<not> tracked c' i w \<longrightarrow>
        (\<exists>resp. computeResponse c' w False = Inr (Some resp) \<and> sendResponse w resp \<in> set out)"
    proof (intro allI impI)
      fix i w assume "tracked c i w" "\<not> tracked c' i w"
      then have "(i, w) \<in> set ws" "computeResponse c' w False \<noteq> Inr None" by (auto simp: tr tr')
      with tot [of i w] obtain resp where "computeResponse c' w False = Inr (Some resp)" by fastforce
      with \<open>(i, w) \<in> set ws\<close> show "\<exists>resp. computeResponse c' w False = Inr (Some resp) \<and> sendResponse w resp \<in> set out"
        unfolding out by blast
    qed
    have 4: "case e of
       None \<Rightarrow> {sendResponse w resp |i w resp. tracked c i w \<and> ?hit w \<and>
            computeResponse c' w False = Inr (Some resp)} \<subseteq> set out \<and>
         (\<forall>i w. tracked c' i w \<longrightarrow> ?hit w \<longrightarrow> computeResponse c' w False = Inr None)
     | Some x \<Rightarrow> rejected op \<and> c' = c \<and> out = [] \<or>
         (\<exists>i w. tracked c i w \<and> ?hit w \<and> isDelta w \<and> computeResponse c' w False = Inl x)"
    proof (cases e)
      case None
      then have "(i, w) \<in> set ws" if "T i = Some w" "?hit w" for i w using vis that by (simp add: visits_def)
      then show ?thesis unfolding None option.case out tr tr' by (intro conjI allI impI subsetI) blast+
    next
      case (Some x)
      then obtain i w where w: "T i = Some w" "?hit w" "computeResponse c' w False = Inl x"
        using vis by (auto simp: visits_def)
      moreover have "isDelta w" using linear_response_errors [OF _ w(3)] inv' by (simp add: run_inv_def)
      ultimately show ?thesis using hit by (auto simp: Some tr)
    qed
    have 5: "\<forall>i w. tracked c i w \<longrightarrow> \<not> ?hit w \<longrightarrow> \<not> misses M w \<longrightarrow>
        tracked c' i w \<and> computeResponse c' w False = Inr None"
    proof (intro allI impI)
      fix i w assume w: "tracked c i w" "\<not> ?hit w" "\<not> misses M w"
      have open': "tracked c' i w" using w(1,2) ws by (auto simp: tr tr')
      have "\<not> misses (missed op c e M) w"
        using w(2,3) by (auto simp: misses_def missed_def hit_def split: option.splits)
      then show "tracked c' i w \<and> computeResponse c' w False = Inr None"
        using open' tracked_iff [OF idx] inv' by (auto simp: run_inv_def no_stale_def)
    qed
    from 1 2 3 4 5 show ?thesis by (intro conjI)
  qed
qed

lemma ex_answered: "linear_apply ex_marshal (OpUpdate ''a'' ex_res) ex_cache1 =
    (ex_cache4, [(7, WDelta ex_resp)], None)"
  by (simp add: UpdateResource_def notifyAll_def triggeredWatches_def ex_cache1_eq gsub_def
      Let_def lc_getVersion_def FormatUint_0_1 computeResponse_def computeResourceChange_def ex_cache2_def
      ex_cache0_eq ex_watch_def ex_sub_eq resourceChanged_def addReturned_def cr_getVersion_def
      getResourceVersion_def newCachedResource_def MarshalResource_def ex_marshal_def removeWatch_def
      index_remove_def ex_cached_def ex_res_def drw_buildResponse_def ex_resp_def ex_cache4_def)

theorem linear_update_notifies_witness:
  "linear_apply ex_marshal (OpUpdate ''a'' ex_res) ex_cache1 = (ex_cache4, [(7, WDelta ex_resp)], None) \<and>
   (\<exists>i w. tracked ex_cache1 i w \<and> hit [''a''] w \<and> computeResponse ex_cache4 w False = Inr (Some (WDelta ex_resp)) \<and>
      sendResponse w (WDelta ex_resp) = (7, WDelta ex_resp))"
proof -
  have "(7, WDelta ex_resp) \<in> {sendResponse w resp |i w resp. tracked ex_cache1 i w \<and> hit [''a''] w \<and>
       computeResponse ex_cache4 w False = Inr (Some resp)}"
    using linear_update_notifies [OF ex_run1 ex_answered] by simp
  then obtain i w resp where "tracked ex_cache1 i w" "hit [''a''] w" "computeResponse ex_cache4 w False = Inr (Some resp)"
    "sendResponse w resp = (7, WDelta ex_resp)" by auto
  moreover from this(4) have "resp = WDelta ex_resp" by (cases w) auto
  ultimately show ?thesis using ex_answered by blast
qed

lemma ex_run4: "linear_run ex_marshal ex_cache4 {CancelWatch 1 ex_sub} {}"
  using run_update [OF ex_run1 ex_answered] by (simp add: missed_def ex_res_def)

lemma ex_delta4: "computeResponse ex_cache4 (DeltaWatch ex_watch) False = Inr (Some (WDelta ex_resp))"
  using ex_version
  by (simp add: computeResponse_def computeResourceChange_def ex_cache4_def ex_cache2_def ex_cache0_eq ex_watch_def
      ex_sub_eq drw_buildResponse_def lc_getVersion_def FormatUint_0_1 resourceChanged_def addReturned_def
      ex_resp_def)

text \<open>C12: whatever the kind of watch, the versions that go with a response are exactly the versions of
  the cached resources that the subscription covers, so after recording them the server knows the
  client as up to date.\<close>

theorem linear_response_is_view:
  assumes "linear_run m c cs M" and "computeResponse c w reply = Inr (Some resp)"
  shows "map_of (wr_GetReturnedResources resp) = linear_view c (getSubscription w) (useResourceVersion w)"
proof -
  obtain T where "run_inv M T c cs" using linear_run_inv [OF assms(1)] ..
  then show ?thesis using response_returns_view [OF _ assms(2)] by (simp add: run_inv_def linear_ok_def)
qed

theorem linear_response_is_view_witness:
  "linear_run ex_marshal ex_cache4 {CancelWatch 1 ex_sub} {} \<and>
   linear_view ex_cache4 ex_sub True = [''a'' \<mapsto> HashResource []]"
  using linear_response_is_view [OF ex_run4 ex_delta4] ex_run4 by (simp add: ex_watch_def ex_resp_def)

text \<open>C16: a delta response carries, without repetition, exactly the covered resources whose version the
  client does not have, and removes exactly the names the client has and the view no longer has.\<close>

theorem linear_delta_minimal:
  assumes "linear_ok c" and "subscription_ok (drw_subscription w)"
    and "computeResponse c (DeltaWatch w) reply = Inr (Some (WDelta resp))"
  shows "distinct (map cr_name (rawd_resources resp)) \<and>
    set (map cr_name (rawd_resources resp)) =
      {n. linear_view c (drw_subscription w) True n \<noteq> None \<and>
          linear_view c (drw_subscription w) True n \<noteq> map_of (sub_returnedResources (drw_subscription w)) n} \<and>
    distinct (rawd_removedResources resp) \<and>
    set (rawd_removedResources resp) =
      {n \<in> fst ` set (sub_returnedResources (drw_subscription w)).
         map_of (lc_resources c) n = None \<or> \<not> covers (drw_subscription w) n}"
proof -
  let ?sub = "drw_subscription w"
  let ?K = "sub_returnedResources ?sub"
  have ok: "gomap_ok (lc_resources c)" using assms(1) by (simp add: linear_ok_def)
  obtain ch rm rs K where
    chg: "computeResourceChange c ?sub True = Inr (ch, rm)" and
    fld: "rfold (addReturned c True) (names_to_return c (DeltaWatch w) ch) ([], ?K) = Inr (rs, K)" and
    resp: "WDelta resp = buildResponse (DeltaWatch w) rs rm (fold AList.delete rm K) (lc_getVersion c)"
    by (rule computeResponse_Some [OF assms(3)]) auto
  have names: "names_to_return c (DeltaWatch w) ch = ch" by (simp add: names_to_return_def)
  note CH = computeResourceChange_Inr [OF ok chg]
  have have_version: "\<forall>n\<in>set ch. cached_version c True n \<noteq> None"
    and rs: "rs = map (\<lambda>n. the (map_of (lc_resources c) n)) ch"
    using rfold_addReturned [OF fld] by (simp_all add: names)
  have in_cache: "\<exists>r. map_of (lc_resources c) n = Some r" if "n \<in> set ch" for n
    using CH(1) that by auto
  have "map cr_name rs = ch"
    unfolding rs map_map comp_def
    by (rule map_idI) (use in_cache assms(1) in \<open>fastforce simp: linear_ok_iff\<close>)
  moreover have "set ch = {n. linear_view c ?sub True n \<noteq> None \<and> linear_view c ?sub True n \<noteq> map_of ?K n}"
  proof (intro set_eqI iffI CollectI)
    fix n assume n: "n \<in> set ch"
    then obtain r where r: "map_of (lc_resources c) n = Some r" "covers ?sub n"
      "resourceChanged ?K True n r = Inr True" using CH(1) by auto
    moreover obtain v where "cr_getVersion r True = Inr v"
      using have_version n r(1) by (auto simp: cached_version_def split: sum.splits)
    ultimately show "linear_view c ?sub True n \<noteq> None \<and> linear_view c ?sub True n \<noteq> map_of ?K n"
      using resourceChanged_True [of ?K True n r v] by (auto simp: linear_view_def cached_version_def)
  next
    fix n assume "n \<in> {n. linear_view c ?sub True n \<noteq> None \<and> linear_view c ?sub True n \<noteq> map_of ?K n}"
    then obtain r v where "map_of (lc_resources c) n = Some r" "cr_getVersion r True = Inr v" "covers ?sub n"
      "map_of ?K n \<noteq> Some v"
      by (auto simp: linear_view_def cached_version_def split: if_splits option.splits sum.splits)
    then show "n \<in> set ch" using CH(1) resourceChanged_total [of r True v ?K n] by auto
  qed
  ultimately show ?thesis using CH(3,4) assms(2) resp by (simp add: drw_buildResponse_def)
qed

lemma ex_ok2: "linear_ok ex_cache2"
  by (simp add: linear_ok_def ex_cache2_def gomap_ok_def ex_cached_def)

lemma ex_sub_ok: "subscription_ok ex_sub"
  by (simp add: ex_sub_def NewDeltaSubscription_ok)

lemma ex_delta2: "computeResponse ex_cache2 (DeltaWatch ex_watch) False = Inr (Some (WDelta
    \<lparr>rawd_DeltaRequest = Some ex_dreq, rawd_SystemVersionInfo = ''1'', rawd_resources = [ex_cached],
     rawd_removedResources = [], rawd_returnedResources = [(''a'', HashResource [])],
     rawd_Ctx = Background, rawd_marshaledResponse = None\<rparr>))"
  using ex_version
  by (simp add: computeResponse_def computeResourceChange_def ex_cache2_def ex_cache0_eq ex_watch_def
      ex_sub_eq drw_buildResponse_def lc_getVersion_def FormatUint_0_1 resourceChanged_def addReturned_def)

theorem linear_delta_minimal_witness:
  "set (map cr_name [ex_cached]) =
     {n. linear_view ex_cache2 ex_sub True n \<noteq> None \<and>
         linear_view ex_cache2 ex_sub True n \<noteq> map_of (sub_returnedResources ex_sub) n}"
  using linear_delta_minimal [OF ex_ok2 _ ex_delta2] ex_sub_ok by (simp add: ex_watch_def)

text \<open>A full-state response (listeners and clusters) holds every cached resource that the
  subscription covers, each exactly once, and nothing else.\<close>

theorem linear_full_state_complete:
  assumes "linear_ok c" and "subscription_ok (rw_subscription w)" and "rw_fullStateResponses w"
    and "computeResponse c (SotwWatch w) reply = Inr (Some (WRaw resp))"
  shows "distinct (map cr_name (raw_resources resp)) \<and>
    set (raw_resources resp) =
      {r. \<exists>n. covers (rw_subscription w) n \<and> map_of (lc_resources c) n = Some r}"
proof -
  let ?sub = "rw_subscription w" and ?w = "SotwWatch w"
  have ok: "gomap_ok (lc_resources c)" using assms(1) by (simp add: linear_ok_def)
  obtain ch rm rs K where
    chg: "computeResourceChange c ?sub False = Inr (ch, rm)" and
    fld: "rfold (addReturned c False) (names_to_return c ?w ch) ([], sub_returnedResources ?sub) = Inr (rs, K)"
    and resp: "WRaw resp = buildResponse ?w rs rm (fold AList.delete rm K) (lc_getVersion c)"
    by (rule computeResponse_Some [OF assms(4)]) auto
  let ?ns = "names_to_return c ?w ch"
  have ns: "distinct ?ns \<and> set ?ns = {n. covers ?sub n \<and> map_of (lc_resources c) n \<noteq> None}"
    using assms(2,3) ok distinct_subscribedInCache [of ?sub c] set_subscribedInCache [of ?sub c]
    by (auto simp: names_to_return_def covers_def gomap_ok_def map_of_eq_None_iff)
  have rs: "rs = map (\<lambda>n. the (map_of (lc_resources c) n)) ?ns"
    using rfold_addReturned [OF fld] by simp
  have "map cr_name rs = ?ns"
    unfolding rs map_map comp_def
    by (rule map_idI) (use ns assms(1) in \<open>fastforce simp: linear_ok_iff\<close>)
  moreover have "set rs = {r. \<exists>n. covers ?sub n \<and> map_of (lc_resources c) n = Some r}"
    using ns by (force simp: rs)
  ultimately show ?thesis using ns resp by (simp add: rw_buildResponse_def)
qed

lemma ex_sotw2: "computeResponse ex_cache2 (SotwWatch ex_sotw) False = Inr (Some (WRaw
    \<lparr>raw_Request = Some (rw_Request ex_sotw), raw_Version = ''1'', raw_resources = [ex_cached],
     raw_returnedResources = [(''a'', ''1'')], raw_Heartbeat = False, raw_Ctx = Background,
     raw_marshaledResponse = None\<rparr>))"
  by (simp add: computeResponse_def computeResourceChange_def subscribedInCache_def ex_cache2_def ex_cache0_eq
      ex_sotw_def ex_sub_eq rw_buildResponse_def lc_getVersion_def FormatUint_0_1 resourceChanged_def
      addReturned_def ex_cached_def)

theorem linear_full_state_complete_witness:
  "distinct (map cr_name [ex_cached]) \<and>
   set [ex_cached] = {r. \<exists>n. covers ex_sub n \<and> map_of (lc_resources ex_cache2) n = Some r}"
  using linear_full_state_complete [OF ex_ok2 _ _ ex_sotw2] ex_sub_ok by (simp add: ex_sotw_def)

text \<open>C34: \<open>CreateDeltaWatch\<close> leaves a request of the cache's type without an answer and opens a watch for
  it exactly when it is not the first request of a wildcard subscription, every covered resource has a
  version, and the versions the client is known to have are those of the view. It fails exactly when a
  covered resource has no version, and answers at once in the remaining cases.\<close>

theorem linear_delta_up_to_date:
  assumes "linear_ok c" and "subscription_ok sub" and "dreq_TypeUrl dreq = lc_typeURL c"
    and "lc_currentWatchID c + 1 \<noteq> 0"
  shows "case lc_CreateDeltaWatch dreq sub ch c of (c', out, r) \<Rightarrow>
     (if \<not> versions_ok c sub True then (\<exists>x. r = Inl x) \<and> out = [] \<and> c' = c
      else if (IsWildcard sub \<and> dreq_ResponseNonce dreq = '''') \<or>
        map_of (ReturnedResources sub) \<noteq> linear_view c sub True
      then r = Inr NilCancel \<and> c' = c \<and> (\<exists>resp. out = [(ch, WDelta resp)])
      else r \<in> range Inr \<and> out = [] \<and> lc_watchCount c' = lc_watchCount c + 1)"
proof -
  let ?w = "DeltaWatch \<lparr>drw_Request = dreq, drw_Response = ch, drw_subscription = sub\<rparr>"
  let ?reply = "IsWildcard sub \<and> dreq_ResponseNonce dreq = ''''"
  have ok: "gomap_ok (lc_resources c)" using assms(1) by (simp add: linear_ok_def)
  show ?thesis
  proof (cases "versions_ok c sub True")
    case False
    have "computeResponse c ?w ?reply \<noteq> Inr (Some resp)" for resp
      using False linear_covered_version [OF ok, of ?w ?reply resp] ok by (force simp: versions_ok_def map_of_iff)
    moreover have "computeResponse c ?w ?reply \<noteq> Inr None"
      using False computeResponse_None_reply [of c ?w ?reply] assms(2)
        delta_None_iff [OF ok, of "\<lparr>drw_Request = dreq, drw_Response = ch, drw_subscription = sub\<rparr>"] by auto
    ultimately obtain x where "computeResponse c ?w ?reply = Inl x" by (metis not_None_eq obj_sumE)
    with False assms(3) show ?thesis by (simp add: lc_CreateDeltaWatch_def Let_def)
  next
    case True
    have none: "computeResponse c ?w ?reply = Inr None \<longleftrightarrow>
        \<not> ?reply \<and> map_of (ReturnedResources sub) = linear_view c sub True"
      using True delta_None_iff [OF ok, of "\<lparr>drw_Request = dreq, drw_Response = ch, drw_subscription = sub\<rparr>"]
        assms(2) computeResponse_delta_reply [of c _ ?reply] by auto
    obtain x where x: "computeResponse c ?w ?reply = Inr x"
      using computeResponse_total [OF ok, of ?w ?reply] True by auto
    show ?thesis
    proof (cases x)
      case None
      obtain c' cn where "trackWatch c ?w = (c', Inr cn)" "lc_watchCount c' = lc_watchCount c + 1"
        using assms(4) by (cases "sub_wildcard sub") (simp_all add: trackWatch_def nextWatchID_def Let_def)
      with None x none True assms(3) show ?thesis by (auto simp: lc_CreateDeltaWatch_def Let_def)
    next
      case (Some resp)
      then obtain r where "resp = WDelta r" using computeResponse_Some [OF x [unfolded Some]] by fastforce
      with Some x none True assms(3) show ?thesis by (simp add: lc_CreateDeltaWatch_def Let_def)
    qed
  qed
qed

theorem linear_delta_up_to_date_witness:
  "\<exists>resp. lc_CreateDeltaWatch ex_dreq ex_sub 7 ex_cache2 = (ex_cache2, [(7, WDelta resp)], Inr NilCancel)"
proof -
  have 1: "versions_ok ex_cache2 ex_sub True" using ex_version by (simp add: versions_ok_def ex_cache2_def)
  have 2: "map_of (ReturnedResources ex_sub) \<noteq> linear_view ex_cache2 ex_sub True"
  proof
    assume "map_of (ReturnedResources ex_sub) = linear_view ex_cache2 ex_sub True"
    then have "map_of (ReturnedResources ex_sub) ''a'' = linear_view ex_cache2 ex_sub True ''a''" by simp
    then show False
      using ex_version by (simp add: ex_sub_eq linear_view_def covers_def cached_version_def ex_cache2_def)
  qed
  have "dreq_TypeUrl ex_dreq = lc_typeURL ex_cache2" "lc_currentWatchID ex_cache2 + 1 \<noteq> 0"
    by (simp_all add: ex_dreq_def ex_cache2_def ex_cache0_eq)
  from linear_delta_up_to_date [OF ex_ok2 ex_sub_ok this, of 7] 1 2 show ?thesis by auto
qed

text \<open>C17: once the server has recorded the versions returned with a response, the same watch gets no
  further response from the same cache: the exchange with a client stops.\<close>

theorem linear_no_repeat:
  assumes "linear_ok c" and "computeResponse c w reply = Inr (Some resp)"
    and "getSubscription w' = SetReturnedResources (getSubscription w) (wr_GetReturnedResources resp)"
    and "isDelta w' = isDelta w" and "sendFullStateResponses w' = sendFullStateResponses w"
  shows "computeResponse c w' False = Inr None"
proof -
  let ?sub = "getSubscription w" and ?rv = "useResourceVersion w"
  let ?K = "wr_GetReturnedResources resp"
  have ok: "gomap_ok (lc_resources c)" using assms(1) by (simp add: linear_ok_def)
  have view: "map_of ?K = linear_view c ?sub ?rv" by (rule response_returns_view [OF ok assms(2)])
  have rv: "useResourceVersion w' = ?rv" using assms(4) by (cases w; cases w') auto
  have cov: "covers (getSubscription w') = covers ?sub"
    by (simp add: assms(3) covers_def SetReturnedResources_def fun_eq_iff)
  obtain ch rm where chg: "computeResourceChange c ?sub ?rv = Inr (ch, rm)"
    by (rule computeResponse_change [OF assms(2)])
  have "resourceChanged ?K ?rv n r = Inr False"
    if n: "map_of (lc_resources c) n = Some r" "covers ?sub n" for n r
  proof -
    have "\<exists>v. cr_getVersion r ?rv = Inr v"
      using linear_covered_version [OF ok assms(2) n] .
    then show ?thesis using n by (auto simp: resourceChanged_False view linear_view_def cached_version_def)
  qed
  moreover have "map_of (lc_resources c) n \<noteq> None \<and> covers ?sub n" if "n \<in> fst ` set ?K" for n
  proof -
    have "linear_view c ?sub ?rv n \<noteq> None" using that view map_of_in_dom by metis
    then show ?thesis by (auto simp: linear_view_def cached_version_def split: if_splits option.splits)
  qed
  ultimately show ?thesis
    unfolding computeResponse_None_iff [OF ok] cov rv by (simp add: assms(3) SetReturnedResources_def)
qed

theorem linear_no_repeat_witness:
  "computeResponse ex_cache2
     (DeltaWatch (ex_watch\<lparr>drw_subscription := SetReturnedResources ex_sub [(''a'', HashResource [])]\<rparr>)) False
   = Inr None"
  by (rule linear_no_repeat [OF ex_ok2 ex_delta2]) (simp_all add: ex_watch_def)

lemma notifyLoop_frame:
  assumes "\<And>i w c. lc_resources (rem i w c) = lc_resources c \<and> lc_version (rem i w c) = lc_version c \<and>
      lc_versionPrefix (rem i w c) = lc_versionPrefix c \<and> lc_typeURL (rem i w c) = lc_typeURL c"
    and "notifyLoop rem ws c out = (c', out', e)"
  shows "lc_resources c' = lc_resources c \<and> lc_version c' = lc_version c \<and>
    lc_versionPrefix c' = lc_versionPrefix c \<and> lc_typeURL c' = lc_typeURL c"
  using assms(2)
proof (induction ws arbitrary: c out)
  case (Cons x ws)
  then show ?case
    using assms(1) by (cases x) (auto split: sum.splits option.splits)
qed auto

lemma notifyAll_frame:
  assumes "notifyAll c ns = (c', out, e)"
  shows "lc_resources c' = lc_resources c \<and> lc_version c' = lc_version c \<and>
    lc_versionPrefix c' = lc_versionPrefix c \<and> lc_typeURL c' = lc_typeURL c"
proof -
  let ?rem1 = "\<lambda>i w. removeWatch i (getSubscription w)" and ?rem2 = "\<lambda>i (w :: watch). removeWildcardWatch i"
  obtain c1 out1 e1 where l1: "notifyLoop ?rem1 (triggeredWatches c ns) c [] = (c1, out1, e1)"
    by (metis prod_cases3)
  note f1 = notifyLoop_frame [OF _ l1]
  show ?thesis
  proof (cases e1)
    case None
    then have "notifyLoop ?rem2 (lc_wildcardWatches c1) c1 out1 = (c', out, e)"
      using assms l1 by (simp add: notifyAll_def)
    from notifyLoop_frame [OF _ this] f1 show ?thesis
      by (simp add: removeWatch_def removeWildcardWatch_def)
  next
    case (Some x)
    then show ?thesis using assms l1 f1 by (simp add: notifyAll_def removeWatch_def)
  qed
qed

lemma linear_apply_frame:
  assumes "linear_apply m op c = (c', out, e)" and "\<And>n. op \<noteq> OpUpdate n MNil"
  shows "lc_resources c' = lc_resources (linear_write m op c)"
    and "lc_version c' = lc_version c + 1" and "lc_versionPrefix c' = lc_versionPrefix c"
proof -
  have "notifyAll (linear_write m op c) (linear_modified op c) = (c', out, e)"
    using assms unfolding linear_apply_eq
    by (auto split: linear_op.splits Resource.splits simp del: linear_write.simps)
  from notifyAll_frame [OF this] show "lc_resources c' = lc_resources (linear_write m op c)"
    "lc_version c' = lc_version c + 1" "lc_versionPrefix c' = lc_versionPrefix c" by simp_all
qed

text \<open>C35: reading after writing. After \<open>SetResources\<close> the cache holds exactly the given resources, and after
  \<open>UpdateResources\<close> the given updates less the deletions, the rest as before; this holds even when the
  call reports an error from a notification.\<close>

theorem linear_get_after_write:
  assumes "gomap_ok rs"
  shows "map_of (lc_GetResources (fst (SetResources m rs c))) = map_of rs \<and>
    map_of (lc_GetResources (fst (UpdateResources m rs ds c))) =
      (\<lambda>n. if n \<in> set ds then None else (map_of (lc_GetResources c) ++ map_of rs) n)"
proof -
  have get: "map_of (lc_GetResources c) n = map_option cr_resource (map_of (lc_resources c) n)" for c n
    using map_of_map_values [of "\<lambda>n. cr_resource" "lc_resources c" n] by (simp add: lc_GetResources_def)
  have S: "lc_resources (fst (SetResources m rs c)) = lc_resources (linear_write m (OpSet rs) c)"
    using linear_apply_frame(1) [of m "OpSet rs" c]
    by (metis linear_apply.simps(4) linear_op.distinct(5) prod.exhaust_sel)
  have U: "lc_resources (fst (UpdateResources m rs ds c)) = lc_resources (linear_write m (OpUpdateAll rs ds) c)"
    using linear_apply_frame(1) [of m "OpUpdateAll rs ds" c]
    by (metis linear_apply.simps(3) linear_op.distinct(3) prod.exhaust_sel)
  have new: "map_of (map (\<lambda>(n, r). (n, newCachedResource m n r v)) (rev rs)) k =
      map_option (\<lambda>r. newCachedResource m k r v) (map_of rs k)" for v k
    using map_of_map_values [of "\<lambda>n r. newCachedResource m n r v" "rev rs" k] map_of_rev_ok [OF assms]
    by simp
  have "map_of (lc_GetResources (fst (SetResources m rs c))) n = map_of rs n" for n
    unfolding get S using map_of_in_dom [of "lc_resources c" n]
    by (cases "map_of rs n")
      (auto simp: Let_def map_of_fold_delete map_of_fold_update_pairs map_add_def new)
  moreover have "map_of (lc_GetResources (fst (UpdateResources m rs ds c))) n =
      (if n \<in> set ds then None else (map_of (lc_GetResources c) ++ map_of rs) n)" for n
    unfolding get U
    by (auto simp: Let_def map_of_fold_delete map_of_fold_update_pairs map_add_def new get
        split: option.splits)
  ultimately show ?thesis by blast
qed

theorem linear_get_after_write_witness:
  "map_of (lc_GetResources (fst (SetResources ex_marshal [(''a'', ex_res)] ex_cache1))) = [''a'' \<mapsto> ex_res]"
  using linear_get_after_write [of "[(''a'', ex_res)]" ex_marshal ex_cache1] by (simp add: gomap_ok_def)

text \<open>C36: the version of the cache. Each successful or failed update of resources moves it, and the
  strings of two caches in a run of updates are equal only if the number of updates between them is a
  multiple of \<open>2 ^ 64\<close>.\<close>

theorem linear_version_fresh:
  assumes "c' = fold (\<lambda>op c. fst (linear_apply m op c)) ops c"
    and "\<forall>op\<in>set ops. \<forall>n. op \<noteq> OpUpdate n MNil"
  shows "lc_getVersion c' = lc_getVersion c \<longleftrightarrow> 2 ^ 64 dvd length ops"
proof -
  have "lc_version c' = lc_version c + of_nat (length ops) \<and> lc_versionPrefix c' = lc_versionPrefix c"
    using assms
  proof (induction ops arbitrary: c)
    case (Cons op ops)
    obtain c1 out e where "linear_apply m op c = (c1, out, e)" by (metis prod_cases3)
    from linear_apply_frame [OF this] Cons show ?case
      by (fastforce simp: \<open>linear_apply m op c = (c1, out, e)\<close>)
  qed simp
  then have "lc_getVersion c' = lc_getVersion c \<longleftrightarrow> (of_nat (length ops) :: 64 word) = 0"
    by (auto simp: lc_getVersion_def)
  then show ?thesis by (simp add: word_of_nat_eq_0_iff)
qed

theorem linear_version_fresh_witness:
  "lc_getVersion (fold (\<lambda>op c. fst (linear_apply ex_marshal op c)) [OpDelete ''a''] ex_cache0) \<noteq>
   lc_getVersion ex_cache0"
proof -
  have "\<forall>op\<in>set [OpDelete ''a'']. \<forall>n. op \<noteq> OpUpdate n MNil" by simp
  from linear_version_fresh [OF refl this] show ?thesis by simp
qed

text \<open>C38: in every reachable cache, running the cancel function of a watch that is open no more (a
  notification answered it, or it was cancelled before) removes no watch and yet counts one as closed:
  the counter of open watches goes down by one, below zero when no watch is open.\<close>

theorem linear_double_close:
  assumes "linear_run m c cs M" and "cn \<in> cs" and "cn = CancelWildcard i \<or> cn = CancelWatch i sub"
    and "\<And>w. \<not> tracked c i w"
  shows "lc_watchCount (runCancel cn c) = lc_watchCount c - 1 \<and>
    (\<forall>j w. tracked (runCancel cn c) j w \<longleftrightarrow> tracked c j w)"
proof -
  obtain T where T: "run_inv M T c cs" using linear_run_inv [OF assms(1)] ..
  have "cancelled cn T = T(i := None)" using assms(3) by auto
  then have "watch_index (T(i := None)) (runCancel cn c)"
    using run_inv_cancel [OF T assms(2)] by (simp add: run_inv_def)
  moreover have "watch_index T c" using T by (simp add: run_inv_def)
  ultimately have "tracked (runCancel cn c) j w \<longleftrightarrow> tracked c j w" for j w
    using assms(4) by (auto simp: tracked_iff)
  moreover have "lc_watchCount (runCancel cn c) = lc_watchCount c - 1"
    using assms(3) by (auto simp: removeWatch_def removeWildcardWatch_def)
  ultimately show ?thesis by blast
qed

theorem linear_double_close_witness:
  "linear_run ex_marshal ex_cache4 {CancelWatch 1 ex_sub} {} \<and> NumCacheWatches ex_cache4 = 0 \<and>
   NumCacheWatches (runCancel (CancelWatch 1 ex_sub) ex_cache4) = - 1 \<and>
   (\<forall>j w. \<not> tracked (runCancel (CancelWatch 1 ex_sub) ex_cache4) j w)"
proof -
  have none: "\<not> tracked ex_cache4 j w" for j w
    by (simp add: tracked_def ex_cache4_def ex_cache2_def ex_cache0_eq gsub_def)
  have "lc_watchCount ex_cache4 = 0" by (simp add: ex_cache4_def ex_cache2_def ex_cache0_eq)
  with linear_double_close [OF ex_run4, of "CancelWatch 1 ex_sub" 1 ex_sub] none ex_run4 show ?thesis
    by (simp add: NumCacheWatches_def)
qed

end
