(* ===== verification/Snapshot.thy ===== *)
theory Snapshot
  imports Responses
begin

text \<open>
  Snapshots: groups of resources (\<open>src/pkg/cache/v3/resources.go\<close>), the references between resources
  (\<open>src/pkg/cache/v3/resource.go\<close>, \<open>src/pkg/resource/v3/resource.go\<close>) and \<open>Snapshot\<close>
  (\<open>src/pkg/cache/v3/snapshot.go\<close>).

  The array \<open>Resources [types.UnknownType]Resources\<close> is a function on \<open>ResponseType\<close>, ranged over in the
  order of \<open>response_types\<close>. A nil \<open>*Snapshot\<close> is \<open>None\<close>. A \<open>map[string]bool\<close> that only ever holds true is
  the list of its keys. \<open>anypb.UnmarshalTo\<close> is code of the protobuf module: the parameter \<open>unmarshal\<close>.
\<close>

section \<open>Definitions\<close>

subsection \<open>Groups of resources\<close>

record Resources =
  rs_Version :: string
  rs_Items :: "(string, ResourceWithTTL) gomap"

definition IndexResourcesByName :: "ResourceWithTTL list \<Rightarrow> (string, ResourceWithTTL) gomap" where
  "IndexResourcesByName items =
     fold (\<lambda>item indexed. AList.update (GetResourceName (rt_Resource item)) item indexed) items []"

definition IndexRawResourcesByName :: "Resource list \<Rightarrow> (string, Resource) gomap" where
  "IndexRawResourcesByName items =
     fold (\<lambda>item indexed. AList.update (GetResourceName item) item indexed) items []"

definition NewResourcesWithTTL :: "string \<Rightarrow> ResourceWithTTL list \<Rightarrow> Resources" where
  "NewResourcesWithTTL version items = \<lparr>rs_Version = version, rs_Items = IndexResourcesByName items\<rparr>"

definition NewResources :: "string \<Rightarrow> Resource list \<Rightarrow> Resources" where
  "NewResources version items =
     NewResourcesWithTTL version (map (\<lambda>item. \<lparr>rt_Resource = item, rt_TTL = None\<rparr>) items)"

subsection \<open>References between resources\<close>

type_synonym references = "(string, string list) gomap"

type_synonym unmarshaler = "any \<Rightarrow> http_connection_manager result"

definition GetHTTPConnectionManager :: "unmarshaler \<Rightarrow> filter_msg \<Rightarrow> http_connection_manager option" where
  "GetHTTPConnectionManager unmarshal filt =
     (case flt_TypedConfig filt of
        None \<Rightarrow> None
      | Some typedConfig \<Rightarrow>
          (case unmarshal typedConfig of Inl e \<Rightarrow> None | Inr config \<Rightarrow> Some config))"

definition referenceSet :: "references \<Rightarrow> string \<Rightarrow> string list" where
  "referenceSet out typeURL = (case map_of out typeURL of None \<Rightarrow> [] | Some names \<Rightarrow> names)"

text \<open>The end of each collector: when names were found, add them under the type URL.\<close>

definition copy_references :: "string \<Rightarrow> string list \<Rightarrow> references \<Rightarrow> references" where
  "copy_references typeURL names out =
     (if names \<noteq> [] then AList.update typeURL (fold set_add names (referenceSet out typeURL)) out else out)"

definition getClusterReferences :: "cluster_msg \<Rightarrow> references \<Rightarrow> references" where
  "getClusterReferences src out =
     (let endpoints =
        (case cl_Discovery src of
           Cluster_Type EDS \<Rightarrow>
             (case cl_EdsServiceName src of
                Some serviceName \<Rightarrow> if serviceName \<noteq> '''' then [serviceName] else [cl_Name src]
              | None \<Rightarrow> [cl_Name src])
         | _ \<Rightarrow> [])
      in copy_references EndpointType endpoints out)"

definition getListenerReferencesFromChain ::
  "unmarshaler \<Rightarrow> filter_chain \<Rightarrow> string list \<Rightarrow> string list" where
  "getListenerReferencesFromChain unmarshal chain routes =
     fold (\<lambda>filt routes.
             case GetHTTPConnectionManager unmarshal filt of
               None \<Rightarrow> routes
             | Some config \<Rightarrow>
                 fold set_add (hcm_ScopedRouteConfigurationNames config)
                   (if hcm_RdsRouteConfigName config \<noteq> ''''
                    then set_add (hcm_RdsRouteConfigName config) routes else routes))
       chain routes"

definition getListenerReferences :: "unmarshaler \<Rightarrow> listener_msg \<Rightarrow> references \<Rightarrow> references" where
  "getListenerReferences unmarshal src out =
     (let routes = fold (getListenerReferencesFromChain unmarshal) (ln_FilterChains src) [];
          routes = (case ln_DefaultFilterChain src of
                      None \<Rightarrow> routes
                    | Some chain \<Rightarrow> getListenerReferencesFromChain unmarshal chain routes)
      in copy_references RouteType routes out)"

definition getScopedRouteReferences :: "string \<Rightarrow> references \<Rightarrow> references" where
  "getScopedRouteReferences routeConfigurationName out =
     copy_references RouteType [routeConfigurationName] out"

definition getResourceReferences ::
  "unmarshaler \<Rightarrow> (string, ResourceWithTTL) gomap \<Rightarrow> references \<Rightarrow> references" where
  "getResourceReferences unmarshal resources out =
     fold (\<lambda>(name, res) out.
             case rt_Resource res of
               MCluster v \<Rightarrow> getClusterReferences v out
             | MScopedRouteConfiguration _ route _ \<Rightarrow> getScopedRouteReferences route out
             | MListener v \<Rightarrow> getListenerReferences unmarshal v out
             | _ \<Rightarrow> out)
       resources out"

definition GetResourceReferences :: "unmarshaler \<Rightarrow> (string, ResourceWithTTL) gomap \<Rightarrow> references" where
  "GetResourceReferences unmarshal resources = getResourceReferences unmarshal resources []"

definition GetAllResourceReferences :: "unmarshaler \<Rightarrow> (ResponseType \<Rightarrow> Resources) \<Rightarrow> references" where
  "GetAllResourceReferences unmarshal resourceGroups =
     fold (\<lambda>responseType ret.
             if responseType \<in> {Cluster, Listener, ScopedRoute}
             then getResourceReferences unmarshal (rs_Items (resourceGroups responseType)) ret
             else ret)
       response_types []"

subsection \<open>Snapshots\<close>

record Snapshot =
  sn_Resources :: "ResponseType \<Rightarrow> Resources"
  sn_VersionMap :: "(string, (string, string) gomap) gomap option"

definition emptySnapshot :: Snapshot where
  "emptySnapshot = \<lparr>sn_Resources = (\<lambda>t. \<lparr>rs_Version = '''', rs_Items = []\<rparr>), sn_VersionMap = None\<rparr>"

definition NewSnapshotWithTTLs ::
  "string \<Rightarrow> (string, ResourceWithTTL list) gomap \<Rightarrow> Snapshot result" where
  "NewSnapshotWithTTLs version resources =
     rfold (\<lambda>(typ, resource) out.
              let index = GetResponseType typ in
              if index = UnknownType then Inl (Errorf (''unknown resource type: '' @ typ) [])
              else Inr (out\<lparr>sn_Resources :=
                              (sn_Resources out)(index := NewResourcesWithTTL version resource)\<rparr>))
       resources emptySnapshot"

definition NewSnapshot :: "string \<Rightarrow> (string, Resource list) gomap \<Rightarrow> Snapshot result" where
  "NewSnapshot version resources =
     rfold (\<lambda>(typ, resource) out.
              let index = GetResponseType typ in
              if index = UnknownType then Inl (Errorf (''unknown resource type: '' @ typ) [])
              else Inr (out\<lparr>sn_Resources := (sn_Resources out)(index := NewResources version resource)\<rparr>))
       resources emptySnapshot"

text \<open>\<open>difference\<close> of \<open>simple.go\<close>: the names present in resources but not in names.\<close>

definition difference :: "(string, ResourceWithTTL) gomap \<Rightarrow> string list \<Rightarrow> string list" where
  "difference resources names = filter (\<lambda>resourceName. resourceName \<notin> set names) (map fst resources)"

text \<open>The body of the loop of \<open>Consistent\<close>; \<open>Inr ()\<close> goes on.\<close>

definition consistent_type :: "references \<Rightarrow> (ResponseType \<Rightarrow> Resources) \<Rightarrow> ResponseType \<Rightarrow> unit result" where
  "consistent_type referencedResources resources responseType =
     (if responseType \<in> {Endpoint, Route} then
        (case GetResponseTypeURL responseType of
           Inl e \<Rightarrow> Inl e
         | Inr typeURL \<Rightarrow>
             (let refs = referenceSet referencedResources typeURL;
                  items = rs_Items (resources responseType);
                  missing = difference items refs
              in if length refs \<noteq> length items
                 then Inl (Errorf ''mismatched %q reference and resource lengths: len(%v) != %d'' (typeURL # refs))
                 else if missing \<noteq> []
                 then Inl (Errorf ''inconsistent %q reference: missing resources %v'' (typeURL # missing))
                 else Inr ()))
      else Inr ())"

definition Consistent :: "unmarshaler \<Rightarrow> Snapshot option \<Rightarrow> unit result" where
  "Consistent unmarshal s =
     (case s of
        None \<Rightarrow> Inl (Errorf ''nil snapshot'' [])
      | Some s \<Rightarrow>
          (let referencedResources = GetAllResourceReferences unmarshal (sn_Resources s)
           in rfold (\<lambda>responseType u. consistent_type referencedResources (sn_Resources s) responseType)
                response_types ()))"

definition GetResourcesAndTTL :: "Snapshot option \<Rightarrow> string \<Rightarrow> (string, ResourceWithTTL) gomap" where
  "GetResourcesAndTTL s typeURL =
     (case s of
        None \<Rightarrow> []
      | Some s \<Rightarrow>
          (let typ = GetResponseType typeURL in
           if typ = UnknownType then [] else rs_Items (sn_Resources s typ)))"

definition GetResources :: "Snapshot option \<Rightarrow> string \<Rightarrow> (string, Resource) gomap" where
  "GetResources s typeURL = map (\<lambda>(k, v). (k, rt_Resource v)) (GetResourcesAndTTL s typeURL)"

definition GetVersion :: "Snapshot option \<Rightarrow> string \<Rightarrow> string" where
  "GetVersion s typeURL =
     (case s of
        None \<Rightarrow> ''''
      | Some s \<Rightarrow>
          (let typ = GetResponseType typeURL in
           if typ = UnknownType then '''' else rs_Version (sn_Resources s typ)))"

text \<open>A nil map has no entries.\<close>

definition GetVersionMap :: "Snapshot \<Rightarrow> string \<Rightarrow> (string, string) gomap" where
  "GetVersionMap s typeURL = (case sn_VersionMap s of None \<Rightarrow> [] | Some vm \<Rightarrow> gsub vm typeURL)"

text \<open>The loops of \<open>ConstructVersionMap\<close>: an error keeps what was filled in before it.\<close>

fun construct_items ::
  "marshaler \<Rightarrow> string \<Rightarrow> (string, ResourceWithTTL) gomap \<Rightarrow> (string, (string, string) gomap) gomap \<Rightarrow>
     (string, (string, string) gomap) gomap \<times> error option" where
  "construct_items marshal typeURL [] vm = (vm, None)"
| "construct_items marshal typeURL ((k, r) # rest) vm =
     (case MarshalResource marshal (rt_Resource r) of
        Inl e \<Rightarrow> (vm, Some e)
      | Inr marshaledResource \<Rightarrow>
          (let v = HashResource marshaledResource in
           if v = '''' then (vm, Some (Errorf ''failed to build resource version: %w'' []))
           else construct_items marshal typeURL rest
                  (AList.update typeURL
                     (AList.update (GetResourceName (rt_Resource r)) v (gsub vm typeURL)) vm)))"

fun construct_types ::
  "marshaler \<Rightarrow> (ResponseType \<Rightarrow> Resources) \<Rightarrow> ResponseType list \<Rightarrow>
     (string, (string, string) gomap) gomap \<Rightarrow> (string, (string, string) gomap) gomap \<times> error option" where
  "construct_types marshal resources [] vm = (vm, None)"
| "construct_types marshal resources (i # rest) vm =
     (case GetResponseTypeURL i of
        Inl e \<Rightarrow> (vm, Some e)
      | Inr typeURL \<Rightarrow>
          (let vm = (if map_of vm typeURL = None then AList.update typeURL [] vm else vm) in
           case construct_items marshal typeURL (rs_Items (resources i)) vm of
             (vm, Some e) \<Rightarrow> (vm, Some e)
           | (vm, None) \<Rightarrow> construct_types marshal resources rest vm))"

definition ConstructVersionMap :: "marshaler \<Rightarrow> Snapshot option \<Rightarrow> Snapshot option \<times> error option" where
  "ConstructVersionMap marshal s =
     (case s of
        None \<Rightarrow> (None, Some (Errorf ''missing snapshot'' []))
      | Some s \<Rightarrow>
          if sn_VersionMap s \<noteq> None then (Some s, None)
          else (case construct_types marshal (sn_Resources s) response_types [] of
                  (vm, e) \<Rightarrow> (Some (s\<lparr>sn_VersionMap := Some vm\<rparr>), e)))"

subsection \<open>What the references mean\<close>

definition cluster_refs :: "cluster_msg \<Rightarrow> string set" where
  "cluster_refs c =
     (if cl_Discovery c = Cluster_Type EDS
      then {if cl_EdsServiceName c \<noteq> None \<and> the (cl_EdsServiceName c) \<noteq> '''' then the (cl_EdsServiceName c)
            else cl_Name c}
      else {})"

definition chain_refs :: "unmarshaler \<Rightarrow> filter_chain \<Rightarrow> string set" where
  "chain_refs u chain =
     (\<Union>f\<in>set chain. case GetHTTPConnectionManager u f of
        None \<Rightarrow> {}
      | Some cfg \<Rightarrow> set (hcm_ScopedRouteConfigurationNames cfg) \<union> ({hcm_RdsRouteConfigName cfg} - {''''}))"

definition listener_refs :: "unmarshaler \<Rightarrow> listener_msg \<Rightarrow> string set" where
  "listener_refs u l = (\<Union>chain\<in>set (ln_FilterChains l) \<union> set_option (ln_DefaultFilterChain l). chain_refs u chain)"

definition resource_refs :: "unmarshaler \<Rightarrow> string \<Rightarrow> Resource \<Rightarrow> string set" where
  "resource_refs u t r =
     (case r of
        MCluster c \<Rightarrow> if t = EndpointType then cluster_refs c else {}
      | MScopedRouteConfiguration _ route _ \<Rightarrow> if t = RouteType then {route} else {}
      | MListener l \<Rightarrow> if t = RouteType then listener_refs u l else {}
      | _ \<Rightarrow> {})"

text \<open>The names of type \<open>t\<close> that the clusters, listeners and scoped routes of a snapshot refer to.\<close>

definition snapshot_refs :: "unmarshaler \<Rightarrow> (ResponseType \<Rightarrow> Resources) \<Rightarrow> string \<Rightarrow> string set" where
  "snapshot_refs u R t =
     (\<Union>rt\<in>{Cluster, Listener, ScopedRoute}. \<Union>(n, r)\<in>set (rs_Items (R rt)). resource_refs u t (rt_Resource r))"

text \<open>One iteration of the loop of \<open>getResourceReferences\<close>.\<close>

definition add_references :: "unmarshaler \<Rightarrow> string \<times> ResourceWithTTL \<Rightarrow> references \<Rightarrow> references" where
  "add_references u = (\<lambda>(name, res) out.
     case rt_Resource res of
       MCluster v \<Rightarrow> getClusterReferences v out
     | MScopedRouteConfiguration _ route _ \<Rightarrow> getScopedRouteReferences route out
     | MListener v \<Rightarrow> getListenerReferences u v out
     | _ \<Rightarrow> out)"

text \<open>Snapshots for the examples.\<close>

definition ex_snapshot :: Snapshot where
  "ex_snapshot = emptySnapshot\<lparr>sn_Resources :=
     (sn_Resources emptySnapshot)(Runtime := NewResources ''v1'' [MRuntime ''r'' ''x''])\<rparr>"

definition ex_cluster :: cluster_msg where
  "ex_cluster = \<lparr>cl_Name = ''c'', cl_Discovery = NoDiscoveryType, cl_EdsServiceName = None, cl_Rest = ''x''\<rparr>"

definition ex_bad_snapshot :: Snapshot where
  "ex_bad_snapshot = emptySnapshot\<lparr>sn_Resources :=
     (sn_Resources emptySnapshot)(Cluster := NewResources ''v1'' [MCluster ex_cluster])\<rparr>"

definition ex_scoped_snapshot :: Snapshot where
  "ex_scoped_snapshot = emptySnapshot\<lparr>sn_Resources := (sn_Resources emptySnapshot)
     (ScopedRoute := NewResources ''v1'' [MScopedRouteConfiguration ''s'' ''r'' ''x''],
      Route := NewResources ''v1'' [MRouteConfiguration ''r'' ''x''])\<rparr>"

section \<open>Lemmas\<close>

text \<open>A collector adds names to the entry of one type.\<close>

lemma referenceSet_copy:
  "set (referenceSet (copy_references u ns out) t) =
     (if t = u then set ns \<union> set (referenceSet out t) else set (referenceSet out t))"
  by (auto simp: copy_references_def referenceSet_def)

lemma distinct_copy:
  "distinct (referenceSet out t) \<Longrightarrow> distinct (referenceSet (copy_references u ns out) t)"
  by (auto simp: copy_references_def referenceSet_def)

lemma set_chain_references:
  "set (getListenerReferencesFromChain u chain routes) = chain_refs u chain \<union> set routes"
  unfolding getListenerReferencesFromChain_def chain_refs_def
  by (induction chain arbitrary: routes) (auto split: option.splits)

lemma set_chains_references:
  "set (fold (getListenerReferencesFromChain u) cs routes) = (\<Union>c\<in>set cs. chain_refs u c) \<union> set routes"
  by (induction cs arbitrary: routes) (auto simp: set_chain_references)

lemma add_references:
  "set (referenceSet (add_references u (n, r) out) t) = resource_refs u t (rt_Resource r) \<union> set (referenceSet out t)"
  by (auto simp: add_references_def resource_refs_def getClusterReferences_def getScopedRouteReferences_def
      getListenerReferences_def referenceSet_copy cluster_refs_def listener_refs_def Let_def
      set_chain_references set_chains_references
      split: Resource.splits cluster_discovery.splits discovery_type.splits option.splits)

lemma distinct_add_references:
  "distinct (referenceSet out t) \<Longrightarrow> distinct (referenceSet (add_references u (n, r) out) t)"
  by (auto simp: add_references_def getClusterReferences_def getScopedRouteReferences_def
      getListenerReferences_def distinct_copy Let_def split: Resource.splits)

lemma getResourceReferences_fold: "getResourceReferences u items out = fold (add_references u) items out"
  by (simp add: getResourceReferences_def add_references_def)

lemma getResourceReferences_set:
  "set (referenceSet (getResourceReferences u items out) t) =
     (\<Union>(n, r)\<in>set items. resource_refs u t (rt_Resource r)) \<union> set (referenceSet out t) \<and>
   (distinct (referenceSet out t) \<longrightarrow> distinct (referenceSet (getResourceReferences u items out) t))"
  unfolding getResourceReferences_fold
proof (induction items arbitrary: out)
  case (Cons x items)
  then show ?case by (cases x) (auto simp: add_references distinct_add_references)
qed simp

lemma GetAllResourceReferences_set:
  "set (referenceSet (GetAllResourceReferences u R) t) = snapshot_refs u R t"
  "distinct (referenceSet (GetAllResourceReferences u R) t)"
  by (auto simp: GetAllResourceReferences_def response_types_def getResourceReferences_set snapshot_refs_def
      referenceSet_def [of "[]"])

subsection \<open>Consistency\<close>

lemma sets_of_equal_size:
  assumes "distinct xs" and "distinct ys" and "length xs = length ys" and "set ys \<subseteq> set xs"
  shows "set ys = set xs"
  by (rule card_subset_eq) (use assms in \<open>auto simp: distinct_card\<close>)

lemma consistent_type_Inr:
  assumes "gomap_ok (rs_Items (R rt))" and "GetResponseTypeURL rt = Inr t" and "rt \<in> {Endpoint, Route}"
  shows "consistent_type (GetAllResourceReferences u R) R rt = Inr () \<longleftrightarrow>
    fst ` set (rs_Items (R rt)) = snapshot_refs u R t"
proof -
  let ?refs = "referenceSet (GetAllResourceReferences u R) t" and ?names = "map fst (rs_Items (R rt))"
  have "consistent_type (GetAllResourceReferences u R) R rt = Inr () \<longleftrightarrow>
      length ?refs = length ?names \<and> set ?names \<subseteq> set ?refs"
    unfolding consistent_type_def Let_def difference_def using assms(2,3)
    by (auto simp: filter_empty_conv)
  also have "\<dots> \<longleftrightarrow> set ?names = set ?refs"
  proof
    have d: "distinct ?refs" "distinct ?names"
      using assms(1) GetAllResourceReferences_set(2) [of u R t] by (simp_all add: gomap_ok_def)
    show "set ?names = set ?refs" if "length ?refs = length ?names \<and> set ?names \<subseteq> set ?refs"
      using sets_of_equal_size [OF d] that by blast
    show "length ?refs = length ?names \<and> set ?names \<subseteq> set ?refs" if "set ?names = set ?refs"
      using that distinct_card [OF d(1)] distinct_card [OF d(2)] by simp
  qed
  finally show ?thesis by (simp add: GetAllResourceReferences_set)
qed

lemma rfold_unit: "rfold (\<lambda>x u. f x) xs () = Inr () \<longleftrightarrow> (\<forall>x\<in>set xs. f x = Inr ())"
  by (induction xs) (auto split: sum.splits)

subsection \<open>Version maps\<close>

lemma construct_items_None:
  assumes "construct_items m t items vm = (vm', None)"
  shows "gsub vm' t = fold (\<lambda>r a. AList.update (GetResourceName (rt_Resource r))
      (HashResource (projr (m (rt_Resource r)))) a) (map snd items) (gsub vm t) \<and>
    (\<forall>u. u \<noteq> t \<longrightarrow> gsub vm' u = gsub vm u) \<and> (\<forall>(n, r)\<in>set items. \<exists>b. m (rt_Resource r) = Inr b)"
  using assms
proof (induction m t items vm rule: construct_items.induct)
  case (2 m t k r rest vm)
  then show ?case
    by (auto simp: MarshalResource_def Let_def HashResource_not_Nil split: sum.splits)
qed simp

lemma construct_types_None:
  assumes "construct_types m R ts vm = (vm', None)" and "distinct ts"
    and "\<And>i. i \<in> set ts \<Longrightarrow> i \<noteq> UnknownType"
  shows "\<forall>i u. GetResponseTypeURL i = Inr u \<longrightarrow> gsub vm' u =
    (if i \<in> set ts then fold (\<lambda>r a. AList.update (GetResourceName (rt_Resource r))
        (HashResource (projr (m (rt_Resource r)))) a) (map snd (rs_Items (R i))) (gsub vm u)
     else gsub vm u)"
  using assms
proof (induction ts arbitrary: vm)
  case (Cons i ts)
  obtain t where t: "GetResponseTypeURL i = Inr t" using GetResponseTypeURL_known Cons.prems(3) by auto
  let ?vm = "if map_of vm t = None then AList.update t [] vm else vm"
  have vm: "gsub ?vm u = gsub vm u" for u by (auto simp: gsub_def)
  obtain vm1 where items: "construct_items m t (rs_Items (R i)) ?vm = (vm1, None)"
    and rest: "construct_types m R ts vm1 = (vm', None)"
    using Cons.prems(1) t by (auto simp: Let_def split: prod.splits option.splits)
  have inj: "u = t \<longleftrightarrow> j = i" if "GetResponseTypeURL j = Inr u" for j u
    using that t by (cases i; cases j) auto
  note IT = construct_items_None [OF items, unfolded vm]
  note IH = Cons.IH [OF rest]
  show ?case
  proof (intro allI impI)
    fix j u assume j: "GetResponseTypeURL j = Inr u"
    have "gsub vm1 u = gsub vm u" if "j \<noteq> i" using IT inj [OF j] that by blast
    with IH IT j t Cons.prems(2,3) inj [OF j]
    show "gsub vm' u = (if j \<in> set (i # ts)
        then fold (\<lambda>r a. AList.update (GetResourceName (rt_Resource r))
          (HashResource (projr (m (rt_Resource r)))) a) (map snd (rs_Items (R j))) (gsub vm u)
        else gsub vm u)"
      by (cases "j = i") simp_all
  qed
qed auto

text \<open>The only error: a resource that cannot be marshaled. The hash is never empty.\<close>

lemma construct_items_total:
  "(\<And>n r. (n, r) \<in> set items \<Longrightarrow> \<exists>b. m (rt_Resource r) = Inr b) \<Longrightarrow>
     \<exists>vm'. construct_items m t items vm = (vm', None)"
proof (induction items arbitrary: vm)
  case (Cons x rest)
  obtain k r where x: "x = (k, r)" by (cases x)
  obtain b where "m (rt_Resource r) = Inr b" using Cons.prems [of k r] x by auto
  moreover have "\<exists>vm'. construct_items m t rest w = (vm', None)" for w
    using Cons.prems by (intro Cons.IH) (meson list.set_intros(2))
  ultimately show ?case by (simp add: x MarshalResource_def Let_def)
qed simp

lemma construct_types_total:
  assumes "\<And>i n r. (n, r) \<in> set (rs_Items (R i)) \<Longrightarrow> \<exists>b. m (rt_Resource r) = Inr b"
    and "\<And>i. i \<in> set ts \<Longrightarrow> i \<noteq> UnknownType"
  shows "\<exists>vm'. construct_types m R ts vm = (vm', None)"
  using assms(2)
proof (induction ts arbitrary: vm)
  case (Cons i ts)
  obtain t where t: "GetResponseTypeURL i = Inr t" using GetResponseTypeURL_known Cons.prems by auto
  obtain vm1 where
    "construct_items m t (rs_Items (R i)) (if map_of vm t = None then AList.update t [] vm else vm) = (vm1, None)"
    using construct_items_total assms(1) by blast
  with t Cons show ?case by (simp add: Let_def)
qed simp

lemma ConstructVersionMap_total:
  assumes "\<And>i n r. (n, r) \<in> set (rs_Items (sn_Resources s i)) \<Longrightarrow> \<exists>b. m (rt_Resource r) = Inr b"
  shows "\<exists>s'. ConstructVersionMap m (Some s) = (Some s', None)"
  using construct_types_total [of "sn_Resources s" m response_types "[]"] assms
  by (auto simp: ConstructVersionMap_def set_response_types)

section \<open>Properties\<close>

lemma Consistent_Inr:
  assumes "\<And>t. gomap_ok (rs_Items (sn_Resources s t))"
  shows "Consistent u (Some s) = Inr () \<longleftrightarrow>
    fst ` set (rs_Items (sn_Resources s Endpoint)) = snapshot_refs u (sn_Resources s) EndpointType \<and>
    fst ` set (rs_Items (sn_Resources s Route)) = snapshot_refs u (sn_Resources s) RouteType"
proof -
  let ?R = "sn_Resources s"
  have "Consistent u (Some s) = Inr () \<longleftrightarrow>
      (\<forall>t\<in>set response_types. consistent_type (GetAllResourceReferences u ?R) ?R t = Inr ())"
    by (simp add: Consistent_def Let_def rfold_unit)
  also have "\<dots> \<longleftrightarrow> consistent_type (GetAllResourceReferences u ?R) ?R Endpoint = Inr () \<and>
      consistent_type (GetAllResourceReferences u ?R) ?R Route = Inr ()"
    by (auto simp: response_types_def) (auto simp: consistent_type_def)
  finally show ?thesis
    using consistent_type_Inr [of ?R Endpoint EndpointType u] consistent_type_Inr [of ?R Route RouteType u] assms
    by simp
qed

text \<open>The resources of a group, and what they are when their names are distinct.\<close>

lemma NewResources_distinct:
  assumes "distinct (map GetResourceName items)"
  shows "rs_Items (NewResources v items) = map (\<lambda>r. (GetResourceName r, \<lparr>rt_Resource = r, rt_TTL = None\<rparr>)) items"
proof -
  have "fold (\<lambda>item indexed. AList.update (GetResourceName (rt_Resource item)) item indexed)
      (map (\<lambda>r. \<lparr>rt_Resource = r, rt_TTL = None\<rparr>) items) a =
      a @ map (\<lambda>r. (GetResourceName r, \<lparr>rt_Resource = r, rt_TTL = None\<rparr>)) items"
    if "distinct (map GetResourceName items)" and "\<forall>r\<in>set items. GetResourceName r \<notin> fst ` set a" for a
    using that
  proof (induction items arbitrary: a)
    case (Cons r items)
    have "AList.update (GetResourceName r) x a = a @ [(GetResourceName r, x)]" for x
      using Cons.prems(2) by (induction a) auto
    moreover have "\<forall>q\<in>set items. GetResourceName q \<notin> fst ` set (a @ [(GetResourceName r, x)])" for x
      using Cons.prems by (auto simp: image_iff)
    ultimately show ?case using Cons.IH Cons.prems(1) by simp
  qed simp
  from this [of "[]"] assms show ?thesis
    by (simp add: NewResources_def NewResourcesWithTTL_def IndexResourcesByName_def)
qed

lemma gomap_ok_NewResources [simp]: "gomap_ok (rs_Items (NewResources v items))"
proof -
  have "gomap_ok a \<Longrightarrow> gomap_ok (fold (\<lambda>item indexed. AList.update (GetResourceName (rt_Resource item)) item indexed) xs a)"
    for a and xs :: "ResourceWithTTL list"
    by (induction xs arbitrary: a) auto
  then show ?thesis by (simp add: NewResources_def NewResourcesWithTTL_def IndexResourcesByName_def)
qed

text \<open>C31: a snapshot whose groups are proper maps is accepted by \<open>Consistent\<close> exactly when the names of its
  endpoints are those its clusters refer to and the names of its routes are those its listeners and
  scoped routes refer to, whatever the unmarshaling of filters does. Nothing else is compared: in
  particular a scoped route need not be named by a listener, unlike the comment on \<open>Consistent\<close> has it.\<close>

theorem consistent_iff_references:
  assumes "\<And>t. gomap_ok (rs_Items (sn_Resources s t))"
  shows "Consistent u (Some s) = Inr () \<longleftrightarrow>
    fst ` set (rs_Items (sn_Resources s Endpoint)) = snapshot_refs u (sn_Resources s) EndpointType \<and>
    fst ` set (rs_Items (sn_Resources s Route)) = snapshot_refs u (sn_Resources s) RouteType"
  using assms by (rule Consistent_Inr)

text \<open>Snapshots with a scoped route that no listener names, with the route it refers to and without.\<close>

definition ex_scoped :: "Resource list \<Rightarrow> Snapshot" where
  "ex_scoped routes = emptySnapshot\<lparr>sn_Resources := (sn_Resources emptySnapshot)
     (ScopedRoute := NewResources ''v1'' [MScopedRouteConfiguration ''s'' ''r'' ''x''], Route := NewResources ''v1'' routes)\<rparr>"

lemma ex_scoped_groups:
  "gomap_ok (rs_Items (sn_Resources (ex_scoped rs) t))"
  "fst ` set (rs_Items (sn_Resources (ex_scoped rs) Endpoint)) = {}"
  "snapshot_refs u (sn_Resources (ex_scoped rs)) EndpointType = {}"
  "snapshot_refs u (sn_Resources (ex_scoped rs)) RouteType = {''r''}"
  by (simp_all add: ex_scoped_def emptySnapshot_def snapshot_refs_def resource_refs_def NewResources_distinct type_url_defs)

theorem consistent_iff_references_witness:
  "Consistent (\<lambda>a. Inl EOF) (Some (ex_scoped [MRouteConfiguration ''r'' ''x''])) = Inr () \<and>
   Consistent (\<lambda>a. Inl EOF) (Some (ex_scoped [])) \<noteq> Inr ()"
proof -
  have "fst ` set (rs_Items (sn_Resources (ex_scoped [MRouteConfiguration ''r'' ''x'']) Route)) = {''r''}"
    "fst ` set (rs_Items (sn_Resources (ex_scoped []) Route)) = {}"
    by (simp_all add: ex_scoped_def NewResources_distinct)
  with consistent_iff_references [OF ex_scoped_groups(1), where u = "\<lambda>a. Inl EOF"] show ?thesis
    by (simp add: ex_scoped_groups)
qed

text \<open>The version map that \<open>ConstructVersionMap\<close> builds without error. For every type URL and resource
  the map holds the hash of the marshaled resource under the name of the resource, and a second call
  changes nothing.\<close>

theorem version_map_hashes:
  assumes "sn_VersionMap s = None" and "ConstructVersionMap m (Some s) = (Some s', None)"
    and "GetResponseType typeURL \<noteq> UnknownType"
    and "\<And>n r. (n, r) \<in> set (GetResourcesAndTTL (Some s) typeURL) \<Longrightarrow> n = GetResourceName (rt_Resource r)"
    and "gomap_ok (GetResourcesAndTTL (Some s) typeURL)"
  shows "map_of (GetVersionMap s' typeURL) =
      (\<lambda>n. map_option (\<lambda>r. HashResource (projr (m (rt_Resource r)))) (map_of (GetResourcesAndTTL (Some s) typeURL) n)) \<and>
    ConstructVersionMap m (Some s') = (Some s', None)"
proof -
  let ?i = "GetResponseType typeURL" and ?items = "GetResourcesAndTTL (Some s) typeURL"
  obtain vm where vm: "construct_types m (sn_Resources s) response_types [] = (vm, None)"
    and s': "s' = s\<lparr>sn_VersionMap := Some vm\<rparr>"
    using assms(1,2) by (auto simp: ConstructVersionMap_def split: prod.splits)
  have items: "?items = rs_Items (sn_Resources s ?i)"
    using assms(3) by (simp add: GetResourcesAndTTL_def Let_def)
  have url: "GetResponseTypeURL ?i = Inr typeURL" using GetResponseTypeURL_of_GetResponseType assms(3) by simp
  have "gsub vm typeURL = fold (\<lambda>r a. AList.update (GetResourceName (rt_Resource r))
      (HashResource (projr (m (rt_Resource r)))) a) (map snd ?items) []"
    using construct_types_None [OF vm distinct_response_types] url assms(3)
    by (simp add: set_response_types items)
  also have "\<dots> = fold (\<lambda>(n, r) a. AList.update n (HashResource (projr (m (rt_Resource r)))) a) ?items []"
    using assms(4) by (auto simp: fold_map comp_def intro!: fold_cong)
  finally have "map_of (gsub vm typeURL) =
      map_of (map (\<lambda>(n, r). (n, HashResource (projr (m (rt_Resource r))))) (rev ?items))"
    by (simp add: map_of_fold_update_pairs)
  then have "map_of (gsub vm typeURL) n =
      map_option (\<lambda>r. HashResource (projr (m (rt_Resource r)))) (map_of ?items n)" for n
    using map_of_map_values [of "\<lambda>n r. HashResource (projr (m (rt_Resource r)))" "rev ?items" n]
      map_of_rev_ok [OF assms(5)] by simp
  then show ?thesis by (auto simp: s' GetVersionMap_def ConstructVersionMap_def)
qed

lemma ex_snapshot_items: "GetResourcesAndTTL (Some ex_snapshot) RuntimeType =
    [(''r'', \<lparr>rt_Resource = MRuntime ''r'' ''x'', rt_TTL = None\<rparr>)]"
  by (simp add: GetResourcesAndTTL_def ex_snapshot_def NewResources_def NewResourcesWithTTL_def
      IndexResourcesByName_def Let_def)

lemma ex_construct: "\<exists>s'. ConstructVersionMap (\<lambda>r. Inr []) (Some ex_snapshot) = (Some s', None)"
  by (rule ConstructVersionMap_total) simp

theorem version_map_hashes_witness:
  "\<exists>s'. ConstructVersionMap (\<lambda>r. Inr []) (Some ex_snapshot) = (Some s', None) \<and>
     map_of (GetVersionMap s' RuntimeType) = [''r'' \<mapsto> HashResource []]"
proof -
  obtain s' where s': "ConstructVersionMap (\<lambda>r. Inr []) (Some ex_snapshot) = (Some s', None)"
    using ex_construct ..
  have vm: "sn_VersionMap ex_snapshot = None" by (simp add: ex_snapshot_def emptySnapshot_def)
  have "map_of (GetVersionMap s' RuntimeType) = [''r'' \<mapsto> HashResource []]"
    using version_map_hashes [OF vm s', of RuntimeType] ex_snapshot_items by (auto simp: fun_eq_iff)
  with s' show ?thesis by blast
qed

lemma NewSnapshot_step:
  assumes "rfold (\<lambda>(typ, resource) out. let index = GetResponseType typ in
              if index = UnknownType then Inl (e typ)
              else Inr (out\<lparr>sn_Resources := (sn_Resources out)(index := f resource)\<rparr>)) rs s0 = Inr s"
    and "gomap_ok rs"
  shows "sn_Resources s i = (case GetResponseTypeURL i of Inl _ \<Rightarrow> sn_Resources s0 i
    | Inr t \<Rightarrow> (case map_of rs t of None \<Rightarrow> sn_Resources s0 i | Some items \<Rightarrow> f items))"
  using assms
proof (induction rs arbitrary: s0)
  case (Cons x rs)
  obtain t items where x: "x = (t, items)" by (cases x)
  let ?s = "s0\<lparr>sn_Resources := (sn_Resources s0)(GetResponseType t := f items)\<rparr>"
  have known: "GetResponseType t \<noteq> UnknownType"
    using Cons.prems(1) by (cases "GetResponseType t = UnknownType") (simp_all add: x Let_def)
  have "GetResponseTypeURL i = Inr t \<longleftrightarrow> i = GetResponseType t"
    using known GetResponseTypeURL_of_GetResponseType GetResponseTypeURL_Inr by metis
  moreover have "map_of rs t = None" using Cons.prems(2) x by (simp add: map_of_in_dom)
  moreover have "sn_Resources s i = (case GetResponseTypeURL i of Inl _ \<Rightarrow> sn_Resources ?s i
    | Inr t \<Rightarrow> (case map_of rs t of None \<Rightarrow> sn_Resources ?s i | Some items \<Rightarrow> f items))"
    using Cons.prems x known by (intro Cons.IH) (simp_all add: Let_def)
  ultimately show ?case
    by (cases "GetResponseTypeURL i") (auto simp: x split: option.splits)
qed (simp split: sum.splits)

lemma IndexRaw_IndexResources:
  "map (\<lambda>(k, v). (k, rt_Resource v)) (IndexResourcesByName (map (\<lambda>item. \<lparr>rt_Resource = item, rt_TTL = None\<rparr>) items)) =
     IndexRawResourcesByName items"
proof -
  have upd: "map (\<lambda>(k, v). (k, rt_Resource v)) (AList.update k v a) =
      AList.update k (rt_Resource v) (map (\<lambda>(k, v). (k, rt_Resource v)) a)" for k v a
    by (induction a) auto
  have "map (\<lambda>(k, v). (k, rt_Resource v)) (fold (\<lambda>item. AList.update (GetResourceName (rt_Resource item)) item)
      (map (\<lambda>item. \<lparr>rt_Resource = item, rt_TTL = None\<rparr>) items) a) =
      fold (\<lambda>item. AList.update (GetResourceName item) item) items (map (\<lambda>(k, v). (k, rt_Resource v)) a)" for a
    by (induction items arbitrary: a) (auto simp: upd)
  from this [of "[]"] show ?thesis by (simp add: IndexResourcesByName_def IndexRawResourcesByName_def)
qed

text \<open>\<open>NewSnapshot\<close> succeeds when every type URL is a known one, and the snapshot then gives back, for
  each type of the input, the version and the resources indexed by name; a known type that is not in the
  input has the empty version and no resources.\<close>

theorem new_snapshot_contents:
  assumes "gomap_ok rs" and "\<forall>(t, items)\<in>set rs. GetResponseType t \<noteq> UnknownType"
  shows "\<exists>s. NewSnapshot v rs = Inr s \<and>
    (\<forall>t. GetResponseType t \<noteq> UnknownType \<longrightarrow>
      GetVersion (Some s) t = (if map_of rs t = None then '''' else v) \<and>
      GetResources (Some s) t = (case map_of rs t of None \<Rightarrow> [] | Some items \<Rightarrow> IndexRawResourcesByName items))"
proof -
  let ?f = "\<lambda>(typ, resource) out. let index = GetResponseType typ in
      if index = UnknownType then Inl (Errorf (''unknown resource type: '' @ typ) [])
      else Inr (out\<lparr>sn_Resources := (sn_Resources out)(index := NewResources v resource)\<rparr>)"
  have "\<exists>s. rfold ?f rs s0 = Inr s" for s0
    using assms(2) by (induction rs arbitrary: s0) (auto simp: Let_def)
  then obtain s where s: "NewSnapshot v rs = Inr s" unfolding NewSnapshot_def by blast
  note R = NewSnapshot_step [OF s [unfolded NewSnapshot_def] assms(1)]
  have "GetVersion (Some s) t = (if map_of rs t = None then '''' else v) \<and>
      GetResources (Some s) t = (case map_of rs t of None \<Rightarrow> [] | Some items \<Rightarrow> IndexRawResourcesByName items)"
    if t: "GetResponseType t \<noteq> UnknownType" for t
    using R [of "GetResponseType t"] t GetResponseTypeURL_of_GetResponseType [OF t]
    by (auto simp: GetVersion_def GetResources_def GetResourcesAndTTL_def Let_def emptySnapshot_def
        NewResources_def NewResourcesWithTTL_def IndexRaw_IndexResources split: option.splits)
  with s show ?thesis by blast
qed

theorem new_snapshot_contents_witness:
  "\<exists>s. NewSnapshot ''v1'' [(RuntimeType, [MRuntime ''r'' ''x''])] = Inr s \<and>
     GetVersion (Some s) RuntimeType = ''v1'' \<and> GetVersion (Some s) ClusterType = '''' \<and>
     GetResources (Some s) RuntimeType = [(''r'', MRuntime ''r'' ''x'')]"
proof -
  let ?rs = "[(RuntimeType, [MRuntime ''r'' ''x''])]"
  have "gomap_ok ?rs" "\<forall>(t, items)\<in>set ?rs. GetResponseType t \<noteq> UnknownType" by simp_all
  from new_snapshot_contents [OF this, of "''v1''"]
  obtain s where s: "NewSnapshot ''v1'' ?rs = Inr s" and
    c: "\<forall>t. GetResponseType t \<noteq> UnknownType \<longrightarrow>
      GetVersion (Some s) t = (if map_of ?rs t = None then '''' else ''v1'') \<and>
      GetResources (Some s) t = (case map_of ?rs t of None \<Rightarrow> [] | Some items \<Rightarrow> IndexRawResourcesByName items)"
    by blast
  show ?thesis
    using s c [rule_format, of RuntimeType] c [rule_format, of ClusterType]
    by (simp add: IndexRawResourcesByName_def)
qed

text \<open>A failed \<open>ConstructVersionMap\<close> is not retried. When a resource cannot be marshaled the call
  reports the error, but it leaves a version map behind, so the next call reports success with that
  incomplete map.\<close>

theorem version_map_error_is_forgotten:
  assumes "ConstructVersionMap m (Some s) = (s', Some e)"
  shows "ConstructVersionMap m s' = (s', None)"
  using assms by (auto simp: ConstructVersionMap_def split: if_splits prod.splits)

theorem version_map_error_is_forgotten_witness:
  "\<exists>s'. ConstructVersionMap (\<lambda>r. Inl EOF) (Some ex_bad_snapshot) = (s', Some EOF) \<and>
     ConstructVersionMap (\<lambda>r. Inl EOF) s' = (s', None)"
proof -
  have first: "response_types = Cluster # tl response_types" by (simp add: response_types_def)
  have items: "rs_Items (sn_Resources ex_bad_snapshot Cluster) =
      [(''c'', \<lparr>rt_Resource = MCluster ex_cluster, rt_TTL = None\<rparr>)]"
    by (simp add: ex_bad_snapshot_def ex_cluster_def NewResources_def NewResourcesWithTTL_def IndexResourcesByName_def)
  have "construct_types (\<lambda>r. Inl EOF) (sn_Resources ex_bad_snapshot) (Cluster # ts) [] =
      ([(ClusterType, [])], Some EOF)" for ts
    by (simp add: items MarshalResource_def Let_def)
  then have "ConstructVersionMap (\<lambda>r. Inl EOF) (Some ex_bad_snapshot) =
      (Some (ex_bad_snapshot\<lparr>sn_VersionMap := Some [(ClusterType, [])]\<rparr>), Some EOF)"
    by (subst ConstructVersionMap_def, subst first) (simp add: ex_bad_snapshot_def emptySnapshot_def)
  from version_map_error_is_forgotten [OF this] this show ?thesis by blast
qed

text \<open>Resources that have no name of their own, such as the \<open>LbEndpoint\<close>s of a snapshot, all get the
  empty name: of any number of them, a group of resources keeps the last one only.\<close>

theorem unnamed_resources_collapse:
  assumes "items \<noteq> []" and "\<forall>item\<in>set items. GetResourceName item = ''''"
  shows "rs_Items (NewResources v items) = [('''', \<lparr>rt_Resource = last items, rt_TTL = None\<rparr>)]"
proof -
  let ?t = "\<lambda>item. \<lparr>rt_Resource = item, rt_TTL = None\<rparr>"
  have "fold (\<lambda>item. AList.update (GetResourceName (rt_Resource item)) item) (map ?t items) [('''', ?t x)] =
      [('''', ?t (last (x # items)))]" if "\<forall>item\<in>set items. GetResourceName item = ''''" for x items
    using that by (induction items arbitrary: x) auto
  then show ?thesis
    using assms by (cases items) (simp_all add: NewResources_def NewResourcesWithTTL_def IndexResourcesByName_def)
qed

theorem unnamed_resources_collapse_witness:
  "rs_Items (NewResources ''v'' [MOther ''LbEndpoint'' ''10.0.0.1'', MOther ''LbEndpoint'' ''10.0.0.2'']) =
     [('''', \<lparr>rt_Resource = MOther ''LbEndpoint'' ''10.0.0.2'', rt_TTL = None\<rparr>)]"
  using unnamed_resources_collapse
    [of "[MOther ''LbEndpoint'' ''10.0.0.1'', MOther ''LbEndpoint'' ''10.0.0.2'']" "''v''"]
  by simp

text \<open>\<open>Consistent\<close> does not look at which scoped routes the listeners refer to. A snapshot with a scoped
  route and its route configuration but without any listener is accepted.\<close>

theorem consistent_ignores_scoped_route_references:
  "rs_Items (sn_Resources ex_scoped_snapshot Listener) = [] \<and>
   rs_Items (sn_Resources ex_scoped_snapshot ScopedRoute) \<noteq> [] \<and>
   (\<forall>u. Consistent u (Some ex_scoped_snapshot) = Inr ())"
proof -
  have "referenceSet (GetAllResourceReferences u (sn_Resources ex_scoped_snapshot)) t =
      (if t = RouteType then [''r''] else [])" for u t
    by (simp add: GetAllResourceReferences_def response_types_def ex_scoped_snapshot_def emptySnapshot_def
        NewResources_def NewResourcesWithTTL_def IndexResourcesByName_def getResourceReferences_def
        getScopedRouteReferences_def copy_references_def referenceSet_def set_add_def)
  then have "consistent_type (GetAllResourceReferences u (sn_Resources ex_scoped_snapshot))
      (sn_Resources ex_scoped_snapshot) rt = Inr ()" for u rt
    by (cases rt) (simp_all add: consistent_type_def ex_scoped_snapshot_def emptySnapshot_def NewResources_def
        NewResourcesWithTTL_def IndexResourcesByName_def difference_def)
  then have "Consistent u (Some ex_scoped_snapshot) = Inr ()" for u
    unfolding Consistent_def Let_def option.case rfold_unit by blast
  then show ?thesis
    by (simp add: ex_scoped_snapshot_def emptySnapshot_def NewResources_def NewResourcesWithTTL_def
        IndexResourcesByName_def)
qed

end
