(* ===== verification/Simple.thy ===== *)
theory Simple
  imports Watches Snapshot
begin

text \<open>
  The snapshot cache, \<open>src/pkg/cache/v3/simple.go\<close>: one snapshot per node, the open watches of each
  node, and the responses sent when a snapshot is set, a watch is created or a heartbeat is due.

  Each method is one atomic step under the cache's mutex. Snapshots are values of type \<open>Snapshot\<close>, the
  implementation of \<open>ResourceSnapshot\<close> in the repository; every node has its own snapshot object, and
  \<open>ConstructVersionMap\<close>, which fills a field of it, updates the stored one. The clock is an argument.
  A \<open>respond\<close> either sends or, when its context is done first, fails with \<open>ContextCanceled\<close>.
\<close>

section \<open>Definitions\<close>

record snapshotCache =
  sc_watchCount :: "64 word"
  sc_deltaWatchCount :: "64 word"
  sc_ads :: bool
  sc_snapshots :: "(string, Snapshot) gomap"
  sc_status :: "(string, statusInfo) gomap"
  sc_hash :: node_hash

definition newSnapshotCache :: "bool \<Rightarrow> node_hash \<Rightarrow> snapshotCache" where
  "newSnapshotCache ads hash =
     \<lparr>sc_watchCount = 0, sc_deltaWatchCount = 0, sc_ads = ads, sc_snapshots = [], sc_status = [],
      sc_hash = hash\<rparr>"

definition NewSnapshotCache :: "bool \<Rightarrow> node_hash \<Rightarrow> snapshotCache" where
  "NewSnapshotCache ads hash = newSnapshotCache ads hash"

subsection \<open>Computing responses\<close>

text \<open>The names found changed and deleted by \<open>createResponse\<close> when the version is the requested one.\<close>

definition sotw_changed :: "(string, ResourceWithTTL) gomap \<Rightarrow> Subscription \<Rightarrow> string list" where
  "sotw_changed resources sub =
     fold set_add
       (filter (\<lambda>name. map_of resources name \<noteq> None \<and> map_of (ReturnedResources sub) name = None)
          (SubscribedResources sub))
       (if IsWildcard sub
        then filter (\<lambda>name. map_of (ReturnedResources sub) name = None) (map fst resources) else [])"

definition sotw_deleted :: "(string, ResourceWithTTL) gomap \<Rightarrow> Subscription \<Rightarrow> string list" where
  "sotw_deleted resources sub =
     filter (\<lambda>name. map_of resources name = None \<or> \<not> IsWildcard sub \<and> name \<notin> set (SubscribedResources sub))
       (map fst (ReturnedResources sub))"

text \<open>The loops that add resources by name to a response, skipping names that do not exist.\<close>

definition add_named ::
  "marshaler \<Rightarrow> string \<Rightarrow> (string, ResourceWithTTL) gomap \<Rightarrow> string \<Rightarrow>
     cachedResource list \<times> (string, string) gomap \<Rightarrow> cachedResource list \<times> (string, string) gomap" where
  "add_named marshal version resources name acc =
     (case map_of resources name of
        None \<Rightarrow> acc
      | Some res \<Rightarrow> (fst acc @ [newCachedResourceWithTTL marshal name res version],
                     AList.update name version (snd acc)))"

definition createResponse ::
  "marshaler \<Rightarrow> Snapshot \<Rightarrow> ResponseWatch \<Rightarrow> bool \<Rightarrow> RawResponse option result" where
  "createResponse marshal snapshot watch ads =
     (let sub = rw_subscription watch;
          typeURL = req_TypeUrl (rw_Request watch);
          resources = GetResourcesAndTTL (Some snapshot) typeURL;
          missing = difference resources (SubscribedResources sub)
      in if \<not> IsWildcard sub \<and> ads \<and> missing \<noteq> [] then Inl (MissingRequestResource missing)
         else
           (let reqVersion = req_VersionInfo (rw_Request watch);
                version = GetVersion (Some snapshot) typeURL;
                knownResources = ReturnedResources sub;
                changedResources = sotw_changed resources sub;
                deletedResources = sotw_deleted resources sub
            in if version = reqVersion \<and> changedResources = [] \<and> \<not> rw_fullStateResponses watch
               then Inr None
               else if version = reqVersion \<and> changedResources = [] \<and> deletedResources = []
               then Inr None
               else
                 (case (if version \<noteq> reqVersion \<or> rw_fullStateResponses watch
                        then fold (add_named marshal version resources) (SubscribedResources sub)
                               (if IsWildcard sub
                                then fold (add_named marshal version resources) (map fst resources) ([], [])
                                else ([], []))
                        else (case fold (add_named marshal version resources) changedResources ([], knownResources)
                              of (rs, returned) \<Rightarrow> (rs, fold AList.delete deletedResources returned)))
                  of (resourcesToReturn, returnedResources) \<Rightarrow>
                    Inr (Some \<lparr>raw_Request = Some (rw_Request watch), raw_Version = version,
                               raw_resources = resourcesToReturn,
                               raw_returnedResources = returnedResources, raw_Heartbeat = False,
                               raw_Ctx = Background, raw_marshaledResponse = None\<rparr>))))"

definition addIfChanged ::
  "marshaler \<Rightarrow> string \<Rightarrow> (string, string) gomap \<Rightarrow> (string, ResourceWithTTL) gomap \<Rightarrow> string \<Rightarrow>
     cachedResource list \<times> (string, string) gomap \<Rightarrow> cachedResource list \<times> (string, string) gomap" where
  "addIfChanged marshal version versionMap resources name acc =
     (case map_of resources name of
        None \<Rightarrow> acc
      | Some res \<Rightarrow>
          (let resVersion = (case map_of versionMap name of None \<Rightarrow> '''' | Some v \<Rightarrow> v) in
           if map_of (snd acc) name = Some resVersion then acc
           else (fst acc @ [newCachedResourceWithTTL marshal name res version],
                 AList.update name resVersion (snd acc))))"

definition createDeltaResponse ::
  "marshaler \<Rightarrow> Snapshot \<Rightarrow> DeltaResponseWatch \<Rightarrow> bool \<Rightarrow> RawDeltaResponse option" where
  "createDeltaResponse marshal snapshot watch replyIfEmpty =
     (let sub = drw_subscription watch;
          typeURL = dreq_TypeUrl (drw_Request watch);
          version = GetVersion (Some snapshot) typeURL;
          resources = GetResourcesAndTTL (Some snapshot) typeURL;
          versionMap = GetVersionMap snapshot typeURL
      in case fold (addIfChanged marshal version versionMap resources) (SubscribedResources sub)
                (if IsWildcard sub
                 then fold (addIfChanged marshal version versionMap resources) (map fst resources)
                        ([], ReturnedResources sub)
                 else ([], ReturnedResources sub))
         of (resourcesToReturn, returnedResources) \<Rightarrow>
           (let deletedResources =
                  filter (\<lambda>name. map_of resources name = None \<or>
                            \<not> IsWildcard sub \<and> name \<notin> set (SubscribedResources sub))
                    (map fst returnedResources)
            in if resourcesToReturn = [] \<and> deletedResources = [] \<and> \<not> replyIfEmpty then None
               else Some \<lparr>rawd_DeltaRequest = Some (drw_Request watch), rawd_SystemVersionInfo = version,
                          rawd_resources = resourcesToReturn, rawd_removedResources = deletedResources,
                          rawd_returnedResources = fold AList.delete deletedResources returnedResources,
                          rawd_Ctx = Background, rawd_marshaledResponse = None\<rparr>))"

subsection \<open>Sending\<close>

definition sc_respond :: "go_context \<Rightarrow> ResponseWatch \<Rightarrow> RawResponse \<Rightarrow> (chan \<times> WatchResponse) result" where
  "sc_respond ctx watch response =
     (if ctx_done ctx (rw_Response watch) then Inl ContextCanceled
      else Inr (rw_Response watch, WRaw (response\<lparr>raw_Ctx := ctx\<rparr>)))"

definition respondDelta ::
  "go_context \<Rightarrow> DeltaResponseWatch \<Rightarrow> RawDeltaResponse \<Rightarrow> (chan \<times> WatchResponse) result" where
  "respondDelta ctx watch resp =
     (if ctx_done ctx (drw_Response watch) then Inl ContextCanceled
      else Inr (drw_Response watch, WDelta (resp\<lparr>rawd_Ctx := ctx\<rparr>)))"

fun isMissingRequestResource :: "error \<Rightarrow> bool" where
  "isMissingRequestResource (MissingRequestResource names) = True"
| "isMissingRequestResource (Wrapf f args e) = isMissingRequestResource e"
| "isMissingRequestResource _ = False"

text \<open>The callbacks \<open>respond\<close> and \<open>replyWatch\<close> of the two notification functions: the send made for one
  watch, if any.\<close>

definition replySOTW ::
  "marshaler \<Rightarrow> go_context \<Rightarrow> Snapshot \<Rightarrow> bool \<Rightarrow> ResponseWatch \<Rightarrow> (chan \<times> WatchResponse) option result" where
  "replySOTW marshal ctx snapshot ads watch =
     (if GetVersion (Some snapshot) (req_TypeUrl (rw_Request watch)) = req_VersionInfo (rw_Request watch)
      then Inr None
      else
        (case createResponse marshal snapshot watch ads of
           Inl e \<Rightarrow> if isMissingRequestResource e then Inr None else Inl e
         | Inr None \<Rightarrow> Inr None
         | Inr (Some resp) \<Rightarrow>
             (case sc_respond ctx watch resp of Inl e \<Rightarrow> Inl e | Inr s \<Rightarrow> Inr (Some s))))"

definition replyDelta ::
  "marshaler \<Rightarrow> go_context \<Rightarrow> Snapshot \<Rightarrow> DeltaResponseWatch \<Rightarrow> (chan \<times> WatchResponse) option result" where
  "replyDelta marshal ctx snapshot watch =
     (case createDeltaResponse marshal snapshot watch False of
        None \<Rightarrow> Inr None
      | Some resp \<Rightarrow>
          (case respondDelta ctx watch resp of Inl e \<Rightarrow> Inl e | Inr s \<Rightarrow> Inr (Some s)))"

text \<open>The notification loop over the identifiers of the watches: an answered watch is deleted, an error
  stops the loop. Looking up a watch that is not there would give a zero watch, whose nil request is
  then dereferenced.\<close>

fun watchLoop ::
  "('w \<Rightarrow> (chan \<times> WatchResponse) option result) \<Rightarrow> 64 word list \<Rightarrow> (64 word, 'w) gomap \<Rightarrow> sends \<Rightarrow>
     (64 word, 'w) gomap \<times> sends \<times> error option" where
  "watchLoop reply [] ws out = (ws, out, None)"
| "watchLoop reply (wid # ids) ws out =
     (case map_of ws wid of
        None \<Rightarrow> (ws, out, Some (Panic ''nil pointer dereference''))
      | Some w \<Rightarrow>
          (case reply w of
             Inl e \<Rightarrow> (ws, out, Some e)
           | Inr None \<Rightarrow> watchLoop reply ids ws out
           | Inr (Some s) \<Rightarrow> watchLoop reply ids (AList.delete wid ws) (out @ [s])))"

definition respondSOTWWatches ::
  "marshaler \<Rightarrow> go_context \<Rightarrow> bool \<Rightarrow> statusInfo \<Rightarrow> Snapshot \<Rightarrow> statusInfo \<times> sends \<times> error option" where
  "respondSOTWWatches marshal ctx ads info snapshot =
     (let info = (if ads then orderResponseWatches info else info);
          ids = (if ads then map key_ID (si_orderedWatches info) else map fst (si_watches info))
      in case watchLoop (replySOTW marshal ctx snapshot ads) ids (si_watches info) [] of
           (ws, out, e) \<Rightarrow> (info\<lparr>si_watches := ws\<rparr>, out, e))"

definition respondDeltaWatches ::
  "marshaler \<Rightarrow> go_context \<Rightarrow> bool \<Rightarrow> statusInfo \<Rightarrow> Snapshot \<Rightarrow>
     statusInfo \<times> Snapshot \<times> sends \<times> error option" where
  "respondDeltaWatches marshal ctx ads info snapshot =
     (if si_deltaWatches info = [] then (info, snapshot, [], None)
      else
        (case ConstructVersionMap marshal (Some snapshot) of
           (s, Some e) \<Rightarrow> (info, the s, [], Some e)
         | (s, None) \<Rightarrow>
             (let snapshot = the s;
                  info = (if ads then orderResponseDeltaWatches info else info);
                  ids = (if ads then map key_ID (si_orderedDeltaWatches info)
                         else map fst (si_deltaWatches info))
              in case watchLoop (replyDelta marshal ctx snapshot) ids (si_deltaWatches info) [] of
                   (ws, out, e) \<Rightarrow> (info\<lparr>si_deltaWatches := ws\<rparr>, snapshot, out, e))))"

subsection \<open>Setting and reading snapshots\<close>

definition SetSnapshot ::
  "marshaler \<Rightarrow> go_context \<Rightarrow> string \<Rightarrow> Snapshot \<Rightarrow> snapshotCache \<Rightarrow>
     snapshotCache \<times> sends \<times> error option" where
  "SetSnapshot marshal ctx node snapshot cache =
     (let cache = cache\<lparr>sc_snapshots := AList.update node snapshot (sc_snapshots cache)\<rparr> in
      case map_of (sc_status cache) node of
        None \<Rightarrow> (cache, [], None)
      | Some info \<Rightarrow>
          (case respondSOTWWatches marshal ctx (sc_ads cache) info snapshot of
             (info, out, Some e) \<Rightarrow>
               (cache\<lparr>sc_status := AList.update node info (sc_status cache)\<rparr>, out, Some e)
           | (info, out, None) \<Rightarrow>
               (case respondDeltaWatches marshal ctx (sc_ads cache) info snapshot of
                  (info, snapshot, out', e) \<Rightarrow>
                    (cache\<lparr>sc_status := AList.update node info (sc_status cache),
                           sc_snapshots := AList.update node snapshot (sc_snapshots cache)\<rparr>,
                     out @ out', e))))"

definition GetSnapshot :: "string \<Rightarrow> snapshotCache \<Rightarrow> Snapshot result" where
  "GetSnapshot node cache =
     (case map_of (sc_snapshots cache) node of
        None \<Rightarrow> Inl (Errorf ''no snapshot found for node %s'' [node])
      | Some snap \<Rightarrow> Inr snap)"

definition ClearSnapshot :: "string \<Rightarrow> snapshotCache \<Rightarrow> snapshotCache" where
  "ClearSnapshot node cache =
     cache\<lparr>sc_snapshots := AList.delete node (sc_snapshots cache),
           sc_status := AList.delete node (sc_status cache)\<rparr>"

definition GetStatusInfo :: "string \<Rightarrow> snapshotCache \<Rightarrow> statusInfo option" where
  "GetStatusInfo node cache = map_of (sc_status cache) node"

definition GetStatusKeys :: "snapshotCache \<Rightarrow> string list" where
  "GetStatusKeys cache = map fst (sc_status cache)"

subsection \<open>Watches\<close>

datatype sc_cancel =
    ScNoop
  | ScCancelWatch string "64 word"
  | ScCancelDeltaWatch string "64 word"

text \<open>Calling the function made by \<open>cancelWatch\<close> or \<open>cancelDeltaWatch\<close>.\<close>

fun sc_runCancel :: "sc_cancel \<Rightarrow> snapshotCache \<Rightarrow> snapshotCache" where
  "sc_runCancel ScNoop cache = cache"
| "sc_runCancel (ScCancelWatch nodeID watchID) cache =
     (case map_of (sc_status cache) nodeID of
        None \<Rightarrow> cache
      | Some info \<Rightarrow>
          cache\<lparr>sc_status := AList.update nodeID
                  (info\<lparr>si_watches := AList.delete watchID (si_watches info)\<rparr>) (sc_status cache)\<rparr>)"
| "sc_runCancel (ScCancelDeltaWatch nodeID watchID) cache =
     (case map_of (sc_status cache) nodeID of
        None \<Rightarrow> cache
      | Some info \<Rightarrow>
          cache\<lparr>sc_status := AList.update nodeID
                  (info\<lparr>si_deltaWatches := AList.delete watchID (si_deltaWatches info)\<rparr>) (sc_status cache)\<rparr>)"

text \<open>The status of the node of a request, created on first use.\<close>

definition statusFor :: "string \<Rightarrow> Node option \<Rightarrow> snapshotCache \<Rightarrow> statusInfo" where
  "statusFor nodeID node cache =
     (case map_of (sc_status cache) nodeID of None \<Rightarrow> newStatusInfo node | Some info \<Rightarrow> info)"

definition sc_createWatch ::
  "string \<Rightarrow> statusInfo \<Rightarrow> ResponseWatch \<Rightarrow> snapshotCache \<Rightarrow> snapshotCache \<times> sends \<times> sc_cancel result" where
  "sc_createWatch nodeID info watch cache =
     (let watchID = sc_watchCount cache + 1;
          info = info\<lparr>si_watches := AList.update watchID watch (si_watches info)\<rparr>
      in (cache\<lparr>sc_watchCount := watchID, sc_status := AList.update nodeID info (sc_status cache)\<rparr>,
          [], Inr (ScCancelWatch nodeID watchID)))"

definition sc_CreateWatch ::
  "marshaler \<Rightarrow> int \<Rightarrow> DiscoveryRequest \<Rightarrow> Subscription \<Rightarrow> chan \<Rightarrow> snapshotCache \<Rightarrow>
     snapshotCache \<times> sends \<times> sc_cancel result" where
  "sc_CreateWatch marshal now request sub value cache =
     (let nodeID = sc_hash cache (req_Node request);
          info = setLastWatchRequestTime now (statusFor nodeID (req_Node request) cache);
          cache = cache\<lparr>sc_status := AList.update nodeID info (sc_status cache)\<rparr>;
          watch = \<lparr>rw_Request = request, rw_Response = value, rw_subscription = sub,
                   rw_fullStateResponses = ResourceRequiresFullStateInSotw (req_TypeUrl request)\<rparr>
      in case map_of (sc_snapshots cache) nodeID of
           None \<Rightarrow> sc_createWatch nodeID info watch cache
         | Some snapshot \<Rightarrow>
             (case createResponse marshal snapshot watch (sc_ads cache) of
                Inl e \<Rightarrow>
                  if isMissingRequestResource e then (cache, [], Inr ScNoop)
                  else (cache, [], Inl (Wrapf ''failed to create response: %w'' [] e))
              | Inr (Some resp) \<Rightarrow>
                  (case sc_respond Background watch resp of
                     Inl e \<Rightarrow> (cache, [], Inl (Wrapf ''failed to send the response: %w'' [] e))
                   | Inr s \<Rightarrow> (cache, [s], Inr ScNoop))
              | Inr None \<Rightarrow> sc_createWatch nodeID info watch cache))"

definition sc_CreateDeltaWatch ::
  "marshaler \<Rightarrow> int \<Rightarrow> DeltaDiscoveryRequest \<Rightarrow> Subscription \<Rightarrow> chan \<Rightarrow> snapshotCache \<Rightarrow>
     snapshotCache \<times> sends \<times> sc_cancel result" where
  "sc_CreateDeltaWatch marshal now request sub value cache =
     (let nodeID = sc_hash cache (dreq_Node request);
          info = setLastDeltaWatchRequestTime now (statusFor nodeID (dreq_Node request) cache);
          cache = cache\<lparr>sc_status := AList.update nodeID info (sc_status cache)\<rparr>;
          watch = \<lparr>drw_Request = request, drw_Response = value, drw_subscription = sub\<rparr>;
          track = (\<lambda>cache.
            let watchID = sc_deltaWatchCount cache + 1 in
            (cache\<lparr>sc_deltaWatchCount := watchID,
                   sc_status := AList.update nodeID (setDeltaResponseWatch watchID watch info) (sc_status cache)\<rparr>,
             [], Inr (ScCancelDeltaWatch nodeID watchID)))
      in case map_of (sc_snapshots cache) nodeID of
           None \<Rightarrow> track cache
         | Some snapshot \<Rightarrow>
             (case ConstructVersionMap marshal (Some snapshot) of
                (s, e) \<Rightarrow>
                  (let snapshot = the s;
                       cache = cache\<lparr>sc_snapshots := AList.update nodeID snapshot (sc_snapshots cache)\<rparr>
                   in case e of
                        Some err \<Rightarrow> (cache, [], Inl (Wrapf ''computing version map: %w'' [] err))
                      | None \<Rightarrow>
                          (case createDeltaResponse marshal snapshot watch
                                  (IsWildcard sub \<and> dreq_ResponseNonce request = '''') of
                             Some resp \<Rightarrow>
                               (case respondDelta Background watch resp of
                                  Inl err \<Rightarrow> (cache, [], Inl (Wrapf ''responding: %w'' [] err))
                                | Inr s \<Rightarrow> (cache, [s], Inr ScNoop))
                           | None \<Rightarrow> track cache))))"

subsection \<open>Fetch\<close>

definition sc_Fetch ::
  "marshaler \<Rightarrow> go_context \<Rightarrow> DiscoveryRequest \<Rightarrow> snapshotCache \<Rightarrow> RawResponse result" where
  "sc_Fetch marshal ctx request cache =
     (let nodeID = sc_hash cache (req_Node request) in
      case map_of (sc_snapshots cache) nodeID of
        None \<Rightarrow> Inl (Errorf ''missing snapshot for %q'' [nodeID])
      | Some snapshot \<Rightarrow>
          (let version = GetVersion (Some snapshot) (req_TypeUrl request) in
           if req_VersionInfo request = version then Inl SkipFetchError
           else
             (let resources = GetResourcesAndTTL (Some snapshot) (req_TypeUrl request);
                  names = (if req_ResourceNames request = [] then map fst resources
                           else filter (\<lambda>name. map_of resources name \<noteq> None) (req_ResourceNames request))
              in Inr \<lparr>raw_Request = Some request, raw_Version = version,
                      raw_resources =
                        map (\<lambda>name. newCachedResourceWithTTL marshal name (the (map_of resources name)) version)
                          names,
                      raw_returnedResources = [], raw_Heartbeat = False, raw_Ctx = ctx,
                      raw_marshaledResponse = None\<rparr>)))"

subsection \<open>Heartbeats\<close>

text \<open>The resources with a TTL that a heartbeat for a watch carries.\<close>

definition heartbeatResources ::
  "marshaler \<Rightarrow> string \<Rightarrow> (string, ResourceWithTTL) gomap \<Rightarrow> Subscription \<Rightarrow> (string, cachedResource) gomap" where
  "heartbeatResources marshal version resources sub =
     fold (\<lambda>name acc.
             case map_of resources name of
               None \<Rightarrow> acc
             | Some res \<Rightarrow>
                 if rt_TTL res = None then acc
                 else if map_of acc name \<noteq> None then acc
                 else AList.update name (newCachedResourceWithTTL marshal name res version) acc)
       ((if IsWildcard sub then map fst resources else []) @ SubscribedResources sub) []"

definition heartbeatResponse ::
  "marshaler \<Rightarrow> go_context \<Rightarrow> Snapshot \<Rightarrow> ResponseWatch \<Rightarrow> RawResponse option" where
  "heartbeatResponse marshal ctx snapshot watch =
     (let typeURL = req_TypeUrl (rw_Request watch);
          version = GetVersion (Some snapshot) typeURL;
          resources = GetResourcesAndTTL (Some snapshot) typeURL;
          resourcesToReturn = heartbeatResources marshal version resources (rw_subscription watch)
      in if resourcesToReturn = [] then None
         else Some \<lparr>raw_Request = Some (rw_Request watch), raw_Version = version,
                    raw_resources = map snd resourcesToReturn,
                    raw_returnedResources = ReturnedResources (rw_subscription watch),
                    raw_Heartbeat = True, raw_Ctx = ctx, raw_marshaledResponse = None\<rparr>)"

text \<open>A failed heartbeat is only logged.\<close>

fun heartbeatLoop ::
  "marshaler \<Rightarrow> go_context \<Rightarrow> Snapshot \<Rightarrow> (64 word, ResponseWatch) gomap \<Rightarrow>
     (64 word, ResponseWatch) gomap \<Rightarrow> sends \<Rightarrow> (64 word, ResponseWatch) gomap \<times> sends" where
  "heartbeatLoop marshal ctx snapshot [] ws out = (ws, out)"
| "heartbeatLoop marshal ctx snapshot ((wid, watch) # rest) ws out =
     (case heartbeatResponse marshal ctx snapshot watch of
        None \<Rightarrow> heartbeatLoop marshal ctx snapshot rest ws out
      | Some resp \<Rightarrow>
          (case sc_respond ctx watch resp of
             Inl e \<Rightarrow> heartbeatLoop marshal ctx snapshot rest ws out
           | Inr s \<Rightarrow> heartbeatLoop marshal ctx snapshot rest (AList.delete wid ws) (out @ [s])))"

definition sendHeartbeats ::
  "marshaler \<Rightarrow> go_context \<Rightarrow> string \<Rightarrow> snapshotCache \<Rightarrow> snapshotCache \<times> sends" where
  "sendHeartbeats marshal ctx node cache =
     (case map_of (sc_snapshots cache) node of
        None \<Rightarrow> (cache, [])
      | Some snapshot \<Rightarrow>
          (case map_of (sc_status cache) node of
             None \<Rightarrow> (cache, [])
           | Some info \<Rightarrow>
               (case heartbeatLoop marshal ctx snapshot (si_watches info) (si_watches info) [] of
                  (ws, out) \<Rightarrow>
                    (cache\<lparr>sc_status := AList.update node (info\<lparr>si_watches := ws\<rparr>) (sc_status cache)\<rparr>, out))))"

text \<open>One tick of the goroutine of \<open>NewSnapshotCacheWithHeartbeating\<close>.\<close>

definition heartbeatTick :: "marshaler \<Rightarrow> go_context \<Rightarrow> snapshotCache \<Rightarrow> snapshotCache \<times> sends" where
  "heartbeatTick marshal ctx cache =
     fold (\<lambda>node (cache, out).
             case sendHeartbeats marshal ctx node cache of (cache, out') \<Rightarrow> (cache, out @ out'))
       (map fst (sc_status cache)) (cache, [])"

end
