(* ===== verification/Simple_Response.thy ===== *)
theory Simple_Response
  imports Simple
begin

text \<open>
  What the responses of the snapshot cache contain. \<open>snapshot_view\<close> is the reference: the versions of
  the resources of the snapshot that a subscription names (or all of them, for a wildcard).
\<close>

section \<open>Definitions\<close>

definition snap_covers :: "Subscription \<Rightarrow> string \<Rightarrow> bool" where
  "snap_covers sub n \<longleftrightarrow> sub_wildcard sub \<or> n \<in> set (sub_subscribedResourceNames sub)"

definition snapshot_names :: "Snapshot \<Rightarrow> string \<Rightarrow> Subscription \<Rightarrow> string set" where
  "snapshot_names s t sub = {n. snap_covers sub n \<and> map_of (GetResourcesAndTTL (Some s) t) n \<noteq> None}"

definition delta_version :: "Snapshot \<Rightarrow> string \<Rightarrow> string \<Rightarrow> string" where
  "delta_version s t n = (case map_of (GetVersionMap s t) n of None \<Rightarrow> '''' | Some v \<Rightarrow> v)"

definition snapshot_view :: "Snapshot \<Rightarrow> string \<Rightarrow> Subscription \<Rightarrow> string \<Rightarrow> string option" where
  "snapshot_view s t sub n = (if n \<in> snapshot_names s t sub then Some (delta_version s t n) else None)"

section \<open>Lemmas\<close>

subsection \<open>State of the world\<close>

lemma fold_add_named:
  "fold (add_named m v R) ns (rs, K) =
     (rs @ map (\<lambda>n. newCachedResourceWithTTL m n (the (map_of R n)) v) (filter (\<lambda>n. map_of R n \<noteq> None) ns),
      fold (\<lambda>n a. AList.update n v a) (filter (\<lambda>n. map_of R n \<noteq> None) ns) K)"
  by (induction ns arbitrary: rs K) (auto simp: add_named_def)

lemma set_sotw_changed:
  "set (sotw_changed (GetResourcesAndTTL (Some s) t) sub) =
     {n \<in> snapshot_names s t sub. map_of (sub_returnedResources sub) n = None}"
  by (auto simp: sotw_changed_def snapshot_names_def snap_covers_def map_of_in_dom map_of_eq_None_iff)

lemma set_sotw_deleted:
  "set (sotw_deleted (GetResourcesAndTTL (Some s) t) sub) =
     {n \<in> fst ` set (sub_returnedResources sub). n \<notin> snapshot_names s t sub}"
  by (auto simp: sotw_deleted_def snapshot_names_def snap_covers_def)

text \<open>The three outcomes of \<open>createResponse\<close>.\<close>

lemma createResponse_missing:
  "createResponse m s w ads = Inl e \<longleftrightarrow>
     \<not> sub_wildcard (rw_subscription w) \<and> ads \<and>
     e = MissingRequestResource (difference (GetResourcesAndTTL (Some s) (req_TypeUrl (rw_Request w)))
           (sub_subscribedResourceNames (rw_subscription w))) \<and>
     difference (GetResourcesAndTTL (Some s) (req_TypeUrl (rw_Request w)))
       (sub_subscribedResourceNames (rw_subscription w)) \<noteq> []"
  by (auto simp: createResponse_def Let_def split: prod.splits)

lemma createResponse_None:
  assumes "createResponse m s w ads = Inr x"
  defines "t \<equiv> req_TypeUrl (rw_Request w)" and "sub \<equiv> rw_subscription w"
  shows "x = None \<longleftrightarrow>
    GetVersion (Some s) t = req_VersionInfo (rw_Request w) \<and>
    snapshot_names s t sub \<subseteq> fst ` set (sub_returnedResources sub) \<and>
    (rw_fullStateResponses w \<longrightarrow> fst ` set (sub_returnedResources sub) \<subseteq> snapshot_names s t sub)"
proof -
  let ?R = "GetResourcesAndTTL (Some s) t"
  have ch: "sotw_changed ?R sub = [] \<longleftrightarrow> snapshot_names s t sub \<subseteq> fst ` set (sub_returnedResources sub)"
    unfolding set_empty [symmetric] set_sotw_changed by (auto simp: map_of_in_dom)
  have dl: "sotw_deleted ?R sub = [] \<longleftrightarrow> fst ` set (sub_returnedResources sub) \<subseteq> snapshot_names s t sub"
    unfolding set_empty [symmetric] set_sotw_deleted by auto
  have "x = None \<longleftrightarrow> GetVersion (Some s) t = req_VersionInfo (rw_Request w) \<and> sotw_changed ?R sub = [] \<and>
      (rw_fullStateResponses w \<longrightarrow> sotw_deleted ?R sub = [])"
    using assms(1) unfolding createResponse_def Let_def t_def sub_def subscription_accessors
    by (auto split: if_splits prod.splits)
  then show ?thesis unfolding ch dl .
qed

lemma createResponse_Some:
  assumes "createResponse m s w ads = Inr (Some resp)"
  defines "t \<equiv> req_TypeUrl (rw_Request w)" and "sub \<equiv> rw_subscription w"
  defines "N \<equiv> if GetVersion (Some s) t \<noteq> req_VersionInfo (rw_Request w) \<or> rw_fullStateResponses w
    then snapshot_names s t sub else {n \<in> snapshot_names s t sub. map_of (sub_returnedResources sub) n = None}"
  shows "set (raw_resources resp) = (\<lambda>n. newCachedResourceWithTTL m n
      (the (map_of (GetResourcesAndTTL (Some s) t) n)) (GetVersion (Some s) t)) ` N"
    and "fst ` set (raw_returnedResources resp) = snapshot_names s t sub"
    and "raw_Version resp = GetVersion (Some s) t" and "\<not> raw_Heartbeat resp"
    and "raw_Request resp = Some (rw_Request w)"
proof -
  let ?R = "GetResourcesAndTTL (Some s) t" and ?v = "GetVersion (Some s) t"
  let ?K = "sub_returnedResources sub" and ?in = "\<lambda>n. map_of ?R n \<noteq> None"
  let ?all = "filter ?in ((if sub_wildcard sub then map fst ?R else []) @ sub_subscribedResourceNames sub)"
  let ?ch = "filter ?in (sotw_changed ?R sub)"
  let ?new = "\<lambda>n. newCachedResourceWithTTL m n (the (map_of ?R n)) ?v"
  let ?upd = "fold (\<lambda>n a. AList.update n ?v a)"
  have all: "set ?all = snapshot_names s t sub"
    by (auto simp: snapshot_names_def snap_covers_def map_of_in_dom map_of_eq_None_iff)
  have ch: "set ?ch = {n \<in> snapshot_names s t sub. map_of ?K n = None}"
    using set_sotw_changed [of s t sub] by (auto simp: snapshot_names_def)
  let ?full = "?v \<noteq> req_VersionInfo (rw_Request w) \<or> rw_fullStateResponses w"
  let ?mk = "\<lambda>rs K. \<lparr>raw_Request = Some (rw_Request w), raw_Version = ?v, raw_resources = rs,
      raw_returnedResources = K, raw_Heartbeat = False, raw_Ctx = Background, raw_marshaledResponse = None\<rparr>"
  have F: "resp = (if ?full then ?mk (map ?new ?all) (?upd ?all [])
      else ?mk (map ?new ?ch) (fold AList.delete (sotw_deleted ?R sub) (?upd ?ch ?K)))"
    using assms(1)
    unfolding createResponse_def Let_def subscription_accessors t_def [symmetric] sub_def [symmetric]
    by (cases ?full) (simp_all add: fold_add_named split: if_splits)
  have "N = (if ?full then set ?all else set ?ch)" unfolding N_def all ch ..
  then show "set (raw_resources resp) = ?new ` N"
    unfolding F by (simp del: set_filter set_append filter_append)
  show "raw_Version resp = ?v" "\<not> raw_Heartbeat resp" "raw_Request resp = Some (rw_Request w)" unfolding F by simp_all
  have keys: "fst ` set (fold (\<lambda>n a. AList.update n v a) ns K) = set ns \<union> fst ` set K"
    for v :: string and ns and K :: "(string, string) gomap"
    by (induction ns arbitrary: K) (auto simp: dom_update)
  have dels: "fst ` set (fold AList.delete ns K) = fst ` set K - set ns" for ns K
    by (induction ns arbitrary: K) (auto simp: AList.delete_eq image_iff)
  have "fst ` set (raw_returnedResources resp) =
      (if ?full then set ?all else (set ?ch \<union> fst ` set ?K) - set (sotw_deleted ?R sub))"
    unfolding F by (simp add: keys dels del: set_filter set_append filter_append)
  then show "fst ` set (raw_returnedResources resp) = snapshot_names s t sub"
    unfolding all ch set_sotw_deleted by (auto simp: map_of_in_dom)
qed

subsection \<open>Delta\<close>

text \<open>The loop that adds changed resources: afterwards the recorded version of every name it was given is
  the version in the snapshot, and it added the names whose recorded version was another one, once.\<close>

lemma fold_addIfChanged:
  assumes "fold (addIfChanged m v (GetVersionMap s t) (GetResourcesAndTTL (Some s) t)) ns (rs, K) = (rs', K')"
  defines "inR \<equiv> \<lambda>n. map_of (GetResourcesAndTTL (Some s) t) n \<noteq> None"
  shows "map_of K' = (\<lambda>n. if n \<in> set ns \<and> inR n then Some (delta_version s t n) else map_of K n) \<and>
    (\<exists>ch. map cr_name rs' = map cr_name rs @ ch \<and> distinct ch \<and>
       set ch = {n \<in> set ns. inR n \<and> map_of K n \<noteq> Some (delta_version s t n)}) \<and>
    (gomap_ok K \<longrightarrow> gomap_ok K')"
  using assms(1)
proof (induction ns arbitrary: rs K)
  case (Cons n ns)
  let ?R = "GetResourcesAndTTL (Some s) t" and ?d = "delta_version s t n"
  show ?case
  proof (cases "map_of ?R n = None \<or> map_of K n = Some ?d")
    case True
    then have "addIfChanged m v (GetVersionMap s t) ?R n (rs, K) = (rs, K)"
      by (auto simp: addIfChanged_def delta_version_def Let_def split: option.splits)
    with Cons.prems Cons.IH [of rs K] True show ?thesis by (auto simp: inR_def fun_eq_iff)
  next
    case False
    then obtain r where r: "map_of ?R n = Some r" and ne: "map_of K n \<noteq> Some ?d" by auto
    let ?rs = "rs @ [newCachedResourceWithTTL m n r v]" and ?K = "AList.update n ?d K"
    have "addIfChanged m v (GetVersionMap s t) ?R n (rs, K) = (?rs, ?K)"
      using r ne by (auto simp: addIfChanged_def delta_version_def Let_def split: option.splits)
    with Cons.prems have "fold (addIfChanged m v (GetVersionMap s t) ?R) ns (?rs, ?K) = (rs', K')" by simp
    from Cons.IH [OF this] obtain ch where
      K': "map_of K' = (\<lambda>k. if k \<in> set ns \<and> inR k then Some (delta_version s t k) else map_of ?K k)"
      and ch: "map cr_name rs' = map cr_name ?rs @ ch" "distinct ch"
        "set ch = {k \<in> set ns. inR k \<and> map_of ?K k \<noteq> Some (delta_version s t k)}"
      and ok: "gomap_ok ?K \<longrightarrow> gomap_ok K'" by blast
    have "set (n # ch) = {k \<in> set (n # ns). inR k \<and> map_of K k \<noteq> Some (delta_version s t k)}"
      using ch(3) r ne by (auto simp: inR_def)
    moreover have "distinct (n # ch)" using ch(2,3) by auto
    moreover have "map cr_name rs' = map cr_name rs @ (n # ch)" using ch(1) by simp
    ultimately show ?thesis using K' ok r by (auto simp: inR_def fun_eq_iff)
  qed
qed simp

text \<open>A delta response before the decision to send it: names to send, names to remove, versions to record.\<close>

lemma createDeltaResponse_parts:
  fixes m s w reply
  defines "t \<equiv> dreq_TypeUrl (drw_Request w)" and "sub \<equiv> drw_subscription w"
  obtains rs K rm where
    "createDeltaResponse m s w reply =
       (if rs = [] \<and> rm = [] \<and> \<not> reply then None
        else Some \<lparr>rawd_DeltaRequest = Some (drw_Request w), rawd_SystemVersionInfo = GetVersion (Some s) t,
             rawd_resources = rs, rawd_removedResources = rm,
             rawd_returnedResources = fold AList.delete rm K, rawd_Ctx = Background, rawd_marshaledResponse = None\<rparr>)"
    "distinct (map cr_name rs)"
    "set (map cr_name rs) = {n \<in> snapshot_names s t sub. map_of (sub_returnedResources sub) n \<noteq> Some (delta_version s t n)}"
    "set rm = {n \<in> fst ` set (sub_returnedResources sub). n \<notin> snapshot_names s t sub}"
    "map_of (fold AList.delete rm K) = snapshot_view s t sub"
    "subscription_ok sub \<Longrightarrow> distinct rm" 
proof -
  let ?R = "GetResourcesAndTTL (Some s) t" and ?K = "sub_returnedResources sub"
  let ?add = "addIfChanged m (GetVersion (Some s) t) (GetVersionMap s t) ?R"
  let ?ns = "(if sub_wildcard sub then map fst ?R else []) @ sub_subscribedResourceNames sub"
  obtain rs K where fld: "fold ?add ?ns ([], ?K) = (rs, K)" by fastforce
  let ?rm = "filter (\<lambda>n. map_of ?R n = None \<or> \<not> sub_wildcard sub \<and> n \<notin> set (sub_subscribedResourceNames sub)) (map fst K)"
  have parts: "fold ?add (sub_subscribedResourceNames sub)
      (if sub_wildcard sub then fold ?add (map fst ?R) ([], ?K) else ([], ?K)) = (rs, K)"
    using fld by (simp split: if_splits)
  have eq: "createDeltaResponse m s w reply =
       (if rs = [] \<and> ?rm = [] \<and> \<not> reply then None
        else Some \<lparr>rawd_DeltaRequest = Some (drw_Request w), rawd_SystemVersionInfo = GetVersion (Some s) t,
             rawd_resources = rs, rawd_removedResources = ?rm,
             rawd_returnedResources = fold AList.delete ?rm K, rawd_Ctx = Background, rawd_marshaledResponse = None\<rparr>)"
    unfolding createDeltaResponse_def Let_def subscription_accessors t_def [symmetric] sub_def [symmetric] parts
    by simp
  have names: "{n \<in> set ?ns. map_of ?R n \<noteq> None} = snapshot_names s t sub"
    by (auto simp: snapshot_names_def snap_covers_def map_of_in_dom map_of_eq_None_iff)
  obtain ch where K: "map_of K = (\<lambda>n. if n \<in> set ?ns \<and> map_of ?R n \<noteq> None then Some (delta_version s t n) else map_of ?K n)"
    and ch: "map cr_name rs = ch" "distinct ch"
      "set ch = {n \<in> set ?ns. map_of ?R n \<noteq> None \<and> map_of ?K n \<noteq> Some (delta_version s t n)}"
    and ok: "gomap_ok ?K \<longrightarrow> gomap_ok K"
    using fold_addIfChanged [OF fld] by auto
  have out: "map_of ?R n = None \<or> \<not> sub_wildcard sub \<and> n \<notin> set (sub_subscribedResourceNames sub) \<longleftrightarrow>
      n \<notin> snapshot_names s t sub" for n
    by (auto simp: snapshot_names_def snap_covers_def)
  have K': "map_of K n = (if n \<in> snapshot_names s t sub then Some (delta_version s t n) else map_of ?K n)" for n
    unfolding K names [symmetric] by simp
  have rm: "set ?rm = {n \<in> fst ` set ?K. n \<notin> snapshot_names s t sub}"
  proof -
    have "n \<in> fst ` set K \<longleftrightarrow> n \<in> fst ` set ?K" if "n \<notin> snapshot_names s t sub" for n
      using K' [of n] that map_of_in_dom [of K n] map_of_in_dom [of ?K n] by simp
    then show ?thesis unfolding out set_filter set_map by blast
  qed
  show ?thesis
  proof (rule that [OF eq])
    show "distinct (map cr_name rs)" using ch by simp
    show "set (map cr_name rs) = {n \<in> snapshot_names s t sub. map_of ?K n \<noteq> Some (delta_version s t n)}"
      unfolding ch names [symmetric] using ch(3) by auto
    show "set ?rm = {n \<in> fst ` set ?K. n \<notin> snapshot_names s t sub}" by (rule rm)
    show "map_of (fold AList.delete ?rm K) = snapshot_view s t sub"
      unfolding map_of_fold_delete rm
      by (auto simp: fun_eq_iff K' snapshot_view_def map_of_in_dom)
    show "distinct ?rm" if "subscription_ok sub"
      using ok that by (simp add: subscription_ok_def gomap_ok_def)
  qed
qed

end
