(* ===== verification/Simple_Run.thy ===== *)
theory Simple_Run
  imports Simple_Response "HOL-Library.Sublist"
begin

text \<open>
  The notification loops of the snapshot cache and its runs: \<open>snapshot_run m c F\<close> holds when \<open>c\<close> is reached
  from a new cache by setting snapshots, clearing them, creating watches, cancelling and heartbeats, in
  any order. \<open>SetSnapshot\<close> stores the snapshot first and may then fail while it answers the watches; \<open>F\<close> holds
  the nodes for which the last call did.
\<close>

section \<open>Definitions\<close>

fun send_type :: "chan \<times> WatchResponse \<Rightarrow> string" where
  "send_type (c, WRaw r) = req_getTypeUrl (raw_Request r)"
| "send_type (c, WDelta r) = dreq_getTypeUrl (rawd_DeltaRequest r)"

text \<open>The nodes whose last snapshot was set with an error.\<close>

definition failed_nodes :: "string \<Rightarrow> error option \<Rightarrow> string set \<Rightarrow> string set" where
  "failed_nodes node e F = (if e = None then F - {node} else insert node F)"

inductive snapshot_run :: "marshaler \<Rightarrow> snapshotCache \<Rightarrow> string set \<Rightarrow> bool" for m where
  srun_new: "snapshot_run m (NewSnapshotCache ads hash) {}"
| srun_set: "snapshot_run m c F \<Longrightarrow> SetSnapshot m ctx node s c = (c', out, e) \<Longrightarrow>
    snapshot_run m c' (failed_nodes node e F)"
| srun_clear: "snapshot_run m c F \<Longrightarrow> snapshot_run m (ClearSnapshot node c) (F - {node})"
| srun_watch: "snapshot_run m c F \<Longrightarrow> sc_CreateWatch m now req sub ch c = (c', out, r) \<Longrightarrow> snapshot_run m c' F"
| srun_delta: "snapshot_run m c F \<Longrightarrow> sc_CreateDeltaWatch m now dreq sub ch c = (c', out, r) \<Longrightarrow>
    snapshot_run m c' F"
| srun_cancel: "snapshot_run m c F \<Longrightarrow> snapshot_run m (sc_runCancel cn c) F"
| srun_heartbeat: "snapshot_run m c F \<Longrightarrow> heartbeatTick m ctx c = (c', out) \<Longrightarrow> snapshot_run m c' F"

inductive_cases snapshot_run_cases: "snapshot_run m c F"

text \<open>No watch of a node is waiting for something its snapshot could answer.\<close>

definition sotw_settled :: "marshaler \<Rightarrow> bool \<Rightarrow> Snapshot \<Rightarrow> (64 word, ResponseWatch) gomap \<Rightarrow> bool" where
  "sotw_settled m ads s ws \<longleftrightarrow> (\<forall>(i, w)\<in>set ws. replySOTW m Background s ads w = Inr None)"

definition delta_settled :: "marshaler \<Rightarrow> Snapshot \<Rightarrow> (64 word, DeltaResponseWatch) gomap \<Rightarrow> bool" where
  "delta_settled m s ws \<longleftrightarrow>
     (ws \<noteq> [] \<longrightarrow> sn_VersionMap s \<noteq> None) \<and> (\<forall>(i, w)\<in>set ws. createDeltaResponse m s w False = None)"

definition node_settled :: "marshaler \<Rightarrow> bool \<Rightarrow> Snapshot \<Rightarrow> statusInfo \<Rightarrow> bool" where
  "node_settled m ads s info \<longleftrightarrow>
     sotw_settled m ads s (si_watches info) \<and> delta_settled m s (si_deltaWatches info)"

definition sc_inv :: "marshaler \<Rightarrow> string set \<Rightarrow> snapshotCache \<Rightarrow> bool" where
  "sc_inv m F c \<longleftrightarrow>
     (\<forall>node info. map_of (sc_status c) node = Some info \<longrightarrow>
        statusInfo_ok info \<and>
        (\<forall>s. node \<notin> F \<longrightarrow> map_of (sc_snapshots c) node = Some s \<longrightarrow> node_settled m (sc_ads c) s info))"

section \<open>Lemmas\<close>

subsection \<open>The notification loop\<close>

lemma watchLoop_None:
  assumes "watchLoop reply ids ws out = (ws', out', None)" and "distinct ids" and "gomap_ok ws"
  shows "gomap_ok ws' \<and>
    (\<forall>i w. map_of ws' i = Some w \<longleftrightarrow> map_of ws i = Some w \<and> (i \<in> set ids \<longrightarrow> reply w = Inr None)) \<and>
    (\<forall>i\<in>set ids. \<exists>w x. map_of ws i = Some w \<and> reply w = Inr x)"
  using assms
proof (induction ids arbitrary: ws out)
  case (Cons i ids)
  obtain w where w: "map_of ws i = Some w" using Cons.prems(1) by (auto split: option.splits)
  obtain x where x: "reply w = Inr x" using Cons.prems(1) w by (auto split: sum.splits)
  show ?case
  proof (cases x)
    case None
    with Cons w x show ?thesis by fastforce
  next
    case (Some s)
    let ?ws = "AList.delete i ws"
    have "watchLoop reply ids ?ws (out @ [s]) = (ws', out', None)" using Cons.prems(1) w x Some by simp
    from Cons.IH [OF this] Cons.prems(2,3) have
      IH: "gomap_ok ws'" "\<And>j v. map_of ws' j = Some v \<longleftrightarrow> map_of ?ws j = Some v \<and> (j \<in> set ids \<longrightarrow> reply v = Inr None)"
        "\<forall>j\<in>set ids. \<exists>v x. map_of ?ws j = Some v \<and> reply v = Inr x" by auto
    have "map_of ws' j = Some v \<longleftrightarrow> map_of ws j = Some v \<and> (j \<in> set (i # ids) \<longrightarrow> reply v = Inr None)" for j v
      using IH(2) [of j v] w x Some by auto
    moreover have "\<exists>v x. map_of ws j = Some v \<and> reply v = Inr x" if "j \<in> set (i # ids)" for j
      using IH(3) that w x by (auto split: if_splits)
    ultimately show ?thesis using IH(1) by blast
  qed
qed simp

text \<open>Whether or not an error stops it, a loop sends replies in the order of its identifiers.\<close>

lemma watchLoop_sends:
  assumes "watchLoop reply ids ws out = (ws', out', e)" and "distinct ids"
  shows "\<exists>js sent. out' = out @ sent \<and> subseq js ids \<and>
    list_all2 (\<lambda>j s. \<exists>w. map_of ws j = Some w \<and> reply w = Inr (Some s)) js sent"
  using assms
proof (induction ids arbitrary: ws out)
  case (Cons i ids)
  show ?case
  proof (cases "\<exists>w s. map_of ws i = Some w \<and> reply w = Inr (Some s)")
    case True
    then obtain w s where w: "map_of ws i = Some w" "reply w = Inr (Some s)" by blast
    with Cons.prems(1) have "watchLoop reply ids (AList.delete i ws) (out @ [s]) = (ws', out', e)" by simp
    from Cons.IH [OF this] Cons.prems(2) obtain js sent where
      js: "out' = (out @ [s]) @ sent" "subseq js ids"
        "list_all2 (\<lambda>j s. \<exists>w. map_of (AList.delete i ws) j = Some w \<and> reply w = Inr (Some s)) js sent" by auto
    have "list_all2 (\<lambda>j s. \<exists>w. map_of ws j = Some w \<and> reply w = Inr (Some s)) js sent"
      using js(3) by (rule list_all2_mono) (auto split: if_splits)
    then have "out' = out @ (s # sent) \<and> subseq (i # js) (i # ids) \<and>
        list_all2 (\<lambda>j s. \<exists>w. map_of ws j = Some w \<and> reply w = Inr (Some s)) (i # js) (s # sent)"
      using js(1,2) w by auto
    then show ?thesis by blast
  next
    case False
    then have "watchLoop reply ids ws out = (ws', out', e) \<or> out' = out"
      using Cons.prems(1) by (auto split: option.splits sum.splits)
    then show ?thesis
    proof
      assume "watchLoop reply ids ws out = (ws', out', e)"
      from Cons.IH [OF this] Cons.prems(2) show ?thesis by (auto intro: list_emb_Cons)
    next
      assume "out' = out"
      then show ?thesis by (intro exI [of _ "[]"]) simp
    qed
  qed
qed auto

subsection \<open>What a reply depends on\<close>

lemma version_map_irrelevant [simp]:
  "GetVersion (Some (s\<lparr>sn_VersionMap := x\<rparr>)) t = GetVersion (Some s) t"
  "GetResourcesAndTTL (Some (s\<lparr>sn_VersionMap := x\<rparr>)) t = GetResourcesAndTTL (Some s) t"
  by (simp_all add: GetVersion_def GetResourcesAndTTL_def Let_def)

lemma createResponse_version_map [simp]:
  "createResponse m (s\<lparr>sn_VersionMap := x\<rparr>) w ads = createResponse m s w ads"
  unfolding createResponse_def version_map_irrelevant ..

lemma replySOTW_version_map [simp]:
  "replySOTW m ctx (s\<lparr>sn_VersionMap := x\<rparr>) ads w = replySOTW m ctx s ads w"
  by (simp add: replySOTW_def)

lemma replySOTW_None:
  "replySOTW m ctx s ads w = Inr None \<longleftrightarrow>
     GetVersion (Some s) (req_TypeUrl (rw_Request w)) = req_VersionInfo (rw_Request w) \<or>
     (\<exists>e. createResponse m s w ads = Inl e)"
proof (cases "createResponse m s w ads")
  case (Inl e)
  then have "isMissingRequestResource e" by (simp add: createResponse_missing)
  with Inl show ?thesis by (simp add: replySOTW_def)
next
  case (Inr x)
  show ?thesis
  proof (cases x)
    case None
    then show ?thesis using Inr createResponse_None [OF Inr] by (simp add: replySOTW_def)
  next
    case (Some resp)
    then show ?thesis using Inr by (simp add: replySOTW_def sc_respond_def)
  qed
qed

lemma replyDelta_None [simp]:
  "replyDelta m ctx s w = Inr None \<longleftrightarrow> createDeltaResponse m s w False = None"
  by (auto simp: replyDelta_def respondDelta_def split: option.splits sum.splits)

lemma ConstructVersionMap_shape:
  assumes "ConstructVersionMap m (Some s) = (s', e)"
  obtains vm where "s' = Some (s\<lparr>sn_VersionMap := Some vm\<rparr>)"
    and "sn_VersionMap s \<noteq> None \<Longrightarrow> s' = Some s \<and> e = None"
proof (cases "sn_VersionMap s")
  case None
  obtain vm e' where "construct_types m (sn_Resources s) response_types [] = (vm, e')" by fastforce
  with assms None have "s' = Some (s\<lparr>sn_VersionMap := Some vm\<rparr>)" by (simp add: ConstructVersionMap_def)
  from that [OF this] None show ?thesis by simp
next
  case (Some vm)
  have same: "s\<lparr>sn_VersionMap := Some vm\<rparr> = s" using Some by (cases s) simp
  have r: "s' = Some s" "e = None" using assms Some by (simp_all add: ConstructVersionMap_def)
  show ?thesis by (rule that [of vm]) (simp_all add: r same)
qed

subsection \<open>The operations keep watches settled\<close>

lemma ordered_ids:
  "set (map key_ID (si_orderedWatches (orderResponseWatches info))) = fst ` set (si_watches info)"
  "set (map key_ID (si_orderedDeltaWatches (orderResponseDeltaWatches info))) = fst ` set (si_deltaWatches info)"
  "statusInfo_ok info \<Longrightarrow> distinct (map key_ID (si_orderedWatches (orderResponseWatches info)))"
  "statusInfo_ok info \<Longrightarrow> distinct (map key_ID (si_orderedDeltaWatches (orderResponseDeltaWatches info)))"
  by (simp_all add: orderResponseWatches_def orderResponseDeltaWatches_def statusInfo_ok_def gomap_ok_def
      comp_def case_prod_beta image_image)

lemma order_frame [simp]:
  "si_watches (orderResponseWatches info) = si_watches info"
  "si_deltaWatches (orderResponseWatches info) = si_deltaWatches info"
  "si_watches (orderResponseDeltaWatches info) = si_watches info"
  "si_deltaWatches (orderResponseDeltaWatches info) = si_deltaWatches info"
  by (simp_all add: orderResponseWatches_def orderResponseDeltaWatches_def)

lemma respondSOTW_settled:
  assumes ok: "statusInfo_ok info" and run: "respondSOTWWatches m ctx ads info s = (info', out, None)"
  shows "statusInfo_ok info' \<and> sotw_settled m ads s (si_watches info') \<and>
    si_deltaWatches info' = si_deltaWatches info"
proof -
  let ?ids = "if ads then map key_ID (si_orderedWatches (orderResponseWatches info)) else map fst (si_watches info)"
  obtain ws where loop: "watchLoop (replySOTW m ctx s ads) ?ids (si_watches info) [] = (ws, out, None)"
    and info': "info' = (if ads then orderResponseWatches info else info)\<lparr>si_watches := ws\<rparr>"
    using run unfolding respondSOTWWatches_def Let_def by (cases ads) (auto split: prod.splits)
  have keys: "set ?ids = fst ` set (si_watches info)" using ordered_ids(1) by simp
  have ids: "distinct ?ids" using ordered_ids(3) [OF ok] ok by (simp add: statusInfo_ok_def gomap_ok_def)
  have gok: "gomap_ok (si_watches info)" using ok by (simp add: statusInfo_ok_def)
  note W = watchLoop_None [OF loop ids gok, unfolded keys]
  have settled: "replySOTW m Background s ads w = Inr None" if "(i, w) \<in> set ws" for i w
  proof -
    have "gomap_ok ws" using W by blast
    then have "map_of ws i = Some w" using that map_of_iff by metis
    then have "map_of (si_watches info) i = Some w"
      and "i \<in> fst ` set (si_watches info) \<longrightarrow> replySOTW m ctx s ads w = Inr None" using W by blast+
    then show ?thesis using map_of_in_dom [of "si_watches info" i] by (simp add: replySOTW_None)
  qed
  show ?thesis
    using W ok settled by (auto simp: info' statusInfo_ok_def sotw_settled_def)
qed

lemma respondDelta_settled:
  assumes ok: "statusInfo_ok info" and run: "respondDeltaWatches m ctx ads info s = (info', s', out, None)"
  shows "statusInfo_ok info' \<and> delta_settled m s' (si_deltaWatches info') \<and>
    si_watches info' = si_watches info \<and> (\<exists>vm. s' = s\<lparr>sn_VersionMap := vm\<rparr>)"
proof (cases "si_deltaWatches info = []")
  case True
  then show ?thesis
    using run ok by (auto simp: respondDeltaWatches_def delta_settled_def intro: exI [of _ "sn_VersionMap s"])
next
  case False
  let ?ids = "if ads then map key_ID (si_orderedDeltaWatches (orderResponseDeltaWatches info))
    else map fst (si_deltaWatches info)"
  obtain s1 e1 where c0: "ConstructVersionMap m (Some s) = (s1, e1)" by fastforce
  obtain vm where vm: "s1 = Some (s\<lparr>sn_VersionMap := Some vm\<rparr>)" by (rule ConstructVersionMap_shape [OF c0])
  have e1: "e1 = None" using run False c0 by (cases e1) (simp_all add: respondDeltaWatches_def)
  have c: "ConstructVersionMap m (Some s) = (Some (s\<lparr>sn_VersionMap := Some vm\<rparr>), None)" using c0 vm e1 by simp
  have s': "s' = s\<lparr>sn_VersionMap := Some vm\<rparr>"
    using run False c by (auto simp: respondDeltaWatches_def Let_def split: prod.splits)
  obtain ws where loop: "watchLoop (replyDelta m ctx s') ?ids (si_deltaWatches info) [] = (ws, out, None)"
    and info': "info' = (if ads then orderResponseDeltaWatches info else info)\<lparr>si_deltaWatches := ws\<rparr>"
    using run False c s' unfolding respondDeltaWatches_def Let_def by (cases ads) (auto split: prod.splits)
  have keys: "set ?ids = fst ` set (si_deltaWatches info)" using ordered_ids(2) by simp
  have ids: "distinct ?ids" using ordered_ids(4) [OF ok] ok by (simp add: statusInfo_ok_def gomap_ok_def)
  have gok: "gomap_ok (si_deltaWatches info)" using ok by (simp add: statusInfo_ok_def)
  note W = watchLoop_None [OF loop ids gok, unfolded keys replyDelta_None]
  have settled: "createDeltaResponse m s' w False = None" if "(i, w) \<in> set ws" for i w
  proof -
    have "gomap_ok ws" using W by blast
    then have "map_of ws i = Some w" using that map_of_iff by metis
    then have "map_of (si_deltaWatches info) i = Some w"
      and "i \<in> fst ` set (si_deltaWatches info) \<longrightarrow> createDeltaResponse m s' w False = None" using W by blast+
    then show ?thesis using map_of_in_dom [of "si_deltaWatches info" i] by simp
  qed
  show ?thesis
    using W ok settled s' by (auto simp: info' statusInfo_ok_def delta_settled_def)
qed

text \<open>Whether or not an error stops it, a notification only closes watches.\<close>

lemma watchLoop_sub:
  assumes "watchLoop reply ids ws out = (ws', out', e)" and "gomap_ok ws"
  shows "gomap_ok ws' \<and> set ws' \<subseteq> set ws"
  using assms
proof (induction ids arbitrary: ws out)
  case (Cons i ids)
  have "set (AList.delete i ws) \<subseteq> set ws" by (auto simp: AList.delete_eq)
  with Cons show ?case by (fastforce split: option.splits sum.splits)
qed simp

lemma respondSOTW_sub:
  assumes ok: "statusInfo_ok info" and run: "respondSOTWWatches m ctx ads info s = (info', out, e)"
  shows "statusInfo_ok info' \<and> set (si_watches info') \<subseteq> set (si_watches info) \<and>
    si_deltaWatches info' = si_deltaWatches info"
proof -
  have gok: "gomap_ok (si_watches info)" using ok by (simp add: statusInfo_ok_def)
  obtain ids ws where loop: "watchLoop (replySOTW m ctx s ads) ids (si_watches info) [] = (ws, out, e)"
    and info': "info' = (if ads then orderResponseWatches info else info)\<lparr>si_watches := ws\<rparr>"
    using run unfolding respondSOTWWatches_def Let_def by (cases ads) (auto split: prod.splits)
  from watchLoop_sub [OF loop gok] ok show ?thesis by (simp add: info' statusInfo_ok_def)
qed

lemma respondDelta_sub:
  assumes ok: "statusInfo_ok info" and run: "respondDeltaWatches m ctx ads info s = (info', s', out, e)"
  shows "statusInfo_ok info' \<and> si_watches info' = si_watches info"
proof (cases "info' = info")
  case False
  have gok: "gomap_ok (si_deltaWatches info)" using ok by (simp add: statusInfo_ok_def)
  obtain ids ws where loop: "watchLoop (replyDelta m ctx s') ids (si_deltaWatches info) [] = (ws, out, e)"
    and info': "info' = (if ads then orderResponseDeltaWatches info else info)\<lparr>si_deltaWatches := ws\<rparr>"
    using run False unfolding respondDeltaWatches_def Let_def
    by (cases ads) (auto split: prod.splits if_splits option.splits)
  from watchLoop_sub [OF loop gok] ok show ?thesis by (simp add: info' statusInfo_ok_def)
qed (use ok in simp)

subsection \<open>The order of the responses\<close>

lemma subseq_sorted_map: "subseq xs ys \<Longrightarrow> sorted (map f ys) \<Longrightarrow> sorted (map f xs)"
proof (induction rule: list_emb.induct)
  case (list_emb_Cons2 x y xs ys)
  then have "set xs \<subseteq> set ys" using list_emb_set by fastforce
  with list_emb_Cons2 show ?case by auto
qed simp_all

lemma replySOTW_type: "replySOTW m ctx s ads w = Inr (Some x) \<Longrightarrow>
    send_type x = req_TypeUrl (rw_Request w) \<and> (\<exists>r. snd x = WRaw r)"
  using createResponse_Some(5) [of m s w ads]
  by (auto simp: replySOTW_def sc_respond_def req_getTypeUrl_def split: if_splits sum.splits option.splits)

lemma replyDelta_type:
  assumes "replyDelta m ctx s w = Inr (Some x)"
  shows "send_type x = dreq_TypeUrl (drw_Request w) \<and> (\<exists>r. snd x = WDelta r)"
proof -
  obtain resp where r: "createDeltaResponse m s w False = Some resp"
    and x: "x = (drw_Response w, WDelta (resp\<lparr>rawd_Ctx := ctx\<rparr>))"
    using assms by (auto simp: replyDelta_def respondDelta_def split: option.splits sum.splits if_splits)
  have "rawd_DeltaRequest resp = Some (drw_Request w)"
    using r by (auto simp: createDeltaResponse_def Let_def split: prod.splits if_splits)
  then show ?thesis by (simp add: x dreq_getTypeUrl_def)
qed

text \<open>A loop over identifiers sorted by the type of their watches sends responses sorted by type.\<close>

lemma watchLoop_sorted:
  assumes "watchLoop reply ids ws [] = (ws', out, e)" and "distinct ids"
    and "sorted (map (\<lambda>i. GetResponseType (typ (the (map_of ws i)))) ids)"
    and "\<And>w x. reply w = Inr (Some x) \<Longrightarrow> send_type x = typ w"
  shows "sorted (map (\<lambda>x. GetResponseType (send_type x)) out)"
proof -
  obtain js where js: "subseq js ids"
    "list_all2 (\<lambda>j s. \<exists>w. map_of ws j = Some w \<and> reply w = Inr (Some s)) js out"
    using watchLoop_sends [OF assms(1,2)] by auto
  have "map (\<lambda>i. GetResponseType (typ (the (map_of ws i)))) js = map (\<lambda>x. GetResponseType (send_type x)) out"
    using js(2) by (induction rule: list_all2_induct) (auto simp: assms(4))
  moreover have "sorted (map (\<lambda>i. GetResponseType (typ (the (map_of ws i)))) js)"
    by (rule subseq_sorted_map [OF js(1) assms(3)])
  ultimately show ?thesis by simp
qed

lemma watchLoop_kind:
  assumes "watchLoop reply ids ws [] = (ws', out, e)" and "distinct ids"
    and "\<And>w x. reply w = Inr (Some x) \<Longrightarrow> P x"
  shows "\<forall>x\<in>set out. P x"
proof -
  obtain js where "list_all2 (\<lambda>j s. \<exists>w. map_of ws j = Some w \<and> reply w = Inr (Some s)) js out"
    using watchLoop_sends [OF assms(1,2)] by auto
  then show ?thesis using assms(3) by (induction rule: list_all2_induct) auto
qed

lemma ordered_types:
  assumes "statusInfo_ok info"
  shows "sorted (map (\<lambda>i. GetResponseType (req_TypeUrl (rw_Request (the (map_of (si_watches info) i)))))
      (map key_ID (si_orderedWatches (orderResponseWatches info))))"
    and "sorted (map (\<lambda>i. GetResponseType (dreq_TypeUrl (drw_Request (the (map_of (si_deltaWatches info) i)))))
      (map key_ID (si_orderedDeltaWatches (orderResponseDeltaWatches info))))"
proof -
  let ?ks = "sort_keys (map (\<lambda>(i, w). \<lparr>key_ID = i, key_TypeURL = req_TypeUrl (rw_Request w)\<rparr>) (si_watches info))"
  have eq_ks: "map (\<lambda>k. GetResponseType (req_TypeUrl (rw_Request (the (map_of (si_watches info) (key_ID k)))))) ?ks =
      map (\<lambda>k. GetResponseType (key_TypeURL k)) ?ks"
    using assms by (auto simp: statusInfo_ok_def map_of_iff [symmetric])
  show "sorted (map (\<lambda>i. GetResponseType (req_TypeUrl (rw_Request (the (map_of (si_watches info) i)))))
      (map key_ID (si_orderedWatches (orderResponseWatches info))))"
    by (simp add: orderResponseWatches_def comp_def sorted_sort_keys eq_ks del: map_eq_conv)
  let ?kd = "sort_keys (map (\<lambda>(i, w). \<lparr>key_ID = i, key_TypeURL = dreq_TypeUrl (drw_Request w)\<rparr>) (si_deltaWatches info))"
  have eq_kd: "map (\<lambda>k. GetResponseType (dreq_TypeUrl (drw_Request (the (map_of (si_deltaWatches info) (key_ID k)))))) ?kd =
      map (\<lambda>k. GetResponseType (key_TypeURL k)) ?kd"
    using assms by (auto simp: statusInfo_ok_def map_of_iff [symmetric])
  show "sorted (map (\<lambda>i. GetResponseType (dreq_TypeUrl (drw_Request (the (map_of (si_deltaWatches info) i)))))
      (map key_ID (si_orderedDeltaWatches (orderResponseDeltaWatches info))))"
    by (simp add: orderResponseDeltaWatches_def comp_def sorted_sort_keys eq_kd del: map_eq_conv)
qed

text \<open>In ADS mode each of the two notifications of \<open>SetSnapshot\<close> is in the order of the types.\<close>

lemma respondSOTW_sorted:
  assumes "statusInfo_ok info" and "respondSOTWWatches m ctx True info s = (info', out, e)"
  shows "sorted (map (\<lambda>x. GetResponseType (send_type x)) out) \<and> (\<forall>x\<in>set out. \<exists>r. snd x = WRaw r)"
proof -
  obtain ws where loop: "watchLoop (replySOTW m ctx s True)
      (map key_ID (si_orderedWatches (orderResponseWatches info))) (si_watches info) [] = (ws, out, e)"
    using assms(2) by (auto simp: respondSOTWWatches_def Let_def split: prod.splits)
  note d = ordered_ids(3) [OF assms(1)]
  have "sorted (map (\<lambda>x. GetResponseType (send_type x)) out)"
    by (rule watchLoop_sorted [OF loop d, of "\<lambda>w. req_TypeUrl (rw_Request w)"])
      (use ordered_types(1) [OF assms(1)] replySOTW_type in simp_all)
  moreover have "\<forall>x\<in>set out. \<exists>r. snd x = WRaw r" by (rule watchLoop_kind [OF loop d]) (simp add: replySOTW_type)
  ultimately show ?thesis ..
qed

lemma respondDelta_sorted:
  assumes "statusInfo_ok info" and "respondDeltaWatches m ctx True info s = (info', s', out, e)"
  shows "sorted (map (\<lambda>x. GetResponseType (send_type x)) out) \<and> (\<forall>x\<in>set out. \<exists>r. snd x = WDelta r)"
proof (cases "out = []")
  case False
  then obtain s1 ws where loop: "watchLoop (replyDelta m ctx s1)
      (map key_ID (si_orderedDeltaWatches (orderResponseDeltaWatches info))) (si_deltaWatches info) [] = (ws, out, e)"
    using assms(2) by (auto simp: respondDeltaWatches_def Let_def split: prod.splits option.splits if_splits)
  note d = ordered_ids(4) [OF assms(1)]
  have "sorted (map (\<lambda>x. GetResponseType (send_type x)) out)"
    by (rule watchLoop_sorted [OF loop d, of "\<lambda>w. dreq_TypeUrl (drw_Request w)"])
      (use ordered_types(2) [OF assms(1)] replyDelta_type in simp_all)
  moreover have "\<forall>x\<in>set out. \<exists>r. snd x = WDelta r" by (rule watchLoop_kind [OF loop d]) (simp add: replyDelta_type)
  ultimately show ?thesis ..
qed simp

subsection \<open>Every reachable cache\<close>

lemma node_settled_vm:
  assumes "node_settled m ads s info"
    and "si_deltaWatches info \<noteq> [] \<Longrightarrow> s' = s" and "\<exists>vm. s' = s\<lparr>sn_VersionMap := vm\<rparr>"
  shows "node_settled m ads s' info"
proof (cases "si_deltaWatches info = []")
  case True
  then show ?thesis using assms(1,3) by (auto simp: node_settled_def sotw_settled_def delta_settled_def)
qed (use assms(1,2) in simp)

lemma node_settled_sub:
  assumes "node_settled m ads s info" and "set (si_watches info') \<subseteq> set (si_watches info)"
    and "set (si_deltaWatches info') \<subseteq> set (si_deltaWatches info)"
  shows "node_settled m ads s info'"
  using assms by (fastforce simp: node_settled_def sotw_settled_def delta_settled_def)

lemma sc_inv_status:
  assumes "sc_inv m F c" and "statusInfo_ok info"
    and "\<And>s. node \<notin> F \<Longrightarrow> map_of (sc_snapshots c) node = Some s \<Longrightarrow> node_settled m (sc_ads c) s info"
  shows "sc_inv m F (c\<lparr>sc_status := AList.update node info (sc_status c)\<rparr>)"
  using assms by (auto simp: sc_inv_def)

lemma sc_inv_snapshot:
  assumes "sc_inv m F c" and "\<And>info. node \<notin> F \<Longrightarrow> map_of (sc_status c) node = Some info \<Longrightarrow> node_settled m (sc_ads c) s info"
  shows "sc_inv m F (c\<lparr>sc_snapshots := AList.update node s (sc_snapshots c)\<rparr>)"
  using assms by (auto simp: sc_inv_def)

lemma statusFor_settled:
  assumes "sc_inv m F c"
  shows "statusInfo_ok (statusFor node nd c)"
    and "node \<notin> F \<Longrightarrow> map_of (sc_snapshots c) node = Some s \<Longrightarrow> node_settled m (sc_ads c) s (statusFor node nd c)"
  using assms newStatusInfo_ok
  by (auto simp: statusFor_def sc_inv_def newStatusInfo_def node_settled_def sotw_settled_def delta_settled_def
      split: option.splits)

lemma sc_inv_SetSnapshot:
  assumes inv: "sc_inv m F c" and run: "SetSnapshot m ctx node s c = (c', out, e)"
  shows "sc_inv m (failed_nodes node e F) c'"
proof (cases "map_of (sc_status c) node")
  case None
  with run have "c' = c\<lparr>sc_snapshots := AList.update node s (sc_snapshots c)\<rparr>" by (simp add: SetSnapshot_def)
  then show ?thesis using inv None by (auto simp: sc_inv_def failed_nodes_def split: if_splits)
next
  case (Some info)
  let ?c = "c\<lparr>sc_snapshots := AList.update node s (sc_snapshots c)\<rparr>"
  have ok: "statusInfo_ok info" using inv Some by (auto simp: sc_inv_def)
  obtain i1 o1 e1 where r1: "respondSOTWWatches m ctx (sc_ads c) info s = (i1, o1, e1)" by (metis prod_cases3)
  obtain i2 s2 o2 e2 where r2: "respondDeltaWatches m ctx (sc_ads c) i1 s = (i2, s2, o2, e2)" by (metis prod_cases4)
  have ok1: "statusInfo_ok i1" using respondSOTW_sub [OF ok r1] by simp
  have other: "sc_inv m (failed_nodes node e F) (?c\<lparr>sc_status := AList.update node i (sc_status c),
      sc_snapshots := AList.update node s' (sc_snapshots ?c)\<rparr>)"
    if "statusInfo_ok i" "e = None \<Longrightarrow> node_settled m (sc_ads c) s' i" for i s'
    using inv that by (auto simp: sc_inv_def failed_nodes_def split: if_splits)
  show ?thesis
  proof (cases e1)
    case (Some x)
    then have "c' = ?c\<lparr>sc_status := AList.update node i1 (sc_status c)\<rparr>" "e = Some x"
      using run r1 \<open>map_of (sc_status c) node = Some info\<close> by (simp_all add: SetSnapshot_def)
    then show ?thesis using inv ok1 by (auto simp: sc_inv_def failed_nodes_def split: if_splits)
  next
    case None
    then have c': "c' = ?c\<lparr>sc_status := AList.update node i2 (sc_status c),
       sc_snapshots := AList.update node s2 (sc_snapshots ?c)\<rparr>" and e: "e = e2"
      using run r1 r2 Some by (simp_all add: SetSnapshot_def)
    have "node_settled m (sc_ads c) s2 i2" if "e = None"
    proof -
      note S = respondSOTW_settled [OF ok r1 [unfolded None]]
      note D = respondDelta_settled [OF ok1 r2 [folded e, unfolded that]]
      have "sotw_settled m (sc_ads c) s2 (si_watches i2)" using S D by (auto simp: sotw_settled_def)
      then show ?thesis using D by (simp add: node_settled_def)
    qed
    then show ?thesis unfolding c' using respondDelta_sub [OF ok1 r2] by (intro other) simp_all
  qed
qed

lemma sc_inv_CreateWatch:
  assumes inv: "sc_inv m F c" and run: "sc_CreateWatch m now req sub ch c = (c', out, r)"
  shows "sc_inv m F c'"
proof -
  let ?id = "sc_hash c (req_Node req)"
  let ?info = "setLastWatchRequestTime now (statusFor ?id (req_Node req) c)"
  let ?c = "c\<lparr>sc_status := AList.update ?id ?info (sc_status c)\<rparr>"
  let ?w = "\<lparr>rw_Request = req, rw_Response = ch, rw_subscription = sub,
      rw_fullStateResponses = ResourceRequiresFullStateInSotw (req_TypeUrl req)\<rparr>"
  let ?info' = "?info\<lparr>si_watches := AList.update (sc_watchCount c + 1) ?w (si_watches ?info)\<rparr>"
  note st = statusFor_settled [OF inv, where node = ?id and nd = "req_Node req"]
  have ok: "statusInfo_ok ?info" "statusInfo_ok ?info'"
    using st(1) by (simp_all add: setLastWatchRequestTime_def statusInfo_ok_def)
  have settled: "node_settled m (sc_ads c) s ?info" if "?id \<notin> F" "map_of (sc_snapshots c) ?id = Some s" for s
    using st(2) [OF that] by (simp add: setLastWatchRequestTime_def node_settled_def)
  have inv1: "sc_inv m F ?c" using sc_inv_status [OF inv ok(1) settled] .
  have track: "sc_inv m F (fst (sc_createWatch ?id ?info ?w ?c))"
    if reply: "\<And>s. map_of (sc_snapshots c) ?id = Some s \<Longrightarrow> createResponse m s ?w (sc_ads c) = Inr None"
  proof -
    have "node_settled m (sc_ads c) s ?info'" if f: "?id \<notin> F" and s: "map_of (sc_snapshots c) ?id = Some s" for s
    proof -
      have "replySOTW m Background s (sc_ads c) ?w = Inr None"
        using createResponse_None [OF reply [OF s]] by (simp add: replySOTW_None)
      then show ?thesis
        using settled [OF f s] ok by (auto simp: node_settled_def sotw_settled_def statusInfo_ok_def
            map_of_iff [symmetric] split: if_splits)
    qed
    from sc_inv_status [OF inv1 ok(2), of ?id] this show ?thesis
      by (simp add: sc_createWatch_def Let_def sc_inv_def)
  qed
  show ?thesis
  proof (cases "map_of (sc_snapshots c) ?id")
    case None
    with run track show ?thesis by (simp add: sc_CreateWatch_def Let_def)
  next
    case (Some s)
    have "c' = ?c \<or> createResponse m s ?w (sc_ads c) = Inr None \<and> c' = fst (sc_createWatch ?id ?info ?w ?c)"
      using run Some by (auto simp: sc_CreateWatch_def Let_def split: sum.splits option.splits if_splits)
    with inv1 track Some show ?thesis by auto
  qed
qed

lemma createDeltaResponse_None_reply:
  "createDeltaResponse m s w reply = None \<Longrightarrow> createDeltaResponse m s w False = None"
  by (auto simp: createDeltaResponse_def Let_def split: prod.splits if_splits)

lemma sc_inv_CreateDeltaWatch:
  assumes inv: "sc_inv m F c" and run: "sc_CreateDeltaWatch m now req sub ch c = (c', out, r)"
  shows "sc_inv m F c'"
proof -
  let ?id = "sc_hash c (dreq_Node req)"
  let ?info = "setLastDeltaWatchRequestTime now (statusFor ?id (dreq_Node req) c)"
  let ?c = "c\<lparr>sc_status := AList.update ?id ?info (sc_status c)\<rparr>"
  let ?w = "\<lparr>drw_Request = req, drw_Response = ch, drw_subscription = sub\<rparr>"
  let ?n = "sc_deltaWatchCount c + 1"
  let ?track = "\<lambda>c. c\<lparr>sc_deltaWatchCount := ?n,
      sc_status := AList.update ?id (setDeltaResponseWatch ?n ?w ?info) (sc_status c)\<rparr>"
  note st = statusFor_settled [OF inv, where node = ?id and nd = "dreq_Node req"]
  have ok: "statusInfo_ok ?info" "statusInfo_ok (setDeltaResponseWatch ?n ?w ?info)"
    using st(1) by (simp_all add: setLastDeltaWatchRequestTime_def setDeltaResponseWatch_def statusInfo_ok_def)
  have settled: "node_settled m (sc_ads c) s ?info" if "?id \<notin> F" "map_of (sc_snapshots c) ?id = Some s" for s
    using st(2) [OF that] by (simp add: setLastDeltaWatchRequestTime_def node_settled_def)
  have inv1: "sc_inv m F ?c" using sc_inv_status [OF inv ok(1) settled] .
  show ?thesis
  proof (cases "map_of (sc_snapshots c) ?id")
    case None
    then have "c' = ?track ?c" using run by (simp add: sc_CreateDeltaWatch_def Let_def)
    then show ?thesis using sc_inv_status [OF inv1 ok(2), of ?id] None by (simp add: sc_inv_def)
  next
    case (Some s)
    obtain s1 e1 where c1: "ConstructVersionMap m (Some s) = (s1, e1)" by fastforce
    obtain vm where vm: "s1 = Some (s\<lparr>sn_VersionMap := Some vm\<rparr>)"
      and fixed: "sn_VersionMap s \<noteq> None \<Longrightarrow> s1 = Some s \<and> e1 = None"
      by (rule ConstructVersionMap_shape [OF c1]) blast
    let ?s = "s\<lparr>sn_VersionMap := Some vm\<rparr>"
    let ?c2 = "?c\<lparr>sc_snapshots := AList.update ?id ?s (sc_snapshots c)\<rparr>"
    have set2: "node_settled m (sc_ads c) ?s ?info" if F: "?id \<notin> F"
    proof (rule node_settled_vm [OF settled [OF F Some]])
      show "?s = s" if "si_deltaWatches ?info \<noteq> []"
        using settled [OF F Some] that fixed vm by (simp add: node_settled_def delta_settled_def)
    qed blast
    then have "sc_inv m F (?c\<lparr>sc_snapshots := AList.update ?id ?s (sc_snapshots ?c)\<rparr>)"
      by (intro sc_inv_snapshot [OF inv1]) auto
    then have inv2: "sc_inv m F ?c2" by simp
    have "c' = ?c2 \<or> createDeltaResponse m ?s ?w (IsWildcard sub \<and> dreq_ResponseNonce req = '''') = None \<and>
        c' = ?track ?c2"
      using run Some c1 vm unfolding sc_CreateDeltaWatch_def Let_def
      by (auto split: sum.splits option.splits)
    then show ?thesis
    proof
      assume r: "createDeltaResponse m ?s ?w (IsWildcard sub \<and> dreq_ResponseNonce req = '''') = None \<and> c' = ?track ?c2"
      have "createDeltaResponse m ?s ?w False = None" using createDeltaResponse_None_reply r by blast
      then have "node_settled m (sc_ads c) ?s (setDeltaResponseWatch ?n ?w ?info)" if "?id \<notin> F"
        using set2 [OF that] ok by (auto simp: node_settled_def delta_settled_def setDeltaResponseWatch_def statusInfo_ok_def
            map_of_iff [symmetric] split: if_splits)
      then have "sc_inv m F (?c2\<lparr>sc_status := AList.update ?id (setDeltaResponseWatch ?n ?w ?info) (sc_status ?c2)\<rparr>)"
        by (intro sc_inv_status [OF inv2 ok(2)]) auto
      then show ?thesis using r by (simp add: sc_inv_def)
    qed (use inv2 in simp)
  qed
qed

lemma sc_inv_cancel:
  assumes "sc_inv m F c"
  shows "sc_inv m F (sc_runCancel cn c)"
proof -
  have upd: "sc_inv m F (c\<lparr>sc_status := AList.update n info' (sc_status c)\<rparr>)"
    if "map_of (sc_status c) n = Some info" "statusInfo_ok info'"
      "set (si_watches info') \<subseteq> set (si_watches info)" "set (si_deltaWatches info') \<subseteq> set (si_deltaWatches info)"
    for n info info'
    using assms that by (intro sc_inv_status node_settled_sub [OF _ that(3,4)]) (auto simp: sc_inv_def)
  have ok: "statusInfo_ok info" if "map_of (sc_status c) n = Some info" for n info
    using assms that by (auto simp: sc_inv_def)
  show ?thesis
    using assms ok
    by (cases cn) (auto simp: statusInfo_ok_def AList.delete_eq intro!: upd split: option.splits)
qed

lemma heartbeatLoop_sub:
  assumes "heartbeatLoop m ctx s todo ws out = (ws', out')" and "gomap_ok ws"
  shows "gomap_ok ws' \<and> set ws' \<subseteq> set ws"
  using assms
proof (induction m ctx s todo ws out rule: heartbeatLoop.induct)
  case (2 m ctx s i w rest ws out)
  then show ?case by (fastforce simp: AList.delete_eq split: option.splits sum.splits)
qed simp

lemma sc_inv_sendHeartbeats:
  assumes inv: "sc_inv m F c" and run: "sendHeartbeats m ctx node c = (c', out)"
  shows "sc_inv m F c'"
proof (cases "\<exists>s info. map_of (sc_snapshots c) node = Some s \<and> map_of (sc_status c) node = Some info")
  case True
  then obtain s info where si: "map_of (sc_snapshots c) node = Some s" "map_of (sc_status c) node = Some info" by blast
  obtain ws where loop: "heartbeatLoop m ctx s (si_watches info) (si_watches info) [] = (ws, out)"
    and c': "c' = c\<lparr>sc_status := AList.update node (info\<lparr>si_watches := ws\<rparr>) (sc_status c)\<rparr>"
    using run si by (auto simp: sendHeartbeats_def split: prod.splits)
  have ok: "statusInfo_ok info" and set: "node \<notin> F \<Longrightarrow> node_settled m (sc_ads c) s info"
    using inv si by (auto simp: sc_inv_def)
  have "gomap_ok ws \<and> set ws \<subseteq> set (si_watches info)"
    using heartbeatLoop_sub [OF loop] ok by (simp add: statusInfo_ok_def)
  moreover from this have "node \<notin> F \<Longrightarrow> node_settled m (sc_ads c) s (info\<lparr>si_watches := ws\<rparr>)"
    by (intro node_settled_sub [OF set]) simp_all
  ultimately show ?thesis
    unfolding c' using ok si by (intro sc_inv_status [OF inv]) (auto simp: statusInfo_ok_def)
next
  case False
  then have "c' = c" using run by (auto simp: sendHeartbeats_def split: option.splits)
  with inv show ?thesis by simp
qed

lemma sc_inv_heartbeatTick:
  assumes inv: "sc_inv m F c" and run: "heartbeatTick m ctx c = (c', out)"
  shows "sc_inv m F c'"
proof -
  have "sc_inv m F (fst (fold (\<lambda>node (c, out). case sendHeartbeats m ctx node c of (c, out') \<Rightarrow> (c, out @ out'))
      ns (c, o1)))" for ns o1
    using inv
  proof (induction ns arbitrary: c o1)
    case (Cons n ns)
    obtain c1 o2 where s: "sendHeartbeats m ctx n c = (c1, o2)" by fastforce
    from Cons.IH [OF sc_inv_sendHeartbeats [OF Cons.prems s]] s show ?case by simp
  qed simp
  from this [of "map fst (sc_status c)" "[]"] run show ?thesis by (simp add: heartbeatTick_def)
qed

lemma snapshot_run_inv: "snapshot_run m c F \<Longrightarrow> sc_inv m F c"
proof (induction rule: snapshot_run.induct)
  case (srun_new ads hash)
  show ?case by (simp add: sc_inv_def NewSnapshotCache_def newSnapshotCache_def)
next
  case (srun_clear c F node)
  then show ?case by (auto simp: sc_inv_def ClearSnapshot_def split: if_splits)
qed (auto intro: sc_inv_SetSnapshot sc_inv_CreateWatch sc_inv_CreateDeltaWatch sc_inv_cancel sc_inv_heartbeatTick)

end
