(* ===== verification/Simple_Properties.thy ===== *)
theory Simple_Properties
  imports Simple_Run
begin

text \<open>
  The properties of the snapshot cache.
\<close>

section \<open>Definitions for the examples\<close>

definition exs_marshal :: marshaler where
  "exs_marshal r = Inr []"

definition exs_node :: "Node option" where
  "exs_node = Some \<lparr>node_Id = ''n'', node_Rest = ''''\<rparr>"

text \<open>A snapshot that holds the runtime layer \<open>r\<close> with a TTL, and one that holds nothing.\<close>

definition exs_snapshot :: Snapshot where
  "exs_snapshot = emptySnapshot\<lparr>sn_Resources := (sn_Resources emptySnapshot)
     (Runtime := \<lparr>rs_Version = ''v1'',
        rs_Items = [(''r'', \<lparr>rt_Resource = MRuntime ''r'' ''x'', rt_TTL = Some 1\<rparr>)]\<rparr>),
     sn_VersionMap := Some [(RuntimeType, [(''r'', ''h'')])]\<rparr>"

definition exs_empty :: Snapshot where
  "exs_empty = emptySnapshot\<lparr>sn_VersionMap := Some []\<rparr>"

definition exs_sub :: "bool \<Rightarrow> string list \<Rightarrow> (string, string) gomap \<Rightarrow> Subscription" where
  "exs_sub wildcard names returned =
     \<lparr>sub_wildcard = wildcard, sub_allowLegacyWildcard = False, sub_subscribedResourceNames = names,
      sub_subscribedPrefixes = [], sub_returnedResources = returned\<rparr>"

definition exs_req :: "string \<Rightarrow> DiscoveryRequest" where
  "exs_req version = \<lparr>req_VersionInfo = version, req_Node = exs_node, req_ResourceNames = [],
     req_TypeUrl = RuntimeType, req_ResponseNonce = '''', req_ErrorDetail = None\<rparr>"

definition exs_dreq :: DeltaDiscoveryRequest where
  "exs_dreq = \<lparr>dreq_Node = exs_node, dreq_TypeUrl = RuntimeType, dreq_ResourceNamesSubscribe = [],
     dreq_ResourceNamesUnsubscribe = [], dreq_InitialResourceVersions = [], dreq_ResponseNonce = '''',
     dreq_ErrorDetail = None\<rparr>"

definition exs_watch :: "string \<Rightarrow> Subscription \<Rightarrow> ResponseWatch" where
  "exs_watch version sub = \<lparr>rw_Request = exs_req version, rw_Response = 7, rw_subscription = sub,
     rw_fullStateResponses = False\<rparr>"

definition exs_delta :: "Subscription \<Rightarrow> DeltaResponseWatch" where
  "exs_delta sub = \<lparr>drw_Request = exs_dreq, drw_Response = 7, drw_subscription = sub\<rparr>"

text \<open>A cache with an empty snapshot for node \<open>n\<close> and one delta and one state-of-the-world watch on it.\<close>

definition exs_cache1 :: snapshotCache where
  "exs_cache1 = fst (SetSnapshot exs_marshal Background ''n'' exs_empty (NewSnapshotCache True IDHash))"

definition exs_cache2 :: snapshotCache where
  "exs_cache2 = fst (sc_CreateDeltaWatch exs_marshal 0 exs_dreq (exs_sub False [''z''] []) 7 exs_cache1)"

definition exs_cache3 :: snapshotCache where
  "exs_cache3 = fst (sc_CreateWatch exs_marshal 0 (exs_req '''') (exs_sub False [''z''] []) 7 exs_cache2)"

section \<open>Lemmas\<close>

lemmas exs_defs = exs_node_def exs_req_def exs_dreq_def exs_sub_def exs_watch_def exs_delta_def

lemma exs_view [simp]:
  "GetVersion (Some exs_snapshot) RuntimeType = ''v1''"
  "GetResourcesAndTTL (Some exs_snapshot) RuntimeType = [(''r'', \<lparr>rt_Resource = MRuntime ''r'' ''x'', rt_TTL = Some 1\<rparr>)]"
  "GetVersionMap exs_snapshot RuntimeType = [(''r'', ''h'')]"
  "GetVersion (Some exs_empty) RuntimeType = ''''"
  "GetResourcesAndTTL (Some exs_empty) RuntimeType = []"
  "GetVersionMap exs_empty RuntimeType = []"
  "ConstructVersionMap m (Some exs_empty) = (Some exs_empty, None)"
  by (simp_all add: GetVersion_def GetResourcesAndTTL_def GetVersionMap_def exs_snapshot_def exs_empty_def
      emptySnapshot_def gsub_def Let_def ConstructVersionMap_def)

lemma exs_cache1_eq: "exs_cache1 = (NewSnapshotCache True IDHash)\<lparr>sc_snapshots := [(''n'', exs_empty)]\<rparr>"
  by (simp add: exs_cache1_def SetSnapshot_def NewSnapshotCache_def newSnapshotCache_def)

lemma exs_run1: "snapshot_run exs_marshal exs_cache1 {}"
proof -
  obtain c out e where r: "SetSnapshot exs_marshal Background ''n'' exs_empty (NewSnapshotCache True IDHash) = (c, out, e)"
    by (metis prod_cases3)
  moreover have "e = None"
    using r by (simp add: SetSnapshot_def NewSnapshotCache_def newSnapshotCache_def)
  ultimately show ?thesis using srun_set [OF srun_new r] by (simp add: exs_cache1_def failed_nodes_def)
qed

lemma exs_run2: "snapshot_run exs_marshal exs_cache2 {}"
  unfolding exs_cache2_def by (metis exs_run1 prod.exhaust_sel srun_delta)

lemma exs_run3: "snapshot_run exs_marshal exs_cache3 {}"
  unfolding exs_cache3_def by (metis exs_run2 prod.exhaust_sel srun_watch)

lemma exs_cache2_eq: "exs_cache2 = exs_cache1\<lparr>sc_deltaWatchCount := 1,
    sc_status := [(''n'', (newStatusInfo exs_node)\<lparr>si_deltaWatches := [(1, exs_delta (exs_sub False [''z''] []))]\<rparr>)]\<rparr>"
  by (simp add: exs_cache2_def sc_CreateDeltaWatch_def exs_cache1_eq NewSnapshotCache_def newSnapshotCache_def
      Let_def exs_defs IDHash_def statusFor_def newStatusInfo_def setLastDeltaWatchRequestTime_def
      createDeltaResponse_def setDeltaResponseWatch_def addIfChanged_def)

lemma exs_cache3_eq: "exs_cache3 = exs_cache2\<lparr>sc_watchCount := 1,
    sc_status := [(''n'', (newStatusInfo exs_node)\<lparr>si_watches := [(1, exs_watch '''' (exs_sub False [''z''] []))],
      si_deltaWatches := [(1, exs_delta (exs_sub False [''z''] []))]\<rparr>)]\<rparr>"
  by (simp add: exs_cache3_def sc_CreateWatch_def exs_cache2_eq exs_cache1_eq NewSnapshotCache_def newSnapshotCache_def
      Let_def exs_defs IDHash_def statusFor_def newStatusInfo_def setLastWatchRequestTime_def
      createResponse_def sc_createWatch_def sotw_changed_def difference_def ResourceRequiresFullStateInSotw_def)

lemma createDeltaResponse_None_iff:
  "createDeltaResponse m s w False = None \<longleftrightarrow>
     map_of (sub_returnedResources (drw_subscription w)) =
       snapshot_view s (dreq_TypeUrl (drw_Request w)) (drw_subscription w)"
proof -
  let ?t = "dreq_TypeUrl (drw_Request w)" and ?sub = "drw_subscription w"
  let ?K = "sub_returnedResources ?sub"
  obtain rs K rm where
    eq: "createDeltaResponse m s w False = (if rs = [] \<and> rm = [] \<and> \<not> False then None
        else Some \<lparr>rawd_DeltaRequest = Some (drw_Request w), rawd_SystemVersionInfo = GetVersion (Some s) ?t,
             rawd_resources = rs, rawd_removedResources = rm,
             rawd_returnedResources = fold AList.delete rm K, rawd_Ctx = Background, rawd_marshaledResponse = None\<rparr>)"
    and rs: "set (map cr_name rs) = {n \<in> snapshot_names s ?t ?sub. map_of ?K n \<noteq> Some (delta_version s ?t n)}"
    and rm: "set rm = {n \<in> fst ` set ?K. n \<notin> snapshot_names s ?t ?sub}"
    by (rule createDeltaResponse_parts [of m s w False])
  have "createDeltaResponse m s w False = None \<longleftrightarrow> set (map cr_name rs) = {} \<and> set rm = {}"
    unfolding eq by simp
  also have "\<dots> \<longleftrightarrow> (\<forall>n. map_of ?K n = snapshot_view s ?t ?sub n)"
    unfolding rs rm snapshot_view_def using map_of_in_dom [of ?K] by auto
  finally show ?thesis by (auto simp: fun_eq_iff)
qed

section \<open>Properties\<close>

text \<open>C13: in every reachable snapshot cache, each open delta watch of a node that has a snapshot, and whose
  last \<open>SetSnapshot\<close> reported no error, is up to date: the versions its client is known to have are exactly those of
  the resources of the snapshot it subscribes to.\<close>

theorem snapshot_delta_watch_up_to_date:
  assumes "snapshot_run m c F" and "node \<notin> F" and "GetSnapshot node c = Inr s" and "GetStatusInfo node c = Some info"
    and "(i, w) \<in> set (si_deltaWatches info)"
  shows "map_of (ReturnedResources (drw_subscription w)) =
    snapshot_view s (dreq_TypeUrl (drw_Request w)) (drw_subscription w)"
proof -
  have "map_of (sc_snapshots c) node = Some s" using assms(3) by (simp add: GetSnapshot_def split: option.splits)
  with snapshot_run_inv [OF assms(1)] assms(2,4) have "delta_settled m s (si_deltaWatches info)"
    by (simp add: sc_inv_def GetStatusInfo_def node_settled_def)
  with assms(5) have "createDeltaResponse m s w False = None" by (auto simp: delta_settled_def)
  then show ?thesis by (simp add: createDeltaResponse_None_iff)
qed

theorem snapshot_delta_watch_up_to_date_witness:
  "map_of (ReturnedResources (exs_sub False [''z''] [])) =
     snapshot_view exs_empty RuntimeType (exs_sub False [''z''] [])"
proof -
  have s: "GetSnapshot ''n'' exs_cache3 = Inr exs_empty"
    by (simp add: GetSnapshot_def exs_cache3_eq exs_cache2_eq exs_cache1_eq)
  have i: "GetStatusInfo ''n'' exs_cache3 = Some ((newStatusInfo exs_node)\<lparr>
      si_watches := [(1, exs_watch '''' (exs_sub False [''z''] []))],
      si_deltaWatches := [(1, exs_delta (exs_sub False [''z''] []))]\<rparr>)"
    by (simp add: GetStatusInfo_def exs_cache3_eq)
  from snapshot_delta_watch_up_to_date [OF exs_run3 _ s i] show ?thesis by (simp add: exs_delta_def exs_dreq_def)
qed

text \<open>C14: in every reachable snapshot cache, each open state-of-the-world watch of a node that has a snapshot,
  and whose last \<open>SetSnapshot\<close> reported no error, either asked for the version the snapshot still has,
  or is withheld because, in ADS mode, it does not name every resource of the snapshot.\<close>

theorem snapshot_sotw_watch_settled:
  assumes "snapshot_run m c F" and "node \<notin> F" and "GetSnapshot node c = Inr s" and "GetStatusInfo node c = Some info"
    and "(i, w) \<in> set (si_watches info)"
  shows "GetVersion (Some s) (req_TypeUrl (rw_Request w)) = req_VersionInfo (rw_Request w) \<or>
    sc_ads c \<and> \<not> IsWildcard (rw_subscription w) \<and>
    difference (GetResourcesAndTTL (Some s) (req_TypeUrl (rw_Request w)))
      (SubscribedResources (rw_subscription w)) \<noteq> []"
proof -
  have "map_of (sc_snapshots c) node = Some s" using assms(3) by (simp add: GetSnapshot_def split: option.splits)
  with snapshot_run_inv [OF assms(1)] assms(2,4) have "sotw_settled m (sc_ads c) s (si_watches info)"
    by (simp add: sc_inv_def GetStatusInfo_def node_settled_def)
  with assms(5) have "replySOTW m Background s (sc_ads c) w = Inr None" by (auto simp: sotw_settled_def)
  then show ?thesis by (auto simp: replySOTW_None createResponse_missing)
qed

theorem snapshot_sotw_watch_settled_witness:
  "GetVersion (Some exs_empty) RuntimeType = req_VersionInfo (exs_req '''') \<or>
   sc_ads exs_cache3 \<and> \<not> IsWildcard (exs_sub False [''z''] []) \<and>
   difference (GetResourcesAndTTL (Some exs_empty) RuntimeType) (SubscribedResources (exs_sub False [''z''] [])) \<noteq> []"
proof -
  have s: "GetSnapshot ''n'' exs_cache3 = Inr exs_empty"
    by (simp add: GetSnapshot_def exs_cache3_eq exs_cache2_eq exs_cache1_eq)
  have i: "GetStatusInfo ''n'' exs_cache3 = Some ((newStatusInfo exs_node)\<lparr>
      si_watches := [(1, exs_watch '''' (exs_sub False [''z''] []))],
      si_deltaWatches := [(1, exs_delta (exs_sub False [''z''] []))]\<rparr>)"
    by (simp add: GetStatusInfo_def exs_cache3_eq)
  from snapshot_sotw_watch_settled [OF exs_run3 _ s i, of 1 "exs_watch '''' (exs_sub False [''z''] [])"]
  show ?thesis by (simp add: exs_watch_def exs_req_def)
qed

text \<open>C18: the content of a state-of-the-world response. It holds the resources of the snapshot that the
  subscription asks for: all of them when the version moved or the type needs the full state, otherwise
  those the client does not know; the names recorded as returned are all of them in both cases.\<close>

theorem snapshot_response_contents:
  assumes "createResponse m s w ads = Inr (Some resp)"
  shows "cr_name ` set (raw_resources resp) =
      (if GetVersion (Some s) (req_TypeUrl (rw_Request w)) \<noteq> req_VersionInfo (rw_Request w) \<or> rw_fullStateResponses w
       then snapshot_names s (req_TypeUrl (rw_Request w)) (rw_subscription w)
       else {n \<in> snapshot_names s (req_TypeUrl (rw_Request w)) (rw_subscription w).
               map_of (ReturnedResources (rw_subscription w)) n = None}) \<and>
    fst ` set (raw_returnedResources resp) = snapshot_names s (req_TypeUrl (rw_Request w)) (rw_subscription w) \<and>
    raw_Version resp = GetVersion (Some s) (req_TypeUrl (rw_Request w))"
  using createResponse_Some [OF assms] by (simp add: image_image)

lemma exs_create:
  "createResponse exs_marshal exs_snapshot (exs_watch '''' (exs_sub True [''r''] [])) True =
     Inr (Some \<lparr>raw_Request = Some (exs_req ''''), raw_Version = ''v1'',
       raw_resources = [newCachedResourceWithTTL exs_marshal ''r'' \<lparr>rt_Resource = MRuntime ''r'' ''x'', rt_TTL = Some 1\<rparr> ''v1'',
          newCachedResourceWithTTL exs_marshal ''r'' \<lparr>rt_Resource = MRuntime ''r'' ''x'', rt_TTL = Some 1\<rparr> ''v1''],
       raw_returnedResources = [(''r'', ''v1'')], raw_Heartbeat = False, raw_Ctx = Background,
       raw_marshaledResponse = None\<rparr>)"
  by (simp add: createResponse_def exs_defs Let_def add_named_def)

theorem snapshot_response_contents_witness:
  "snapshot_names exs_snapshot RuntimeType (exs_sub True [''r''] []) = {''r''}"
  using snapshot_response_contents [OF exs_create] by (simp add: exs_defs)

text \<open>C19: a delta response holds, each once, exactly the subscribed resources of the snapshot whose version
  the client does not have; it removes exactly the names the client has and that are no longer
  subscribed or no longer there; and the recorded versions become the view of the snapshot.\<close>

theorem snapshot_delta_contents:
  assumes "createDeltaResponse m s w reply = Some resp"
  shows "distinct (map cr_name (rawd_resources resp)) \<and>
    set (map cr_name (rawd_resources resp)) =
      {n \<in> snapshot_names s (dreq_TypeUrl (drw_Request w)) (drw_subscription w).
         map_of (ReturnedResources (drw_subscription w)) n \<noteq> Some (delta_version s (dreq_TypeUrl (drw_Request w)) n)} \<and>
    set (rawd_removedResources resp) =
      {n \<in> fst ` set (ReturnedResources (drw_subscription w)).
         n \<notin> snapshot_names s (dreq_TypeUrl (drw_Request w)) (drw_subscription w)} \<and>
    map_of (rawd_returnedResources resp) =
      snapshot_view s (dreq_TypeUrl (drw_Request w)) (drw_subscription w)"
proof -
  let ?t = "dreq_TypeUrl (drw_Request w)" and ?sub = "drw_subscription w"
  obtain rs K rm where
    eq: "createDeltaResponse m s w reply = (if rs = [] \<and> rm = [] \<and> \<not> reply then None
        else Some \<lparr>rawd_DeltaRequest = Some (drw_Request w), rawd_SystemVersionInfo = GetVersion (Some s) ?t,
             rawd_resources = rs, rawd_removedResources = rm,
             rawd_returnedResources = fold AList.delete rm K, rawd_Ctx = Background, rawd_marshaledResponse = None\<rparr>)"
    and P: "distinct (map cr_name rs)"
      "set (map cr_name rs) = {n \<in> snapshot_names s ?t ?sub. map_of (sub_returnedResources ?sub) n \<noteq> Some (delta_version s ?t n)}"
      "set rm = {n \<in> fst ` set (sub_returnedResources ?sub). n \<notin> snapshot_names s ?t ?sub}"
      "map_of (fold AList.delete rm K) = snapshot_view s ?t ?sub"
    by (rule createDeltaResponse_parts [of m s w reply])
  have r: "rawd_resources resp = rs" "rawd_removedResources resp = rm"
    "rawd_returnedResources resp = fold AList.delete rm K"
    using assms unfolding eq by (auto split: if_splits)
  show ?thesis unfolding r subscription_accessors using P by blast
qed

theorem snapshot_delta_contents_witness:
  "snapshot_view exs_snapshot RuntimeType (exs_sub True [''r''] []) = [''r'' \<mapsto> ''h'']"
proof -
  have "createDeltaResponse exs_marshal exs_snapshot (exs_delta (exs_sub True [''r''] [])) False =
      Some \<lparr>rawd_DeltaRequest = Some exs_dreq, rawd_SystemVersionInfo = ''v1'',
        rawd_resources = [newCachedResourceWithTTL exs_marshal ''r'' \<lparr>rt_Resource = MRuntime ''r'' ''x'', rt_TTL = Some 1\<rparr> ''v1''],
        rawd_removedResources = [], rawd_returnedResources = [(''r'', ''h'')], rawd_Ctx = Background,
        rawd_marshaledResponse = None\<rparr>"
    by (simp add: createDeltaResponse_def exs_defs Let_def addIfChanged_def)
  from snapshot_delta_contents [OF this] show ?thesis by (simp add: exs_defs)
qed

text \<open>C20: once a response and its versions are acknowledged, the same snapshot has nothing more to say to
  the client: neither a state-of-the-world nor a delta exchange repeats a response.\<close>

theorem snapshot_no_repeat:
  assumes "createResponse m s w ads = Inr (Some resp)"
    and "rw_Request w' = (rw_Request w)\<lparr>req_VersionInfo := raw_Version resp, req_ResponseNonce := nonce\<rparr>"
    and "rw_subscription w' = SetReturnedResources (rw_subscription w) (raw_returnedResources resp)"
  shows "createResponse m s w' ads = Inr None"
proof -
  let ?t = "req_TypeUrl (rw_Request w)" and ?sub = "rw_subscription w"
  have t': "req_TypeUrl (rw_Request w') = ?t" by (simp add: assms(2))
  have names: "snapshot_names s ?t (rw_subscription w') = snapshot_names s ?t ?sub"
    by (simp add: assms(3) snapshot_names_def snap_covers_def SetReturnedResources_def)
  have "\<nexists>e. createResponse m s w ads = Inl e" using assms(1) by simp
  then have "\<nexists>e. createResponse m s w' ads = Inl e"
    unfolding createResponse_missing t' by (simp add: assms(3) SetReturnedResources_def)
  then obtain x where x: "createResponse m s w' ads = Inr x" by (cases "createResponse m s w' ads") auto
  have "x = None"
    unfolding createResponse_None [OF x] t' names
    using createResponse_Some(2,3) [OF assms(1)] by (simp add: assms(2,3) SetReturnedResources_def)
  with x show ?thesis by simp
qed

theorem snapshot_no_repeat_witness:
  "createResponse exs_marshal exs_snapshot
     (exs_watch ''v1'' (exs_sub True [''r''] [(''r'', ''v1'')])) True = Inr None"
  by (rule snapshot_no_repeat [OF exs_create, where nonce = "''''"]) (simp_all add: exs_defs SetReturnedResources_def)

text \<open>When a client subscribes to a resource by name and to everything, a state-of-the-world response
  of the snapshot cache carries that resource twice.\<close>

theorem snapshot_duplicate_resource:
  "\<exists>resp. createResponse exs_marshal exs_snapshot (exs_watch '''' (exs_sub True [''r''] [])) True = Inr (Some resp) \<and>
     map cr_name (raw_resources resp) = [''r'', ''r'']"
  using exs_create by simp

text \<open>C15: in ADS mode the responses that \<open>SetSnapshot\<close> sends are in the order of the resource types (clusters,
  endpoints, listeners, routes and so on): first the state-of-the-world ones, then the delta ones, each
  sorted, even when an error stops the notification.\<close>

theorem snapshot_ads_order:
  assumes "snapshot_run m c F" and "sc_ads c" and "SetSnapshot m ctx node s c = (c', out, e)"
  shows "\<exists>sotw delta. out = sotw @ delta \<and>
    sorted (map (\<lambda>x. GetResponseType (send_type x)) sotw) \<and> (\<forall>x\<in>set sotw. \<exists>r. snd x = WRaw r) \<and>
    sorted (map (\<lambda>x. GetResponseType (send_type x)) delta) \<and> (\<forall>x\<in>set delta. \<exists>r. snd x = WDelta r)"
proof (cases "map_of (sc_status c) node")
  case None
  then show ?thesis using assms(3) by (simp add: SetSnapshot_def)
next
  case (Some info)
  have ok: "statusInfo_ok info" using snapshot_run_inv [OF assms(1)] Some by (auto simp: sc_inv_def)
  obtain i1 o1 e1 where r1: "respondSOTWWatches m ctx True info s = (i1, o1, e1)" by (metis prod_cases3)
  note S1 = respondSOTW_sorted [OF ok r1]
  show ?thesis
  proof (cases e1)
    case (Some err)
    then have "out = o1 @ []" using assms(2,3) r1 \<open>map_of (sc_status c) node = Some info\<close> by (simp add: SetSnapshot_def)
    with S1 show ?thesis by (intro exI [of _ o1] exI [of _ "[]"]) simp
  next
    case None
    obtain i2 s2 o2 e2 where r2: "respondDeltaWatches m ctx True i1 s = (i2, s2, o2, e2)" by (metis prod_cases4)
    have "statusInfo_ok i1" using respondSOTW_settled [OF ok] r1 None by simp
    from respondDelta_sorted [OF this r2] have S2: "sorted (map (\<lambda>x. GetResponseType (send_type x)) o2) \<and>
      (\<forall>x\<in>set o2. \<exists>r. snd x = WDelta r)" .
    have "out = o1 @ o2"
      using assms(2,3) r1 r2 None \<open>map_of (sc_status c) node = Some info\<close> by (simp add: SetSnapshot_def)
    with S1 S2 show ?thesis by blast
  qed
qed

theorem snapshot_ads_order_witness:
  "\<exists>sotw delta. fst (snd (SetSnapshot exs_marshal Background ''n'' exs_snapshot exs_cache3)) = sotw @ delta \<and>
     sorted (map (\<lambda>x. GetResponseType (send_type x)) sotw) \<and> sorted (map (\<lambda>x. GetResponseType (send_type x)) delta)"
proof -
  obtain c' out e where r: "SetSnapshot exs_marshal Background ''n'' exs_snapshot exs_cache3 = (c', out, e)"
    by (metis prod_cases3)
  have "sc_ads exs_cache3"
    by (simp add: exs_cache3_eq exs_cache2_eq exs_cache1_eq NewSnapshotCache_def newSnapshotCache_def)
  from snapshot_ads_order [OF exs_run3 this r] r show ?thesis by auto
qed

lemma heartbeatResources_map:
  "gomap_ok (heartbeatResources m v R sub) \<and>
   map_of (heartbeatResources m v R sub) n =
     (case map_of R n of
        None \<Rightarrow> None
      | Some res \<Rightarrow> if snap_covers sub n \<and> rt_TTL res \<noteq> None then Some (newCachedResourceWithTTL m n res v) else None)"
proof -
  let ?ns = "(if sub_wildcard sub then map fst R else []) @ sub_subscribedResourceNames sub"
  let ?f = "\<lambda>n acc. case map_of R n of None \<Rightarrow> acc | Some res \<Rightarrow>
      if rt_TTL res = None then acc else if map_of acc n \<noteq> None then acc
      else AList.update n (newCachedResourceWithTTL m n res v) acc"
  have "gomap_ok (fold ?f ns acc) \<and> map_of (fold ?f ns acc) n =
      (case map_of acc n of Some c \<Rightarrow> Some c | None \<Rightarrow>
        (case map_of R n of None \<Rightarrow> None
         | Some res \<Rightarrow> if n \<in> set ns \<and> rt_TTL res \<noteq> None then Some (newCachedResourceWithTTL m n res v) else None))"
    if "gomap_ok acc" for ns acc
    using that
  proof (induction ns arbitrary: acc)
    case Nil
    then show ?case by (simp split: option.splits)
  next
    case (Cons k ns)
    have "gomap_ok (?f k acc)" using Cons.prems by (simp split: option.splits)
    from Cons.IH [OF this] show ?case by (auto split: option.splits)
  qed
  from this [of "[]" ?ns] show ?thesis
    using map_of_in_dom [of R n]
    by (auto simp: heartbeatResources_def snap_covers_def split: option.splits if_splits)
qed

text \<open>A heartbeat carries, each once, exactly the resources with a TTL that the watch subscribes to, is
  marked as a heartbeat, and leaves the versions recorded for the client as they are; without such a
  resource no heartbeat is sent.\<close>

theorem heartbeat_contents:
  "case heartbeatResponse m ctx s w of
     None \<Rightarrow> \<forall>n\<in>snapshot_names s (req_TypeUrl (rw_Request w)) (rw_subscription w).
       rt_TTL (the (map_of (GetResourcesAndTTL (Some s) (req_TypeUrl (rw_Request w))) n)) = None
   | Some resp \<Rightarrow> raw_Heartbeat resp \<and> raw_resources resp \<noteq> [] \<and>
       distinct (map cr_name (raw_resources resp)) \<and>
       set (map cr_name (raw_resources resp)) =
         {n \<in> snapshot_names s (req_TypeUrl (rw_Request w)) (rw_subscription w).
            rt_TTL (the (map_of (GetResourcesAndTTL (Some s) (req_TypeUrl (rw_Request w))) n)) \<noteq> None} \<and>
       raw_returnedResources resp = ReturnedResources (rw_subscription w)"
proof -
  let ?R = "GetResourcesAndTTL (Some s) (req_TypeUrl (rw_Request w))" and ?sub = "rw_subscription w"
  let ?v = "GetVersion (Some s) (req_TypeUrl (rw_Request w))"
  let ?H = "heartbeatResources m ?v ?R ?sub"
  let ?N = "{n \<in> snapshot_names s (req_TypeUrl (rw_Request w)) ?sub. rt_TTL (the (map_of ?R n)) \<noteq> None}"
  have ok: "gomap_ok ?H" using heartbeatResources_map by blast
  have keys: "fst ` set ?H = ?N"
  proof (rule set_eqI)
    fix n
    show "n \<in> fst ` set ?H \<longleftrightarrow> n \<in> ?N"
      using map_of_in_dom [of ?H n] heartbeatResources_map [of m ?v ?R ?sub n]
      by (auto simp: snapshot_names_def split: option.splits if_splits)
  qed
  have "cr_name c = n" if "(n, c) \<in> set ?H" for n c
    using that heartbeatResources_map [of m ?v ?R ?sub n] map_of_iff [OF ok, of n c]
    by (auto split: option.splits if_splits)
  then have names: "map cr_name (map snd ?H) = map fst ?H" by auto
  show ?thesis
  proof (cases "?H = []")
    case True
    then show ?thesis using keys by (auto simp: heartbeatResponse_def Let_def)
  next
    case False
    have "distinct (map cr_name (map snd ?H))" "set (map cr_name (map snd ?H)) = ?N"
      unfolding names using keys ok by (simp_all add: gomap_ok_def)
    with False show ?thesis by (simp add: heartbeatResponse_def Let_def del: map_map)
  qed
qed

theorem heartbeat_contents_witness:
  "\<exists>resp. heartbeatResponse exs_marshal Background exs_snapshot (exs_watch '''' (exs_sub True [] [])) = Some resp \<and>
     raw_Heartbeat resp \<and> distinct (map cr_name (raw_resources resp)) \<and> raw_returnedResources resp = []"
proof (cases "heartbeatResponse exs_marshal Background exs_snapshot (exs_watch '''' (exs_sub True [] []))")
  case None
  then show ?thesis by (simp add: heartbeatResponse_def exs_defs heartbeatResources_def Let_def)
next
  case (Some resp)
  with heartbeat_contents [where m = exs_marshal and ctx = Background and s = exs_snapshot
      and w = "exs_watch '''' (exs_sub True [] [])"]
  show ?thesis by (simp add: exs_defs)
qed

text \<open>\<open>Fetch\<close> reports a missing snapshot, skips a request that has the current version, and otherwise
  returns the named resources in the order of the request (all of them when none is named).\<close>

theorem snapshot_fetch:
  "case map_of (sc_snapshots c) (sc_hash c (req_Node req)) of
     None \<Rightarrow> sc_Fetch m ctx req c = Inl (Errorf ''missing snapshot for %q'' [sc_hash c (req_Node req)])
   | Some s \<Rightarrow>
       if req_VersionInfo req = GetVersion (Some s) (req_TypeUrl req) then sc_Fetch m ctx req c = Inl SkipFetchError
       else \<exists>resp. sc_Fetch m ctx req c = Inr resp \<and>
         raw_Version resp = GetVersion (Some s) (req_TypeUrl req) \<and>
         map cr_name (raw_resources resp) =
           (if req_ResourceNames req = [] then map fst (GetResourcesAndTTL (Some s) (req_TypeUrl req))
            else filter (\<lambda>n. n \<in> fst ` set (GetResourcesAndTTL (Some s) (req_TypeUrl req))) (req_ResourceNames req))"
proof (cases "map_of (sc_snapshots c) (sc_hash c (req_Node req))")
  case (Some s)
  let ?R = "GetResourcesAndTTL (Some s) (req_TypeUrl req)"
  have filt: "filter (\<lambda>n. map_of ?R n \<noteq> None) ns = filter (\<lambda>n. n \<in> fst ` set ?R) ns" for ns
    unfolding map_of_in_dom by simp
  have names: "map cr_name (map (\<lambda>n. newCachedResourceWithTTL m n (f n) v) ns) = ns" for f v ns
    by (simp add: comp_def)
  show ?thesis
  proof (cases "req_VersionInfo req = GetVersion (Some s) (req_TypeUrl req)")
    case True
    then show ?thesis by (simp add: sc_Fetch_def Let_def Some)
  next
    case False
    let ?ns = "if req_ResourceNames req = [] then map fst ?R
      else filter (\<lambda>n. n \<in> fst ` set ?R) (req_ResourceNames req)"
    let ?v = "GetVersion (Some s) (req_TypeUrl req)"
    have "sc_Fetch m ctx req c = Inr \<lparr>raw_Request = Some req, raw_Version = ?v,
        raw_resources = map (\<lambda>n. newCachedResourceWithTTL m n (the (map_of ?R n)) ?v) ?ns,
        raw_returnedResources = [], raw_Heartbeat = False, raw_Ctx = ctx, raw_marshaledResponse = None\<rparr>"
      unfolding sc_Fetch_def Let_def Some option.case filt using False by simp
    with Some False names show ?thesis by (simp del: map_map)
  qed
next
  case None
  then show ?thesis by (simp add: sc_Fetch_def)
qed

end
