(* ===== verification/Cache_Interface.thy ===== *)
theory Cache_Interface
  imports Linear_Notify Simple_Run
begin

text \<open>
  The interfaces \<open>ConfigWatcher\<close>, \<open>ConfigFetcher\<close> and \<open>Cache\<close> of \<open>src/pkg/cache/v3/cache.go\<close>, the two caches
  as implementations of them, and the multiplexing cache of \<open>src/pkg/cache/v3/mux.go\<close>.

  An implementation is a record of functions on its state \<open>'c\<close>; \<open>'k\<close> are its cancel functions, with
  \<open>cw_cancel\<close> calling one (a nil cancel function, which the servers do not call, does nothing). A watch
  creation returns the new state, what it sends on channels, and the cancel function or the error.
  What travels on a channel of responses is a response or nil.
\<close>

section \<open>Definitions\<close>

type_synonym response_sends = "(chan \<times> Response option) list"

text \<open>What travels on a channel of delta responses: nil, the sentinel \<open>deltaErrorResponse\<close> of the delta
  server, which is compared by pointer, or a response.\<close>

datatype delta_message = DeltaNil | DeltaErrorResponse | DeltaMessage DeltaResponse

type_synonym delta_sends = "(chan \<times> delta_message) list"

record ('c, 'k) Cache =
  cw_CreateWatch :: "DiscoveryRequest \<Rightarrow> Subscription \<Rightarrow> chan \<Rightarrow> 'c \<Rightarrow> 'c \<times> response_sends \<times> 'k result"
  cw_CreateDeltaWatch ::
    "DeltaDiscoveryRequest \<Rightarrow> Subscription \<Rightarrow> chan \<Rightarrow> 'c \<Rightarrow> 'c \<times> delta_sends \<times> 'k result"
  cw_cancel :: "'k \<Rightarrow> 'c \<Rightarrow> 'c"
  cw_Fetch :: "go_context \<Rightarrow> DiscoveryRequest \<Rightarrow> 'c \<Rightarrow> Response option result"

text \<open>The responses among the sends of a cache, on the channels of either kind.\<close>

fun as_response :: "chan \<times> WatchResponse \<Rightarrow> (chan \<times> Response option) option" where
  "as_response (ch, WRaw r) = Some (ch, Some (RawR r))"
| "as_response (ch, WDelta r) = None"

fun as_delta :: "chan \<times> WatchResponse \<Rightarrow> (chan \<times> delta_message) option" where
  "as_delta (ch, WDelta r) = Some (ch, DeltaMessage (RawDR r))"
| "as_delta (ch, WRaw r) = None"

definition sotw_sends :: "sends \<Rightarrow> response_sends" where
  "sotw_sends out = List.map_filter as_response out"

definition delta_sends :: "sends \<Rightarrow> delta_sends" where
  "delta_sends out = List.map_filter as_delta out"

definition linear_cache :: "(LinearCache, cancel) Cache" where
  "linear_cache =
     \<lparr>cw_CreateWatch = (\<lambda>request sub value c.
        case lc_CreateWatch request sub value c of (c', out, k) \<Rightarrow> (c', sotw_sends out, k)),
      cw_CreateDeltaWatch = (\<lambda>request sub value c.
        case lc_CreateDeltaWatch request sub value c of (c', out, k) \<Rightarrow> (c', delta_sends out, k)),
      cw_cancel = runCancel,
      cw_Fetch = (\<lambda>ctx request c.
        case lc_Fetch request c of Inl e \<Rightarrow> Inl e | Inr r \<Rightarrow> Inr (Some r))\<rparr>"

text \<open>The state of the snapshot cache goes with the clock that \<open>time.Now()\<close> reads.\<close>

type_synonym clocked = "snapshotCache \<times> int"

definition snapshot_cache :: "marshaler \<Rightarrow> (clocked, sc_cancel) Cache" where
  "snapshot_cache marshal =
     \<lparr>cw_CreateWatch = (\<lambda>request sub value (c, now).
        case sc_CreateWatch marshal now request sub value c of
          (c', out, k) \<Rightarrow> ((c', now), sotw_sends out, k)),
      cw_CreateDeltaWatch = (\<lambda>request sub value (c, now).
        case sc_CreateDeltaWatch marshal now request sub value c of
          (c', out, k) \<Rightarrow> ((c', now), delta_sends out, k)),
      cw_cancel = (\<lambda>k (c, now). (sc_runCancel k c, now)),
      cw_Fetch = (\<lambda>ctx request (c, now).
        case sc_Fetch marshal ctx request c of Inl e \<Rightarrow> Inl e | Inr r \<Rightarrow> Inr (Some (RawR r)))\<rparr>"

subsection \<open>The multiplexing cache\<close>

record ('c, 'k) MuxCache =
  mux_Classify :: "DiscoveryRequest \<Rightarrow> string"
  mux_ClassifyDelta :: "DeltaDiscoveryRequest \<Rightarrow> string"
  mux_Caches :: "(string, ('c, 'k) Cache) gomap"

text \<open>The state of a multiplexing cache is the states of its caches, by key.\<close>

type_synonym 'c mux_state = "string \<Rightarrow> 'c"

definition mux_CreateWatch ::
  "('c, 'k) MuxCache \<Rightarrow> DiscoveryRequest \<Rightarrow> Subscription \<Rightarrow> chan \<Rightarrow> 'c mux_state \<Rightarrow>
     'c mux_state \<times> response_sends \<times> (string \<times> 'k) result" where
  "mux_CreateWatch mux request sub value st =
     (let key = mux_Classify mux request in
      case map_of (mux_Caches mux) key of
        None \<Rightarrow> (st, [], Inl (Errorf ''no cache defined for key %s'' [key]))
      | Some cache \<Rightarrow>
          (case cw_CreateWatch cache request sub value (st key) of
             (c, out, Inl e) \<Rightarrow> (st(key := c), out, Inl e)
           | (c, out, Inr cancel) \<Rightarrow> (st(key := c), out, Inr (key, cancel))))"

definition mux_CreateDeltaWatch ::
  "('c, 'k) MuxCache \<Rightarrow> DeltaDiscoveryRequest \<Rightarrow> Subscription \<Rightarrow> chan \<Rightarrow> 'c mux_state \<Rightarrow>
     'c mux_state \<times> delta_sends \<times> (string \<times> 'k) result" where
  "mux_CreateDeltaWatch mux request sub value st =
     (let key = mux_ClassifyDelta mux request in
      case map_of (mux_Caches mux) key of
        None \<Rightarrow> (st, [], Inl (Errorf ''no cache defined for key %s'' [key]))
      | Some cache \<Rightarrow>
          (case cw_CreateDeltaWatch cache request sub value (st key) of
             (c, out, Inl e) \<Rightarrow> (st(key := c), out, Inl e)
           | (c, out, Inr cancel) \<Rightarrow> (st(key := c), out, Inr (key, cancel))))"

definition mux_Fetch ::
  "('c, 'k) MuxCache \<Rightarrow> go_context \<Rightarrow> DiscoveryRequest \<Rightarrow> 'c mux_state \<Rightarrow> Response option result" where
  "mux_Fetch mux ctx request st =
     (let key = mux_Classify mux request in
      case map_of (mux_Caches mux) key of
        None \<Rightarrow> Inl (Errorf ''no cache defined for key %s'' [key])
      | Some cache \<Rightarrow> cw_Fetch cache ctx request (st key))"

text \<open>Calling a cancel function of a muxed cache.\<close>

definition mux_cancel :: "('c, 'k) MuxCache \<Rightarrow> string \<times> 'k \<Rightarrow> 'c mux_state \<Rightarrow> 'c mux_state" where
  "mux_cancel mux k st =
     (case map_of (mux_Caches mux) (fst k) of
        None \<Rightarrow> st
      | Some cache \<Rightarrow> st(fst k := cw_cancel cache (snd k) (st (fst k))))"

definition mux_cache :: "('c, 'k) MuxCache \<Rightarrow> ('c mux_state, string \<times> 'k) Cache" where
  "mux_cache mux =
     \<lparr>cw_CreateWatch = mux_CreateWatch mux, cw_CreateDeltaWatch = mux_CreateDeltaWatch mux,
      cw_cancel = mux_cancel mux, cw_Fetch = mux_Fetch mux\<rparr>"

end
