(* ===== verification/Server_Config.thy ===== *)
theory Server_Config
  imports Responses
begin

text \<open>
  The options of the stream servers: \<open>src/pkg/server/config/config.go\<close> and the option functions of
  \<open>src/pkg/server/sotw/v3/server.go\<close> and \<open>src/pkg/server/delta/v3/server.go\<close>. An option is a function on
  the options record. The logger is left out, so \<open>WithLogger\<close> is the identity.
\<close>

section \<open>Definitions\<close>

record Opts =
  opt_Ordered :: bool
  opt_legacyWildcardDeactivated :: bool
  opt_legacyWildcardDeactivatedTypes :: "string list"

definition NewOpts :: Opts where
  "NewOpts = \<lparr>opt_Ordered = False, opt_legacyWildcardDeactivated = False,
              opt_legacyWildcardDeactivatedTypes = []\<rparr>"

text \<open>The zero value, which the delta server starts from; it differs in the logger only.\<close>

definition zeroOpts :: Opts where
  "zeroOpts = \<lparr>opt_Ordered = False, opt_legacyWildcardDeactivated = False,
               opt_legacyWildcardDeactivatedTypes = []\<rparr>"

definition IsLegacyWildcardActive :: "Opts \<Rightarrow> string \<Rightarrow> bool" where
  "IsLegacyWildcardActive opt typeURL =
     (if opt_legacyWildcardDeactivated opt then False
      else if 0 < length (opt_legacyWildcardDeactivatedTypes opt) \<and>
              typeURL \<in> set (opt_legacyWildcardDeactivatedTypes opt) then False
      else True)"

type_synonym XDSOption = "Opts \<Rightarrow> Opts"

definition DeactivateLegacyWildcard :: XDSOption where
  "DeactivateLegacyWildcard opt = opt\<lparr>opt_legacyWildcardDeactivated := True\<rparr>"

definition DeactivateLegacyWildcardForTypes :: "string list \<Rightarrow> XDSOption" where
  "DeactivateLegacyWildcardForTypes types opt =
     opt\<lparr>opt_legacyWildcardDeactivatedTypes := fold set_add types []\<rparr>"

definition WithOrderedADS :: XDSOption where
  "WithOrderedADS opt = opt\<lparr>opt_Ordered := True\<rparr>"

definition server_WithLogger :: XDSOption where
  "server_WithLogger opt = opt"

text \<open>The loop over the options of the two constructors \<open>NewServer\<close>.\<close>

definition applyOpts :: "XDSOption list \<Rightarrow> Opts \<Rightarrow> Opts" where
  "applyOpts opts s = fold (\<lambda>opt s. opt s) opts s"

section \<open>Lemmas\<close>

lemma IsLegacyWildcardActive_iff:
  "IsLegacyWildcardActive opt t \<longleftrightarrow>
     \<not> opt_legacyWildcardDeactivated opt \<and> t \<notin> set (opt_legacyWildcardDeactivatedTypes opt)"
  by (auto simp: IsLegacyWildcardActive_def)

lemma NewOpts_legacy [simp]: "IsLegacyWildcardActive NewOpts t"
  by (simp add: IsLegacyWildcardActive_iff NewOpts_def)

text \<open>The last of the options for types decides, the global one cannot be undone.\<close>

lemma legacy_option_effect:
  "\<not> IsLegacyWildcardActive (DeactivateLegacyWildcard opt) t"
  "IsLegacyWildcardActive (DeactivateLegacyWildcardForTypes ts opt) t \<longleftrightarrow>
     \<not> opt_legacyWildcardDeactivated opt \<and> t \<notin> set ts"
  "IsLegacyWildcardActive (WithOrderedADS opt) t = IsLegacyWildcardActive opt t"
  by (simp_all add: IsLegacyWildcardActive_iff DeactivateLegacyWildcard_def
      DeactivateLegacyWildcardForTypes_def WithOrderedADS_def)

end
