(* ===== verification/Sotw_Server.thy ===== *)
theory Sotw_Server
  imports Cache_Interface Server_Config
begin

text \<open>
  The state-of-the-world stream server: \<open>src/pkg/server/sotw/v3\<close>, files \<open>watches.go\<close>, \<open>server.go\<close>,
  \<open>xds.go\<close> (one channel per watch) and \<open>ads.go\<close> (ordered ADS, one channel for all watches).

  One stream is one goroutine that loops over a \<open>select\<close>: each iteration is one event, handled
  atomically. \<open>ss_pending\<close> holds what caches have put on channels and nobody has received yet, in
  order. Callbacks are functions on a state of their own; a nil \<open>Callbacks\<close> is \<open>None\<close>. Callbacks are
  taken not to modify the requests and responses they are shown. \<open>Send\<close> of the gRPC stream is a
  parameter that may fail depending on all that was sent before. Panics end the handler as an error.
\<close>

section \<open>Definitions\<close>

subsection \<open>The loop of a stream\<close>

text \<open>What a handler of one event does with the loop: go on, or return.\<close>

datatype outcome = Continue | Return "error option"

text \<open>A run of the loop over a sequence of events; \<open>None\<close> when the loop has not returned.\<close>

fun select_loop :: "('e \<Rightarrow> 's \<Rightarrow> 's \<times> outcome) \<Rightarrow> 'e list \<Rightarrow> 's \<Rightarrow> 's \<times> error option option" where
  "select_loop step [] s = (s, None)"
| "select_loop step (e # es) s =
     (case step e s of
        (s', Continue) \<Rightarrow> select_loop step es s'
      | (s', Return r) \<Rightarrow> (s', Some r))"

datatype stream_event =
    SelectDone
  | SelectRequest "DiscoveryRequest option option" \<comment> \<open>\<open>None\<close>: the channel is closed; \<open>Some None\<close>: nil\<close>
  | SelectResponse nat \<comment> \<open>the index of a ready case\<close>

subsection \<open>Watches\<close>

record 'k sotw_watch =
  w_cancel :: 'k
  w_response :: chan
  w_sub :: Subscription
  w_nonce :: string

datatype select_case = CaseDone | CaseRequest | CaseWatch chan

record 'k sotw_watches =
  ws_responders :: "(string, 'k sotw_watch) gomap"
  ws_cases :: "select_case list"

definition sotw_newWatches :: "'k sotw_watches" where
  "sotw_newWatches = \<lparr>ws_responders = [], ws_cases = []\<rparr>"

definition addWatch :: "string \<Rightarrow> 'k sotw_watch \<Rightarrow> 'k sotw_watches \<Rightarrow> 'k sotw_watches" where
  "addWatch typeURL watch w = w\<lparr>ws_responders := AList.update typeURL watch (ws_responders w)\<rparr>"

definition recompute :: "'k sotw_watches \<Rightarrow> 'k sotw_watches" where
  "recompute w =
     w\<lparr>ws_cases := [CaseDone, CaseRequest] @
         map (\<lambda>(typeURL, watch). CaseWatch (w_response watch)) (ws_responders w)\<rparr>"

definition watch_close :: "('c, 'k) Cache \<Rightarrow> 'k sotw_watch \<Rightarrow> 'c \<Rightarrow> 'c" where
  "watch_close cache w c = cw_cancel cache (w_cancel w) c"

definition watches_close :: "('c, 'k) Cache \<Rightarrow> 'k sotw_watches \<Rightarrow> 'c \<Rightarrow> 'c" where
  "watches_close cache w c = fold (\<lambda>(typeURL, watch) c. watch_close cache watch c) (ws_responders w) c"

subsection \<open>Server and stream\<close>

record 'u sotw_Callbacks =
  cb_OnStreamOpen :: "go_context \<Rightarrow> 64 word \<Rightarrow> string \<Rightarrow> 'u \<Rightarrow> error option \<times> 'u"
  cb_OnStreamClosed :: "64 word \<Rightarrow> Node option \<Rightarrow> 'u \<Rightarrow> 'u"
  cb_OnStreamRequest :: "64 word \<Rightarrow> DiscoveryRequest \<Rightarrow> 'u \<Rightarrow> error option \<times> 'u"
  cb_OnStreamResponse ::
    "go_context \<Rightarrow> 64 word \<Rightarrow> DiscoveryRequest option \<Rightarrow> DiscoveryResponse \<Rightarrow> 'u \<Rightarrow> 'u"

record ('c, 'k, 'u) sotw_server =
  srv_cache :: "('c, 'k) Cache"
  srv_callbacks :: "'u sotw_Callbacks option"
  srv_opts :: Opts

definition sotw_NewServer ::
  "('c, 'k) Cache \<Rightarrow> 'u sotw_Callbacks option \<Rightarrow> XDSOption list \<Rightarrow> ('c, 'k, 'u) sotw_server" where
  "sotw_NewServer cw callbacks opts =
     \<lparr>srv_cache = cw, srv_callbacks = callbacks, srv_opts = applyOpts opts NewOpts\<rparr>"

text \<open>The code around the stream: protobuf marshaling, \<open>Send\<close> and the context of the stream.\<close>

record stream_env =
  env_marshal :: marshaler
  env_Send :: "DiscoveryResponse list \<Rightarrow> DiscoveryResponse \<Rightarrow> error option"
  env_Context :: go_context

record 'k streamWrapper =
  sw_ID :: "64 word"
  sw_nonce :: "64 word"
  sw_watches :: "'k sotw_watches"
  sw_node :: "Node option"
  sw_sent :: "DiscoveryResponse list" \<comment> \<open>what was passed to \<open>stream.Send\<close>, in order\<close>

record ('c, 'k, 'u) sotw_state =
  ss_cache :: 'c
  ss_callbacks :: 'u
  ss_streamCount :: "64 word"
  ss_chans :: chan \<comment> \<open>the next channel \<open>make\<close> returns\<close>
  ss_pending :: response_sends
  ss_stream :: "'k streamWrapper"

definition emptyNode :: Node where
  "emptyNode = \<lparr>node_Id = '''', node_Rest = ''''\<rparr>"

definition responder :: "('c, 'k, 'u) sotw_state \<Rightarrow> string \<Rightarrow> 'k sotw_watch option" where
  "responder s typeURL = map_of (ws_responders (sw_watches (ss_stream s))) typeURL"

definition set_watches ::
  "('k sotw_watches \<Rightarrow> 'k sotw_watches) \<Rightarrow> ('c, 'k, 'u) sotw_state \<Rightarrow> ('c, 'k, 'u) sotw_state" where
  "set_watches f s = s\<lparr>ss_stream := (ss_stream s)\<lparr>sw_watches := f (sw_watches (ss_stream s))\<rparr>\<rparr>"

subsection \<open>Sending a response\<close>

definition responseMatchesCurrentSubscription :: "Response \<Rightarrow> Subscription \<Rightarrow> bool" where
  "responseMatchesCurrentSubscription resp sub =
     (if IsWildcard sub then True
      else if length (GetReturnedResources resp) = 0 then True
      else list_all (\<lambda>name.
             name \<in> set (SubscribedResources sub) \<or>
             list_ex (\<lambda>prefix. HasPrefix name prefix) (SubscribedPrefixes sub))
             (map fst (GetReturnedResources resp)))"

fun GetContext :: "Response \<Rightarrow> go_context" where
  "GetContext (RawR r) = raw_Ctx r"
| "GetContext (PassthroughR r) = pt_ctx r"

definition sotw_send ::
  "('c, 'k, 'u) sotw_server \<Rightarrow> stream_env \<Rightarrow> Response option \<Rightarrow> ('c, 'k, 'u) sotw_state \<Rightarrow>
     ('c, 'k, 'u) sotw_state \<times> error option" where
  "sotw_send srv env resp s =
     (case resp of
        None \<Rightarrow> (s, Some (Errorf ''missing response'' []))
      | Some resp \<Rightarrow>
          (case GetRequest resp of
             None \<Rightarrow> (s, Some (Errorf ''missing request in response'' []))
           | Some req \<Rightarrow>
               (let typeURL = req_TypeUrl req in
                case responder s typeURL of
                  None \<Rightarrow> (s, Some (Errorf ''no current watch for %s'' [typeURL]))
                | Some w \<Rightarrow>
                    if \<not> responseMatchesCurrentSubscription resp (w_sub w) then (s, None)
                    else
                      (case response_GetDiscoveryResponse (env_marshal env) resp of
                         Inl e \<Rightarrow> (s, Some e)
                       | Inr None \<Rightarrow> (s, Some (Panic ''nil pointer dereference''))
                       | Inr (Some out) \<Rightarrow>
                           (let n = sw_nonce (ss_stream s) + 1;
                                out = out\<lparr>resp_Nonce := FormatInt n\<rparr>;
                                w = w\<lparr>w_sub := SetReturnedResources (w_sub w) (GetReturnedResources resp),
                                      w_nonce := resp_Nonce out\<rparr>;
                                s = set_watches (addWatch typeURL w) s;
                                s = (case srv_callbacks srv of
                                       None \<Rightarrow> s
                                     | Some cb \<Rightarrow>
                                         s\<lparr>ss_callbacks :=
                                             cb_OnStreamResponse cb (GetContext resp) (sw_ID (ss_stream s))
                                               (Some req) out (ss_callbacks s)\<rparr>);
                                sent = sw_sent (ss_stream s)
                            in (s\<lparr>ss_stream := (ss_stream s)\<lparr>sw_nonce := n, sw_sent := sent @ [out]\<rparr>\<rparr>,
                                env_Send env sent out))))))"

definition shutdown ::
  "('c, 'k, 'u) sotw_server \<Rightarrow> ('c, 'k, 'u) sotw_state \<Rightarrow> ('c, 'k, 'u) sotw_state" where
  "shutdown srv s =
     (let s = s\<lparr>ss_cache := watches_close (srv_cache srv) (sw_watches (ss_stream s)) (ss_cache s)\<rparr> in
      case srv_callbacks srv of
        None \<Rightarrow> s
      | Some cb \<Rightarrow>
          s\<lparr>ss_callbacks :=
              cb_OnStreamClosed cb (sw_ID (ss_stream s)) (sw_node (ss_stream s)) (ss_callbacks s)\<rparr>)"

subsection \<open>Requests\<close>

text \<open>The node carried over from the first request of the stream.\<close>

definition reassignNode ::
  "DiscoveryRequest \<Rightarrow> ('c, 'k, 'u) sotw_state \<Rightarrow> DiscoveryRequest \<times> ('c, 'k, 'u) sotw_state" where
  "reassignNode req s =
     (case req_Node req of
        Some node \<Rightarrow> (req, s\<lparr>ss_stream := (ss_stream s)\<lparr>sw_node := Some node\<rparr>\<rparr>)
      | None \<Rightarrow> (req\<lparr>req_Node := sw_node (ss_stream s)\<rparr>, s))"

definition onStreamRequest ::
  "('c, 'k, 'u) sotw_server \<Rightarrow> DiscoveryRequest \<Rightarrow> ('c, 'k, 'u) sotw_state \<Rightarrow>
     ('c, 'k, 'u) sotw_state \<times> error option" where
  "onStreamRequest srv req s =
     (case srv_callbacks srv of
        None \<Rightarrow> (s, None)
      | Some cb \<Rightarrow>
          (case cb_OnStreamRequest cb (sw_ID (ss_stream s)) req (ss_callbacks s) of
             (e, u) \<Rightarrow> (s\<lparr>ss_callbacks := u\<rparr>, e)))"

text \<open>Opening the watch on a channel and recording it, or the error of the cache.\<close>

definition openWatch ::
  "('c, 'k, 'u) sotw_server \<Rightarrow> DiscoveryRequest \<Rightarrow> Subscription \<Rightarrow> chan \<Rightarrow> ('c, 'k, 'u) sotw_state \<Rightarrow>
     ('c, 'k, 'u) sotw_state \<times> error option" where
  "openWatch srv req subscription ch s =
     (case cw_CreateWatch (srv_cache srv) req subscription ch (ss_cache s) of
        (c, out, r) \<Rightarrow>
          (let s = s\<lparr>ss_cache := c, ss_pending := ss_pending s @ out\<rparr> in
           case r of
             Inl e \<Rightarrow> (s, Some e)
           | Inr cancel \<Rightarrow>
               (set_watches (addWatch (req_TypeUrl req)
                  \<lparr>w_cancel = cancel, w_response = ch, w_sub = subscription, w_nonce = ''''\<rparr>) s,
                None)))"

text \<open>The request does not match the nonce of the last response of its type.\<close>

definition staleNonce :: "DiscoveryRequest \<Rightarrow> 'k sotw_watch \<Rightarrow> bool" where
  "staleNonce req w \<longleftrightarrow> w_nonce w \<noteq> '''' \<and> req_ResponseNonce req \<noteq> w_nonce w"

definition process_request ::
  "('c, 'k, 'u) sotw_server \<Rightarrow> string \<Rightarrow> DiscoveryRequest \<Rightarrow> ('c, 'k, 'u) sotw_state \<Rightarrow>
     ('c, 'k, 'u) sotw_state \<times> outcome" where
  "process_request srv defaultTypeURL req s =
     (case reassignNode req s of
        (req, s) \<Rightarrow>
          if defaultTypeURL = AnyType \<and> req_TypeUrl req = ''''
          then (s, Return (Some (StatusErr InvalidArgument ''type URL is required for ADS'')))
          else
            (let req = (if req_TypeUrl req = '''' then req\<lparr>req_TypeUrl := defaultTypeURL\<rparr> else req) in
             case onStreamRequest srv req s of
               (s, Some e) \<Rightarrow> (s, Return (Some e))
             | (s, None) \<Rightarrow>
                 (let typeURL = req_TypeUrl req in
                  if (case responder s typeURL of None \<Rightarrow> False | Some w \<Rightarrow> staleNonce req w)
                  then (s, Continue)
                  else
                    (case (case responder s typeURL of
                             Some w \<Rightarrow>
                               (s\<lparr>ss_cache := watch_close (srv_cache srv) w (ss_cache s)\<rparr>,
                                SetResourceSubscription (w_sub w) (req_ResourceNames req))
                           | None \<Rightarrow>
                               (s, NewSotwSubscription (req_ResourceNames req)
                                     (IsLegacyWildcardActive (srv_opts srv) typeURL)))
                     of (s, subscription) \<Rightarrow>
                       (case openWatch srv req subscription (ss_chans s)
                               (s\<lparr>ss_chans := Suc (ss_chans s)\<rparr>) of
                          (s, Some e) \<Rightarrow> (s, Return (Some e))
                        | (s, None) \<Rightarrow> (set_watches recompute s, Continue))))))"

subsection \<open>The unordered loop\<close>

text \<open>Receiving from a channel: its first pending message and the rest.\<close>

fun receive :: "chan \<Rightarrow> (chan \<times> 'm) list \<Rightarrow> ('m \<times> (chan \<times> 'm) list) option" where
  "receive ch [] = None"
| "receive ch ((c, m) # rest) =
     (if c = ch then Some (m, rest)
      else (case receive ch rest of None \<Rightarrow> None | Some (x, rest') \<Rightarrow> Some (x, (c, m) # rest')))"

definition drop_first :: "chan \<Rightarrow> (chan \<times> 'm) list \<Rightarrow> (chan \<times> 'm) list" where
  "drop_first ch pending = (case receive ch pending of None \<Rightarrow> pending | Some (x, rest) \<Rightarrow> rest)"

definition process_response ::
  "('c, 'k, 'u) sotw_server \<Rightarrow> stream_env \<Rightarrow> nat \<Rightarrow> ('c, 'k, 'u) sotw_state \<Rightarrow>
     ('c, 'k, 'u) sotw_state \<times> outcome" where
  "process_response srv env index s =
     (let cases = ws_cases (sw_watches (ss_stream s)) in
      if index < length cases then
        (case cases ! index of
           CaseWatch ch \<Rightarrow>
             (case receive ch (ss_pending s) of
                None \<Rightarrow> (s, Continue)
              | Some (value, pending) \<Rightarrow>
                  (let s = s\<lparr>ss_pending := pending\<rparr> in
                   case value of
                     None \<Rightarrow> (s, Return (Some (StatusErr Unavailable
                                (''resource watch '' @ dec_nat index @ '' -> failed''))))
                   | Some res \<Rightarrow>
                       (case sotw_send srv env (Some res) s of
                          (s, Some e) \<Rightarrow> (s, Return (Some e))
                        | (s, None) \<Rightarrow> (s, Continue))))
         | _ \<Rightarrow> (s, Continue))
      else (s, Continue))"

fun process_step ::
  "('c, 'k, 'u) sotw_server \<Rightarrow> stream_env \<Rightarrow> string \<Rightarrow> stream_event \<Rightarrow> ('c, 'k, 'u) sotw_state \<Rightarrow>
     ('c, 'k, 'u) sotw_state \<times> outcome" where
  "process_step srv env defaultTypeURL SelectDone s = (s, Return None)"
| "process_step srv env defaultTypeURL (SelectRequest None) s = (s, Return None)"
| "process_step srv env defaultTypeURL (SelectRequest (Some None)) s =
     (s, Return (Some (StatusErr Unavailable ''empty request'')))"
| "process_step srv env defaultTypeURL (SelectRequest (Some (Some req))) s =
     process_request srv defaultTypeURL req s"
| "process_step srv env defaultTypeURL (SelectResponse index) s = process_response srv env index s"

subsection \<open>The ordered ADS loop\<close>

text \<open>\<open>processAllExcept\<close>: receive until the channel is empty, sending what is not of the type.\<close>

fun processAllExcept ::
  "('c, 'k, 'u) sotw_server \<Rightarrow> stream_env \<Rightarrow> chan \<Rightarrow> string \<Rightarrow> Response option list \<Rightarrow>
     ('c, 'k, 'u) sotw_state \<Rightarrow> ('c, 'k, 'u) sotw_state \<times> error option" where
  "processAllExcept srv env respChan typeURL [] s = (s, None)"
| "processAllExcept srv env respChan typeURL (res # rest) s =
     (let s = s\<lparr>ss_pending := drop_first respChan (ss_pending s)\<rparr> in
      case res of
        None \<Rightarrow> (s, Some (Panic ''nil pointer dereference''))
      | Some r \<Rightarrow>
          if req_getTypeUrl (GetRequest r) \<noteq> typeURL
          then (case sotw_send srv env (Some r) s of
                  (s, Some e) \<Rightarrow> (s, Some e)
                | (s, None) \<Rightarrow> processAllExcept srv env respChan typeURL rest s)
          else processAllExcept srv env respChan typeURL rest s)"

definition channel_contents :: "chan \<Rightarrow> (chan \<times> 'm) list \<Rightarrow> 'm list" where
  "channel_contents ch pending = map snd (filter (\<lambda>m. fst m = ch) pending)"

definition processADS_request ::
  "('c, 'k, 'u) sotw_server \<Rightarrow> stream_env \<Rightarrow> chan \<Rightarrow> DiscoveryRequest \<Rightarrow> ('c, 'k, 'u) sotw_state \<Rightarrow>
     ('c, 'k, 'u) sotw_state \<times> outcome" where
  "processADS_request srv env respChan req s =
     (case reassignNode req s of
        (req, s) \<Rightarrow>
          (let typeURL = req_TypeUrl req in
           if typeURL = ''''
           then (s, Return (Some (StatusErr InvalidArgument ''type URL is required for ADS'')))
           else
             (case onStreamRequest srv req s of
                (s, Some e) \<Rightarrow> (s, Return (Some e))
              | (s, None) \<Rightarrow>
                  if (case responder s typeURL of None \<Rightarrow> False | Some w \<Rightarrow> staleNonce req w)
                  then (s, Continue)
                  else
                    (case (case responder s typeURL of
                             Some w \<Rightarrow>
                               (case processAllExcept srv env respChan typeURL
                                       (channel_contents respChan (ss_pending s))
                                       (s\<lparr>ss_cache := watch_close (srv_cache srv) w (ss_cache s)\<rparr>) of
                                  (s, Some e) \<Rightarrow> (s, Inl e)
                                | (s, None) \<Rightarrow>
                                    (s, Inr (case responder s typeURL of
                                               None \<Rightarrow> SetResourceSubscription (w_sub w) (req_ResourceNames req)
                                             | Some w \<Rightarrow>
                                                 SetResourceSubscription (w_sub w) (req_ResourceNames req))))
                           | None \<Rightarrow>
                               (s, Inr (NewSotwSubscription (req_ResourceNames req)
                                     (IsLegacyWildcardActive (srv_opts srv) typeURL))))
                     of (s, Inl e) \<Rightarrow> (s, Return (Some e))
                      | (s, Inr subscription) \<Rightarrow>
                          (case openWatch srv req subscription respChan s of
                             (s, Some e) \<Rightarrow> (s, Return (Some e))
                           | (s, None) \<Rightarrow> (s, Continue))))))"

fun processADS_step ::
  "('c, 'k, 'u) sotw_server \<Rightarrow> stream_env \<Rightarrow> chan \<Rightarrow> stream_event \<Rightarrow> ('c, 'k, 'u) sotw_state \<Rightarrow>
     ('c, 'k, 'u) sotw_state \<times> outcome" where
  "processADS_step srv env respChan SelectDone s = (s, Return None)"
| "processADS_step srv env respChan (SelectResponse _) s =
     (case receive respChan (ss_pending s) of
        None \<Rightarrow> (s, Continue)
      | Some (res, pending) \<Rightarrow>
          (case sotw_send srv env res (s\<lparr>ss_pending := pending\<rparr>) of
             (s, Some e) \<Rightarrow> (s, Return (Some (StatusText Unavailable e)))
           | (s, None) \<Rightarrow> (s, Continue)))"
| "processADS_step srv env respChan (SelectRequest None) s = (s, Return None)"
| "processADS_step srv env respChan (SelectRequest (Some None)) s =
     (s, Return (Some (StatusErr Unavailable ''empty request'')))"
| "processADS_step srv env respChan (SelectRequest (Some (Some req))) s =
     processADS_request srv env respChan req s"

subsection \<open>A stream from opening to closing\<close>

definition stream_open ::
  "('c, 'k, 'u) sotw_server \<Rightarrow> stream_env \<Rightarrow> string \<Rightarrow> ('c, 'k, 'u) sotw_state \<Rightarrow>
     ('c, 'k, 'u) sotw_state \<times> error option" where
  "stream_open srv env defaultTypeURL s =
     (let ID = ss_streamCount s + 1;
          s = s\<lparr>ss_streamCount := ID,
                ss_stream := \<lparr>sw_ID = ID, sw_nonce = 0, sw_watches = sotw_newWatches,
                              sw_node = Some emptyNode, sw_sent = []\<rparr>\<rparr>
      in case srv_callbacks srv of
           None \<Rightarrow> (s, None)
         | Some cb \<Rightarrow>
             (case cb_OnStreamOpen cb (env_Context env) ID defaultTypeURL (ss_callbacks s) of
                (e, u) \<Rightarrow> (s\<lparr>ss_callbacks := u\<rparr>, e)))"

definition processADS ::
  "('c, 'k, 'u) sotw_server \<Rightarrow> stream_env \<Rightarrow> stream_event list \<Rightarrow> ('c, 'k, 'u) sotw_state \<Rightarrow>
     ('c, 'k, 'u) sotw_state \<times> error option option" where
  "processADS srv env events s =
     select_loop (processADS_step srv env (ss_chans s)) events (s\<lparr>ss_chans := Suc (ss_chans s)\<rparr>)"

definition process ::
  "('c, 'k, 'u) sotw_server \<Rightarrow> stream_env \<Rightarrow> string \<Rightarrow> stream_event list \<Rightarrow> ('c, 'k, 'u) sotw_state \<Rightarrow>
     ('c, 'k, 'u) sotw_state \<times> error option option" where
  "process srv env defaultTypeURL events s =
     (case (case stream_open srv env defaultTypeURL s of
              (s, Some e) \<Rightarrow> (s, Some (Some e))
            | (s, None) \<Rightarrow>
                if defaultTypeURL = AnyType \<and> opt_Ordered (srv_opts srv)
                then processADS srv env events s
                else select_loop (process_step srv env defaultTypeURL) events (set_watches recompute s))
      of (s, None) \<Rightarrow> (s, None)
       | (s, Some r) \<Rightarrow> (shutdown srv s, Some r))"

text \<open>
  \<open>StreamHandler\<close>: the reading goroutine turns the results of \<open>Recv\<close> into the channel of requests and
  closes it at the first error; \<open>choices\<close> says which ready case each \<open>select\<close> takes.
\<close>

datatype choice = TakeDone | TakeRequest | TakeResponse nat

fun recvLoop :: "'q result list \<Rightarrow> 'q option list" where
  "recvLoop [] = []"
| "recvLoop (Inl e # rest) = [None]"
| "recvLoop (Inr req # rest) = Some req # recvLoop rest"

fun schedule :: "choice list \<Rightarrow> DiscoveryRequest option option list \<Rightarrow> stream_event list" where
  "schedule [] reqs = []"
| "schedule (TakeDone # cs) reqs = SelectDone # schedule cs reqs"
| "schedule (TakeResponse i # cs) reqs = SelectResponse i # schedule cs reqs"
| "schedule (TakeRequest # cs) [] = schedule cs []"
| "schedule (TakeRequest # cs) (req # reqs) = SelectRequest req # schedule cs reqs"

definition StreamHandler ::
  "('c, 'k, 'u) sotw_server \<Rightarrow> stream_env \<Rightarrow> string \<Rightarrow> DiscoveryRequest option result list \<Rightarrow>
     choice list \<Rightarrow> ('c, 'k, 'u) sotw_state \<Rightarrow> ('c, 'k, 'u) sotw_state \<times> error option option" where
  "StreamHandler srv env typeURL recvs choices s =
     process srv env typeURL (schedule choices (recvLoop recvs)) s"

end
