(* ===== verification/Sotw_Stream.thy ===== *)
theory Sotw_Stream
  imports Sotw_Server
begin

text \<open>
  Properties of the state-of-the-world stream server that hold with every cache: what one send does,
  the nonces of a stream, which requests are ignored, and the order of ordered ADS.
\<close>

section \<open>Definitions\<close>

text \<open>The \<open>i\<close>-th response of a stream carries the nonce \<open>i + 1\<close>.\<close>

definition nonces_ok :: "('c, 'k, 'u) sotw_state \<Rightarrow> bool" where
  "nonces_ok s \<longleftrightarrow>
     sw_nonce (ss_stream s) = of_nat (length (sw_sent (ss_stream s))) \<and>
     (\<forall>i<length (sw_sent (ss_stream s)).
        resp_Nonce (sw_sent (ss_stream s) ! i) = FormatInt (of_nat (Suc i)))"

section \<open>Lemmas\<close>

lemma select_loop_invariant:
  assumes "\<And>e s s' o'. I s \<Longrightarrow> step e s = (s', o') \<Longrightarrow> I s'" and "I s"
    and "select_loop step es s = (s', r)"
  shows "I s'"
  using assms(2,3)
proof (induction es arbitrary: s)
  case (Cons e es)
  obtain s1 o1 where step: "step e s = (s1, o1)" by (cases "step e s")
  with Cons assms(1) [OF Cons.prems(1) step] show ?case by (cases o1) auto
qed auto

lemma set_watches_frame [simp]:
  "ss_cache (set_watches f s) = ss_cache s" "ss_pending (set_watches f s) = ss_pending s"
  "ss_chans (set_watches f s) = ss_chans s" "ss_callbacks (set_watches f s) = ss_callbacks s"
  "sw_nonce (ss_stream (set_watches f s)) = sw_nonce (ss_stream s)"
  "sw_sent (ss_stream (set_watches f s)) = sw_sent (ss_stream s)"
  "sw_ID (ss_stream (set_watches f s)) = sw_ID (ss_stream s)"
  "sw_node (ss_stream (set_watches f s)) = sw_node (ss_stream s)"
  "sw_watches (ss_stream (set_watches f s)) = f (sw_watches (ss_stream s))"
  by (simp_all add: set_watches_def)

lemma responder_cong:
  "sw_watches (ss_stream s') = sw_watches (ss_stream s) \<Longrightarrow> responder s' t = responder s t"
  by (simp add: responder_def)

lemma responder_addWatch:
  "sw_watches (ss_stream s') = addWatch t w (sw_watches (ss_stream s)) \<Longrightarrow>
     responder s' t' = (if t' = t then Some w else responder s t')"
  by (simp add: responder_def addWatch_def)

subsection \<open>One send\<close>

text \<open>A response is sent with the next nonce and recorded in its watch, or nothing changes.\<close>

lemma sotw_send_cases:
  assumes "sotw_send srv env resp s = (s', e)"
  obtains (unchanged) "s' = s" "e = None \<Longrightarrow> \<exists>r req w. resp = Some r \<and> GetRequest r = Some req \<and>
      responder s (req_TypeUrl req) = Some w \<and> \<not> responseMatchesCurrentSubscription r (w_sub w)"
  | (sent) r req w out where "resp = Some r" "GetRequest r = Some req"
      "responder s (req_TypeUrl req) = Some w" "responseMatchesCurrentSubscription r (w_sub w)"
      "response_GetDiscoveryResponse (env_marshal env) r = Inr (Some out)"
      "ss_cache s' = ss_cache s" "ss_pending s' = ss_pending s" "ss_chans s' = ss_chans s"
      "sw_ID (ss_stream s') = sw_ID (ss_stream s)" "sw_node (ss_stream s') = sw_node (ss_stream s)"
      "sw_nonce (ss_stream s') = sw_nonce (ss_stream s) + 1"
      "sw_sent (ss_stream s') = sw_sent (ss_stream s) @
         [out\<lparr>resp_Nonce := FormatInt (sw_nonce (ss_stream s) + 1)\<rparr>]"
      "sw_watches (ss_stream s') = addWatch (req_TypeUrl req)
         (w\<lparr>w_sub := SetReturnedResources (w_sub w) (GetReturnedResources r),
            w_nonce := FormatInt (sw_nonce (ss_stream s) + 1)\<rparr>) (sw_watches (ss_stream s))"
      "e = env_Send env (sw_sent (ss_stream s)) (out\<lparr>resp_Nonce := FormatInt (sw_nonce (ss_stream s) + 1)\<rparr>)"
  using assms unfolding sotw_send_def
  by (cases "srv_callbacks srv")
    (auto simp: Let_def split: option.splits if_splits sum.splits)

subsection \<open>Nonces\<close>

lemma nonces_ok_frame:
  "nonces_ok s \<Longrightarrow> sw_nonce (ss_stream s') = sw_nonce (ss_stream s) \<Longrightarrow>
     sw_sent (ss_stream s') = sw_sent (ss_stream s) \<Longrightarrow> nonces_ok s'"
  by (simp add: nonces_ok_def)

lemma nonces_ok_send:
  assumes "nonces_ok s" and "sotw_send srv env resp s = (s', e)"
  shows "nonces_ok s'"
  using assms(2)
proof (cases rule: sotw_send_cases)
  case unchanged
  with assms(1) show ?thesis by simp
next
  case sent
  have n: "sw_nonce (ss_stream s) = of_nat (length (sw_sent (ss_stream s)))"
    using assms(1) by (simp add: nonces_ok_def)
  show ?thesis
    using assms(1) sent(11,12) unfolding nonces_ok_def n
    by (auto simp: nth_append less_Suc_eq add.commute)
qed

lemma reassignNode_frame:
  assumes "reassignNode req s = (req', s')"
  shows "sw_nonce (ss_stream s') = sw_nonce (ss_stream s)" "sw_sent (ss_stream s') = sw_sent (ss_stream s)"
    "sw_watches (ss_stream s') = sw_watches (ss_stream s)" "ss_cache s' = ss_cache s"
    "ss_pending s' = ss_pending s" "ss_chans s' = ss_chans s"
    "req_TypeUrl req' = req_TypeUrl req" "req_ResourceNames req' = req_ResourceNames req"
    "req_ResponseNonce req' = req_ResponseNonce req" "ss_callbacks s' = ss_callbacks s"
  using assms by (auto simp: reassignNode_def split: option.splits)

lemma onStreamRequest_frame:
  assumes "onStreamRequest srv req s = (s', e)"
  shows "ss_stream s' = ss_stream s" "ss_cache s' = ss_cache s" "ss_pending s' = ss_pending s"
    "ss_chans s' = ss_chans s"
  using assms by (auto simp: onStreamRequest_def split: option.splits prod.splits)

lemma openWatch_frame:
  assumes "openWatch srv req sub ch s = (s', e)"
  shows "sw_nonce (ss_stream s') = sw_nonce (ss_stream s)" "sw_sent (ss_stream s') = sw_sent (ss_stream s)"
    "ss_chans s' = ss_chans s" "ss_callbacks s' = ss_callbacks s"
  using assms by (auto simp: openWatch_def Let_def split: prod.splits sum.splits)

text \<open>A request to the unordered loop sends nothing.\<close>

lemma process_request_frame:
  assumes "process_request srv t req s = (s', r)"
  shows "sw_nonce (ss_stream s') = sw_nonce (ss_stream s) \<and> sw_sent (ss_stream s') = sw_sent (ss_stream s)"
proof -
  obtain req1 s1 where r: "reassignNode req s = (req1, s1)" by (cases "reassignNode req s")
  define req2 where "req2 = (if req_TypeUrl req1 = '''' then req1\<lparr>req_TypeUrl := t\<rparr> else req1)"
  obtain s2 e2 where o: "onStreamRequest srv req2 s1 = (s2, e2)" by (cases "onStreamRequest srv req2 s1")
  have open_frame: "sw_nonce (ss_stream s'') = sw_nonce (ss_stream s0) \<and>
      sw_sent (ss_stream s'') = sw_sent (ss_stream s0)"
    if "openWatch srv q sub ch s0 = (s'', e)" for q sub ch s0 s'' e
    using openWatch_frame [OF that] by simp
  show ?thesis
    using assms reassignNode_frame [OF r] onStreamRequest_frame [OF o]
    unfolding process_request_def r prod.case Let_def req2_def [symmetric] o
    by (auto split: if_splits option.splits prod.splits dest: open_frame)
qed

text \<open>A request after which the stream goes on: it is stale, or it opens a watch on a fresh channel.\<close>

lemma process_request_Continue:
  assumes step: "process_request srv t req s = (s', Continue)"
  obtains (stale) "ss_cache s' = ss_cache s" "ss_pending s' = ss_pending s" "ss_chans s' = ss_chans s"
      "sw_watches (ss_stream s') = sw_watches (ss_stream s)" "sw_sent (ss_stream s') = sw_sent (ss_stream s)"
  | (watch) q sub c1 out k where
      "cw_CreateWatch (srv_cache srv) q sub (ss_chans s) c1 = (ss_cache s', out, Inr k)"
      "case responder s (req_TypeUrl q) of
         None \<Rightarrow> c1 = ss_cache s \<and>
           sub = NewSotwSubscription (req_ResourceNames q) (IsLegacyWildcardActive (srv_opts srv) (req_TypeUrl q))
       | Some w \<Rightarrow> c1 = cw_cancel (srv_cache srv) (w_cancel w) (ss_cache s) \<and>
           sub = SetResourceSubscription (w_sub w) (req_ResourceNames q) \<and> \<not> staleNonce q w"
      "ss_pending s' = ss_pending s @ out" "ss_chans s' = Suc (ss_chans s)"
      "sw_sent (ss_stream s') = sw_sent (ss_stream s)"
      "sw_watches (ss_stream s') = recompute (addWatch (req_TypeUrl q)
         \<lparr>w_cancel = k, w_response = ss_chans s, w_sub = sub, w_nonce = ''''\<rparr> (sw_watches (ss_stream s)))"
      "req_TypeUrl q = (if req_TypeUrl req = '''' then t else req_TypeUrl req)" "req_ResourceNames q = req_ResourceNames req"
proof -
  obtain req1 s1 where r: "reassignNode req s = (req1, s1)" by (cases "reassignNode req s")
  define q where "q = (if req_TypeUrl req1 = '''' then req1\<lparr>req_TypeUrl := t\<rparr> else req1)"
  obtain s2 e2 where o: "onStreamRequest srv q s1 = (s2, e2)" by (cases "onStreamRequest srv q s1")
  note f = reassignNode_frame [OF r] onStreamRequest_frame [OF o]
  have resp: "responder s2 u = responder s u" for u
    using f by (simp add: responder_def)
  define st where "st = (case responder s2 (req_TypeUrl q) of None \<Rightarrow> False | Some w \<Rightarrow> staleNonce q w)"
  define p where "p = (case responder s2 (req_TypeUrl q) of
      Some w \<Rightarrow> (s2\<lparr>ss_cache := watch_close (srv_cache srv) w (ss_cache s2)\<rparr>,
               SetResourceSubscription (w_sub w) (req_ResourceNames q))
    | None \<Rightarrow> (s2, NewSotwSubscription (req_ResourceNames q) (IsLegacyWildcardActive (srv_opts srv) (req_TypeUrl q))))"
  have go: "(st \<and> s' = s2) \<or> (\<not> st \<and> (\<exists>s3. openWatch srv q (snd p) (ss_chans (fst p))
      ((fst p)\<lparr>ss_chans := Suc (ss_chans (fst p))\<rparr>) = (s3, None) \<and> s' = set_watches recompute s3))"
    using step unfolding process_request_def r prod.case Let_def q_def [symmetric] o st_def [symmetric] p_def [symmetric]
    by (auto split: if_splits option.splits prod.splits)
  show thesis
  proof (cases st)
    case True
    with go f show thesis by (intro stale) auto
  next
    case False
    with go obtain s3 where s3: "openWatch srv q (snd p) (ss_chans (fst p))
      ((fst p)\<lparr>ss_chans := Suc (ss_chans (fst p))\<rparr>) = (s3, None)" "s' = set_watches recompute s3" by auto
    have p1: "ss_chans (fst p) = ss_chans s" "ss_pending (fst p) = ss_pending s"
      "sw_watches (ss_stream (fst p)) = sw_watches (ss_stream s)" "sw_sent (ss_stream (fst p)) = sw_sent (ss_stream s)"
      using f by (auto simp: p_def split: option.splits)
    have p2: "case responder s (req_TypeUrl q) of
         None \<Rightarrow> ss_cache (fst p) = ss_cache s \<and>
           snd p = NewSotwSubscription (req_ResourceNames q) (IsLegacyWildcardActive (srv_opts srv) (req_TypeUrl q))
       | Some w \<Rightarrow> ss_cache (fst p) = cw_cancel (srv_cache srv) (w_cancel w) (ss_cache s) \<and>
           snd p = SetResourceSubscription (w_sub w) (req_ResourceNames q) \<and> \<not> staleNonce q w"
      using f False by (auto simp: p_def st_def resp watch_close_def split: option.splits)
    from s3(1) obtain c out k where c: "cw_CreateWatch (srv_cache srv) q (snd p) (ss_chans s) (ss_cache (fst p)) = (c, out, Inr k)"
      and s3': "s3 = set_watches (addWatch (req_TypeUrl q)
          \<lparr>w_cancel = k, w_response = ss_chans s, w_sub = snd p, w_nonce = ''''\<rparr>)
          ((fst p)\<lparr>ss_chans := Suc (ss_chans s), ss_cache := c, ss_pending := ss_pending s @ out\<rparr>)"
      by (auto simp: openWatch_def Let_def p1 split: prod.splits sum.splits)
    show thesis
      by (rule watch [OF _ p2]) (use c p1 f(7,8) in \<open>simp_all add: s3(2) s3' set_watches_def q_def\<close>)
  qed
qed

lemma process_response_Continue:
  assumes "process_response srv env i s = (s', Continue)"
  obtains (idle) "s' = s"
  | (received) ch res p' where "CaseWatch ch \<in> set (ws_cases (sw_watches (ss_stream s)))"
      "receive ch (ss_pending s) = Some (Some res, p')"
      "sotw_send srv env (Some res) (s\<lparr>ss_pending := p'\<rparr>) = (s', None)"
  using assms unfolding process_response_def Let_def
  by (force split: if_splits select_case.splits option.splits prod.splits simp: in_set_conv_nth)

lemma process_step_Continue:
  assumes "process_step srv env t e s = (s', Continue)"
  obtains (request) req where "process_request srv t req s = (s', Continue)"
  | (response) i where "process_response srv env i s = (s', Continue)"
  using assms by (cases "(srv, env, t, e, s)" rule: process_step.cases) auto

lemma nonces_ok_open: "stream_open srv env t s = (s', e) \<Longrightarrow> nonces_ok s'"
  by (auto simp: stream_open_def Let_def nonces_ok_def split: option.splits prod.splits)

subsection \<open>Invariants of a stream\<close>

text \<open>
  An invariant of the callbacks and of what a stream has sent: it is kept by sending a response and by
  the callback for a request, and depends on nothing else. Both loops then keep it.
\<close>

locale stream_invariant =
  fixes srv :: "('c, 'k, 'u) sotw_server" and env :: stream_env and I :: "('c, 'k, 'u) sotw_state \<Rightarrow> bool"
  assumes send: "I s \<Longrightarrow> sotw_send srv env resp s = (s', e) \<Longrightarrow> I s'"
    and request: "I s \<Longrightarrow> onStreamRequest srv req s = (s', e) \<Longrightarrow> I s'"
    and frame: "I s \<Longrightarrow> ss_callbacks s' = ss_callbacks s \<Longrightarrow> sw_nonce (ss_stream s') = sw_nonce (ss_stream s) \<Longrightarrow>
      sw_sent (ss_stream s') = sw_sent (ss_stream s) \<Longrightarrow> I s'"
begin

lemma frame_updates:
  "I s \<Longrightarrow> I (s\<lparr>ss_pending := p\<rparr>)" "I s \<Longrightarrow> I (s\<lparr>ss_cache := c\<rparr>)" "I s \<Longrightarrow> I (s\<lparr>ss_chans := n\<rparr>)"
  "I s \<Longrightarrow> I (set_watches f s)"
  by (erule frame; simp)+

lemma reassign: "I s \<Longrightarrow> reassignNode req s = (req', s') \<Longrightarrow> I s'"
  by (erule frame) (simp_all add: reassignNode_frame)

lemma watch: "I s \<Longrightarrow> openWatch srv q sub ch s = (s', e) \<Longrightarrow> I s'"
  by (erule frame) (simp_all add: openWatch_frame)

lemma process_request:
  assumes "I s" and "process_request srv t req s = (s', r)"
  shows "I s'"
proof -
  obtain req1 s1 where q: "reassignNode req s = (req1, s1)" by (cases "reassignNode req s")
  define req2 where "req2 = (if req_TypeUrl req1 = '''' then req1\<lparr>req_TypeUrl := t\<rparr> else req1)"
  obtain s2 e2 where o: "onStreamRequest srv req2 s1 = (s2, e2)" by (cases "onStreamRequest srv req2 s1")
  have ok: "I s1" "I s2" using reassign [OF assms(1) q] request o by auto
  have opened: "openWatch srv q sub ch (s2\<lparr>ss_chans := n\<rparr>) = (s'', e) \<Longrightarrow> I s''"
      "openWatch srv q sub ch (s2\<lparr>ss_cache := c, ss_chans := n\<rparr>) = (s'', e) \<Longrightarrow> I s''" for q sub ch c n s'' e
    using watch frame_updates(3) [OF ok(2)] frame_updates(3) [OF frame_updates(2) [OF ok(2)]] by blast+
  show ?thesis
    using assms(2) ok unfolding process_request_def q prod.case Let_def req2_def [symmetric] o
    by (auto split: if_splits option.splits prod.splits dest: opened intro: frame_updates)
qed

lemma received:
  "I s \<Longrightarrow> sotw_send srv env x (s\<lparr>ss_pending := p\<rparr>) = (s', e) \<Longrightarrow> I s'"
  by (rule send) (rule frame_updates)

lemma process_response: "I s \<Longrightarrow> process_response srv env i s = (s', r) \<Longrightarrow> I s'"
  unfolding process_response_def Let_def
  by (auto split: if_splits select_case.splits option.splits prod.splits intro: frame_updates dest: received)

lemma process_step: "I s \<Longrightarrow> process_step srv env t e s = (s', r) \<Longrightarrow> I s'"
  by (cases "(srv, env, t, e, s)" rule: process_step.cases) (auto dest: process_request process_response)

lemma processAllExcept: "I s \<Longrightarrow> processAllExcept srv env ch t ms s = (s', e) \<Longrightarrow> I s'"
proof (induction ms arbitrary: s)
  case (Cons m ms)
  let ?s = "s\<lparr>ss_pending := drop_first ch (ss_pending s)\<rparr>"
  have ok: "I ?s" using Cons.prems(1) by (rule frame_updates)
  show ?case
  proof (cases m)
    case None
    with Cons.prems ok show ?thesis by auto
  next
    case (Some r)
    obtain s1 e1 where sent: "sotw_send srv env (Some r) ?s = (s1, e1)"
      by (cases "sotw_send srv env (Some r) ?s")
    have "I s1" by (rule send [OF ok sent])
    with Cons.prems Cons.IH [of s1] Cons.IH [OF ok] sent Some show ?thesis
      by (auto simp: Let_def split: if_splits option.splits)
  qed
qed simp

lemma processADS_request:
  assumes "I s" and "processADS_request srv env ch req s = (s', r)"
  shows "I s'"
proof -
  obtain req1 s1 where q: "reassignNode req s = (req1, s1)" by (cases "reassignNode req s")
  obtain s2 e2 where o: "onStreamRequest srv req1 s1 = (s2, e2)" by (cases "onStreamRequest srv req1 s1")
  have ok: "I s1" "I s2" using reassign [OF assms(1) q] request o by auto
  have all: "I s''" if "processAllExcept srv env ch t ms (s2\<lparr>ss_cache := c\<rparr>) = (s'', e)"
    for t ms c s'' e using processAllExcept [OF _ that] frame_updates(2) [OF ok(2)] by simp
  show ?thesis
    using assms(2) ok unfolding processADS_request_def q prod.case Let_def o
    by (auto split: if_splits option.splits prod.splits dest: all watch)
      (erule watch [OF all], assumption)+
qed

lemma processADS_step: "I s \<Longrightarrow> processADS_step srv env ch e s = (s', r) \<Longrightarrow> I s'"
  by (cases "(srv, env, ch, e, s)" rule: processADS_step.cases)
    (auto dest: processADS_request received split: option.splits prod.splits)

text \<open>A whole stream keeps an invariant that opening establishes and shutdown keeps.\<close>

lemma process:
  assumes run: "process srv env t events s = (s', r)"
    and opened: "\<And>s1 e. stream_open srv env t s = (s1, e) \<Longrightarrow> I s1"
    and shut: "\<And>s. I s \<Longrightarrow> I (shutdown srv s)"
  shows "I s'"
proof -
  obtain s1 e1 where o: "stream_open srv env t s = (s1, e1)" by (cases "stream_open srv env t s")
  have ok: "I s1" by (rule opened [OF o])
  have ads: "I s''" if "processADS srv env events s1 = (s'', x)" for s'' x
    using that select_loop_invariant [of I "processADS_step srv env (ss_chans s1)"] processADS_step
      frame_updates(3) [OF ok] unfolding processADS_def by blast
  have loop: "I s''"
    if "select_loop (process_step srv env t) events (set_watches recompute s1) = (s'', x)" for s'' x
    using that select_loop_invariant [of I "process_step srv env t"] process_step frame_updates(4) [OF ok] by blast
  show ?thesis
    using run ok unfolding process_def o
    by (auto split: if_splits option.splits prod.splits dest: ads loop intro: shut)
qed

end

interpretation nonces: stream_invariant srv env nonces_ok for srv env
proof
  fix s s' :: "('a, 'b, 'c) sotw_state" and req e
  assume ok: "nonces_ok s" and o: "onStreamRequest srv req s = (s', e)"
  from ok show "nonces_ok s'" by (simp add: nonces_ok_def onStreamRequest_frame(1) [OF o])
qed (auto intro: nonces_ok_send nonces_ok_frame)

lemma nonces_ok_process:
  assumes "process srv env t events s = (s', r)"
  shows "nonces_ok s'"
  using assms nonces_ok_open
  by (rule nonces.process) (auto simp: shutdown_def Let_def nonces_ok_def split: option.splits)

text \<open>C37: the nonces of a state-of-the-world stream. However the events of a stream interleave, with
  either loop, the responses passed to \<open>Send\<close> carry the nonces 1, 2, 3, \<dots> in order, so that two
  responses of one stream have the same nonce only if a multiple of \<open>2 ^ 64\<close> responses lie between.\<close>

theorem stream_nonces:
  assumes "process srv env typeURL events s = (s', r)"
    and "i < length (sw_sent (ss_stream s'))" and "j < length (sw_sent (ss_stream s'))"
  shows "resp_Nonce (sw_sent (ss_stream s') ! i) = FormatInt (of_nat (Suc i)) \<and>
    (resp_Nonce (sw_sent (ss_stream s') ! i) = resp_Nonce (sw_sent (ss_stream s') ! j) \<longleftrightarrow>
     i mod 2 ^ 64 = j mod 2 ^ 64)"
proof -
  have ok: "nonces_ok s'" by (rule nonces_ok_process [OF assms(1)])
  have n: "resp_Nonce (sw_sent (ss_stream s') ! k) = FormatInt (of_nat (Suc k))"
    if "k < length (sw_sent (ss_stream s'))" for k using ok that by (simp add: nonces_ok_def)
  have "(of_nat (Suc i) :: 64 word) = of_nat (Suc j) \<longleftrightarrow> (of_nat i :: 64 word) = of_nat j" by simp
  also have "\<dots> \<longleftrightarrow> i mod 2 ^ 64 = j mod 2 ^ 64"
    by (simp add: word_of_nat_eq_iff take_bit_eq_mod)
  finally show ?thesis using n [OF assms(2)] n [OF assms(3)] by simp
qed

subsection \<open>A concrete stream\<close>

text \<open>A linear cache with one resource, and a client that subscribes to it and receives it.\<close>

definition ext_marshal :: marshaler where
  "ext_marshal r = Inr [7]"

definition ext_res :: Resource where
  "ext_res = MNamed ''M'' ''a'' ''body''"

definition ext_cache :: LinearCache where
  "ext_cache = NewLinearCache ext_marshal ''T'' [WithInitialResources [(''a'', ext_res)]]"

definition ext_server :: "(LinearCache, cancel, unit) sotw_server" where
  "ext_server = sotw_NewServer linear_cache None []"

definition ext_env :: stream_env where
  "ext_env = \<lparr>env_marshal = ext_marshal, env_Send = (\<lambda>sent r. None), env_Context = Background\<rparr>"

definition ext_request :: "string \<Rightarrow> DiscoveryRequest" where
  "ext_request nonce = \<lparr>req_VersionInfo = '''', req_Node = None, req_ResourceNames = [''a''],
     req_TypeUrl = ''T'', req_ResponseNonce = nonce, req_ErrorDetail = None\<rparr>"

definition ext_state :: "(LinearCache, cancel, unit) sotw_state" where
  "ext_state = \<lparr>ss_cache = ext_cache, ss_callbacks = (), ss_streamCount = 0, ss_chans = 0,
     ss_pending = [],
     ss_stream = \<lparr>sw_ID = 0, sw_nonce = 0, sw_watches = sotw_newWatches, sw_node = None, sw_sent = []\<rparr>\<rparr>"

definition ext_events :: "stream_event list" where
  "ext_events = [SelectRequest (Some (Some (ext_request ''''))), SelectResponse 2]"

definition ext_cached :: cachedResource where
  "ext_cached = (newCachedResource ext_marshal ''a'' ext_res '''')\<lparr>cr_cacheVersion := ''0''\<rparr>"

lemma ext_cache_eq: "ext_cache = \<lparr>lc_typeURL = ''T'', lc_resources = [(''a'', ext_cached)],
    lc_resourceWatches = [], lc_prefixWatches = [], lc_wildcardWatches = [], lc_currentWatchID = 0,
    lc_version = 0, lc_versionPrefix = '''', lc_watchCount = 0\<rparr>"
  by (simp add: ext_cache_def NewLinearCache_def ext_cached_def lc_getVersion_def FormatUint_def
      dec_nat.simps Let_def)

lemma ext_cached_fields [simp]:
  "cr_cacheVersion ext_cached = ''0''" "cr_resource ext_cached = ext_res" "cr_ttl ext_cached = None"
  "cr_marshalFunc ext_cached = Inr [7]"
  by (simp_all add: ext_cached_def ext_marshal_def)

definition ext_sub :: Subscription where
  "ext_sub = \<lparr>sub_wildcard = False, sub_allowLegacyWildcard = False,
     sub_subscribedResourceNames = [''a''], sub_subscribedPrefixes = [], sub_returnedResources = []\<rparr>"

lemma ext_sub_eq: "NewSotwSubscription [''a''] True = ext_sub"
  by (simp add: NewSotwSubscription_def SetResourceSubscription_def newSubscription_def ext_sub_def
      classify_name_def explicitWildcard_def globSuffix_def HasSuffix_def set_add_def)

definition ext_response :: "DiscoveryRequest \<Rightarrow> RawResponse" where
  "ext_response req = \<lparr>raw_Request = Some req, raw_Version = ''0'', raw_resources = [ext_cached],
     raw_returnedResources = [(''a'', ''0'')], raw_Heartbeat = False, raw_Ctx = Background,
     raw_marshaledResponse = None\<rparr>"

lemma ext_create:
  "req_TypeUrl req = ''T'' \<Longrightarrow> req_VersionInfo req = '''' \<Longrightarrow>
     cw_CreateWatch linear_cache req ext_sub ch ext_cache =
       (ext_cache, [(ch, Some (RawR (ext_response req)))], Inr NoopCancel)"
  by (simp add: linear_cache_def lc_CreateWatch_def ext_cache_eq computeResponse_def
      computeResourceChange_def resourceChanged_def ext_sub_def ResourceRequiresFullStateInSotw_def
      type_url_defs subscribedInCache_def addReturned_def rw_buildResponse_def ext_response_def
      lc_getVersion_def FormatUint_def dec_nat.simps sotw_sends_def List.map_filter_def Let_def)

lemmas stream_eval =
  process_def stream_open_def sotw_NewServer_def applyOpts_def NewOpts_def IsLegacyWildcardActive_def
  process_request_def reassignNode_def onStreamRequest_def responder_def sotw_newWatches_def
  openWatch_def set_watches_def addWatch_def recompute_def process_response_def sotw_send_def
  responseMatchesCurrentSubscription_def GetDiscoveryResponse_def marshalTTLResource_def
  getMarshaledResource_def SetReturnedResources_def req_getTypeUrl_def

lemmas ext_defs = ext_server_def ext_env_def ext_request_def ext_state_def ext_events_def

definition ext_sent :: DiscoveryResponse where
  "ext_sent = \<lparr>resp_VersionInfo = ''0'', resp_Resources = [\<lparr>any_TypeUrl = ''T'', any_Value = [7]\<rparr>],
     resp_TypeUrl = ''T'', resp_Nonce = FormatInt 1\<rparr>"

lemma ext_run:
  "sw_sent (ss_stream (fst (process ext_server ext_env ''T'' ext_events ext_state))) = [ext_sent]"
  by (simp add: stream_eval ext_defs ext_sub_eq ext_create [unfolded ext_sub_def] AnyType_def ext_response_def ext_sub_def
      ext_sent_def Let_def)

theorem stream_nonces_witness:
  "resp_Nonce (sw_sent (ss_stream (fst (process ext_server ext_env ''T'' ext_events ext_state))) ! 0) =
     FormatInt 1"
proof -
  obtain s r where run: "process ext_server ext_env ''T'' ext_events ext_state = (s, r)" by force
  with ext_run have "length (sw_sent (ss_stream s)) = 1" by simp
  with stream_nonces [OF run, of 0 0] run show ?thesis by simp
qed

end
