(* ===== verification/Linear_Channel.thy ===== *)
theory Linear_Channel
  imports Sotw_Stream Linear_Properties
begin

text \<open>
  What the linear cache puts on one channel, and what its versions say about contents. These are the
  facts about the cache that the end-to-end properties of the stream servers rest on: a channel with at
  most one open watch gets at most one response, and a version string names the content a resource had
  when the cache had that version.
\<close>

section \<open>Definitions\<close>

fun watch_chan :: "watch \<Rightarrow> chan" where
  "watch_chan (SotwWatch w) = rw_Response w"
| "watch_chan (DeltaWatch w) = drw_Response w"

definition open_on :: "watch_table \<Rightarrow> chan \<Rightarrow> 64 word set" where
  "open_on T ch = {i. \<exists>w. T i = Some w \<and> watch_chan w = ch}"

text \<open>The sends of a notification loop over a list of watches.\<close>

definition due_sends :: "LinearCache \<Rightarrow> watches \<Rightarrow> sends" where
  "due_sends c ws = List.map_filter (\<lambda>(i, w).
     case computeResponse c w False of Inr (Some r) \<Rightarrow> Some (sendResponse w r) | _ \<Rightarrow> None) ws"

definition on_chan :: "chan \<Rightarrow> sends \<Rightarrow> WatchResponse list" where
  "on_chan ch out = map snd (filter (\<lambda>p. fst p = ch) out)"

text \<open>The version strings the cache has had.\<close>

definition old_versions :: "LinearCache \<Rightarrow> string set" where
  "old_versions c = {lc_versionPrefix c @ FormatUint k |k. k \<le> lc_version c}"

definition linear_versioned :: "LinearCache \<Rightarrow> bool" where
  "linear_versioned c \<longleftrightarrow>
     (\<forall>n r. map_of (lc_resources c) n = Some r \<longrightarrow> cr_cacheVersion r \<in> old_versions c \<and> cr_ttl r = None)"

section \<open>Lemmas\<close>

subsection \<open>Sends by channel\<close>

lemma fst_sendResponse [simp]: "fst (sendResponse w r) = watch_chan w"
  and snd_sendResponse [simp]: "snd (sendResponse w r) = r"
  by (cases w; simp)+

lemma due_sends_simps [simp]:
  "due_sends c [] = []"
  "due_sends c ((i, w) # ws) =
     (case computeResponse c w False of
        Inr (Some r) \<Rightarrow> sendResponse w r # due_sends c ws | _ \<Rightarrow> due_sends c ws)"
  by (simp_all add: due_sends_def map_filter_simps split: sum.splits option.splits)

lemma due_sends_cong:
  "(\<And>w. computeResponse c' w False = computeResponse c w False) \<Longrightarrow> due_sends c' ws = due_sends c ws"
  by (simp add: due_sends_def)

lemma notifyLoop_due_sends:
  assumes "notifyLoop close_watch ws c out = (c', out', None)"
  shows "out' = out @ due_sends c ws"
  using assms
proof (induction ws arbitrary: c out)
  case (Cons e ws)
  obtain i w where e: "e = (i, w)" by (cases e)
  have same: "computeResponse (close_watch i w c) v False = computeResponse c v False" for v
    by (rule computeResponse_cong) simp_all
  have close: "due_sends (close_watch i w c) ws = due_sends c ws" by (rule due_sends_cong [OF same])
  have step: "out' = (out @ [sendResponse w r]) @ due_sends c ws"
    if "notifyLoop close_watch ws (close_watch i w c) (out @ [sendResponse w r]) = (c', out', None)" for r
    using Cons.IH [OF that] close by simp
  from Cons.prems Cons.IH show ?case
    by (auto simp: e dest: step split: sum.splits option.splits)
qed simp

lemma on_chan_append [simp]: "on_chan ch (xs @ ys) = on_chan ch xs @ on_chan ch ys"
  and on_chan_Nil [simp]: "on_chan ch [] = []"
  by (simp_all add: on_chan_def)

lemma on_chan_due_sends:
  "on_chan ch (due_sends c ws) = on_chan ch (due_sends c (filter (\<lambda>(i, w). watch_chan w = ch) ws))"
  by (induction ws) (auto simp: on_chan_def split: sum.splits option.splits)

lemma filter_singleton:
  assumes "gomap_ok ws" and "\<And>j v. (j, v) \<in> set ws \<Longrightarrow> P v \<longleftrightarrow> j = i"
  shows "filter (\<lambda>(j, v). P v) ws = (case map_of ws i of None \<Rightarrow> [] | Some v \<Rightarrow> [(i, v)])"
  using assms
proof (induction ws)
  case (Cons e ws)
  obtain j v where e: "e = (j, v)" by (cases e)
  from Cons have IH: "filter (\<lambda>(j, v). P v) ws = (case map_of ws i of None \<Rightarrow> [] | Some v \<Rightarrow> [(i, v)])"
    by simp
  have "map_of ws i = None" if "j = i" using Cons.prems(1) e that by (simp add: map_of_in_dom)
  moreover have "P v \<longleftrightarrow> j = i" using Cons.prems(2) e by simp
  ultimately show ?case by (simp add: e IH)
qed simp

text \<open>A notification puts nothing on a channel without open watch, and on the channel of a single open
  watch its response if one is due.\<close>

lemma visits_on_chan:
  assumes vis: "visits c T ns ws e" and loop: "notifyLoop close_watch ws c [] = (c', out, None)"
  shows "open_on T ch = {} \<Longrightarrow> on_chan ch out = []"
    and "open_on T ch = {i} \<Longrightarrow> T i = Some w \<Longrightarrow>
      on_chan ch out =
        (if (i, w) \<in> set ws then (case computeResponse c w False of Inr (Some r) \<Rightarrow> [r] | _ \<Rightarrow> []) else [])"
proof -
  have out: "out = due_sends c ws" using notifyLoop_due_sends [OF loop] by simp
  have own: "T j = Some v" if "(j, v) \<in> set ws" for j v using vis that by (auto simp: visits_def)
  {
    assume none: "open_on T ch = {}"
    have "watch_chan v \<noteq> ch" if "(j, v) \<in> set ws" for j v
      using none own [OF that] by (auto simp: open_on_def)
    then have "filter (\<lambda>(j, v). watch_chan v = ch) ws = []" by (auto simp: filter_empty_conv)
    then show "on_chan ch out = []" unfolding out by (subst on_chan_due_sends) simp
  }
  assume one: "open_on T ch = {i}" and Ti: "T i = Some w"
  have wch: "watch_chan w = ch" using one Ti unfolding open_on_def by force
  have chan: "watch_chan v = ch \<longleftrightarrow> j = i" if "(j, v) \<in> set ws" for j v
    using one own [OF that] Ti wch by (auto simp: open_on_def)
  have ok: "gomap_ok ws" using vis by (simp add: visits_def)
  have mem: "map_of ws i = (if (i, w) \<in> set ws then Some w else None)"
  proof (cases "(i, w) \<in> set ws")
    case True
    then show ?thesis by (simp add: map_of_iff [OF ok])
  next
    case False
    then have "map_of ws i \<noteq> Some v" for v using own [of i v] Ti map_of_iff [OF ok, of i v] by auto
    then have "map_of ws i = None" by blast
    with False show ?thesis by simp
  qed
  have "filter (\<lambda>(j, v). watch_chan v = ch) ws = (case map_of ws i of None \<Rightarrow> [] | Some v \<Rightarrow> [(i, v)])"
    by (rule filter_singleton [OF ok]) (simp add: chan)
  then show "on_chan ch out =
      (if (i, w) \<in> set ws then (case computeResponse c w False of Inr (Some r) \<Rightarrow> [r] | _ \<Rightarrow> []) else [])"
    unfolding out on_chan_due_sends [of ch c ws] mem
    by (cases "(i, w) \<in> set ws") (simp_all add: on_chan_def wch split: sum.splits option.splits)
qed

subsection \<open>Versions and contents\<close>

lemma old_versions_current [simp]: "lc_getVersion c \<in> old_versions c"
  by (auto simp: old_versions_def lc_getVersion_def)

lemma old_versions_mono:
  assumes "lc_versionPrefix c' = lc_versionPrefix c" and "lc_version c \<le> lc_version c'"
  shows "old_versions c \<subseteq> old_versions c'"
  using assms order_trans by (fastforce simp: old_versions_def)

lemma new_version_fresh:
  assumes "lc_versionPrefix c' = lc_versionPrefix c" and "lc_version c' = lc_version c + 1"
    and "lc_version c + 1 \<noteq> 0"
  shows "lc_getVersion c' \<notin> old_versions c"
  using assms word_less_inc [OF assms(3)] by (auto simp: old_versions_def lc_getVersion_def)

lemma map_of_fold_update_cases:
  "map_of (fold (\<lambda>(n, x) m. AList.update n (f n x) m) ps m) k = Some y \<Longrightarrow>
     map_of m k = Some y \<or> (\<exists>x. y = f k x)"
proof (induction ps arbitrary: m)
  case (Cons p ps)
  from Cons.IH [of "AList.update (fst p) (f (fst p) (snd p)) m"] Cons.prems
  show ?case by (auto split: if_splits prod.splits)
qed simp

text \<open>A write gives a resource the new version or leaves it alone.\<close>

lemma linear_write_version:
  "lc_version (linear_write m op c) = lc_version c + 1"
  "lc_versionPrefix (linear_write m op c) = lc_versionPrefix c"
  "lc_typeURL (linear_write m op c) = lc_typeURL c"
  by (cases op; simp add: Let_def)+

lemma linear_write_resource:
  assumes "map_of (lc_resources (linear_write m op c)) n = Some r"
  shows "map_of (lc_resources c) n = Some r \<or>
    cr_cacheVersion r = lc_getVersion (linear_write m op c) \<and> cr_ttl r = None"
proof -
  have ver: "lc_getVersion (linear_write m op c) = lc_getVersion (c\<lparr>lc_version := lc_version c + 1\<rparr>)"
    by (simp add: lc_getVersion_def linear_write_version)
  have new: "cr_cacheVersion r = v \<and> cr_ttl r = None" if "r = newCachedResource m k x v" for k x v
    by (simp add: that)
  show ?thesis
    using assms unfolding ver
    by (cases op)
      (auto simp: Let_def map_of_fold_delete new split: if_splits dest!: map_of_fold_update_cases
        [where f = "\<lambda>n x. newCachedResource m n x v" for v])
qed

lemma linear_versioned_write:
  assumes "linear_versioned c" and "lc_version c + 1 \<noteq> 0"
  shows "linear_versioned (linear_write m op c)"
proof -
  have "lc_version c \<le> lc_version (linear_write m op c)"
    using word_less_inc [OF assms(2)] by (simp add: linear_write_version)
  then have "old_versions c \<subseteq> old_versions (linear_write m op c)"
    by (intro old_versions_mono) (simp_all add: linear_write_version)
  then show ?thesis
    using assms(1) linear_write_resource [of m op c] unfolding linear_versioned_def
    by (metis (no_types, lifting) old_versions_current subsetD)
qed

lemma linear_versioned_cong:
  "lc_resources c' = lc_resources c \<Longrightarrow> lc_version c' = lc_version c \<Longrightarrow>
     lc_versionPrefix c' = lc_versionPrefix c \<Longrightarrow> linear_versioned c' = linear_versioned c"
  by (simp add: linear_versioned_def old_versions_def)

lemma linear_versioned_new: "linear_versioned (NewLinearCache m U opts)"
proof -
  let ?P = "\<lambda>c. \<forall>n r. map_of (lc_resources c) n = Some r \<longrightarrow> cr_ttl r = None"
  have step: "?P c \<Longrightarrow> ?P (applyOption m opt c)" for opt c
    by (cases opt) (auto dest!: map_of_fold_update_cases [where f = "\<lambda>n x. newCachedResource m n x ''''"])
  define out where "out = fold (applyOption m) opts
     \<lparr>lc_typeURL = U, lc_resources = [], lc_resourceWatches = [], lc_prefixWatches = [],
      lc_wildcardWatches = [], lc_currentWatchID = 0, lc_version = 0, lc_versionPrefix = '''',
      lc_watchCount = 0\<rparr>"
  have P: "?P out" unfolding out_def by (rule fold_keeps [where P = ?P]) (use step in auto)
  have new: "NewLinearCache m U opts = out\<lparr>lc_resources :=
      map (\<lambda>(n, r). (n, r\<lparr>cr_cacheVersion := lc_getVersion out\<rparr>)) (lc_resources out)\<rparr>"
    by (simp add: NewLinearCache_def out_def Let_def)
  have "lc_getVersion out \<in> old_versions (NewLinearCache m U opts)"
    unfolding new by (auto simp: old_versions_def lc_getVersion_def)
  then show ?thesis
    using P map_of_map_values [of "\<lambda>n r. r\<lparr>cr_cacheVersion := lc_getVersion out\<rparr>" "lc_resources out"]
    unfolding linear_versioned_def by (auto simp: new)
qed

end
