(* ===== verification/Linear_Stream.thy ===== *)
theory Linear_Stream
  imports Linear_Channel
begin

text \<open>
  A state-of-the-world stream (the unordered loop of \<open>src/pkg/server/sotw/v3/xds.go\<close>) on a linear cache,
  while other goroutines update the cache and other streams open and close watches on it. The watch of
  the stream is always in one of three phases: its response waits in its channel, it is open in the
  cache, or its response has been sent and the client has not answered yet.
\<close>

section \<open>Definitions\<close>

type_synonym 'u linear_state = "(LinearCache, cancel, 'u) sotw_state"

text \<open>
  \<open>linear_stream m srv env t mine s cs M\<close>: the state \<open>s\<close> is reached by the events of the stream and the
  operations of everyone else; \<open>mine\<close> are the channels the stream has made, \<open>cs\<close> the cancel functions
  handed out. Other streams use other channels and do not call this stream's cancel function.
  An update may report an error; \<open>M\<close> are the names whose last change was reported by such an update.
  The runs end when the version counter of the cache would wrap around, and when the loop returns.
\<close>

inductive linear_stream ::
  "marshaler \<Rightarrow> (LinearCache, cancel, 'u) sotw_server \<Rightarrow> stream_env \<Rightarrow> string \<Rightarrow> chan set \<Rightarrow>
     'u linear_state \<Rightarrow> cancel set \<Rightarrow> string set \<Rightarrow> bool" for m srv env t where
  ls_open: "srv_cache srv = linear_cache \<Longrightarrow>
    ss_cache s0 = NewLinearCache m U opts \<Longrightarrow> ss_pending s0 = [] \<Longrightarrow>
    stream_open srv env t s0 = (s, None) \<Longrightarrow>
    linear_stream m srv env t {} (set_watches recompute s) {} {}"
| ls_event: "linear_stream m srv env t mine s cs M \<Longrightarrow>
    process_step srv env t e s = (s', Continue) \<Longrightarrow>
    linear_stream m srv env t (mine \<union> {ss_chans s..<ss_chans s'}) s'
      (cs \<union> {w_cancel w |u w. responder s' u = Some w}) M"
| ls_update: "linear_stream m srv env t mine s cs M \<Longrightarrow>
    linear_apply m op (ss_cache s) = (c', out, e) \<Longrightarrow> lc_version (ss_cache s) + 1 \<noteq> 0 \<Longrightarrow>
    linear_stream m srv env t mine (s\<lparr>ss_cache := c', ss_pending := ss_pending s @ sotw_sends out\<rparr>) cs
      (missed op (ss_cache s) e M)"
| ls_other_watch: "linear_stream m srv env t mine s cs M \<Longrightarrow>
    lc_CreateWatch q sub ch (ss_cache s) = (c', out, Inr k) \<Longrightarrow>
    ch \<notin> mine \<Longrightarrow> ss_chans s \<le> n \<Longrightarrow> ch < n \<Longrightarrow>
    linear_stream m srv env t mine
      (s\<lparr>ss_cache := c', ss_pending := ss_pending s @ sotw_sends out, ss_chans := n\<rparr>) (insert k cs) M"
| ls_other_delta: "linear_stream m srv env t mine s cs M \<Longrightarrow>
    lc_CreateDeltaWatch dq sub ch (ss_cache s) = (c', out, Inr k) \<Longrightarrow>
    ch \<notin> mine \<Longrightarrow> ss_chans s \<le> n \<Longrightarrow> ch < n \<Longrightarrow>
    linear_stream m srv env t mine (s\<lparr>ss_cache := c', ss_chans := n\<rparr>) (insert k cs) M"
| ls_other_cancel: "linear_stream m srv env t mine s cs M \<Longrightarrow> k \<in> cs \<Longrightarrow>
    (\<And>u w. responder s u = Some w \<Longrightarrow> w_cancel w \<noteq> k) \<Longrightarrow>
    linear_stream m srv env t mine (s\<lparr>ss_cache := runCancel k (ss_cache s)\<rparr>) cs M"

text \<open>The content of a cached resource is in a response that was sent.\<close>

definition was_sent :: "('c, 'k, 'u) sotw_state \<Rightarrow> string \<Rightarrow> cachedResource \<Rightarrow> bool" where
  "was_sent s typeURL r \<longleftrightarrow>
     (\<exists>out\<in>set (sw_sent (ss_stream s)). \<exists>b. cr_marshalFunc r = Inr b \<and>
        \<lparr>any_TypeUrl = typeURL, any_Value = b\<rparr> \<in> set (resp_Resources out))"

text \<open>What is recorded as known: an old version, and if it is the current one, content that was sent
  or is among the resources \<open>extra\<close>.\<close>

definition known_ok :: "'u linear_state \<Rightarrow> cachedResource list \<Rightarrow> (string, string) gomap \<Rightarrow> bool" where
  "known_ok s extra known \<longleftrightarrow>
     (\<forall>n v. map_of known n = Some v \<longrightarrow>
        v \<in> old_versions (ss_cache s) \<and>
        (\<forall>r. map_of (lc_resources (ss_cache s)) n = Some r \<longrightarrow> cr_cacheVersion r = v \<longrightarrow>
           r \<in> set extra \<or> was_sent s (lc_typeURL (ss_cache s)) r))"

definition response_ok :: "'u linear_state \<Rightarrow> RawResponse \<Rightarrow> Subscription \<Rightarrow> bool" where
  "response_ok s r sub \<longleftrightarrow>
     (\<exists>q. raw_Request r = Some q \<and> req_TypeUrl q = lc_typeURL (ss_cache s)) \<and>
     raw_marshaledResponse r = None \<and> (\<forall>x\<in>set (raw_resources r). cr_ttl x = None) \<and>
     gomap_ok (raw_returnedResources r) \<and>
     (\<forall>n\<in>fst ` set (raw_returnedResources r). covers sub n) \<and>
     known_ok s (raw_resources r) (raw_returnedResources r)"

definition watch_token :: "64 word \<Rightarrow> watch \<Rightarrow> cancel" where
  "watch_token i w = (if wildcard_watch w then CancelWildcard i else CancelWatch i (getSubscription w))"

text \<open>The three phases.\<close>

definition waiting :: "watch_table \<Rightarrow> 'u linear_state \<Rightarrow> cancel sotw_watch \<Rightarrow> bool" where
  "waiting T s w \<longleftrightarrow> w_nonce w = '''' \<and> open_on T (w_response w) = {} \<and>
     (\<exists>r. channel_contents (w_response w) (ss_pending s) = [Some (RawR r)] \<and> response_ok s r (w_sub w))"

definition opened :: "watch_table \<Rightarrow> 'u linear_state \<Rightarrow> cancel sotw_watch \<Rightarrow> bool" where
  "opened T s w \<longleftrightarrow> w_nonce w = '''' \<and> channel_contents (w_response w) (ss_pending s) = [] \<and>
     (\<exists>i rw. T i = Some (SotwWatch rw) \<and> rw_subscription rw = w_sub w \<and>
        req_TypeUrl (rw_Request rw) = lc_typeURL (ss_cache s) \<and>
        open_on T (w_response w) = {i} \<and> w_cancel w = watch_token i (SotwWatch rw))"

definition answered :: "watch_table \<Rightarrow> 'u linear_state \<Rightarrow> cancel sotw_watch \<Rightarrow> bool" where
  "answered T s w \<longleftrightarrow> w_nonce w \<noteq> '''' \<and> channel_contents (w_response w) (ss_pending s) = [] \<and>
     open_on T (w_response w) = {}"

definition watch_inv :: "watch_table \<Rightarrow> 'u linear_state \<Rightarrow> cancel sotw_watch \<Rightarrow> bool" where
  "watch_inv T s w \<longleftrightarrow> subscription_ok (w_sub w) \<and>
     known_ok s [] (sub_returnedResources (w_sub w)) \<and>
     (waiting T s w \<or> opened T s w \<or> answered T s w)"

definition stream_inv :: "string set \<Rightarrow> watch_table \<Rightarrow> chan set \<Rightarrow> 'u linear_state \<Rightarrow> cancel set \<Rightarrow> bool" where
  "stream_inv M T mine s cs \<longleftrightarrow>
     run_inv M T (ss_cache s) cs \<and> linear_versioned (ss_cache s) \<and>
     (\<forall>i w. T i = Some w \<longrightarrow> watch_chan w < ss_chans s) \<and>
     (\<forall>p\<in>set (ss_pending s). fst p < ss_chans s) \<and> (\<forall>ch\<in>mine. ch < ss_chans s) \<and>
     (\<forall>i w. T i = Some w \<longrightarrow> watch_chan w \<in> mine \<longrightarrow>
        (\<exists>w'. responder s (lc_typeURL (ss_cache s)) = Some w' \<and> w_response w' = watch_chan w)) \<and>
     (\<forall>u w. responder s u = Some w \<longrightarrow>
        u = lc_typeURL (ss_cache s) \<and> w_response w \<in> mine \<and> w_cancel w \<in> cs \<and> watch_inv T s w) \<and>
     (\<forall>ch. CaseWatch ch \<in> set (ws_cases (sw_watches (ss_stream s))) \<longrightarrow>
        (\<exists>u w. responder s u = Some w \<and> w_response w = ch))"

section \<open>Lemmas\<close>

subsection \<open>Channels\<close>

lemma channel_contents_simps [simp]:
  "channel_contents ch [] = []"
  "channel_contents ch (p # ps) = (if fst p = ch then snd p # channel_contents ch ps else channel_contents ch ps)"
  "channel_contents ch (ps @ qs) = channel_contents ch ps @ channel_contents ch qs"
  by (simp_all add: channel_contents_def)

lemma channel_contents_empty: "\<forall>p\<in>set ps. fst p \<noteq> ch \<Longrightarrow> channel_contents ch ps = []"
  by (simp add: channel_contents_def filter_empty_conv)

lemma receive_Some:
  "receive ch ps = Some (x, ps') \<Longrightarrow>
     channel_contents ch ps = x # channel_contents ch ps' \<and>
     (\<forall>ch'. ch' \<noteq> ch \<longrightarrow> channel_contents ch' ps' = channel_contents ch' ps) \<and> set ps' \<subseteq> set ps"
proof (induction ps arbitrary: ps')
  case (Cons p ps)
  obtain d m where p: "p = (d, m)" by (cases p)
  show ?case
  proof (cases "d = ch")
    case True
    with Cons.prems p show ?thesis by auto
  next
    case False
    with Cons.prems p obtain ps2 where r: "receive ch ps = Some (x, ps2)" "ps' = (d, m) # ps2"
      by (auto split: option.splits)
    from Cons.IH [OF r(1)] r(2) False p show ?thesis by auto
  qed
qed simp

lemma channel_sotw_sends:
  "channel_contents ch (sotw_sends out) =
     List.map_filter (\<lambda>r. case r of WRaw r \<Rightarrow> Some (Some (RawR r)) | WDelta r \<Rightarrow> None) (on_chan ch out)"
proof (induction out)
  case (Cons p out)
  obtain d r where p: "p = (d, r)" by (cases p)
  with Cons.IH show ?case
    by (cases r) (auto simp: sotw_sends_def on_chan_def map_filter_simps)
qed (simp add: sotw_sends_def map_filter_simps)

lemma sotw_sends_chans: "p \<in> set (sotw_sends out) \<Longrightarrow> fst p \<in> fst ` set out"
proof (induction out)
  case (Cons x out)
  obtain d r where "x = (d, r)" by (cases x)
  with Cons show ?case by (cases r) (auto simp: sotw_sends_def map_filter_simps)
qed (simp add: sotw_sends_def map_filter_simps)

lemma open_on_mono: "T' \<subseteq>\<^sub>m T \<Longrightarrow> open_on T' ch \<subseteq> open_on T ch"
  unfolding open_on_def map_le_def by (smt (verit) Collect_mono domI)

lemma open_on_upd: "watch_chan w \<noteq> ch \<Longrightarrow> T i = None \<Longrightarrow> open_on (T(i \<mapsto> w)) ch = open_on T ch"
  by (auto simp: open_on_def)

subsection \<open>Known versions\<close>

lemma was_sent_mono:
  "set (sw_sent (ss_stream s)) \<subseteq> set (sw_sent (ss_stream s')) \<Longrightarrow> was_sent s t r \<Longrightarrow> was_sent s' t r"
  by (auto simp: was_sent_def)

text \<open>Nothing changes for the known versions when the resources stay.\<close>

lemma known_ok_frame:
  assumes "known_ok s extra K"
    and "lc_resources (ss_cache s') = lc_resources (ss_cache s)"
    and "old_versions (ss_cache s') = old_versions (ss_cache s)"
    and "lc_typeURL (ss_cache s') = lc_typeURL (ss_cache s)"
    and "set (sw_sent (ss_stream s)) \<subseteq> set (sw_sent (ss_stream s'))"
  shows "known_ok s' extra K"
  using assms was_sent_mono [OF assms(5)] unfolding known_ok_def by metis

text \<open>A write makes resources newer than everything known.\<close>

lemma known_ok_write:
  assumes K: "known_ok s extra K" and ov: "lc_version (ss_cache s) + 1 \<noteq> 0"
    and res: "lc_resources (ss_cache s') = lc_resources (linear_write m op (ss_cache s))"
    and ver: "lc_version (ss_cache s') = lc_version (ss_cache s) + 1"
    and pre: "lc_versionPrefix (ss_cache s') = lc_versionPrefix (ss_cache s)"
    and url: "lc_typeURL (ss_cache s') = lc_typeURL (ss_cache s)"
    and str: "ss_stream s' = ss_stream s"
  shows "known_ok s' extra K"
  unfolding known_ok_def
proof (intro allI impI conjI)
  let ?c = "ss_cache s" and ?c' = "ss_cache s'"
  fix n v assume n: "map_of K n = Some v"
  have old: "v \<in> old_versions ?c" using K n by (auto simp: known_ok_def)
  have "lc_version ?c \<le> lc_version ?c'" using word_less_inc [OF ov] ver by simp
  with old old_versions_mono [OF pre] show "v \<in> old_versions ?c'" by blast
  fix r assume r: "map_of (lc_resources ?c') n = Some r" "cr_cacheVersion r = v"
  have fresh: "lc_getVersion (linear_write m op ?c) \<notin> old_versions ?c"
    by (rule new_version_fresh [OF _ _ ov]) (simp_all add: linear_write_version)
  have "map_of (lc_resources ?c) n = Some r"
    using linear_write_resource [of m op ?c n r] r old fresh res by auto
  then have "r \<in> set extra \<or> was_sent s (lc_typeURL ?c) r" using K n r(2) unfolding known_ok_def by blast
  then show "r \<in> set extra \<or> was_sent s' (lc_typeURL ?c') r"
    by (simp add: was_sent_def url str)
qed

lemma known_ok_sub: "known_ok s extra K \<Longrightarrow> map_of K' \<subseteq>\<^sub>m map_of K \<Longrightarrow> known_ok s extra K'"
  unfolding known_ok_def map_le_def by (metis domI)

lemma response_ok_frame:
  assumes "response_ok s r sub" and "lc_typeURL (ss_cache s') = lc_typeURL (ss_cache s)"
    and "known_ok s (raw_resources r) (raw_returnedResources r) \<Longrightarrow>
         known_ok s' (raw_resources r) (raw_returnedResources r)"
  shows "response_ok s' r sub"
  using assms by (auto simp: response_ok_def)

text \<open>A response of the cache records only what it carries or what was known before.\<close>

lemma computeResponse_ok:
  assumes ok: "linear_ok (ss_cache s)" and ver: "linear_versioned (ss_cache s)"
    and sub: "subscription_ok (rw_subscription rw)"
    and known: "known_ok s [] (sub_returnedResources (rw_subscription rw))"
    and url: "req_TypeUrl (rw_Request rw) = lc_typeURL (ss_cache s)"
    and comp: "computeResponse (ss_cache s) (SotwWatch rw) reply = Inr (Some resp)"
  shows "\<exists>r. resp = WRaw r \<and> response_ok s r (rw_subscription rw)"
proof -
  let ?c = "ss_cache s" and ?w = "SotwWatch rw" and ?sub = "rw_subscription rw"
  have okR: "gomap_ok (lc_resources ?c)" using ok by (simp add: linear_ok_def)
  obtain ch rm rs K where change: "computeResourceChange ?c ?sub False = Inr (ch, rm)"
    and fold: "rfold (addReturned ?c False) (names_to_return ?c ?w ch) ([], sub_returnedResources ?sub) = Inr (rs, K)"
    and resp: "resp = buildResponse ?w rs rm (fold AList.delete rm K) (lc_getVersion ?c)"
    using comp by (rule computeResponse_Some) auto
  define r where "r = rw_buildResponse rw rs (fold AList.delete rm K) (lc_getVersion ?c)"
  have r: "resp = WRaw r" by (simp add: resp r_def)
  note A = rfold_addReturned [OF fold]
  have names: "set ch \<subseteq> set (names_to_return ?c ?w ch)"
    using names_to_return_covered(1) [OF okR, of ?w False ch rm] change by simp
  have view: "map_of (raw_returnedResources r) = linear_view ?c ?sub False"
    using response_returns_view [OF okR comp] by (simp add: r)
  have inr: "raw_resources r = map (\<lambda>n. the (map_of (lc_resources ?c) n)) (names_to_return ?c ?w ch)"
    using A by (simp add: r_def rw_buildResponse_def)
  have in_names: "map_of (lc_resources ?c) n \<noteq> None" if "n \<in> set (names_to_return ?c ?w ch)" for n
    using A that by (auto simp: cached_version_def split: option.splits)
  have "known_ok s (raw_resources r) (raw_returnedResources r)"
    unfolding known_ok_def
  proof (intro allI impI conjI)
    fix n v assume "map_of (raw_returnedResources r) n = Some v"
    then obtain x where cov: "covers ?sub n" and x: "map_of (lc_resources ?c) n = Some x" "cr_cacheVersion x = v"
      unfolding view by (auto simp: linear_view_def cached_version_def split: if_splits option.splits)
    show "v \<in> old_versions ?c" using ver x by (auto simp: linear_versioned_def)
    fix y assume y: "map_of (lc_resources ?c) n = Some y" "cr_cacheVersion y = v"
    show "y \<in> set (raw_resources r) \<or> was_sent s (lc_typeURL ?c) y"
    proof (cases "n \<in> set (names_to_return ?c ?w ch)")
      case True
      then show ?thesis using y by (force simp: inr)
    next
      case False
      then have "n \<notin> set ch" using names by blast
      then have "resourceChanged (sub_returnedResources ?sub) False n x \<noteq> Inr True"
        using computeResourceChange_Inr(1) [OF okR change] cov x(1) by blast
      moreover obtain b where "resourceChanged (sub_returnedResources ?sub) False n x = Inr b"
        using computeResourceChange_Inr(2) [OF okR change] cov x(1) by blast
      ultimately have "resourceChanged (sub_returnedResources ?sub) False n x = Inr False" by (cases b) auto
      then have "map_of (sub_returnedResources ?sub) n = Some v"
        using x(2) by (simp add: resourceChanged_False)
      with known y show ?thesis by (auto simp: known_ok_def)
    qed
  qed
  moreover have "\<forall>x\<in>set (raw_resources r). cr_ttl x = None"
    using ver in_names by (auto simp: inr linear_versioned_def)
  moreover have "gomap_ok (raw_returnedResources r)"
    using A sub by (simp add: r_def rw_buildResponse_def subscription_ok_def gomap_ok_fold_delete)
  moreover have "covers ?sub n" if "n \<in> fst ` set (raw_returnedResources r)" for n
    using that view map_of_eq_None_iff [of "raw_returnedResources r" n]
    by (auto simp: linear_view_def split: if_splits)
  moreover have "raw_Request r = Some (rw_Request rw)" "raw_marshaledResponse r = None"
    by (simp_all add: r_def rw_buildResponse_def)
  ultimately show ?thesis using r url unfolding response_ok_def by blast
qed

text \<open>A response that answers its watch is never taken for a stale one.\<close>

lemma response_ok_matches:
  "response_ok s r sub \<Longrightarrow> responseMatchesCurrentSubscription (RawR r) sub"
  unfolding response_ok_def responseMatchesCurrentSubscription_def
  by (auto simp: list_all_iff covers_def matchesAnyPrefix_def)

text \<open>The resources of a response end up in the message that is sent.\<close>

lemma GetDiscoveryResponse_resources:
  assumes "response_GetDiscoveryResponse m (RawR r) = Inr (Some out)"
    and "response_ok s r sub" and "x \<in> set (raw_resources r)"
  shows "\<exists>b. cr_marshalFunc x = Inr b \<and>
    \<lparr>any_TypeUrl = lc_typeURL (ss_cache s), any_Value = b\<rparr> \<in> set (resp_Resources out)"
proof -
  let ?f = "\<lambda>x. case marshalTTLResource m r x of
      Inl e \<Rightarrow> Inl (Wrapf ''processing %s: %w'' [GetResourceName (cr_resource x)] e) | Inr a \<Rightarrow> Inr a"
  have memo: "raw_marshaledResponse r = None" and ttl: "cr_ttl x = None"
    and url: "req_getTypeUrl (raw_Request r) = lc_typeURL (ss_cache s)"
    using assms(2,3) by (auto simp: response_ok_def req_getTypeUrl_def)
  have "rmap ?f (raw_resources r) = Inr (resp_Resources out)"
    using assms(1) memo by (auto simp: GetDiscoveryResponse_def Let_def split: sum.splits)
  with assms(3) obtain y where y: "y \<in> set (resp_Resources out)" "?f x = Inr y"
    using rmap_member by force
  then have "marshalTTLResource m r x = Inr y" by (auto split: sum.splits)
  with y(1) ttl url show ?thesis
    by (auto simp: marshalTTLResource_def getMarshaledResource_def Let_def split: sum.splits)
qed

subsection \<open>The invariant under operations on the cache\<close>

lemma watch_inv_frame:
  assumes "watch_inv T s w"
    and "\<And>extra K. known_ok s extra K \<Longrightarrow> known_ok s' extra K"
    and "lc_typeURL (ss_cache s') = lc_typeURL (ss_cache s)"
    and "channel_contents (w_response w) (ss_pending s') = channel_contents (w_response w) (ss_pending s)"
    and "open_on T' (w_response w) = open_on T (w_response w)"
    and "\<And>i. i \<in> open_on T (w_response w) \<Longrightarrow> T' i = T i"
  shows "watch_inv T' s' w"
proof -
  have "response_ok s' r sub" if "response_ok s r sub" for r sub
    using response_ok_frame [OF that assms(3)] assms(2) by blast
  then have "waiting T s w \<Longrightarrow> waiting T' s' w" "opened T s w \<Longrightarrow> opened T' s' w"
    "answered T s w \<Longrightarrow> answered T' s' w"
    using assms(3-6) by (auto simp: waiting_def opened_def answered_def)
  then show ?thesis using assms(1,2) by (auto simp: watch_inv_def)
qed

lemma trackWatch_frame:
  assumes "trackWatch c w = (c', r)"
  shows "lc_version c' = lc_version c" "lc_versionPrefix c' = lc_versionPrefix c"
    "lc_typeURL c' = lc_typeURL c" "lc_resources c' = lc_resources c"
  using assms by (auto simp: trackWatch_def nextWatchID_def Let_def split: if_splits)

lemma runCancel_frame [simp]:
  "lc_version (runCancel k c) = lc_version c" "lc_versionPrefix (runCancel k c) = lc_versionPrefix c"
  "lc_typeURL (runCancel k c) = lc_typeURL c" "lc_resources (runCancel k c) = lc_resources c"
  by (cases k; simp add: removeWildcardWatch_def removeWatch_def)+

text \<open>Creating a watch: an answer at once, or a new entry of the table.\<close>

lemma CreateWatch_cases:
  assumes inv: "run_inv M T c cs" and create: "lc_CreateWatch q sub ch c = (c', out, Inr k)"
  defines "w \<equiv> \<lparr>rw_Request = q, rw_Response = ch, rw_subscription = sub,
     rw_fullStateResponses = ResourceRequiresFullStateInSotw (lc_typeURL c)\<rparr>"
  obtains (answer) reply resp where "req_TypeUrl q = lc_typeURL c" "c' = c" "k = NoopCancel"
      "out = [(ch, resp)]" "computeResponse c (SotwWatch w) reply = Inr (Some resp)"
  | (track) i where "req_TypeUrl q = lc_typeURL c" "out = []" "T i = None"
      "run_inv M (T(i \<mapsto> SotwWatch w)) c' (insert k cs)" "k = watch_token i (SotwWatch w)"
      "lc_resources c' = lc_resources c" "lc_version c' = lc_version c"
      "lc_versionPrefix c' = lc_versionPrefix c" "lc_typeURL c' = lc_typeURL c"
proof -
  from create consider
    (a) reply resp where "req_TypeUrl q = lc_typeURL c" "c' = c" "k = NoopCancel"
      "out = [(ch, resp)]" "computeResponse c (SotwWatch w) reply = Inr (Some resp)"
    | (t) reply where "req_TypeUrl q = lc_typeURL c" "out = []"
      "computeResponse c (SotwWatch w) reply = Inr None" "trackWatch c (SotwWatch w) = (c', Inr k)"
    unfolding lc_CreateWatch_def Let_def w_def [symmetric]
    by (fastforce split: if_splits sum.splits option.splits prod.splits simp: w_def)
  then show thesis
  proof cases
    case a
    then show ?thesis by (rule answer)
  next
    case t
    let ?i = "lc_currentWatchID c + 1"
    note tr = trackWatch_Inr [OF t(4)]
    have "watch_index T c" using inv by (simp add: run_inv_def)
    then have "T ?i = None" using watch_index_fresh tr(1) by blast
    moreover have "k = watch_token ?i (SotwWatch w)" using tr(3) by (simp add: watch_token_def)
    ultimately show ?thesis
      using track [of ?i] t run_inv_track [OF inv t(3,4)] trackWatch_frame [OF t(4)] by blast
  qed
qed

lemma CreateDeltaWatch_cases:
  assumes inv: "run_inv M T c cs" and create: "lc_CreateDeltaWatch q sub ch c = (c', out, Inr k)"
  obtains (answer) "c' = c" "k = NilCancel"
  | (track) i w where "T i = None" "run_inv M (T(i \<mapsto> w)) c' (insert k cs)" "watch_chan w = ch"
      "lc_resources c' = lc_resources c" "lc_version c' = lc_version c"
      "lc_versionPrefix c' = lc_versionPrefix c" "lc_typeURL c' = lc_typeURL c"
proof -
  let ?w = "DeltaWatch \<lparr>drw_Request = q, drw_Response = ch, drw_subscription = sub\<rparr>"
  from create consider (a) "c' = c" "k = NilCancel"
    | (t) reply where "computeResponse c ?w reply = Inr None" "trackWatch c ?w = (c', Inr k)"
    unfolding lc_CreateDeltaWatch_def Let_def
    by (fastforce split: if_splits sum.splits option.splits prod.splits)
  then show thesis
  proof cases
    case a
    then show ?thesis by (rule answer)
  next
    case t
    have "watch_index T c" using inv by (simp add: run_inv_def)
    then have "T (lc_currentWatchID c + 1) = None"
      using watch_index_fresh trackWatch_Inr(1) [OF t(2)] by blast
    with track [OF _ run_inv_track [OF inv t]] trackWatch_frame [OF t(2)] show ?thesis by simp
  qed
qed

lemma stream_invI:
  assumes "run_inv M T (ss_cache s) cs" and "linear_versioned (ss_cache s)"
    and "\<And>i w. T i = Some w \<Longrightarrow> watch_chan w < ss_chans s"
    and "\<And>p. p \<in> set (ss_pending s) \<Longrightarrow> fst p < ss_chans s" and "\<And>ch. ch \<in> mine \<Longrightarrow> ch < ss_chans s"
    and "\<And>i w. T i = Some w \<Longrightarrow> watch_chan w \<in> mine \<Longrightarrow>
        \<exists>w'. responder s (lc_typeURL (ss_cache s)) = Some w' \<and> w_response w' = watch_chan w"
    and "\<And>u w. responder s u = Some w \<Longrightarrow>
        u = lc_typeURL (ss_cache s) \<and> w_response w \<in> mine \<and> w_cancel w \<in> cs \<and> watch_inv T s w"
    and "\<And>ch. CaseWatch ch \<in> set (ws_cases (sw_watches (ss_stream s))) \<Longrightarrow>
        \<exists>u w. responder s u = Some w \<and> w_response w = ch"
  shows "stream_inv M T mine s cs"
  using assms unfolding stream_inv_def by blast

lemma stream_invD:
  assumes "stream_inv M T mine s cs"
  shows "run_inv M T (ss_cache s) cs" and "linear_versioned (ss_cache s)"
    and "T i = Some v \<Longrightarrow> watch_chan v < ss_chans s"
    and "p \<in> set (ss_pending s) \<Longrightarrow> fst p < ss_chans s" and "ch \<in> mine \<Longrightarrow> ch < ss_chans s"
    and "T i = Some v \<Longrightarrow> watch_chan v \<in> mine \<Longrightarrow>
        \<exists>w'. responder s (lc_typeURL (ss_cache s)) = Some w' \<and> w_response w' = watch_chan v"
    and "responder s u = Some w \<Longrightarrow> u = lc_typeURL (ss_cache s)"
    and "responder s u = Some w \<Longrightarrow> w_response w \<in> mine"
    and "responder s u = Some w \<Longrightarrow> w_cancel w \<in> cs"
    and "responder s u = Some w \<Longrightarrow> watch_inv T s w"
    and "CaseWatch ch \<in> set (ws_cases (sw_watches (ss_stream s))) \<Longrightarrow>
        \<exists>u w. responder s u = Some w \<and> w_response w = ch"
  using assms unfolding stream_inv_def by blast+

text \<open>Another stream opens a watch or gets an answer on its own channel.\<close>

lemma stream_inv_other:
  assumes inv: "stream_inv M T mine s cs" and ch: "ch \<notin> mine" "ss_chans s \<le> n" "ch < n"
    and run: "run_inv M T' c' (insert k cs)"
    and T': "T' = T \<or> (\<exists>i w. T i = None \<and> T' = T(i \<mapsto> w) \<and> watch_chan w = ch)"
    and sends: "fst ` set out \<subseteq> {ch}"
    and frame: "lc_resources c' = lc_resources (ss_cache s)" "lc_version c' = lc_version (ss_cache s)"
      "lc_versionPrefix c' = lc_versionPrefix (ss_cache s)" "lc_typeURL c' = lc_typeURL (ss_cache s)"
  shows "stream_inv M T' mine (s\<lparr>ss_cache := c', ss_pending := ss_pending s @ sotw_sends out, ss_chans := n\<rparr>)
    (insert k cs)"
proof -
  let ?s = "s\<lparr>ss_cache := c', ss_pending := ss_pending s @ sotw_sends out, ss_chans := n\<rparr>"
  note I = stream_invD [OF inv]
  have resp: "responder ?s u = responder s u" for u by (simp add: responder_def)
  have known: "known_ok ?s extra K" if "known_ok s extra K" for extra K
    by (rule known_ok_frame [OF that]) (simp_all add: frame old_versions_def)
  have quiet: "channel_contents d (sotw_sends out) = []" if "d \<noteq> ch" for d
    using sends sotw_sends_chans that by (intro channel_contents_empty) blast
  have opn: "open_on T' d = open_on T d" if "d \<noteq> ch" for d
    using T' that open_on_upd by auto
  have same: "T' i = T i" if "i \<in> open_on T d" for i d using T' that by (auto simp: open_on_def)
  have old: "T i = Some v" if "T' i = Some v" "watch_chan v \<noteq> ch" for i v
    using T' that by (auto split: if_splits)
  show ?thesis
  proof (rule stream_invI)
    show "run_inv M T' (ss_cache ?s) (insert k cs)" using run by simp
    show "linear_versioned (ss_cache ?s)"
      using I(2) linear_versioned_cong [of c' "ss_cache s"] frame by simp
    show "watch_chan v < ss_chans ?s" if "T' i = Some v" for i v
      using old [OF that] I(3) [of i v] ch(2,3) by fastforce
    show "fst p < ss_chans ?s" if "p \<in> set (ss_pending ?s)" for p
      using that I(4) [of p] sotw_sends_chans [of p out] sends ch(2,3) by fastforce
    show "d < ss_chans ?s" if "d \<in> mine" for d using I(5) [OF that] ch(2) by simp
    show "\<exists>w'. responder ?s (lc_typeURL (ss_cache ?s)) = Some w' \<and> w_response w' = watch_chan v"
      if "T' i = Some v" "watch_chan v \<in> mine" for i v
      using I(6) [OF old [OF that(1)]] that(2) ch(1) unfolding resp by (auto simp: frame)
    show "u = lc_typeURL (ss_cache ?s) \<and> w_response w \<in> mine \<and> w_cancel w \<in> insert k cs \<and> watch_inv T' ?s w"
      if "responder ?s u = Some w" for u w
    proof -
      note r = that [unfolded resp]
      have ne: "w_response w \<noteq> ch" using I(8) [OF r] ch(1) by blast
      have "watch_inv T' ?s w"
        by (rule watch_inv_frame [OF I(10) [OF r] known _ _ opn [OF ne] same])
          (simp_all add: frame quiet [OF ne])
      with I(7-9) [OF r] show ?thesis by (simp add: frame)
    qed
    show "\<exists>u w. responder ?s u = Some w \<and> w_response w = d"
      if "CaseWatch d \<in> set (ws_cases (sw_watches (ss_stream ?s)))" for d
      using I(11) [of d] that unfolding resp by simp
  qed
qed

text \<open>Another stream closes a watch of its own.\<close>

lemma cancelled_le: "cancelled k T \<subseteq>\<^sub>m T"
  by (cases k) (auto simp: map_le_def)

lemma stream_inv_other_cancel:
  assumes inv: "stream_inv M T mine s cs" and k: "k \<in> cs"
    and other: "\<And>u w. responder s u = Some w \<Longrightarrow> w_cancel w \<noteq> k"
  shows "stream_inv M (cancelled k T) mine (s\<lparr>ss_cache := runCancel k (ss_cache s)\<rparr>) cs"
proof -
  let ?s = "s\<lparr>ss_cache := runCancel k (ss_cache s)\<rparr>" and ?T = "cancelled k T"
  note I = stream_invD [OF inv]
  have resp: "responder ?s u = responder s u" for u by (simp add: responder_def)
  have known: "known_ok ?s extra K" if "known_ok s extra K" for extra K
    by (rule known_ok_frame [OF that]) (simp_all add: old_versions_def)
  have old: "T i = Some v" if "?T i = Some v" for i v
    using that cancelled_le [of k T] unfolding map_le_def by (metis domI)
  have ok: "cancel_ok T (ss_cache s) k" using I(1) k by (simp add: run_inv_def)
  have same: "?T i = T i" if r: "responder s u = Some w" and i: "i \<in> open_on T (w_response w)" for u w i
  proof -
    have "opened T s w"
      using I(10) [OF r] i by (auto simp: watch_inv_def waiting_def answered_def)
    then obtain rw where rw: "T i = Some (SotwWatch rw)" "w_cancel w = watch_token i (SotwWatch rw)"
      using i by (auto simp: opened_def)
    with ok other [OF r] show ?thesis by (cases k) (auto simp: watch_token_def)
  qed
  have opn: "open_on ?T (w_response w) = open_on T (w_response w)" if "responder s u = Some w" for u w
    using same [OF that] open_on_mono [OF cancelled_le [of k T]] unfolding open_on_def by fastforce
  show ?thesis
  proof (rule stream_invI)
    show "run_inv M ?T (ss_cache ?s) cs" using run_inv_cancel [OF I(1) k] by simp
    show "linear_versioned (ss_cache ?s)"
      using I(2) linear_versioned_cong [of "runCancel k (ss_cache s)" "ss_cache s"] by simp
    show "watch_chan v < ss_chans ?s" if "?T i = Some v" for i v using I(3) [OF old [OF that]] by simp
    show "fst p < ss_chans ?s" if "p \<in> set (ss_pending ?s)" for p using I(4) that by simp
    show "d < ss_chans ?s" if "d \<in> mine" for d using I(5) [OF that] by simp
    show "\<exists>w'. responder ?s (lc_typeURL (ss_cache ?s)) = Some w' \<and> w_response w' = watch_chan v"
      if "?T i = Some v" "watch_chan v \<in> mine" for i v
      using I(6) [OF old [OF that(1)] that(2)] unfolding resp by simp
    show "u = lc_typeURL (ss_cache ?s) \<and> w_response w \<in> mine \<and> w_cancel w \<in> cs \<and> watch_inv ?T ?s w"
      if "responder ?s u = Some w" for u w
    proof -
      note r = that [unfolded resp]
      have "watch_inv ?T ?s w"
        by (rule watch_inv_frame [OF I(10) [OF r] known _ _ opn [OF r] same [OF r]]) simp_all
      with I(7-9) [OF r] show ?thesis by simp
    qed
    show "\<exists>u w. responder ?s u = Some w \<and> w_response w = d"
      if "CaseWatch d \<in> set (ws_cases (sw_watches (ss_stream ?s)))" for d
      using I(11) [of d] that unfolding resp by simp
  qed
qed

text \<open>An update: what is due on the channel of an open watch becomes its waiting response.\<close>

lemma close_visited_le: "close_visited c ws T \<subseteq>\<^sub>m T"
  by (auto simp: close_visited_def map_le_def split: if_splits)

text \<open>What an update does to a channel with one open watch: the watch stays open and nothing is sent, or a
  response is due, the watch is closed, and the response is sent.\<close>

lemma update_open_watch:
  assumes vis: "visits c T ns ws e" and loop: "notifyLoop close_watch ws c [] = (c', out, None)"
    and T: "open_on T ch = {i}" "T i = Some (SotwWatch rw)"
    and total: "(i, SotwWatch rw) \<in> set ws \<longrightarrow> (\<exists>x. computeResponse c (SotwWatch rw) False = Inr x)"
  obtains (kept) "open_on (close_visited c ws T) ch = {i}" "close_visited c ws T i = T i" "on_chan ch out = []"
  | (answered) resp where "open_on (close_visited c ws T) ch = {}"
      "computeResponse c (SotwWatch rw) False = Inr (Some resp)" "on_chan ch out = [resp]"
proof -
  let ?w = "SotwWatch rw" and ?T = "close_visited c ws T"
  note chan = visits_on_chan(2) [OF vis loop T]
  have "i \<in> open_on T ch" using T(1) by blast
  then have wch: "watch_chan ?w = ch" using T(2) unfolding open_on_def by simp
  have sub: "open_on ?T ch \<subseteq> {i}" unfolding T(1) [symmetric] by (rule open_on_mono [OF close_visited_le])
  show thesis
  proof (cases "(i, ?w) \<in> set ws \<longrightarrow> computeResponse c ?w False = Inr None")
    case True
    have Ti: "?T i = Some ?w" unfolding close_visited_Some [OF vis] using True T(2) by simp
    then have "i \<in> open_on ?T ch" using wch by (simp add: open_on_def)
    then have "open_on ?T ch = {i}" using sub by blast
    moreover have "on_chan ch out = []" using chan True by (cases "(i, ?w) \<in> set ws") simp_all
    ultimately show ?thesis using Ti T(2) by (intro kept) simp_all
  next
    case False
    then obtain x where x: "computeResponse c ?w False = Inr x" "x \<noteq> None" using total by auto
    then obtain resp where resp: "computeResponse c ?w False = Inr (Some resp)" by (cases x) simp_all
    have "?T i = None" unfolding close_visited_def using False by (subst if_P) blast+
    then have "i \<notin> open_on ?T ch" by (simp add: open_on_def)
    then have "open_on ?T ch = {}" using sub by blast
    moreover have "on_chan ch out = [resp]" using chan False resp by simp
    ultimately show ?thesis using resp by (intro answered)
  qed
qed

lemma watch_inv_update:
  assumes w: "watch_inv T s w" and idx: "watch_index T (ss_cache s)" and lok: "linear_ok (ss_cache s)"
    and lv: "linear_versioned (ss_cache s)" and ov: "lc_version (ss_cache s) + 1 \<noteq> 0"
    and vis: "visits (linear_write m op (ss_cache s)) T ns ws e"
    and loop: "notifyLoop close_watch ws (linear_write m op (ss_cache s)) [] = (c', out, None)"
    and fr: "lc_resources c' = lc_resources (linear_write m op (ss_cache s))"
      "lc_version c' = lc_version (linear_write m op (ss_cache s))"
      "lc_versionPrefix c' = lc_versionPrefix (linear_write m op (ss_cache s))"
      "lc_typeURL c' = lc_typeURL (linear_write m op (ss_cache s))"
  shows "watch_inv (close_visited (linear_write m op (ss_cache s)) ws T)
    (s\<lparr>ss_cache := c', ss_pending := ss_pending s @ sotw_sends out\<rparr>) w"
proof -
  let ?c = "linear_write m op (ss_cache s)" and ?ch = "w_response w"
  let ?T = "close_visited ?c ws T"
  let ?s1 = "s\<lparr>ss_cache := ?c\<rparr>" and ?s = "s\<lparr>ss_cache := c', ss_pending := ss_pending s @ sotw_sends out\<rparr>"
  have idx': "watch_index T ?c" using idx by simp
  have known1: "known_ok ?s1 extra K" if "known_ok s extra K" for extra K
    by (rule known_ok_write [OF that ov, where m = m and op = op]) (simp_all add: linear_write_version)
  have known2: "known_ok ?s extra K" if "known_ok ?s1 extra K" for extra K
    by (rule known_ok_frame [OF that]) (simp_all add: fr old_versions_def)
  note known = known2 [OF known1]
  have url: "lc_typeURL (ss_cache ?s) = lc_typeURL (ss_cache s)" by (simp add: fr linear_write_version)
  show ?thesis
  proof (cases "open_on T ?ch = {}")
    case True
    then have "channel_contents ?ch (sotw_sends out) = []" "open_on ?T ?ch = {}"
      using visits_on_chan(1) [OF vis loop] open_on_mono [OF close_visited_le [of ?c ws T], of ?ch]
      by (simp_all add: channel_sotw_sends map_filter_simps)
    with True show ?thesis using watch_inv_frame [OF w known url, of ?T] by simp
  next
    case False
    then obtain i rw where o: "w_nonce w = ''''" "channel_contents ?ch (ss_pending s) = []"
      "T i = Some (SotwWatch rw)" "rw_subscription rw = w_sub w"
      "req_TypeUrl (rw_Request rw) = lc_typeURL (ss_cache s)" "open_on T ?ch = {i}"
      using w by (auto simp: watch_inv_def waiting_def opened_def answered_def)
    have ws: "subscription_ok (w_sub w)" "known_ok s [] (sub_returnedResources (w_sub w))"
      using w by (auto simp: watch_inv_def)
    have "(i, SotwWatch rw) \<in> set ws \<longrightarrow> (\<exists>x. computeResponse ?c (SotwWatch rw) False = Inr x)"
      using visits_table(6) [OF idx' vis loop] by blast
    with vis loop o(6,3) show ?thesis
    proof (cases rule: update_open_watch)
      case kept
      then have "channel_contents ?ch (sotw_sends out) = []" by (simp add: channel_sotw_sends map_filter_simps)
      with kept(1,2) show ?thesis using watch_inv_frame [OF w known url, of ?T] o(6) by simp
    next
      case (answered resp)
      have "\<exists>r. resp = WRaw r \<and> response_ok ?s1 r (rw_subscription rw)"
        using computeResponse_ok [of ?s1 rw False resp] linear_ok_write [OF lok]
          linear_versioned_write [OF lv ov] ws known1 o answered(2) by (simp add: linear_write_version)
      then obtain r where r: "resp = WRaw r" "response_ok ?s1 r (w_sub w)" using o(4) by auto
      have "channel_contents ?ch (sotw_sends out) = [Some (RawR r)]"
        using answered(3) by (simp add: channel_sotw_sends map_filter_simps r)
      moreover have "response_ok ?s r (w_sub w)"
        by (rule response_ok_frame [OF r(2)]) (use url known2 in \<open>simp_all add: linear_write_version\<close>)
      ultimately show ?thesis
        using answered(1) o ws known unfolding watch_inv_def waiting_def by auto
    qed
  qed
qed

lemma stream_inv_notified:
  assumes inv: "stream_inv M T mine s cs" and op: "\<not> rejected op"
    and run: "notifyAll (linear_write m op (ss_cache s)) (linear_modified op (ss_cache s)) = (c', out, e)"
    and ov: "lc_version (ss_cache s) + 1 \<noteq> 0"
  obtains T' where "stream_inv (missed op (ss_cache s) e M) T' mine
    (s\<lparr>ss_cache := c', ss_pending := ss_pending s @ sotw_sends out\<rparr>) cs"
proof -
  let ?c = "linear_write m op (ss_cache s)"
    and ?s = "s\<lparr>ss_cache := c', ss_pending := ss_pending s @ sotw_sends out\<rparr>"
  note I = stream_invD [OF inv]
  have R: "watch_index T (ss_cache s)" "linear_ok (ss_cache s)" using I(1) by (auto simp: run_inv_def)
  have idx: "watch_index T ?c" using R(1) by simp
  obtain ws where vis: "visits ?c T (linear_modified op (ss_cache s)) ws e"
    and loop: "notifyLoop close_watch ws ?c [] = (c', out, None)"
    using idx run by (rule notifyAll_visits)
  let ?T = "close_visited ?c ws T"
  have fr: "lc_resources c' = lc_resources ?c" "lc_version c' = lc_version ?c"
    "lc_versionPrefix c' = lc_versionPrefix ?c" "lc_typeURL c' = lc_typeURL ?c"
    using notifyAll_frame [OF run] by auto
  have old: "T i = Some v" if "?T i = Some v" for i v using that close_visited_Some [OF vis] by blast
  have sent: "fst p < ss_chans s" if p: "p \<in> set out" for p
  proof -
    obtain i v r where "p = sendResponse v r" "(i, v) \<in> set ws"
      using p unfolding visits_table(7) [OF idx vis loop] by blast
    then show ?thesis using I(3) [of i v] vis by (auto simp: visits_def)
  qed
  have resp: "responder ?s u = responder s u" for u by (simp add: responder_def)
  have "stream_inv (missed op (ss_cache s) e M) ?T mine ?s cs"
  proof (rule stream_invI)
    show "run_inv (missed op (ss_cache s) e M) ?T (ss_cache ?s) cs" using run_inv_update [OF I(1) op vis loop] by simp
    show "linear_versioned (ss_cache ?s)"
      using linear_versioned_cong [of c' ?c] fr linear_versioned_write [OF I(2) ov] by simp
    show "watch_chan v < ss_chans ?s" if "?T i = Some v" for i v using I(3) [OF old [OF that]] by simp
    show "fst p < ss_chans ?s" if "p \<in> set (ss_pending ?s)" for p
      using that I(4) [of p] sent sotw_sends_chans [of p out] by auto
    show "d < ss_chans ?s" if "d \<in> mine" for d using I(5) [OF that] by simp
    show "\<exists>w'. responder ?s (lc_typeURL (ss_cache ?s)) = Some w' \<and> w_response w' = watch_chan v"
      if "?T i = Some v" "watch_chan v \<in> mine" for i v
      using I(6) [OF old [OF that(1)] that(2)] unfolding resp by (simp add: fr linear_write_version)
    show "u = lc_typeURL (ss_cache ?s) \<and> w_response w \<in> mine \<and> w_cancel w \<in> cs \<and> watch_inv ?T ?s w"
      if "responder ?s u = Some w" for u w
      using I(7-9) [OF that [unfolded resp]] watch_inv_update [OF I(10) [OF that [unfolded resp]] R I(2) ov vis loop fr]
      by (simp add: fr linear_write_version)
    show "\<exists>u w. responder ?s u = Some w \<and> w_response w = d"
      if "CaseWatch d \<in> set (ws_cases (sw_watches (ss_stream ?s)))" for d
      using I(11) [of d] that unfolding resp by simp
  qed
  then show thesis by (rule that)
qed

lemma stream_inv_update:
  assumes inv: "stream_inv M T mine s cs"
    and app: "linear_apply m op (ss_cache s) = (c', out, e)" and ov: "lc_version (ss_cache s) + 1 \<noteq> 0"
  shows "\<exists>T'. stream_inv (missed op (ss_cache s) e M) T' mine
    (s\<lparr>ss_cache := c', ss_pending := ss_pending s @ sotw_sends out\<rparr>) cs"
  using app
proof (cases rule: linear_apply_cases)
  case rejected
  with inv have "stream_inv (missed op (ss_cache s) e M) T mine
      (s\<lparr>ss_cache := c', ss_pending := ss_pending s @ sotw_sends out\<rparr>) cs"
    by (simp add: missed_def sotw_sends_def map_filter_simps)
  then show ?thesis by blast
next
  case notified
  from inv notified ov show ?thesis by (rule stream_inv_notified) blast
qed

subsection \<open>The invariant under the events of the stream\<close>

lemma stream_inv_open:
  assumes "ss_cache s0 = NewLinearCache m U opts" and "ss_pending s0 = []"
    and "stream_open srv env t s0 = (s, None)"
  shows "stream_inv {} Map.empty {} (set_watches recompute s) {}"
proof -
  have s: "ss_cache s = NewLinearCache m U opts" "ss_pending s = []"
    "sw_watches (ss_stream s) = sotw_newWatches"
    using assms by (auto simp: stream_open_def Let_def split: option.splits prod.splits)
  show ?thesis
    using run_inv_new [of m U opts] linear_versioned_new [of m U opts]
    by (intro stream_invI) (auto simp: s responder_def sotw_newWatches_def recompute_def)
qed

lemma stream_inv_same:
  assumes inv: "stream_inv M T mine s cs"
    and "ss_cache s' = ss_cache s" "ss_pending s' = ss_pending s" "ss_chans s' = ss_chans s"
      "sw_watches (ss_stream s') = sw_watches (ss_stream s)" "sw_sent (ss_stream s') = sw_sent (ss_stream s)"
  shows "stream_inv M T mine s' cs"
proof -
  have resp: "responder s' u = responder s u" for u using assms by (simp add: responder_def)
  have "known_ok s' extra K" if "known_ok s extra K" for extra K
    by (rule known_ok_frame [OF that]) (simp_all add: assms)
  then have "watch_inv T s w \<Longrightarrow> watch_inv T s' w" for w
    using watch_inv_frame [of T s w s' T] assms by simp
  then show ?thesis using inv assms unfolding stream_inv_def resp by simp
qed

text \<open>The waiting response is sent: its contents are on the wire and the watch is answered.\<close>

text \<open>A response that the loop receives is the one the watch was waiting for, and is sent and recorded.\<close>

lemma stream_inv_received:
  assumes inv: "stream_inv M T mine s cs" and sel: "CaseWatch ch \<in> set (ws_cases (sw_watches (ss_stream s)))"
    and recv: "receive ch (ss_pending s) = Some (Some res, p')"
    and send: "sotw_send srv env (Some res) (s\<lparr>ss_pending := p'\<rparr>) = (s', None)"
  obtains w r out where "responder s (lc_typeURL (ss_cache s)) = Some w" "w_response w = ch" "response_ok s r (w_sub w)"
    "res = RawR r" "channel_contents ch p' = []" "open_on T ch = {}"
    "response_GetDiscoveryResponse (env_marshal env) (RawR r) = Inr (Some out)"
    "ss_cache s' = ss_cache s" "ss_pending s' = p'" "ss_chans s' = ss_chans s"
    "sw_sent (ss_stream s') = sw_sent (ss_stream s) @ [out\<lparr>resp_Nonce := FormatInt (sw_nonce (ss_stream s) + 1)\<rparr>]"
    "sw_watches (ss_stream s') = addWatch (lc_typeURL (ss_cache s))
       (w\<lparr>w_sub := SetReturnedResources (w_sub w) (raw_returnedResources r),
          w_nonce := FormatInt (sw_nonce (ss_stream s) + 1)\<rparr>) (sw_watches (ss_stream s))"
proof -
  note I = stream_invD [OF inv] and rec = receive_Some [OF recv]
  let ?U = "lc_typeURL (ss_cache s)"
  obtain w where w: "responder s ?U = Some w" "w_response w = ch" using I(11) [OF sel] I(7) by blast
  have "waiting T s w" using I(10) [OF w(1)] rec w(2) by (auto simp: watch_inv_def opened_def answered_def)
  then obtain r where r: "res = RawR r" "channel_contents ch p' = []" "response_ok s r (w_sub w)" "open_on T ch = {}"
    using rec w(2) unfolding waiting_def by auto
  obtain q where q: "raw_Request r = Some q" "req_TypeUrl q = ?U" using r(3) by (auto simp: response_ok_def)
  have w1: "responder (s\<lparr>ss_pending := p'\<rparr>) ?U = Some w" using w(1) by (simp add: responder_def)
  have match: "responseMatchesCurrentSubscription res (w_sub w)" using response_ok_matches [OF r(3)] r(1) by simp
  show thesis
    using send
  proof (cases rule: sotw_send_cases)
    case unchanged
    with q r(1) w1 match show ?thesis by auto
  next
    case (sent r' req w' out)
    have r': "r' = RawR r" using sent(1) r(1) by simp
    have "req = q" using sent(2) q(1) by (simp add: r')
    with sent(3) w1 q(2) have "req_TypeUrl req = ?U" "w' = w" by auto
    with sent(5-) w r show ?thesis by (intro that [of w r out]) (simp_all add: r')
  qed
qed

text \<open>The versions recorded with a response that was sent are known to the client.\<close>

lemma known_ok_sent:
  assumes r: "response_ok s r sub" and out: "response_GetDiscoveryResponse (env_marshal env) (RawR r) = Inr (Some out)"
    and cache: "ss_cache s' = ss_cache s"
    and sent: "sw_sent (ss_stream s') = sw_sent (ss_stream s) @ [out\<lparr>resp_Nonce := n\<rparr>]"
  shows "known_ok s' [] (raw_returnedResources r)"
  unfolding known_ok_def
proof (intro allI impI conjI)
  fix n v assume n: "map_of (raw_returnedResources r) n = Some v"
  have "known_ok s (raw_resources r) (raw_returnedResources r)" using r by (auto simp: response_ok_def)
  then have K: "known_ok s' (raw_resources r) (raw_returnedResources r)"
    by (rule known_ok_frame) (use cache sent in auto)
  then show "v \<in> old_versions (ss_cache s')" using n by (auto simp: known_ok_def)
  fix x assume x: "map_of (lc_resources (ss_cache s')) n = Some x" "cr_cacheVersion x = v"
  have "was_sent s' (lc_typeURL (ss_cache s)) x" if "x \<in> set (raw_resources r)"
    using GetDiscoveryResponse_resources [OF out r that] sent by (auto simp: was_sent_def)
  with K n x cache show "x \<in> set [] \<or> was_sent s' (lc_typeURL (ss_cache s')) x"
    unfolding known_ok_def by auto
qed

lemma stream_inv_response:
  assumes inv: "stream_inv M T mine s cs" and step: "process_response srv env i s = (s', Continue)"
  shows "stream_inv M T mine s' cs \<and> ss_chans s' = ss_chans s"
  using step
proof (cases rule: process_response_Continue)
  case idle
  with inv show ?thesis by simp
next
  case (received ch res p')
  note I = stream_invD [OF inv]
  let ?U = "lc_typeURL (ss_cache s)" and ?n = "FormatInt (sw_nonce (ss_stream s) + 1)"
  obtain w r out where w: "responder s ?U = Some w" "w_response w = ch"
    and r: "response_ok s r (w_sub w)" "channel_contents ch p' = []" "open_on T ch = {}"
    and out: "response_GetDiscoveryResponse (env_marshal env) (RawR r) = Inr (Some out)"
    and f: "ss_cache s' = ss_cache s" "ss_pending s' = p'" "ss_chans s' = ss_chans s"
    and sent: "sw_sent (ss_stream s') = sw_sent (ss_stream s) @ [out\<lparr>resp_Nonce := ?n\<rparr>]"
    and ws: "sw_watches (ss_stream s') = addWatch ?U
       (w\<lparr>w_sub := SetReturnedResources (w_sub w) (raw_returnedResources r), w_nonce := ?n\<rparr>) (sw_watches (ss_stream s))"
    by (rule stream_inv_received [OF inv received]) (rule that; assumption)
  let ?w' = "w\<lparr>w_sub := SetReturnedResources (w_sub w) (raw_returnedResources r), w_nonce := ?n\<rparr>"
  note resp = responder_addWatch [OF ws]
  have w': "watch_inv T s' ?w'"
    using I(10) [OF w(1)] known_ok_sent [OF r(1) out f(1) sent] r w(2) f(2)
    by (auto simp: watch_inv_def answered_def response_ok_def SetReturnedResources_def subscription_ok_def)
  have only: "u = ?U \<and> x = ?w'" if "responder s' u = Some x" for u x
    using that I(7) [of u] by (auto simp: resp split: if_splits)
  have "stream_inv M T mine s' cs"
  proof (rule stream_invI)
    show "fst p < ss_chans s'" if "p \<in> set (ss_pending s')" for p
      using I(4) [of p] receive_Some [OF received(2)] f(2,3) that by auto
    show "\<exists>w'. responder s' (lc_typeURL (ss_cache s')) = Some w' \<and> w_response w' = watch_chan v"
      if "T i = Some v" "watch_chan v \<in> mine" for i v
      using I(6) [OF that] w f(1) by (simp add: resp)
    show "u = lc_typeURL (ss_cache s') \<and> w_response x \<in> mine \<and> w_cancel x \<in> cs \<and> watch_inv T s' x"
      if "responder s' u = Some x" for u x
      using only [OF that] w' I(8,9) [OF w(1)] f(1) by simp
    show "\<exists>u x. responder s' u = Some x \<and> w_response x = d"
      if d: "CaseWatch d \<in> set (ws_cases (sw_watches (ss_stream s')))" for d
    proof -
      have "CaseWatch d \<in> set (ws_cases (sw_watches (ss_stream s)))" using d ws by (simp add: addWatch_def)
      then obtain x where "responder s ?U = Some x" "w_response x = d" using I(11) I(7) by blast
      with w(1) have "responder s' ?U = Some ?w' \<and> w_response ?w' = d" by (simp add: resp)
      then show ?thesis by blast
    qed
  qed (use I f in auto)
  with f(3) show ?thesis by simp
qed

text \<open>A new watch on a fresh channel, once nothing of the stream is open in the cache.\<close>

lemma returned_SetResourceSubscription:
  assumes "subscription_ok sub"
  shows "map_of (sub_returnedResources (SetResourceSubscription sub ns)) \<subseteq>\<^sub>m map_of (sub_returnedResources sub)"
  using assms map_of_filter_le [of "sub_returnedResources sub"]
  by (auto simp: SetResourceSubscription_def subscription_ok_def split: prod.splits)

lemma returned_NewSotwSubscription [simp]: "sub_returnedResources (NewSotwSubscription ns a) = []"
  by (auto simp: NewSotwSubscription_def SetResourceSubscription_def newSubscription_def split: prod.splits)

lemma watch_inv_created:
  fixes s :: "'u linear_state"
  assumes run: "run_inv M T c cs" and lv: "linear_versioned c"
    and chans: "\<And>i v. T i = Some v \<Longrightarrow> watch_chan v < ch" "\<And>p. p \<in> set (ss_pending s) \<Longrightarrow> fst p < ch"
    and create: "lc_CreateWatch q sub ch c = (c', out, Inr k)"
    and sub: "subscription_ok sub" and known: "known_ok s [] (sub_returnedResources sub)" and c: "ss_cache s = c"
  defines "s' \<equiv> s\<lparr>ss_cache := c', ss_pending := ss_pending s @ sotw_sends out\<rparr>"
  obtains T' where "run_inv M T' c' (insert k cs)"
    "\<And>s'' :: 'u linear_state. ss_cache s'' = c' \<Longrightarrow> ss_pending s'' = ss_pending s' \<Longrightarrow>
       sw_sent (ss_stream s'') = sw_sent (ss_stream s) \<Longrightarrow>
       watch_inv T' s'' \<lparr>w_cancel = k, w_response = ch, w_sub = sub, w_nonce = ''''\<rparr>"
    "linear_versioned c'" "lc_typeURL c' = lc_typeURL c" "req_TypeUrl q = lc_typeURL c"
    "\<And>i v. T' i = Some v \<Longrightarrow> watch_chan v = ch \<or> T i = Some v" "fst ` set out \<subseteq> {ch}"
  using run create
proof (cases rule: CreateWatch_cases)
  case (answer reply resp)
  let ?rw = "\<lparr>rw_Request = q, rw_Response = ch, rw_subscription = sub,
     rw_fullStateResponses = ResourceRequiresFullStateInSotw (lc_typeURL c)\<rparr>"
  have lok: "linear_ok c" using run by (simp add: run_inv_def)
  obtain r where r: "resp = WRaw r" "response_ok s r sub"
    using computeResponse_ok [of s ?rw reply resp] lok lv sub known answer(1,5) c by auto
  have old: "channel_contents ch (ss_pending s) = []" using chans(2) by (intro channel_contents_empty) force
  have none: "open_on T ch = {}" using chans(1) by (force simp: open_on_def)
  have wi: "watch_inv T s'' \<lparr>w_cancel = k, w_response = ch, w_sub = sub, w_nonce = ''''\<rparr>"
    if "ss_cache s'' = c'" "ss_pending s'' = ss_pending s'" "sw_sent (ss_stream s'') = sw_sent (ss_stream s)"
    for s'' :: "'u linear_state"
  proof -
    have k: "known_ok s'' extra K" if "known_ok s extra K" for extra K
      by (rule known_ok_frame [OF that]) (use \<open>ss_cache s'' = c'\<close> answer(2) c
          \<open>sw_sent (ss_stream s'') = sw_sent (ss_stream s)\<close> in auto)
    have "response_ok s'' r sub"
      by (rule response_ok_frame [OF r(2)]) (use that(1) answer(2) c k in auto)
    moreover have "channel_contents ch (ss_pending s'') = [Some (RawR r)]"
      using that(2) old answer(4) r(1) by (simp add: s'_def sotw_sends_def map_filter_simps)
    ultimately show ?thesis using sub k [OF known] none by (simp add: watch_inv_def waiting_def)
  qed
  have "run_inv M T c' (insert k cs)" using run answer(2,3) by (simp add: run_inv_def)
  then show thesis
    by (rule that [OF _ wi]) (use answer lv in auto)
next
  case (track i)
  let ?rw = "\<lparr>rw_Request = q, rw_Response = ch, rw_subscription = sub,
     rw_fullStateResponses = ResourceRequiresFullStateInSotw (lc_typeURL c)\<rparr>"
  let ?T = "T(i \<mapsto> SotwWatch ?rw)"
  have old: "channel_contents ch (ss_pending s) = []" using chans(2) by (intro channel_contents_empty) force
  have one: "open_on ?T ch = {i}" using chans(1) track(3) by (force simp: open_on_def)
  have wi: "watch_inv ?T s'' \<lparr>w_cancel = k, w_response = ch, w_sub = sub, w_nonce = ''''\<rparr>"
    if "ss_cache s'' = c'" "ss_pending s'' = ss_pending s'" "sw_sent (ss_stream s'') = sw_sent (ss_stream s)"
    for s'' :: "'u linear_state"
  proof -
    have "known_ok s'' [] (sub_returnedResources sub)"
      by (rule known_ok_frame [OF known]) (use that track c in \<open>auto simp: old_versions_def\<close>)
    moreover have "channel_contents ch (ss_pending s'') = []"
      using that(2) old track(2) by (simp add: s'_def sotw_sends_def map_filter_simps)
    ultimately show ?thesis
      using sub one track that(1) by (auto simp: watch_inv_def opened_def)
  qed
  have "linear_versioned c'" using lv linear_versioned_cong track by metis
  with track show thesis
    by (intro that [OF track(4) wi]) (auto split: if_splits)
qed

end
