(* ===== verification/Stream_Correctness.thy ===== *)
theory Stream_Correctness
  imports Linear_Stream
begin

text \<open>
  End-to-end properties of a state-of-the-world stream on a linear cache: the invariant of
  \<open>Linear_Stream\<close> holds in every reachable state, and what the client has been sent by then.
\<close>

section \<open>The invariant under requests\<close>

text \<open>Once its cancel function has run, no watch of the stream is open.\<close>

lemma stream_inv_none_open:
  assumes inv: "stream_inv M T mine s cs"
    and w: "responder s U = Some w" and v: "cancelled (w_cancel w) T i = Some v"
  shows "watch_chan v \<notin> mine"
proof
  assume m: "watch_chan v \<in> mine"
  note I = stream_invD [OF inv]
  have T: "T i = Some v" using v cancelled_le [of "w_cancel w" T] unfolding map_le_def by (metis domI)
  obtain w' where w': "responder s (lc_typeURL (ss_cache s)) = Some w'" "w_response w' = watch_chan v"
    using I(6) [OF T m] by blast
  have "w' = w" using w w'(1) I(7) [OF w] by simp
  then have i: "i \<in> open_on T (w_response w)" using T w'(2) by (auto simp: open_on_def)
  then have "opened T s w"
    using I(10) [OF w] by (auto simp: watch_inv_def waiting_def answered_def)
  then obtain rw where "w_cancel w = watch_token i (SotwWatch rw)" using i by (auto simp: opened_def)
  with v show False by (auto simp: watch_token_def split: if_splits)
qed

lemma known_ok_Nil [simp]: "known_ok s extra []"
  by (simp add: known_ok_def)

text \<open>The watch of the stream is closed, or there was none: the table and the subscription a new watch
  starts from.\<close>

lemma stream_inv_closed:
  fixes s :: "'u linear_state"
  assumes inv: "stream_inv M T mine s cs" and srv: "srv_cache srv = linear_cache"
    and prep: "case responder s U of
         None \<Rightarrow> c1 = ss_cache s \<and> sub = NewSotwSubscription ns a
       | Some w \<Rightarrow> c1 = cw_cancel (srv_cache srv) (w_cancel w) (ss_cache s) \<and>
           sub = SetResourceSubscription (w_sub w) ns \<and> fresh w"
    and U: "U = lc_typeURL (ss_cache s)"
  obtains T1 where "run_inv M T1 c1 cs" "T1 \<subseteq>\<^sub>m T" "\<And>i v. T1 i = Some v \<Longrightarrow> watch_chan v \<notin> mine"
    "linear_versioned c1" "lc_typeURL c1 = lc_typeURL (ss_cache s)"
    "subscription_ok sub" "known_ok (s\<lparr>ss_cache := c1\<rparr>) [] (sub_returnedResources sub)"
proof (cases "responder s U")
  case None
  note I = stream_invD [OF inv]
  have "watch_chan v \<notin> mine" if "T i = Some v" for i v using I(6) [OF that] None U by auto
  with None prep I(1,2) show ?thesis by (intro that [of T]) (auto simp: NewSotwSubscription_ok)
next
  case (Some w)
  note I = stream_invD [OF inv]
  have c1: "c1 = runCancel (w_cancel w) (ss_cache s)" and sub: "sub = SetResourceSubscription (w_sub w) ns"
    using prep Some srv by (auto simp: linear_cache_def)
  have wi: "subscription_ok (w_sub w)" "known_ok s [] (sub_returnedResources (w_sub w))"
    using I(10) [OF Some] by (auto simp: watch_inv_def)
  have "known_ok s [] (sub_returnedResources sub)"
    using known_ok_sub [OF wi(2)] returned_SetResourceSubscription [OF wi(1)] sub by blast
  then have "known_ok (s\<lparr>ss_cache := c1\<rparr>) [] (sub_returnedResources sub)"
    by (rule known_ok_frame) (simp_all add: c1 old_versions_def)
  moreover have "linear_versioned c1" using I(2) linear_versioned_cong [of c1 "ss_cache s"] by (simp add: c1)
  ultimately show ?thesis
    using that [of "cancelled (w_cancel w) T"] run_inv_cancel [OF I(1) I(9) [OF Some]] cancelled_le
      stream_inv_none_open [OF inv Some] wi(1) c1 sub by (simp add: SetResourceSubscription_ok)
qed

lemma CaseWatch_recompute:
  "CaseWatch d \<in> set (ws_cases (recompute W)) \<longleftrightarrow> (\<exists>u w. (u, w) \<in> set (ws_responders W) \<and> w_response w = d)"
  by (force simp: recompute_def)

text \<open>The responders are a map.\<close>

lemma responders_ok_step:
  assumes ok: "gomap_ok (ws_responders (sw_watches (ss_stream s)))"
    and step: "process_step srv env t e s = (s', Continue)"
  shows "gomap_ok (ws_responders (sw_watches (ss_stream s')))"
proof -
  have send: "gomap_ok (ws_responders (sw_watches (ss_stream s'')))"
    if "sotw_send srv env r (s\<lparr>ss_pending := p\<rparr>) = (s'', x)" for r p s'' x
    using that by (cases rule: sotw_send_cases) (use ok in \<open>auto simp: addWatch_def\<close>)
  from step show ?thesis
  proof (cases rule: process_step_Continue)
    case (request req)
    then show ?thesis
      by (cases rule: process_request_Continue) (use ok in \<open>auto simp: addWatch_def recompute_def\<close>)
  next
    case (response i)
    then show ?thesis by (cases rule: process_response_Continue) (use ok send in auto)
  qed
qed

text \<open>The watches of the cache after a request replaced the watch of its type by a new one.\<close>

lemma stream_inv_replaced:
  fixes s s' :: "'u linear_state"
  assumes inv: "stream_inv M T mine s cs" and srv: "srv_cache srv = linear_cache"
    and create: "lc_CreateWatch q sub (ss_chans s) c1 = (ss_cache s', out, Inr k)"
    and prep: "case responder s (req_TypeUrl q) of
         None \<Rightarrow> c1 = ss_cache s \<and> sub = NewSotwSubscription ns a
       | Some w \<Rightarrow> c1 = cw_cancel (srv_cache srv) (w_cancel w) (ss_cache s) \<and>
           sub = SetResourceSubscription (w_sub w) ns \<and> fresh w"
    and s': "ss_pending s' = ss_pending s @ sotw_sends out" "sw_sent (ss_stream s') = sw_sent (ss_stream s)"
  obtains T' where "req_TypeUrl q = lc_typeURL (ss_cache s)" "lc_typeURL (ss_cache s') = lc_typeURL (ss_cache s)"
    "run_inv M T' (ss_cache s') (insert k cs)" "linear_versioned (ss_cache s')"
    "watch_inv T' s' \<lparr>w_cancel = k, w_response = ss_chans s, w_sub = sub, w_nonce = ''''\<rparr>"
    "\<And>i v. T' i = Some v \<Longrightarrow> watch_chan v = ss_chans s \<or> watch_chan v < ss_chans s \<and> watch_chan v \<notin> mine"
    "fst ` set out \<subseteq> {ss_chans s}"
proof -
  note I = stream_invD [OF inv]
  have c1: "lc_typeURL c1 = lc_typeURL (ss_cache s)"
    using prep by (auto simp: srv linear_cache_def split: option.splits)
  have q: "req_TypeUrl q = lc_typeURL (ss_cache s)"
    using create c1 by (auto simp: lc_CreateWatch_def Let_def split: if_splits)
  obtain T1 where T1: "run_inv M T1 c1 cs" "T1 \<subseteq>\<^sub>m T" "\<And>i v. T1 i = Some v \<Longrightarrow> watch_chan v \<notin> mine"
    "linear_versioned c1" "subscription_ok sub" "known_ok (s\<lparr>ss_cache := c1\<rparr>) [] (sub_returnedResources sub)"
    by (rule stream_inv_closed [OF inv srv prep q]) blast
  have below: "watch_chan v < ss_chans s" if "T1 i = Some v" for i v
  proof -
    have "T i = Some v" using that T1(2) unfolding map_le_def by (metis domI)
    then show ?thesis by (rule I(3))
  qed
  show thesis
  proof (rule watch_inv_created [OF T1(1,4) below _ create T1(5,6)])
    fix T' assume T': "run_inv M T' (ss_cache s') (insert k cs)"
      "\<And>s'' :: 'u linear_state. ss_cache s'' = ss_cache s' \<Longrightarrow>
         ss_pending s'' = ss_pending (s\<lparr>ss_cache := c1, ss_cache := ss_cache s',
           ss_pending := ss_pending (s\<lparr>ss_cache := c1\<rparr>) @ sotw_sends out\<rparr>) \<Longrightarrow>
         sw_sent (ss_stream s'') = sw_sent (ss_stream (s\<lparr>ss_cache := c1\<rparr>)) \<Longrightarrow>
         watch_inv T' s'' \<lparr>w_cancel = k, w_response = ss_chans s, w_sub = sub, w_nonce = ''''\<rparr>"
      "linear_versioned (ss_cache s')" "lc_typeURL (ss_cache s') = lc_typeURL c1"
      "\<And>i v. T' i = Some v \<Longrightarrow> watch_chan v = ss_chans s \<or> T1 i = Some v" "fst ` set out \<subseteq> {ss_chans s}"
    have "watch_inv T' s' \<lparr>w_cancel = k, w_response = ss_chans s, w_sub = sub, w_nonce = ''''\<rparr>"
      by (rule T'(2)) (use s' in simp_all)
    moreover have "watch_chan v = ss_chans s \<or> watch_chan v < ss_chans s \<and> watch_chan v \<notin> mine" if "T' i = Some v" for i v
      using T'(5) [OF that] below T1(3) by blast
    ultimately show thesis using T'(1,3,4,6) c1 q by (intro that) simp_all
  qed (use I(4) in auto)
qed

lemma stream_inv_request:
  fixes s :: "'u linear_state"
  assumes inv: "stream_inv M T mine s cs" and srv: "srv_cache srv = linear_cache"
    and dist: "gomap_ok (ws_responders (sw_watches (ss_stream s)))"
    and step: "process_request srv t req s = (s', Continue)"
  shows "\<exists>T'. stream_inv M T' (mine \<union> {ss_chans s..<ss_chans s'}) s'
    (cs \<union> {w_cancel w |u w. responder s' u = Some w})"
  using step
proof (cases rule: process_request_Continue)
  case stale
  have "stream_inv M T mine s' cs" by (rule stream_inv_same [OF inv]) (use stale in auto)
  moreover have "cs \<union> {w_cancel w |u w. responder s' u = Some w} = cs"
    using stream_invD(9) [OF calculation] by blast
  ultimately show ?thesis using stale by auto
next
  case (watch q sub c1 out k)
  note I = stream_invD [OF inv]
  let ?ch = "ss_chans s" and ?U = "lc_typeURL (ss_cache s)"
  let ?w = "\<lparr>w_cancel = k, w_response = ?ch, w_sub = sub, w_nonce = ''''\<rparr>"
  obtain lout where create: "lc_CreateWatch q sub ?ch c1 = (ss_cache s', lout, Inr k)" and out: "out = sotw_sends lout"
    using watch(1) by (auto simp: srv linear_cache_def split: prod.splits)
  obtain T2 where q: "req_TypeUrl q = ?U" and U: "lc_typeURL (ss_cache s') = ?U"
    and T2: "run_inv M T2 (ss_cache s') (insert k cs)" "linear_versioned (ss_cache s')" "watch_inv T2 s' ?w"
    "\<And>i v. T2 i = Some v \<Longrightarrow> watch_chan v = ?ch \<or> watch_chan v < ?ch \<and> watch_chan v \<notin> mine" "fst ` set lout \<subseteq> {?ch}"
    using stream_inv_replaced [OF inv srv create watch(2) watch(3) [unfolded out] watch(5)] by blast
  have resp: "responder s' u = (if u = ?U then Some ?w else responder s u)" for u
    using watch(6) by (simp add: responder_def addWatch_def recompute_def q)
  have only: "u = ?U \<and> w = ?w" if "responder s' u = Some w" for u w
    using that I(7) [of u] by (auto simp: resp split: if_splits)
  have k: "cs \<union> {w_cancel w |u w. responder s' u = Some w} = insert k cs"
    using only resp [of ?U] by force
  have "stream_inv M T2 (insert ?ch mine) s' (insert k cs)"
  proof (rule stream_invI)
    show "watch_chan v < ss_chans s'" if "T2 i = Some v" for i v using T2(4) [OF that] watch(4) by auto
    show "fst p < ss_chans s'" if "p \<in> set (ss_pending s')" for p
      using that I(4) [of p] sotw_sends_chans [of p lout] T2(5) watch(3,4) out by fastforce
    show "d < ss_chans s'" if "d \<in> insert ?ch mine" for d using that I(5) [of d] watch(4) by auto
    show "\<exists>w'. responder s' (lc_typeURL (ss_cache s')) = Some w' \<and> w_response w' = watch_chan v"
      if "T2 i = Some v" "watch_chan v \<in> insert ?ch mine" for i v
      using T2(4) [OF that(1)] that(2) U by (auto simp: resp)
    show "u = lc_typeURL (ss_cache s') \<and> w_response x \<in> insert ?ch mine \<and> w_cancel x \<in> insert k cs \<and> watch_inv T2 s' x"
      if "responder s' u = Some x" for u x
      using only [OF that] T2(3) U by simp
    show "\<exists>u x. responder s' u = Some x \<and> w_response x = d"
      if d: "CaseWatch d \<in> set (ws_cases (sw_watches (ss_stream s')))" for d
    proof -
      let ?W = "AList.update ?U ?w (ws_responders (sw_watches (ss_stream s)))"
      obtain u x where "(u, x) \<in> set ?W" "w_response x = d"
        using d watch(6) by (auto simp: CaseWatch_recompute addWatch_def q)
      moreover have "gomap_ok ?W" using dist by simp
      ultimately have "map_of ?W u = Some x" by (simp only: map_of_iff)
      then have "responder s' u = Some x"
        unfolding responder_def watch(6) by (simp add: recompute_def addWatch_def q)
      with \<open>w_response x = d\<close> show ?thesis by blast
    qed
  qed (use T2 in auto)
  moreover have "mine \<union> {?ch..<ss_chans s'} = insert ?ch mine" using watch(4) by auto
  ultimately show ?thesis unfolding k by auto
qed

section \<open>Reachable states\<close>

lemma stream_inv_step:
  assumes T: "stream_inv M T mine s cs" and srv: "srv_cache srv = linear_cache"
    and ok: "gomap_ok (ws_responders (sw_watches (ss_stream s)))"
    and step: "process_step srv env t e s = (s', Continue)"
  shows "\<exists>T'. stream_inv M T' (mine \<union> {ss_chans s..<ss_chans s'}) s'
    (cs \<union> {w_cancel w |u w. responder s' u = Some w})"
  using step
proof (cases rule: process_step_Continue)
  case (request req)
  then show ?thesis by (rule stream_inv_request [OF T srv ok])
next
  case (response i)
  have R: "stream_inv M T mine s' cs" "ss_chans s' = ss_chans s"
    using stream_inv_response [OF T response] by auto
  moreover have "cs \<union> {w_cancel w |u w. responder s' u = Some w} = cs" using stream_invD(9) [OF R(1)] by blast
  ultimately show ?thesis by auto
qed

text \<open>Watches that other streams create on the cache.\<close>

lemma stream_inv_other_watch:
  assumes T: "stream_inv M T mine s cs" and create: "lc_CreateWatch q sub ch (ss_cache s) = (c', out, Inr k)"
    and ch: "ch \<notin> mine" "ss_chans s \<le> n" "ch < n"
  shows "\<exists>T'. stream_inv M T' mine (s\<lparr>ss_cache := c', ss_pending := ss_pending s @ sotw_sends out, ss_chans := n\<rparr>)
    (insert k cs)"
  using stream_invD(1) [OF T] create
proof (cases rule: CreateWatch_cases)
  case (answer reply resp)
  have "run_inv M T c' (insert k cs)" using stream_invD(1) [OF T] answer(2,3) by (simp add: run_inv_def)
  from stream_inv_other [OF T ch this, of out] answer show ?thesis by auto
next
  case (track i)
  from stream_inv_other [OF T ch track(4), of out] track show ?thesis by force
qed

lemma stream_inv_other_delta:
  assumes T: "stream_inv M T mine s cs" and create: "lc_CreateDeltaWatch dq sub ch (ss_cache s) = (c', out, Inr k)"
    and ch: "ch \<notin> mine" "ss_chans s \<le> n" "ch < n"
  shows "\<exists>T'. stream_inv M T' mine (s\<lparr>ss_cache := c', ss_chans := n\<rparr>) (insert k cs)"
proof -
  have "\<exists>T'. stream_inv M T' mine (s\<lparr>ss_cache := c', ss_pending := ss_pending s @ sotw_sends [], ss_chans := n\<rparr>) (insert k cs)"
    using stream_invD(1) [OF T] create
  proof (cases rule: CreateDeltaWatch_cases)
    case answer
    have "run_inv M T c' (insert k cs)" using stream_invD(1) [OF T] answer by (simp add: run_inv_def)
    from stream_inv_other [OF T ch this, of "[]"] answer show ?thesis by auto
  next
    case (track i w)
    from stream_inv_other [OF T ch track(2), of "[]"] track show ?thesis by force
  qed
  then show ?thesis by (simp add: sotw_sends_def map_filter_simps)
qed

theorem linear_stream_inv:
  "linear_stream m srv env t mine s cs M \<Longrightarrow>
     srv_cache srv = linear_cache \<and> gomap_ok (ws_responders (sw_watches (ss_stream s))) \<and>
     (\<exists>T. stream_inv M T mine s cs)"
proof (induction rule: linear_stream.induct)
  case (ls_open s0 U opts s)
  have "sw_watches (ss_stream s) = sotw_newWatches"
    using ls_open by (auto simp: stream_open_def Let_def split: option.splits prod.splits)
  then have "gomap_ok (ws_responders (sw_watches (ss_stream (set_watches recompute s))))"
    by (simp add: sotw_newWatches_def recompute_def)
  with ls_open stream_inv_open show ?case by blast
next
  case (ls_event mine s cs M e s')
  then obtain T where srv: "srv_cache srv = linear_cache"
    and ok: "gomap_ok (ws_responders (sw_watches (ss_stream s)))" and T: "stream_inv M T mine s cs" by blast
  with stream_inv_step [OF T srv ok ls_event.hyps(2)] responders_ok_step [OF ok ls_event.hyps(2)] show ?case by blast
next
  case (ls_update mine s cs M op c' out e)
  then obtain T where "stream_inv M T mine s cs" by blast
  then have "\<exists>T'. stream_inv (missed op (ss_cache s) e M) T' mine
      (s\<lparr>ss_cache := c', ss_pending := ss_pending s @ sotw_sends out\<rparr>) cs"
    using stream_inv_update ls_update.hyps by blast
  with ls_update.IH show ?case by simp
next
  case (ls_other_watch mine s cs M q sub ch c' out k n)
  then obtain T where T: "stream_inv M T mine s cs" by blast
  from stream_inv_other_watch [OF T ls_other_watch.hyps(2-5)] ls_other_watch.IH show ?case by simp
next
  case (ls_other_delta mine s cs M dq sub ch c' out k n)
  then obtain T where T: "stream_inv M T mine s cs" by blast
  from stream_inv_other_delta [OF T ls_other_delta.hyps(2-5)] ls_other_delta.IH show ?case by simp
next
  case (ls_other_cancel mine s cs M k)
  then obtain T where "stream_inv M T mine s cs" by blast
  then have "stream_inv M (cancelled k T) mine (s\<lparr>ss_cache := runCancel k (ss_cache s)\<rparr>) cs"
    by (rule stream_inv_other_cancel) (use ls_other_cancel.hyps in auto)
  with ls_other_cancel.IH show ?case by auto
qed

section \<open>What the client has been sent\<close>

text \<open>C1: On a stream with the unordered loop, a client whose watch is open and that has nothing queued is up
  to date: for every cached resource its subscription covers, whatever updates and other streams came
  in between (until the version counter of the cache wraps around), the current version is recorded as
  known and the current content has been sent on this stream. This excepts only a client that covers
  a name which an update that reported an error changed and no later update without error has
  changed again.\<close>

theorem linear_stream_up_to_date:
  assumes run: "linear_stream m srv env t mine s cs M"
    and w: "responder s U = Some w" and acked: "w_nonce w = ''''"
    and quiet: "channel_contents (w_response w) (ss_pending s) = []"
    and heard: "\<not> (\<exists>n\<in>M. covers (w_sub w) n)"
    and r: "map_of (lc_resources (ss_cache s)) n = Some r" and cov: "covers (w_sub w) n"
  shows "map_of (sub_returnedResources (w_sub w)) n = Some (cr_cacheVersion r) \<and>
    (\<exists>out\<in>set (sw_sent (ss_stream s)). \<exists>b. cr_marshalFunc r = Inr b \<and>
       \<lparr>any_TypeUrl = U, any_Value = b\<rparr> \<in> set (resp_Resources out))"
proof -
  obtain T where inv: "stream_inv M T mine s cs" using linear_stream_inv [OF run] by blast
  note I = stream_invD [OF inv]
  have wi: "watch_inv T s w" by (rule I(10) [OF w])
  then have "opened T s w" using acked quiet by (auto simp: watch_inv_def waiting_def answered_def)
  then obtain i rw where T: "T i = Some (SotwWatch rw)" "rw_subscription rw = w_sub w" by (auto simp: opened_def)
  have "linear_ok (ss_cache s)" and "computeResponse (ss_cache s) (SotwWatch rw) False = Inr None"
    using I(1) T heard by (auto simp: run_inv_def no_stale_def misses_def)
  then have "resourceChanged (sub_returnedResources (w_sub w)) False n r = Inr False"
    using computeResponse_None_iff [of "ss_cache s" "SotwWatch rw"] r cov T(2) by (simp add: linear_ok_def)
  then have known: "map_of (sub_returnedResources (w_sub w)) n = Some (cr_cacheVersion r)"
    by (simp add: resourceChanged_False)
  moreover have "was_sent s (lc_typeURL (ss_cache s)) r"
    using wi known r by (auto simp: watch_inv_def known_ok_def)
  ultimately show ?thesis using I(7) [OF w] by (simp add: was_sent_def)
qed

section \<open>Channels and watches of the stream\<close>

text \<open>A channel a stream has given up stays as it is; the current one holds what the invariant says.\<close>

lemma stream_inv_capacity:
  assumes inv: "stream_inv M T mine s cs" and w: "responder s U = Some w"
  shows "length (channel_contents (w_response w) (ss_pending s)) \<le> 1"
  using stream_invD(10) [OF inv w] by (auto simp: watch_inv_def waiting_def opened_def answered_def)

lemma linear_update_silent:
  assumes inv: "stream_inv M T mine s cs" and app: "linear_apply m op (ss_cache s) = (c', out, e)"
    and none: "open_on T ch = {}"
  shows "channel_contents ch (sotw_sends out) = []"
  using app
proof (cases rule: linear_apply_cases)
  case rejected
  then show ?thesis by (simp add: sotw_sends_def map_filter_simps)
next
  case notified
  have "watch_index T (linear_write m op (ss_cache s))" using stream_invD(1) [OF inv] by (simp add: run_inv_def)
  then obtain ws where "visits (linear_write m op (ss_cache s)) T (linear_modified op (ss_cache s)) ws e"
    "notifyLoop close_watch ws (linear_write m op (ss_cache s)) [] = (c', out, None)"
    using notified(2) by (rule notifyAll_visits)
  from visits_on_chan(1) [OF this none] show ?thesis by (simp add: channel_sotw_sends map_filter_simps)
qed

lemma none_open_elsewhere:
  assumes inv: "stream_inv M T mine s cs" and ch: "ch \<in> mine"
    and other: "\<And>u w. responder s u = Some w \<Longrightarrow> w_response w \<noteq> ch"
  shows "open_on T ch = {}"
  using stream_invD(6) [OF inv] ch other by (fastforce simp: open_on_def)

lemma capacity_event:
  assumes run: "linear_stream m srv env t mine s cs M" and step: "process_step srv env t e s = (s', Continue)"
    and old: "\<And>ch. ch \<in> mine \<Longrightarrow> length (channel_contents ch (ss_pending s)) \<le> 1"
    and ch0: "ch \<in> mine \<union> {ss_chans s..<ss_chans s'}"
  shows "length (channel_contents ch (ss_pending s')) \<le> 1"
proof -
  obtain T where T: "stream_inv M T mine s cs" and srv: "srv_cache srv = linear_cache"
    using linear_stream_inv [OF run] by blast
  obtain T' where T': "stream_inv M T' (mine \<union> {ss_chans s..<ss_chans s'}) s'
      (cs \<union> {w_cancel w |u w. responder s' u = Some w})"
    using linear_stream_inv [OF linear_stream.ls_event [OF run step]] by blast
  from step show ?thesis
  proof (cases rule: process_step_Continue)
    case (request req)
    then show ?thesis
    proof (cases rule: process_request_Continue)
      case stale
      with old ch0 show ?thesis by auto
    next
      case (watch q sub c1 out k)
      obtain lout where "lc_CreateWatch q sub (ss_chans s) c1 = (ss_cache s', lout, Inr k)" "out = sotw_sends lout"
        using watch(1) by (auto simp: srv linear_cache_def split: prod.splits)
      then have sends: "fst ` set out \<subseteq> {ss_chans s}"
        using sotw_sends_chans by (fastforce simp: lc_CreateWatch_def Let_def
            split: if_splits sum.splits option.splits prod.splits)
      show ?thesis
      proof (cases "ch = ss_chans s")
        case True
        have "responder s' (req_TypeUrl q) = Some \<lparr>w_cancel = k, w_response = ss_chans s, w_sub = sub, w_nonce = ''''\<rparr>"
          using watch(6) by (simp add: responder_def addWatch_def recompute_def)
        from stream_inv_capacity [OF T' this] True show ?thesis by simp
      next
        case False
        then have "channel_contents ch out = []" using sends by (intro channel_contents_empty) auto
        with old ch0 False watch(3,4) show ?thesis by auto
      qed
    qed
  next
    case (response i)
    have "ss_chans s' = ss_chans s" using stream_inv_response [OF T response] by simp
    then have ch: "ch \<in> mine" using ch0 by simp
    have "ss_pending s' = ss_pending s \<or> (\<exists>d x. receive d (ss_pending s) = Some (x, ss_pending s'))"
      using response
    proof (cases rule: process_response_Continue)
      case (received d res p')
      from received(3) have "ss_pending s' = p'" by (cases rule: sotw_send_cases) auto
      with received(2) show ?thesis by blast
    qed simp
    then have "length (channel_contents ch (ss_pending s')) \<le> length (channel_contents ch (ss_pending s))"
    proof (elim disjE exE)
      fix d x assume "receive d (ss_pending s) = Some (x, ss_pending s')"
      from receive_Some [OF this] show ?thesis by (cases "d = ch") auto
    qed simp
    with old [OF ch] show ?thesis by linarith
  qed
qed

text \<open>C6: The channels of a stream with the unordered loop never hold more than the one response their capacity
  allows, so neither the cache nor another stream is ever blocked on sending to this stream.\<close>

theorem linear_stream_capacity:
  assumes "linear_stream m srv env t mine s cs M" and "ch \<in> mine"
  shows "length (channel_contents ch (ss_pending s)) \<le> 1"
  using assms
proof (induction arbitrary: ch rule: linear_stream.induct)
  case (ls_event mine s cs M e s')
  then show ?case by (rule capacity_event)
next
  case (ls_update mine s cs M op c' out e)
  let ?s = "s\<lparr>ss_cache := c', ss_pending := ss_pending s @ sotw_sends out\<rparr>"
  obtain T where T: "stream_inv M T mine s cs" using linear_stream_inv [OF ls_update.hyps(1)] by blast
  obtain T' where T': "stream_inv (missed op (ss_cache s) e M) T' mine ?s cs"
    using linear_stream_inv [OF linear_stream.ls_update [OF ls_update.hyps]] by blast
  show ?case
  proof (cases "\<exists>u w. responder s u = Some w \<and> w_response w = ch")
    case True
    then obtain u w where w: "responder s u = Some w" "w_response w = ch" by blast
    then have "responder ?s u = Some w" by (simp add: responder_def)
    from stream_inv_capacity [OF T' this] w(2) show ?thesis by simp
  next
    case False
    then have "channel_contents ch (sotw_sends out) = []"
      using linear_update_silent [OF T ls_update.hyps(2) none_open_elsewhere [OF T ls_update.prems]] by blast
    with ls_update.IH [OF ls_update.prems] show ?thesis by simp
  qed
next
  case (ls_other_watch mine s cs M q sub d c' out k n)
  have "fst ` set out \<subseteq> {d}"
    using ls_other_watch.hyps(2) by (auto simp: lc_CreateWatch_def Let_def
        split: if_splits sum.splits option.splits prod.splits)
  then have "channel_contents ch (sotw_sends out) = []"
    using ls_other_watch.hyps(3) ls_other_watch.prems sotw_sends_chans by (intro channel_contents_empty) blast
  with ls_other_watch.IH ls_other_watch.prems show ?case by simp
qed auto

lemma map_of_single: "gomap_ok m \<Longrightarrow> (\<And>k v. map_of m k = Some v \<Longrightarrow> k = u) \<Longrightarrow> map_of m u = Some w \<Longrightarrow> m = [(u, w)]"
proof (induction m)
  case (Cons p m)
  obtain k v where p: "p = (k, v)" by (cases p)
  have "k = u" using Cons.prems(2) [of k v] p by simp
  moreover have "m = []"
  proof (rule ccontr)
    assume "m \<noteq> []"
    then obtain k' v' where m: "(k', v') \<in> set m" by (cases m) auto
    have "k' \<noteq> k" using Cons.prems(1) m p by (force simp: gomap_ok_def)
    moreover have "map_of (p # m) k' = Some v'" using m Cons.prems(1) by (simp only: map_of_iff) simp
    ultimately show False using Cons.prems(2) \<open>k = u\<close> by blast
  qed
  ultimately show ?case using Cons.prems(3) p by simp
qed simp

text \<open>C5: When a stream with the unordered loop ends, however it was used and whatever errors updates reported,
  the cache keeps no watch of it.\<close>

theorem linear_stream_shutdown:
  assumes run: "linear_stream m srv env t mine s cs M"
    and tracked: "tracked (ss_cache (shutdown srv s)) i v"
  shows "watch_chan v \<notin> mine"
proof -
  let ?rs = "ws_responders (sw_watches (ss_stream s))" and ?U = "lc_typeURL (ss_cache s)"
  obtain T where inv: "stream_inv M T mine s cs" and ok: "gomap_ok ?rs" and srv: "srv_cache srv = linear_cache"
    using linear_stream_inv [OF run] by blast
  note I = stream_invD [OF inv]
  have c: "ss_cache (shutdown srv s) = fold (\<lambda>(u, w) c. runCancel (w_cancel w) c) ?rs (ss_cache s)"
    by (simp add: shutdown_def watches_close_def watch_close_def srv linear_cache_def Let_def split: option.splits)
  show ?thesis
  proof (cases "responder s ?U")
    case None
    then have "map_of ?rs u = None" for u using I(7) [of u] by (cases "map_of ?rs u") (auto simp: responder_def)
    then have "?rs = []" by (cases ?rs) (force simp: fun_upd_def split: if_splits)+
    then have "T i = Some v"
      using c tracked I(1) tracked_iff [of T "ss_cache s"] by (simp add: run_inv_def)
    with I(6) [of i v] None show ?thesis by auto
  next
    case (Some w)
    have "u = ?U" if "map_of ?rs u = Some x" for u x by (rule I(7) [of u x]) (simp add: responder_def that)
    then have "?rs = [(?U, w)]" using map_of_single [OF ok] Some unfolding responder_def by blast
    then have "ss_cache (shutdown srv s) = runCancel (w_cancel w) (ss_cache s)" using c by simp
    then have "cancelled (w_cancel w) T i = Some v"
      using run_inv_cancel [OF I(1) I(9) [OF Some]] tracked tracked_iff by (auto simp: run_inv_def)
    then show ?thesis by (rule stream_inv_none_open [OF inv Some])
  qed
qed

section \<open>Delivery\<close>

text \<open>The select loop waits on the channel of every watch.\<close>

definition cases_ok :: "('c, 'k, 'u) sotw_state \<Rightarrow> bool" where
  "cases_ok s \<longleftrightarrow> (\<forall>u w. responder s u = Some w \<longrightarrow>
     CaseWatch (w_response w) \<in> set (ws_cases (sw_watches (ss_stream s))))"

lemma cases_ok_send:
  assumes "cases_ok s" and "sotw_send srv env r s = (s', x)"
  shows "cases_ok s'"
  using assms(2)
proof (cases rule: sotw_send_cases)
  case (sent r req w out)
  have "ws_cases (sw_watches (ss_stream s')) = ws_cases (sw_watches (ss_stream s))"
    unfolding sent(13) by (simp add: addWatch_def)
  with assms(1) sent(3) show ?thesis by (auto simp: cases_ok_def responder_addWatch [OF sent(13)] split: if_splits)
qed (use assms in simp)

lemma cases_ok_step:
  assumes ok: "cases_ok s" and step: "process_step srv env t e s = (s', Continue)"
  shows "cases_ok s'"
  using step
proof (cases rule: process_step_Continue)
  case (request req)
  then show ?thesis
  proof (cases rule: process_request_Continue)
    case stale
    with ok show ?thesis by (simp add: cases_ok_def responder_def)
  next
    case (watch q sub c1 out k)
    show ?thesis
      unfolding cases_ok_def responder_def watch(6) CaseWatch_recompute
      by (auto simp: recompute_def dest: map_of_SomeD)
  qed
next
  case (response i)
  then show ?thesis
  proof (cases rule: process_response_Continue)
    case (received ch res p')
    have "cases_ok (s\<lparr>ss_pending := p'\<rparr>)" using ok by (simp add: cases_ok_def responder_def)
    then show ?thesis using received(3) by (rule cases_ok_send)
  qed (use ok in simp)
qed

lemma linear_stream_cases_ok: "linear_stream m srv env t mine s cs M \<Longrightarrow> cases_ok s"
proof (induction rule: linear_stream.induct)
  case (ls_open s0 U opts s)
  then have "sw_watches (ss_stream s) = sotw_newWatches"
    by (auto simp: stream_open_def Let_def split: option.splits prod.splits)
  then show ?case by (simp add: cases_ok_def responder_def recompute_def sotw_newWatches_def)
qed (auto simp: cases_ok_def responder_def intro: cases_ok_step [unfolded cases_ok_def responder_def, rule_format])

lemma receive_ex: "channel_contents ch ps = x # xs \<Longrightarrow> \<exists>ps'. receive ch ps = Some (x, ps')"
proof (induction ps)
  case (Cons p ps)
  then show ?case by (cases p) (auto split: if_splits option.splits)
qed simp

text \<open>Sending a response that matches its watch.\<close>

lemma sotw_send_matching:
  assumes "GetRequest r = Some q" and "responder s (req_TypeUrl q) = Some w"
    and "responseMatchesCurrentSubscription r (w_sub w)"
  shows "case response_GetDiscoveryResponse (env_marshal env) r of
      Inl e \<Rightarrow> sotw_send srv env (Some r) s = (s, Some e)
    | Inr None \<Rightarrow> True
    | Inr (Some d) \<Rightarrow> sw_sent (ss_stream (fst (sotw_send srv env (Some r) s))) =
        sw_sent (ss_stream s) @ [d\<lparr>resp_Nonce := FormatInt (sw_nonce (ss_stream s) + 1)\<rparr>]"
  using assms by (auto simp: sotw_send_def Let_def split: sum.splits option.splits)

text \<open>The case of the select that receives a queued response.\<close>

lemma ready_response:
  assumes r: "channel_contents (w_response w) (ss_pending s) = [Some (RawR r)]"
    and i: "i < length (ws_cases (sw_watches (ss_stream s)))" "ws_cases (sw_watches (ss_stream s)) ! i = CaseWatch (w_response w)"
    and w: "responder s U = Some w" and q: "raw_Request r = Some q" "req_TypeUrl q = U"
    and match: "responseMatchesCurrentSubscription (RawR r) (w_sub w)"
  shows "case fst (GetDiscoveryResponse (env_marshal env) r) of
       Inl x \<Rightarrow> snd (process_response srv env i s) = Return (Some x)
     | Inr d \<Rightarrow> sw_sent (ss_stream (fst (process_response srv env i s))) =
         sw_sent (ss_stream s) @ [d\<lparr>resp_Nonce := FormatInt (sw_nonce (ss_stream s) + 1)\<rparr>]"
proof -
  obtain p' where p': "receive (w_response w) (ss_pending s) = Some (Some (RawR r), p')" using receive_ex [OF r] by blast
  let ?s = "s\<lparr>ss_pending := p'\<rparr>"
  have "responder ?s (req_TypeUrl q) = Some w" using w q by (simp add: responder_def)
  with sotw_send_matching [where r = "RawR r" and q = q and s = ?s and w = w and srv = srv and env = env] match q(1)
  have send: "case response_GetDiscoveryResponse (env_marshal env) (RawR r) of
      Inl e \<Rightarrow> sotw_send srv env (Some (RawR r)) ?s = (?s, Some e)
    | Inr None \<Rightarrow> True
    | Inr (Some d) \<Rightarrow> sw_sent (ss_stream (fst (sotw_send srv env (Some (RawR r)) ?s))) =
        sw_sent (ss_stream s) @ [d\<lparr>resp_Nonce := FormatInt (sw_nonce (ss_stream s) + 1)\<rparr>]"
    by (simp split: sum.splits option.splits)
  have step: "process_response srv env i s =
      (case sotw_send srv env (Some (RawR r)) ?s of
         (s, Some e) \<Rightarrow> (s, Return (Some e)) | (s, None) \<Rightarrow> (s, Continue))"
    using i p' by (simp add: process_response_def Let_def)
  show ?thesis using send unfolding step by (auto split: sum.splits option.splits prod.splits)
qed

text \<open>What becomes of a queued response when the loop takes a step.\<close>

lemma queued_step_request:
  fixes s s' :: "'u linear_state"
  assumes inv: "stream_inv M T mine s cs" and w: "responder s U = Some w" and srv: "srv_cache srv = linear_cache"
    and step: "process_request srv t q s = (s', Continue)"
  shows "ss_pending s' = ss_pending s \<and> responder s' U = Some w \<or>
    (\<exists>w'. responder s' U = Some w' \<and> w_response w' \<noteq> w_response w \<and> w_nonce w' = '''')"
  using step
proof (cases rule: process_request_Continue)
  case stale
  with w show ?thesis by (simp add: responder_def)
next
  case (watch q' sub c1 out k)
  note I = stream_invD [OF inv]
  have "lc_typeURL c1 = lc_typeURL (ss_cache s)"
    using watch(2) by (auto simp: srv linear_cache_def split: option.splits)
  then have "req_TypeUrl q' = lc_typeURL (ss_cache s)"
    using watch(1) by (auto simp: srv linear_cache_def lc_CreateWatch_def Let_def split: if_splits prod.splits)
  then have "req_TypeUrl q' = U" using I(7) [OF w] by simp
  then have "responder s' U = Some \<lparr>w_cancel = k, w_response = ss_chans s, w_sub = sub, w_nonce = ''''\<rparr>"
    using watch(6) by (simp add: responder_def addWatch_def recompute_def)
  moreover have "w_response w < ss_chans s" using I(5) [OF I(8) [OF w]] .
  ultimately show ?thesis by auto
qed

lemma queued_step_response:
  fixes s s' :: "'u linear_state"
  assumes inv: "stream_inv M T mine s cs" and w: "responder s U = Some w"
    and r: "channel_contents (w_response w) (ss_pending s) = [Some (RawR r)]"
    and step: "process_response srv env i s = (s', Continue)"
  shows "s' = s \<or>
    (\<exists>d. fst (GetDiscoveryResponse (env_marshal env) r) = Inr d \<and> sw_sent (ss_stream s') =
       sw_sent (ss_stream s) @ [d\<lparr>resp_Nonce := FormatInt (sw_nonce (ss_stream s) + 1)\<rparr>])"
  using step
proof (cases rule: process_response_Continue)
  case (received ch res p')
  note I = stream_invD [OF inv]
  obtain w' r' out where w': "responder s (lc_typeURL (ss_cache s)) = Some w'" "w_response w' = ch"
    and r': "res = RawR r'" and out: "response_GetDiscoveryResponse (env_marshal env) (RawR r') = Inr (Some out)"
    and sent: "sw_sent (ss_stream s') = sw_sent (ss_stream s) @ [out\<lparr>resp_Nonce := FormatInt (sw_nonce (ss_stream s) + 1)\<rparr>]"
    by (rule stream_inv_received [OF inv received]) (rule that; assumption)
  have "ch = w_response w" using w w' I(7) [OF w] by simp
  then have "r' = r" using receive_Some [OF received(2)] r r' by simp
  with out sent show ?thesis by (auto split: sum.splits)
qed simp

text \<open>C2: On a stream with the unordered loop, the response queued on the channel of the client's watch is
  there alone: a case of the select is ready that sends it with the next nonce, or
  ends the stream with the error of marshaling it. As long as the loop goes on, each of its steps leaves the response
  queued, or sends it, or handles a newer request of the client, which replaces the watch by one with
  a new channel and so gives up the response. No update of the cache adds to the queue.\<close>

theorem linear_stream_delivers:
  assumes run: "linear_stream m srv env t mine s cs M" and w: "responder s U = Some w"
    and queued: "channel_contents (w_response w) (ss_pending s) \<noteq> []"
  shows "\<exists>r. channel_contents (w_response w) (ss_pending s) = [Some (RawR r)] \<and>
    (\<exists>i. case fst (GetDiscoveryResponse (env_marshal env) r) of
       Inl x \<Rightarrow> snd (process_response srv env i s) = Return (Some x)
     | Inr d \<Rightarrow> sw_sent (ss_stream (fst (process_response srv env i s))) =
         sw_sent (ss_stream s) @ [d\<lparr>resp_Nonce := FormatInt (sw_nonce (ss_stream s) + 1)\<rparr>]) \<and>
    (\<forall>e s'. process_step srv env t e s = (s', Continue) \<longrightarrow>
       responder s' U = Some w \<and> channel_contents (w_response w) (ss_pending s') = [Some (RawR r)] \<or>
       (\<exists>d. fst (GetDiscoveryResponse (env_marshal env) r) = Inr d \<and> sw_sent (ss_stream s') =
          sw_sent (ss_stream s) @ [d\<lparr>resp_Nonce := FormatInt (sw_nonce (ss_stream s) + 1)\<rparr>]) \<or>
       (\<exists>q w'. e = SelectRequest (Some (Some q)) \<and> responder s' U = Some w' \<and>
          w_response w' \<noteq> w_response w \<and> w_nonce w' = '''')) \<and>
    (\<forall>op c' out x. linear_apply m op (ss_cache s) = (c', out, x) \<longrightarrow>
       channel_contents (w_response w) (sotw_sends out) = [])"
proof -
  let ?cases = "ws_cases (sw_watches (ss_stream s))" and ?ch = "w_response w"
  obtain T where inv: "stream_inv M T mine s cs" and srv: "srv_cache srv = linear_cache"
    using linear_stream_inv [OF run] by blast
  note I = stream_invD [OF inv]
  have "waiting T s w" using I(10) [OF w] queued by (auto simp: watch_inv_def opened_def answered_def)
  then obtain r where r: "channel_contents ?ch (ss_pending s) = [Some (RawR r)]" "response_ok s r (w_sub w)"
    and none: "open_on T ?ch = {}"
    by (auto simp: waiting_def)
  obtain i where i: "i < length ?cases" "?cases ! i = CaseWatch ?ch"
    using linear_stream_cases_ok [OF run] w by (auto simp: cases_ok_def in_set_conv_nth)
  obtain q where q: "raw_Request r = Some q" "req_TypeUrl q = U"
    using r(2) I(7) [OF w] by (auto simp: response_ok_def)
  have 1: "\<exists>i. case fst (GetDiscoveryResponse (env_marshal env) r) of
       Inl x \<Rightarrow> snd (process_response srv env i s) = Return (Some x)
     | Inr d \<Rightarrow> sw_sent (ss_stream (fst (process_response srv env i s))) =
         sw_sent (ss_stream s) @ [d\<lparr>resp_Nonce := FormatInt (sw_nonce (ss_stream s) + 1)\<rparr>]"
    using ready_response [OF r(1) i w q response_ok_matches [OF r(2)]] by blast
  have 2: "responder s' U = Some w \<and> channel_contents ?ch (ss_pending s') = [Some (RawR r)] \<or>
       (\<exists>d. fst (GetDiscoveryResponse (env_marshal env) r) = Inr d \<and> sw_sent (ss_stream s') =
          sw_sent (ss_stream s) @ [d\<lparr>resp_Nonce := FormatInt (sw_nonce (ss_stream s) + 1)\<rparr>]) \<or>
       (\<exists>q w'. e = SelectRequest (Some (Some q)) \<and> responder s' U = Some w' \<and>
          w_response w' \<noteq> ?ch \<and> w_nonce w' = '''')"
    if step: "process_step srv env t e s = (s', Continue)" for e s'
  proof -
    consider (q) q where "e = SelectRequest (Some (Some q))" "process_request srv t q s = (s', Continue)"
      | (i) i where "process_response srv env i s = (s', Continue)"
      using step by (cases "(srv, env, t, e, s)" rule: process_step.cases) auto
    then show ?thesis
    proof cases
      case q
      from queued_step_request [OF inv w srv q(2)] show ?thesis using q(1) r(1) by auto
    next
      case i
      from queued_step_response [OF inv w r(1) i] show ?thesis using w r(1) by blast
    qed
  qed
  have 3: "channel_contents ?ch (sotw_sends out) = []"
    if "linear_apply m op (ss_cache s) = (c', out, x)" for op c' out x
    by (rule linear_update_silent [OF inv that none])
  show ?thesis
    by (rule exI [of _ r], intro conjI allI impI, rule r(1), rule 1, erule 2, erule 3)
qed

section \<open>An example\<close>

text \<open>A client of the example cache sends its first request, gets the resource and acknowledges it.\<close>

definition exq_req :: "string \<Rightarrow> DiscoveryRequest" where
  "exq_req nonce = (ext_request nonce)\<lparr>req_Node := Some emptyNode\<rparr>"

definition exq_ack :: DiscoveryRequest where
  "exq_ack = (ext_request (FormatInt 1))\<lparr>req_VersionInfo := ''0''\<rparr>"

definition exq_sub :: Subscription where
  "exq_sub = ext_sub\<lparr>sub_returnedResources := [(''a'', ''0'')]\<rparr>"

definition exq_watch :: "cancel sotw_watch" where
  "exq_watch = \<lparr>w_cancel = CancelWatch 1 exq_sub, w_response = 1, w_sub = exq_sub, w_nonce = ''''\<rparr>"

definition exq_state :: "LinearCache \<Rightarrow> chan \<Rightarrow> response_sends \<Rightarrow> 64 word \<Rightarrow> cancel sotw_watches \<Rightarrow>
    DiscoveryResponse list \<Rightarrow> unit linear_state" where
  "exq_state c n pending nonce ws sent = \<lparr>ss_cache = c, ss_callbacks = (), ss_streamCount = 1, ss_chans = n,
     ss_pending = pending, ss_stream = \<lparr>sw_ID = 1, sw_nonce = nonce, sw_watches = ws,
       sw_node = Some emptyNode, sw_sent = sent\<rparr>\<rparr>"

definition exq_watches :: "cancel sotw_watch \<Rightarrow> cancel sotw_watches" where
  "exq_watches w = \<lparr>ws_responders = [(''T'', w)], ws_cases = [CaseDone, CaseRequest, CaseWatch (w_response w)]\<rparr>"

definition exq_rw :: ResponseWatch where
  "exq_rw = \<lparr>rw_Request = exq_ack\<lparr>req_Node := Some emptyNode\<rparr>, rw_Response = 1, rw_subscription = exq_sub,
     rw_fullStateResponses = False\<rparr>"

definition exq_0 :: "unit linear_state" where
  "exq_0 = exq_state ext_cache 0 [] 0 \<lparr>ws_responders = [], ws_cases = [CaseDone, CaseRequest]\<rparr> []"

definition exq_1 :: "unit linear_state" where
  "exq_1 = exq_state ext_cache 1 [(0, Some (RawR (ext_response (exq_req ''''))))] 0
     (exq_watches \<lparr>w_cancel = NoopCancel, w_response = 0, w_sub = ext_sub, w_nonce = ''''\<rparr>) []"

definition exq_2 :: "unit linear_state" where
  "exq_2 = exq_state ext_cache 1 [] 1
     (exq_watches \<lparr>w_cancel = NoopCancel, w_response = 0, w_sub = exq_sub, w_nonce = FormatInt 1\<rparr>) [ext_sent]"

definition exq_3 :: "unit linear_state" where
  "exq_3 = exq_state (ext_cache\<lparr>lc_currentWatchID := 1, lc_watchCount := 1,
       lc_resourceWatches := [(''a'', [(1, SotwWatch exq_rw)])]\<rparr>) 2 [] 1 (exq_watches exq_watch) [ext_sent]"

lemmas exq_defs = exq_state_def exq_watches_def exq_0_def exq_1_def exq_2_def exq_req_def

lemma exq_open: "stream_open ext_server ext_env ''T'' ext_state = (s, e) \<Longrightarrow> set_watches recompute s = exq_0 \<and> e = None"
  by (auto simp: exq_defs stream_eval ext_defs Let_def)

lemma exq_step1: "process_step ext_server ext_env ''T'' (SelectRequest (Some (Some (ext_request '''')))) exq_0 =
    (exq_1, Continue)"
  by (simp add: exq_defs stream_eval ext_defs ext_sub_eq ext_create AnyType_def Let_def)

lemma exq_step2: "process_step ext_server ext_env ''T'' (SelectResponse 2) exq_1 = (exq_2, Continue)"
  by (simp add: exq_defs exq_sub_def ext_sent_def ext_response_def ext_sub_def stream_eval ext_defs Let_def)

lemma exq_create: "cw_CreateWatch linear_cache (exq_ack\<lparr>req_Node := Some emptyNode\<rparr>) exq_sub 1 ext_cache =
    (ss_cache exq_3, [], Inr (CancelWatch 1 exq_sub))"
  by (simp add: linear_cache_def lc_CreateWatch_def ext_cache_eq computeResponse_def exq_ack_def ext_request_def HasPrefix_def
      computeResourceChange_def resourceChanged_def exq_sub_def ext_sub_def ResourceRequiresFullStateInSotw_def
      type_url_defs subscribedInCache_def addReturned_def exq_3_def exq_rw_def exq_state_def trackWatch_def nextWatchID_def index_add_def
      lc_getVersion_def FormatUint_def dec_nat.simps sotw_sends_def List.map_filter_def Let_def)

lemma exq_sub_eq: "SetResourceSubscription exq_sub [''a''] = exq_sub"
  by (simp add: SetResourceSubscription_def exq_sub_def ext_sub_def
      classify_name_def explicitWildcard_def globSuffix_def HasSuffix_def set_add_def)

lemma linear_noop: "cw_cancel linear_cache NoopCancel c = c"
  by (simp add: linear_cache_def)

lemma exq_step3: "process_step ext_server ext_env ''T'' (SelectRequest (Some (Some exq_ack))) exq_2 =
    (exq_3, Continue)"
  using exq_create
  by (simp add: exq_defs exq_3_def exq_watch_def exq_ack_def stream_eval ext_defs exq_sub_eq staleNonce_def AnyType_def Let_def
      watch_close_def linear_noop)

lemma exq_run0: "linear_stream ext_marshal ext_server ext_env ''T'' {} exq_0 {} {}"
proof -
  obtain s e where o: "stream_open ext_server ext_env ''T'' ext_state = (s, e)"
    by (cases "stream_open ext_server ext_env ''T'' ext_state")
  have c: "ss_cache ext_state = NewLinearCache ext_marshal ''T'' [WithInitialResources [(''a'', ext_res)]]"
    "ss_pending ext_state = []" "srv_cache ext_server = linear_cache"
    by (simp_all add: ext_defs ext_cache_def sotw_NewServer_def)
  from linear_stream.ls_open [OF c(3,1,2), of ext_env "''T''" s] exq_open [OF o] o show ?thesis by simp
qed

lemma exq_run1: "linear_stream ext_marshal ext_server ext_env ''T'' {0} exq_1 {NoopCancel} {}"
proof -
  have m: "{} \<union> {ss_chans exq_0..<ss_chans exq_1} = {0 :: nat}" by (auto simp: exq_defs)
  have k: "{} \<union> {w_cancel w |u w. responder exq_1 u = Some w} = {NoopCancel}"
    by (auto simp: exq_defs responder_def split: if_splits)
  from linear_stream.ls_event [OF exq_run0 exq_step1] show ?thesis unfolding m k .
qed

lemma exq_run3: "linear_stream ext_marshal ext_server ext_env ''T'' {0, 1} exq_3 {NoopCancel, CancelWatch 1 exq_sub} {}"
proof -
  have m: "{0} \<union> {ss_chans exq_1..<ss_chans exq_2} = {0 :: nat}" "{0} \<union> {ss_chans exq_2..<ss_chans exq_3} = {0, 1 :: nat}"
    by (auto simp: exq_defs exq_3_def)
  have k: "{NoopCancel} \<union> {w_cancel w |u w. responder exq_2 u = Some w} = {NoopCancel}"
    "{NoopCancel} \<union> {w_cancel w |u w. responder exq_3 u = Some w} = {NoopCancel, CancelWatch 1 exq_sub}"
    by (auto simp: exq_defs exq_3_def responder_def exq_watch_def split: if_splits)
  have "linear_stream ext_marshal ext_server ext_env ''T'' {0} exq_2 {NoopCancel} {}"
    using linear_stream.ls_event [OF exq_run1 exq_step2] unfolding m(1) k(1) .
  from linear_stream.ls_event [OF this exq_step3] show ?thesis unfolding m(2) k(2) .
qed

lemma exq_3_fields: "responder exq_3 ''T'' = Some exq_watch" "w_nonce exq_watch = ''''"
  "channel_contents (w_response exq_watch) (ss_pending exq_3) = []"
  "map_of (lc_resources (ss_cache exq_3)) ''a'' = Some ext_cached" "covers (w_sub exq_watch) ''a''"
  "sw_sent (ss_stream exq_3) = [ext_sent]"
  by (simp_all add: exq_3_def exq_state_def exq_watches_def responder_def exq_watch_def ext_cache_eq covers_def
      exq_sub_def ext_sub_def)

theorem linear_stream_up_to_date_witness:
  "map_of (sub_returnedResources (w_sub exq_watch)) ''a'' = Some (cr_cacheVersion ext_cached) \<and>
    (\<exists>out\<in>set [ext_sent]. \<exists>b. cr_marshalFunc ext_cached = Inr b \<and>
       \<lparr>any_TypeUrl = ''T'', any_Value = b\<rparr> \<in> set (resp_Resources out))"
  using linear_stream_up_to_date [OF exq_run3 exq_3_fields(1-3) _ exq_3_fields(4,5)] unfolding exq_3_fields(6) by simp

theorem linear_stream_capacity_witness:
  "channel_contents 0 (ss_pending exq_1) = [Some (RawR (ext_response (exq_req '''')))] \<and>
    length (channel_contents 0 (ss_pending exq_1)) \<le> 1"
  using linear_stream_capacity [OF exq_run1, of 0] by (simp add: exq_defs)

theorem linear_stream_shutdown_witness:
  "tracked (ss_cache exq_3) 1 (SotwWatch exq_rw) \<and> watch_chan (SotwWatch exq_rw) = 1 \<and>
    \<not> tracked (ss_cache (shutdown ext_server exq_3)) 1 (SotwWatch exq_rw)"
proof -
  have "tracked (ss_cache exq_3) 1 (SotwWatch exq_rw)"
    unfolding tracked_def by (simp add: exq_3_def exq_state_def gsub_def exI [of _ "''a''"])
  moreover have "watch_chan (SotwWatch exq_rw) = 1" by (simp add: exq_rw_def)
  moreover have "\<not> tracked (ss_cache (shutdown ext_server exq_3)) 1 (SotwWatch exq_rw)"
    using linear_stream_shutdown [OF exq_run3, of 1 "SotwWatch exq_rw"] by (auto simp: exq_rw_def)
  ultimately show ?thesis by blast
qed

theorem linear_stream_delivers_witness:
  "\<exists>i r. channel_contents 0 (ss_pending exq_1) = [Some (RawR r)] \<and>
    (case fst (GetDiscoveryResponse (env_marshal ext_env) r) of
       Inl e \<Rightarrow> snd (process_response ext_server ext_env i exq_1) = Return (Some e)
     | Inr d \<Rightarrow> sw_sent (ss_stream (fst (process_response ext_server ext_env i exq_1))) =
         [d\<lparr>resp_Nonce := FormatInt 1\<rparr>])"
proof -
  let ?w = "\<lparr>w_cancel = NoopCancel, w_response = 0, w_sub = ext_sub, w_nonce = ''''\<rparr>"
  have r: "responder exq_1 ''T'' = Some ?w" by (simp add: exq_defs responder_def)
  have q: "channel_contents (w_response ?w) (ss_pending exq_1) \<noteq> []" by (simp add: exq_defs)
  have f: "sw_sent (ss_stream exq_1) = []" "sw_nonce (ss_stream exq_1) = 0" by (simp_all add: exq_defs)
  note D = linear_stream_delivers [OF exq_run1 r q, unfolded f append_Nil add_0 sotw_watch.select_convs]
  from D show ?thesis by blast
qed

end
