(* ===== verification/Ads_Order.thy ===== *)
theory Ads_Order
  imports Sotw_Stream
begin

text \<open>
  The ordered ADS loop of the state-of-the-world server (\<open>src/pkg/server/sotw/v3/ads.go\<close>): all watches of
  the stream share one channel, and a request first empties it. These are the properties that make
  this order safe: what is sent, in which order, and what is left in the channel.
\<close>

section \<open>Definitions\<close>

text \<open>Responses with consecutive nonces.\<close>

fun numbered :: "64 word \<Rightarrow> DiscoveryResponse list \<Rightarrow> DiscoveryResponse list" where
  "numbered n [] = []"
| "numbered n (d # ds) = d\<lparr>resp_Nonce := FormatInt (n + 1)\<rparr> # numbered (n + 1) ds"

text \<open>The queued responses a request of type \<open>typeURL\<close> lets through: those of other types that still match
  the subscription of their type.\<close>

definition passes :: "('c, 'k, 'u) sotw_state \<Rightarrow> string \<Rightarrow> Response \<Rightarrow> bool" where
  "passes s typeURL r \<longleftrightarrow> req_getTypeUrl (GetRequest r) \<noteq> typeURL \<and>
     (case responder s (req_getTypeUrl (GetRequest r)) of
        None \<Rightarrow> False | Some w \<Rightarrow> responseMatchesCurrentSubscription r (w_sub w))"

section \<open>Lemmas\<close>

text \<open>Sending changes the returned resources of a subscription, which the match does not look at.\<close>

lemma matches_SetReturnedResources [simp]:
  "responseMatchesCurrentSubscription r (SetReturnedResources sub rs) = responseMatchesCurrentSubscription r sub"
  by (simp add: responseMatchesCurrentSubscription_def SetReturnedResources_def)

lemma passes_pending [simp]: "passes (s\<lparr>ss_pending := p\<rparr>) t = passes s t"
  and passes_cache [simp]: "passes (s\<lparr>ss_cache := c\<rparr>) t = passes s t"
  by (rule ext, simp add: passes_def responder_def)+

text \<open>Sending one response that is let through.\<close>

lemma send_passes:
  assumes send: "sotw_send srv env (Some r) s = (s', None)"
    and other: "req_getTypeUrl (GetRequest r) \<noteq> t"
  shows "(\<forall>x. passes s' t x = passes s t x) \<and> responder s' t = responder s t \<and>
    ss_pending s' = ss_pending s \<and> ss_cache s' = ss_cache s \<and> ss_chans s' = ss_chans s \<and>
    (if passes s t r
     then \<exists>d. response_GetDiscoveryResponse (env_marshal env) r = Inr (Some d) \<and>
       sw_sent (ss_stream s') = sw_sent (ss_stream s) @ [d\<lparr>resp_Nonce := FormatInt (sw_nonce (ss_stream s) + 1)\<rparr>] \<and>
       sw_nonce (ss_stream s') = sw_nonce (ss_stream s) + 1
     else sw_sent (ss_stream s') = sw_sent (ss_stream s) \<and> sw_nonce (ss_stream s') = sw_nonce (ss_stream s))"
  using send
proof (cases rule: sotw_send_cases)
  case unchanged
  then have "\<not> passes s t r" by (auto simp: passes_def req_getTypeUrl_def)
  with unchanged show ?thesis by simp
next
  case (sent r' req w out)
  have r: "r' = r" using sent(1) by simp
  have req: "req_getTypeUrl (GetRequest r) = req_TypeUrl req" using sent(2) r by (simp add: req_getTypeUrl_def)
  have resp: "responder s' u = (if u = req_TypeUrl req then Some (w\<lparr>w_sub := SetReturnedResources (w_sub w)
      (GetReturnedResources r'), w_nonce := FormatInt (sw_nonce (ss_stream s) + 1)\<rparr>) else responder s u)" for u
    by (rule responder_addWatch [OF sent(13)])
  have "passes s t r" using sent(3,4) other r req by (simp add: passes_def)
  moreover have "passes s' t x = passes s t x" for x
    using sent(3) unfolding passes_def resp by (simp add: req)
  moreover have "responder s' t = responder s t" using other req by (simp add: resp)
  ultimately show ?thesis using sent r by simp
qed

lemma channel_drop_first:
  "channel_contents ch ps = x # xs \<Longrightarrow>
     channel_contents ch (drop_first ch ps) = xs \<and>
     filter (\<lambda>p. fst p \<noteq> ch) (drop_first ch ps) = filter (\<lambda>p. fst p \<noteq> ch) ps"
proof (induction ps)
  case (Cons p ps)
  then show ?case
    by (cases p) (auto simp: drop_first_def channel_contents_def split: if_splits option.splits)
qed (simp add: channel_contents_def)

text \<open>Emptying the channel: the responses let through are sent in the order they were queued.\<close>

lemma processAllExcept_sends:
  assumes "processAllExcept srv env ch t queue s = (s', None)" and "channel_contents ch (ss_pending s) = queue"
  shows "\<exists>rs ds. queue = map Some rs \<and>
    rmap (response_GetDiscoveryResponse (env_marshal env)) (filter (passes s t) rs) = Inr (map Some ds) \<and>
    sw_sent (ss_stream s') = sw_sent (ss_stream s) @ numbered (sw_nonce (ss_stream s)) ds \<and>
    channel_contents ch (ss_pending s') = [] \<and>
    filter (\<lambda>p. fst p \<noteq> ch) (ss_pending s') = filter (\<lambda>p. fst p \<noteq> ch) (ss_pending s) \<and>
    ss_cache s' = ss_cache s \<and> responder s' t = responder s t"
  using assms
proof (induction queue arbitrary: s)
  case (Cons res rest)
  let ?s = "s\<lparr>ss_pending := drop_first ch (ss_pending s)\<rparr>"
  note drop = channel_drop_first [OF Cons.prems(2)]
  obtain r where r: "res = Some r" using Cons.prems(1) by (auto simp: Let_def split: option.splits)
  show ?case
  proof (cases "req_getTypeUrl (GetRequest r) = t")
    case True
    then have run: "processAllExcept srv env ch t rest ?s = (s', None)" using Cons.prems(1) r by (simp add: Let_def)
    have np: "\<not> passes s t r" using True by (simp add: passes_def)
    from Cons.IH [OF run] drop obtain rs ds where "rest = map Some rs"
      "rmap (response_GetDiscoveryResponse (env_marshal env)) (filter (passes s t) rs) = Inr (map Some ds)"
      "sw_sent (ss_stream s') = sw_sent (ss_stream s) @ numbered (sw_nonce (ss_stream s)) ds"
      "channel_contents ch (ss_pending s') = []"
      "filter (\<lambda>p. fst p \<noteq> ch) (ss_pending s') = filter (\<lambda>p. fst p \<noteq> ch) (ss_pending s)"
      "ss_cache s' = ss_cache s" "responder s' t = responder s t"
      by (auto simp: responder_def)
    with r np show ?thesis by (intro exI [of _ "r # rs"] exI [of _ ds]) simp
  next
    case False
    with Cons.prems(1) r obtain s1 where send: "sotw_send srv env (Some r) ?s = (s1, None)"
      and run: "processAllExcept srv env ch t rest s1 = (s', None)"
      by (auto simp: Let_def split: prod.splits option.splits)
    note S = send_passes [OF send False]
    have p: "passes s1 t = passes s t" by (rule ext) (use S in simp)
    from Cons.IH [OF run] S drop p obtain rs ds where I: "rest = map Some rs"
      "rmap (response_GetDiscoveryResponse (env_marshal env)) (filter (passes s t) rs) = Inr (map Some ds)"
      "sw_sent (ss_stream s') = sw_sent (ss_stream s1) @ numbered (sw_nonce (ss_stream s1)) ds"
      "channel_contents ch (ss_pending s') = []"
      "filter (\<lambda>p. fst p \<noteq> ch) (ss_pending s') = filter (\<lambda>p. fst p \<noteq> ch) (ss_pending s)"
      "ss_cache s' = ss_cache s" "responder s' t = responder s t"
      by (auto simp: responder_def)
    show ?thesis
    proof (cases "passes s t r")
      case True
      then obtain d where "response_GetDiscoveryResponse (env_marshal env) r = Inr (Some d)"
        "sw_sent (ss_stream s1) = sw_sent (ss_stream s) @ [d\<lparr>resp_Nonce := FormatInt (sw_nonce (ss_stream s) + 1)\<rparr>]"
        "sw_nonce (ss_stream s1) = sw_nonce (ss_stream s) + 1" using S by auto
      with I r True show ?thesis
        by (intro exI [of _ "r # rs"] exI [of _ "d # ds"]) simp
    next
      case False
      with S I r show ?thesis by (intro exI [of _ "r # rs"] exI [of _ ds]) simp
    qed
  qed
qed simp

section \<open>Requests on an ordered stream\<close>

text \<open>A request of a type that has a watch, with a current nonce.\<close>

lemma ads_request_flushes_watched:
  assumes step: "processADS_request srv env ch req s = (s', Continue)"
    and w: "responder s (req_TypeUrl req) = Some w" and fresh: "\<not> staleNonce req w"
  shows "\<exists>q rs ds out k. q = fst (reassignNode req s) \<and>
    channel_contents ch (ss_pending s) = map Some rs \<and>
    rmap (response_GetDiscoveryResponse (env_marshal env)) (filter (passes s (req_TypeUrl req)) rs) =
      Inr (map Some ds) \<and>
    sw_sent (ss_stream s') = sw_sent (ss_stream s) @ numbered (sw_nonce (ss_stream s)) ds \<and>
    cw_CreateWatch (srv_cache srv) q (SetResourceSubscription (w_sub w) (req_ResourceNames req)) ch
      (cw_cancel (srv_cache srv) (w_cancel w) (ss_cache s)) = (ss_cache s', out, Inr k) \<and>
    channel_contents ch (ss_pending s') = channel_contents ch out"
proof -
  let ?U = "req_TypeUrl req"
  obtain q s1 where r: "reassignNode req s = (q, s1)" by (cases "reassignNode req s")
  obtain s2 e2 where o: "onStreamRequest srv q s1 = (s2, e2)" by (cases "onStreamRequest srv q s1")
  have q: "req_TypeUrl q = ?U" "req_ResourceNames q = req_ResourceNames req" "staleNonce q w = staleNonce req w"
    using r by (auto simp: reassignNode_def staleNonce_def split: option.splits)
  note f = reassignNode_frame [OF r] onStreamRequest_frame [OF o]
  have w2: "responder s2 ?U = Some w" using w f by (simp add: responder_def)
  have pass: "passes s2 ?U = passes s ?U" by (rule ext) (use f in \<open>simp add: passes_def responder_def\<close>)
  let ?s2 = "s2\<lparr>ss_cache := watch_close (srv_cache srv) w (ss_cache s2)\<rparr>"
  let ?queue = "channel_contents ch (ss_pending s2)"
  have e2: "e2 = None"
    using step unfolding processADS_request_def r prod.case Let_def o
    by (auto split: if_splits option.splits)
  obtain s3 e3 where p: "processAllExcept srv env ch ?U ?queue ?s2 = (s3, e3)"
    by (cases "processAllExcept srv env ch ?U ?queue ?s2")
  have e3: "e3 = None"
    using step fresh unfolding processADS_request_def r prod.case Let_def o e2
    by (simp add: q w2 p split: if_splits option.splits)
  obtain rs ds where P: "?queue = map Some rs"
    "rmap (response_GetDiscoveryResponse (env_marshal env)) (filter (passes ?s2 ?U) rs) = Inr (map Some ds)"
    "sw_sent (ss_stream s3) = sw_sent (ss_stream ?s2) @ numbered (sw_nonce (ss_stream ?s2)) ds"
    "channel_contents ch (ss_pending s3) = []" "ss_cache s3 = ss_cache ?s2" "responder s3 ?U = responder ?s2 ?U"
    using processAllExcept_sends [OF p [unfolded e3]] by auto
  have w3: "responder s3 ?U = Some w" using P(6) w2 by (simp add: responder_def)
  let ?sub = "SetResourceSubscription (w_sub w) (req_ResourceNames req)"
  have "openWatch srv q ?sub ch s3 = (s', None)"
    using step fresh unfolding processADS_request_def r prod.case Let_def o e2
    by (simp add: q w2 p e3 w3 split: if_splits option.splits prod.splits)
  then obtain out k where "cw_CreateWatch (srv_cache srv) q ?sub ch (ss_cache s3) = (ss_cache s', out, Inr k)"
    "ss_pending s' = ss_pending s3 @ out" "sw_sent (ss_stream s') = sw_sent (ss_stream s3)"
    by (auto simp: openWatch_def Let_def split: prod.splits sum.splits)
  with P f pass r show ?thesis
    by (intro exI [of _ q] exI [of _ rs] exI [of _ ds] exI [of _ out] exI [of _ k])
      (simp add: watch_close_def channel_contents_def)
qed

lemma ads_request_first:
  assumes step: "processADS_request srv env ch req s = (s', Continue)" and w: "responder s (req_TypeUrl req) = None"
  shows "\<exists>out k. sw_sent (ss_stream s') = sw_sent (ss_stream s) \<and>
    cw_CreateWatch (srv_cache srv) (fst (reassignNode req s)) (NewSotwSubscription (req_ResourceNames req)
      (IsLegacyWildcardActive (srv_opts srv) (req_TypeUrl req))) ch (ss_cache s) = (ss_cache s', out, Inr k) \<and>
    ss_pending s' = ss_pending s @ out"
proof -
  obtain q s1 where r: "reassignNode req s = (q, s1)" by (cases "reassignNode req s")
  obtain s2 e2 where o: "onStreamRequest srv q s1 = (s2, e2)" by (cases "onStreamRequest srv q s1")
  note f = reassignNode_frame [OF r] onStreamRequest_frame [OF o]
  have w2: "responder s2 (req_TypeUrl req) = None" using w f by (simp add: responder_def)
  let ?sub = "NewSotwSubscription (req_ResourceNames req) (IsLegacyWildcardActive (srv_opts srv) (req_TypeUrl req))"
  have "openWatch srv q ?sub ch s2 = (s', None)"
    using step unfolding processADS_request_def r prod.case Let_def o
    by (auto simp: f w2 split: if_splits option.splits prod.splits)
  then show ?thesis using f r by (auto simp: openWatch_def Let_def split: prod.splits sum.splits)
qed

lemma ads_request_stale:
  assumes step: "processADS_request srv env ch req s = (s', Continue)"
    and w: "responder s (req_TypeUrl req) = Some w" and stale: "staleNonce req w"
  shows "sw_sent (ss_stream s') = sw_sent (ss_stream s) \<and> ss_cache s' = ss_cache s \<and> ss_pending s' = ss_pending s"
proof -
  obtain q s1 where r: "reassignNode req s = (q, s1)" by (cases "reassignNode req s")
  obtain s2 e2 where o: "onStreamRequest srv q s1 = (s2, e2)" by (cases "onStreamRequest srv q s1")
  note f = reassignNode_frame [OF r] onStreamRequest_frame [OF o]
  have "responder s2 (req_TypeUrl req) = Some w" "staleNonce q w" using w f stale by (simp_all add: responder_def staleNonce_def)
  then have "s' = s2"
    using step unfolding processADS_request_def r prod.case Let_def o
    by (auto simp: f split: if_splits option.splits)
  then show ?thesis using f by simp
qed

text \<open>C7: What a request does on an ordered ADS stream that goes on. The first request of a type sends nothing of
  what is queued and adds its own answer, if any, at the end of the shared channel. A request with a
  stale nonce changes nothing. Any other request of a type that has a watch is handled after everything
  queued for the other types has been sent: exactly the queued responses of other types that still
  match their subscription are sent, in the order they were queued and with consecutive nonces; the
  queued responses of the requested type are discarded, since the new watch replaces the one they
  answered; and afterwards the shared channel holds nothing but what the new watch was answered.\<close>

theorem ads_request_flushes:
  assumes step: "processADS_request srv env ch req s = (s', Continue)"
  shows "case responder s (req_TypeUrl req) of
      None \<Rightarrow> \<exists>out k. sw_sent (ss_stream s') = sw_sent (ss_stream s) \<and>
        cw_CreateWatch (srv_cache srv) (fst (reassignNode req s)) (NewSotwSubscription (req_ResourceNames req)
          (IsLegacyWildcardActive (srv_opts srv) (req_TypeUrl req))) ch (ss_cache s) = (ss_cache s', out, Inr k) \<and>
        ss_pending s' = ss_pending s @ out
    | Some w \<Rightarrow>
        if staleNonce req w
        then sw_sent (ss_stream s') = sw_sent (ss_stream s) \<and> ss_cache s' = ss_cache s \<and> ss_pending s' = ss_pending s
        else \<exists>q rs ds out k. q = fst (reassignNode req s) \<and>
          channel_contents ch (ss_pending s) = map Some rs \<and>
          rmap (response_GetDiscoveryResponse (env_marshal env)) (filter (passes s (req_TypeUrl req)) rs) =
            Inr (map Some ds) \<and>
          sw_sent (ss_stream s') = sw_sent (ss_stream s) @ numbered (sw_nonce (ss_stream s)) ds \<and>
          cw_CreateWatch (srv_cache srv) q (SetResourceSubscription (w_sub w) (req_ResourceNames req)) ch
            (cw_cancel (srv_cache srv) (w_cancel w) (ss_cache s)) = (ss_cache s', out, Inr k) \<and>
          channel_contents ch (ss_pending s') = channel_contents ch out"
proof (cases "responder s (req_TypeUrl req)")
  case None
  with ads_request_first [OF step None] show ?thesis by simp
next
  case (Some w)
  show ?thesis
  proof (cases "staleNonce req w")
    case True
    with ads_request_stale [OF step Some True] Some show ?thesis by simp
  next
    case False
    with ads_request_flushes_watched [OF step Some False] Some show ?thesis by simp
  qed
qed

text \<open>An ordered stream with watches on two types and a response queued for each; the client then sends
  a request for the second.\<close>

definition exo_request :: "string \<Rightarrow> DiscoveryRequest" where
  "exo_request t = (ext_request '''')\<lparr>req_TypeUrl := t, req_Node := Some emptyNode\<rparr>"

definition exo_watch :: "cancel sotw_watch" where
  "exo_watch = \<lparr>w_cancel = NoopCancel, w_response = 0, w_sub = ext_sub, w_nonce = ''''\<rparr>"

definition exo_state :: "(LinearCache, cancel, unit) sotw_state" where
  "exo_state = ext_state\<lparr>ss_chans := 1,
     ss_pending := [(0, Some (RawR (ext_response (exo_request ''S'')))), (0, Some (RawR (ext_response (exo_request ''T''))))],
     ss_stream := \<lparr>sw_ID = 1, sw_nonce = 4, sw_watches = \<lparr>ws_responders = [(''S'', exo_watch), (''T'', exo_watch)], ws_cases = []\<rparr>,
       sw_node = Some emptyNode, sw_sent = []\<rparr>\<rparr>"

lemma exo_sub: "SetResourceSubscription ext_sub [''a''] = ext_sub"
  by (simp add: SetResourceSubscription_def ext_sub_def
      classify_name_def explicitWildcard_def globSuffix_def HasSuffix_def set_add_def)

lemma exo_step: "snd (processADS_request ext_server ext_env 0 (exo_request ''T'') exo_state) = Continue"
  using ext_create [of "exo_request ''T''" 0]
  by (simp add: processADS_request_def exo_state_def exo_request_def exo_watch_def stream_eval ext_defs exo_sub
      ext_sub_def [symmetric] ext_response_def staleNonce_def drop_first_def channel_contents_def
      watch_close_def linear_cache_def Let_def)

theorem ads_request_flushes_witness:
  "\<exists>d. fst (GetDiscoveryResponse ext_marshal (ext_response (exo_request ''S''))) = Inr d \<and>
     sw_sent (ss_stream (fst (processADS_request ext_server ext_env 0 (exo_request ''T'') exo_state))) =
       [d\<lparr>resp_Nonce := FormatInt 5\<rparr>]"
proof -
  obtain s' where step: "processADS_request ext_server ext_env 0 (exo_request ''T'') exo_state = (s', Continue)"
    using exo_step by (cases "processADS_request ext_server ext_env 0 (exo_request ''T'') exo_state") auto
  have w: "responder exo_state (req_TypeUrl (exo_request ''T'')) = Some exo_watch"
    and n: "\<not> staleNonce (exo_request ''T'') exo_watch"
    and c: "channel_contents 0 (ss_pending exo_state) =
      map Some [RawR (ext_response (exo_request ''S'')), RawR (ext_response (exo_request ''T''))]"
    and p: "passes exo_state ''T'' (RawR (ext_response (exo_request ''S'')))"
      "\<not> passes exo_state ''T'' (RawR (ext_response (exo_request ''T'')))"
    and t: "req_TypeUrl (exo_request ''T'') = ''T''"
    and f: "sw_sent (ss_stream exo_state) = []" "sw_nonce (ss_stream exo_state) = 4"
    by (simp_all add: exo_state_def exo_request_def exo_watch_def responder_def staleNonce_def channel_contents_def
        passes_def req_getTypeUrl_def ext_response_def responseMatchesCurrentSubscription_def ext_sub_def)
  from ads_request_flushes [OF step] n obtain rs ds where
    "channel_contents 0 (ss_pending exo_state) = map Some rs"
    "rmap (response_GetDiscoveryResponse (env_marshal ext_env)) (filter (passes exo_state ''T'') rs) = Inr (map Some ds)"
    "sw_sent (ss_stream s') = sw_sent (ss_stream exo_state) @ numbered (sw_nonce (ss_stream exo_state)) ds"
    unfolding t w [unfolded t] option.case if_not_P [OF n] by blast
  with c p f step show ?thesis
    by (auto simp: inj_map_eq_map [OF inj_Some] ext_env_def split: sum.splits)
qed

end
