(* ===== verification/Config_Watcher.thy ===== *)
theory Config_Watcher
  imports Stream_Correctness Ads_Order
begin

text \<open>
  The contract between a stream and any cache, \<open>ConfigWatcher\<close> in \<open>src/pkg/cache/v3/cache.go\<close>, as a locale:
  what creating, cancelling and answering watches do to the watches a cache tracks. From it alone the
  life of every watch of a state-of-the-world stream follows, for the unordered loop of
  \<open>src/pkg/server/sotw/v3/xds.go\<close> and for the ordered loop of \<open>ads.go\<close>: its response is queued, or it is open
  in the cache, or its response was sent, or the cache dropped it, when it was made or later.
\<close>

section \<open>Definitions\<close>

text \<open>The responses queued for the watch of one type. On an ordered stream the types share a channel.\<close>

definition msg_type :: "Response option \<Rightarrow> string" where
  "msg_type m = (case m of None \<Rightarrow> '''' | Some r \<Rightarrow> req_getTypeUrl (GetRequest r))"

definition on_watch :: "chan \<Rightarrow> string \<Rightarrow> chan \<times> Response option \<Rightarrow> bool" where
  "on_watch ch u p \<longleftrightarrow> fst p = ch \<and> msg_type (snd p) = u"

definition queue :: "response_sends \<Rightarrow> chan \<Rightarrow> string \<Rightarrow> Response option list" where
  "queue P ch u = map snd (filter (on_watch ch u) P)"

text \<open>A response for a type that the subscription lets through.\<close>

definition answers :: "string \<Rightarrow> RawResponse \<Rightarrow> Subscription \<Rightarrow> bool" where
  "answers u r sub \<longleftrightarrow> (\<exists>q. raw_Request r = Some q \<and> req_TypeUrl q = u) \<and>
     responseMatchesCurrentSubscription (RawR r) sub"

text \<open>Everything recorded as returned is still subscribed to.\<close>

definition sub_known :: "Subscription \<Rightarrow> bool" where
  "sub_known sub \<longleftrightarrow> (\<forall>n\<in>fst ` set (sub_returnedResources sub). covers sub n)"

text \<open>Where the watch \<open>w\<close> of type \<open>u\<close> is in its life; \<open>T\<close> are the watches the cache tracks, by their cancel
  functions, \<open>drops\<close> says which requests and watches a cache may drop.\<close>

definition watch_phase ::
  "('k \<Rightarrow> DiscoveryRequest \<Rightarrow> Subscription \<Rightarrow> bool) \<Rightarrow> ('k \<Rightarrow> ResponseWatch option) \<Rightarrow> response_sends \<Rightarrow> string \<Rightarrow>
     'k sotw_watch \<Rightarrow> bool" where
  "watch_phase drops T P u w \<longleftrightarrow>
     (case queue P (w_response w) u of
        [] \<Rightarrow>
          (case T (w_cancel w) of
             None \<Rightarrow> w_nonce w \<noteq> '''' \<or> (\<exists>q. req_TypeUrl q = u \<and> drops (w_cancel w) q (w_sub w))
           | Some tw \<Rightarrow> w_nonce w = '''' \<and> rw_Response tw = w_response w \<and> rw_subscription tw = w_sub w \<and>
               req_TypeUrl (rw_Request tw) = u)
      | m # ms \<Rightarrow> w_nonce w = '''' \<and> T (w_cancel w) = None \<and> ms = [] \<and>
          (\<exists>r. m = Some (RawR r) \<and> answers u r (w_sub w)))"

text \<open>The channels of the current watches; \<open>lp\<close> is the shared channel of an ordered stream.\<close>

definition live :: "(string \<Rightarrow> 'k sotw_watch option) \<Rightarrow> chan option \<Rightarrow> chan \<Rightarrow> bool" where
  "live R lp ch \<longleftrightarrow> lp = Some ch \<or> (\<exists>u w. R u = Some w \<and> w_response w = ch)"

definition watches_inv ::
  "('k \<Rightarrow> DiscoveryRequest \<Rightarrow> Subscription \<Rightarrow> bool) \<Rightarrow> ('k \<Rightarrow> ResponseWatch option) \<Rightarrow> response_sends \<Rightarrow>
     (string \<Rightarrow> 'k sotw_watch option) \<Rightarrow> chan option \<Rightarrow> chan set \<Rightarrow> bool" where
  "watches_inv drops T P R lp mine \<longleftrightarrow>
     (\<forall>u w. R u = Some w \<longrightarrow> w_response w \<in> mine \<and> sub_known (w_sub w) \<and> watch_phase drops T P u w) \<and>
     (\<forall>k tw. T k = Some tw \<longrightarrow> rw_Response tw \<in> mine \<longrightarrow> (\<exists>u w. R u = Some w \<and> w_cancel w = k)) \<and>
     (\<forall>p\<in>set P. live R lp (fst p) \<longrightarrow>
        (\<exists>w. R (msg_type (snd p)) = Some w \<and> w_response w = fst p)) \<and>
     (case lp of
        None \<Rightarrow> (\<forall>u u' w w'. R u = Some w \<longrightarrow> R u' = Some w' \<longrightarrow> w_response w = w_response w' \<longrightarrow> u = u')
      | Some ch \<Rightarrow> ch \<in> mine \<and> (\<forall>u w. R u = Some w \<longrightarrow> w_response w = ch))"

section \<open>Lemmas\<close>

subsection \<open>Queues\<close>

lemma queue_simps [simp]:
  "queue [] ch u = []" "queue (P @ Q) ch u = queue P ch u @ queue Q ch u"
  "queue (p # P) ch u = (if on_watch ch u p then snd p # queue P ch u else queue P ch u)"
  by (simp_all add: queue_def)

lemma queue_empty: "(\<And>p. p \<in> set P \<Longrightarrow> \<not> on_watch ch u p) \<Longrightarrow> queue P ch u = []"
  by (auto simp: queue_def filter_empty_conv)

lemma queue_in: "m \<in> set (queue P ch u) \<Longrightarrow> (ch, m) \<in> set P \<and> msg_type m = u"
  by (auto simp: queue_def on_watch_def)

lemma receive_queue:
  "receive ch P = Some (x, P') \<Longrightarrow>
     queue P ch u = (if msg_type x = u then [x] else []) @ queue P' ch u \<and>
     (\<forall>ch'. ch' \<noteq> ch \<longrightarrow> queue P' ch' u = queue P ch' u) \<and> set P' \<subseteq> set P \<and> (ch, x) \<in> set P"
proof (induction P arbitrary: P')
  case (Cons p P)
  obtain d m where p: "p = (d, m)" by (cases p)
  show ?case
  proof (cases "d = ch")
    case True
    with Cons.prems p show ?thesis by (auto simp: on_watch_def)
  next
    case False
    with Cons.prems p obtain P2 where r: "receive ch P = Some (x, P2)" "P' = (d, m) # P2"
      by (auto split: option.splits)
    from Cons.IH [OF r(1)] r(2) False p show ?thesis by (auto simp: on_watch_def)
  qed
qed simp

lemma receive_filter:
  "receive ch P = Some (x, P') \<Longrightarrow>
     (if Q (ch, x) then receive ch (filter Q P) = Some (x, filter Q P') else filter Q P' = filter Q P)"
proof (induction P arbitrary: P')
  case (Cons p P)
  obtain d m where p: "p = (d, m)" by (cases p)
  show ?case
  proof (cases "d = ch")
    case True
    with Cons.prems p show ?thesis by auto
  next
    case False
    with Cons.prems p obtain P2 where r: "receive ch P = Some (x, P2)" "P' = (d, m) # P2"
      by (auto split: option.splits)
    from Cons.IH [OF r(1)] r(2) False p show ?thesis by (auto split: if_splits)
  qed
qed simp

lemma queue_filter_other:
  "(\<And>p. on_watch ch u p \<Longrightarrow> Q p) \<Longrightarrow> queue (filter Q P) ch u = queue P ch u"
  by (induction P) auto

subsection \<open>Subscriptions\<close>

lemma answers_known: "answers u r sub \<Longrightarrow> sub_known (SetReturnedResources sub (raw_returnedResources r))"
  unfolding answers_def sub_known_def responseMatchesCurrentSubscription_def
  by (auto simp: covers_def matchesAnyPrefix_iff SetReturnedResources_def list_all_iff list_ex_iff split: if_splits)

lemma NewSotw_known: "sub_known (NewSotwSubscription ns a)"
  by (simp add: sub_known_def)

lemma SetResourceSubscription_known: "sub_known sub \<Longrightarrow> sub_known (SetResourceSubscription sub ns)"
  unfolding sub_known_def SetResourceSubscription_def
  by (auto simp: covers_def Let_def split: prod.splits if_splits)


subsection \<open>Steps of the invariant\<close>

lemma watches_invD:
  assumes "watches_inv drops T P R lp mine"
  shows "R u = Some w \<Longrightarrow> w_response w \<in> mine" "R u = Some w \<Longrightarrow> sub_known (w_sub w)"
    "R u = Some w \<Longrightarrow> watch_phase drops T P u w"
    "T k = Some tw \<Longrightarrow> rw_Response tw \<in> mine \<Longrightarrow> \<exists>u w. R u = Some w \<and> w_cancel w = k"
    "(ch, m) \<in> set P \<Longrightarrow> live R lp ch \<Longrightarrow> \<exists>w. R (msg_type m) = Some w \<and> w_response w = ch"
    "lp = None \<Longrightarrow> R u = Some w \<Longrightarrow> R u' = Some w' \<Longrightarrow> w_response w = w_response w' \<Longrightarrow> u = u'"
    "lp = Some ch \<Longrightarrow> ch \<in> mine" "lp = Some ch \<Longrightarrow> R u = Some w \<Longrightarrow> w_response w = ch"
  using assms unfolding watches_inv_def by (fastforce simp del: split_paired_All)+

lemma watches_invI:
  assumes "\<And>u w. R u = Some w \<Longrightarrow> w_response w \<in> mine" "\<And>u w. R u = Some w \<Longrightarrow> sub_known (w_sub w)"
    "\<And>u w. R u = Some w \<Longrightarrow> watch_phase drops T P u w"
    "\<And>k tw. T k = Some tw \<Longrightarrow> rw_Response tw \<in> mine \<Longrightarrow> \<exists>u w. R u = Some w \<and> w_cancel w = k"
    "\<And>ch m. (ch, m) \<in> set P \<Longrightarrow> live R lp ch \<Longrightarrow> \<exists>w. R (msg_type m) = Some w \<and> w_response w = ch"
    "\<And>u u' w w'. lp = None \<Longrightarrow> R u = Some w \<Longrightarrow> R u' = Some w' \<Longrightarrow> w_response w = w_response w' \<Longrightarrow> u = u'"
    "\<And>ch. lp = Some ch \<Longrightarrow> ch \<in> mine" "\<And>ch u w. lp = Some ch \<Longrightarrow> R u = Some w \<Longrightarrow> w_response w = ch"
  shows "watches_inv drops T P R lp mine"
  using assms unfolding watches_inv_def by (auto split: option.split)

lemma live_mine: "watches_inv drops T P R lp mine \<Longrightarrow> live R lp ch \<Longrightarrow> ch \<in> mine"
  using watches_invD(1,7) unfolding live_def by metis

lemma watch_phase_cong:
  assumes "queue P' (w_response w) u = queue P (w_response w) u" and "T' (w_cancel w) = T (w_cancel w)"
  shows "watch_phase drops T' P' u w = watch_phase drops T P u w"
  unfolding watch_phase_def assms ..

lemma live_upd:
  assumes "R u = Some w" and "w_response w' = w_response w"
  shows "live (R(u \<mapsto> w')) lp ch \<longleftrightarrow> live R lp ch"
proof -
  have "(\<exists>v x. (R(u \<mapsto> w')) v = Some x \<and> w_response x = ch) \<longleftrightarrow> (\<exists>v x. R v = Some x \<and> w_response x = ch)" (is "?l = ?r")
  proof
    assume ?r
    then obtain v x where "R v = Some x" "w_response x = ch" by blast
    with assms show ?l by (cases "v = u") auto
  qed (use assms in \<open>auto split: if_splits\<close>)
  then show ?thesis by (simp only: live_def)
qed

text \<open>A watch that the cache tracks on a channel of the stream is the current one of its type.\<close>

lemma tracked_current:
  assumes "watches_inv drops T P R lp mine" and "R u = Some w" and "T k = Some tw"
    and "rw_Response tw = w_response w" and "req_TypeUrl (rw_Request tw) = u"
  shows "k = w_cancel w"
proof -
  have "rw_Response tw \<in> mine" using watches_invD(1) [OF assms(1,2)] assms(4) by simp
  then obtain u' w' where w': "R u' = Some w'" "w_cancel w' = k"
    using watches_invD(4) [OF assms(1,3)] by blast
  have "req_TypeUrl (rw_Request tw) = u'"
    using watches_invD(3) [OF assms(1) w'(1)] assms(3) w'(2) by (auto simp: watch_phase_def split: list.splits)
  with assms(2,5) w' show ?thesis by simp
qed

text \<open>What an update does: it answers some of the tracked watches, each once.\<close>

definition answered_by ::
  "('k \<Rightarrow> ResponseWatch option) \<Rightarrow> 'k \<Rightarrow> chan \<times> Response option \<Rightarrow> bool" where
  "answered_by T k m \<longleftrightarrow> (\<exists>tw r. T k = Some tw \<and> m = (rw_Response tw, Some (RawR r)) \<and>
     answers (req_TypeUrl (rw_Request tw)) r (rw_subscription tw))"

definition answered_update ::
  "('k \<Rightarrow> ResponseWatch option) \<Rightarrow> response_sends \<Rightarrow> ('k \<Rightarrow> ResponseWatch option) \<Rightarrow> bool" where
  "answered_update T out T' \<longleftrightarrow> (\<exists>ks. distinct ks \<and> list_all2 (answered_by T) ks out \<and> T' = T |` (- set ks))"

lemma answered_by_key: "list_all2 (answered_by T) ks out \<Longrightarrow> k \<in> set ks \<Longrightarrow> \<exists>m. answered_by T k m"
  by (induction rule: list_all2_induct) auto

lemma answered_update_refl: "answered_update T [] T"
  unfolding answered_update_def by (rule exI [of _ "[]"]) (simp add: fun_eq_iff restrict_map_def)

lemma answered_update_trans:
  assumes "answered_update T out T1" and "answered_update T1 out' T2"
  shows "answered_update T (out @ out') T2"
proof -
  obtain ks ks' where ks: "distinct ks" "list_all2 (answered_by T) ks out" "T1 = T |` (- set ks)"
    and ks': "distinct ks'" "list_all2 (answered_by T1) ks' out'" "T2 = T1 |` (- set ks')"
    using assms unfolding answered_update_def by blast
  have *: "answered_by T k m \<and> k \<notin> set ks" if "answered_by T1 k m" for k m
    using that by (auto simp: answered_by_def ks(3) restrict_map_def split: if_splits)
  have "list_all2 (answered_by T) ks' out'" by (rule list_all2_mono [OF ks'(2)]) (use * in blast)
  moreover have "k \<notin> set ks" if "k \<in> set ks'" for k
    using answered_by_key [OF ks'(2) that] * by blast
  ultimately show ?thesis
    using ks ks' unfolding answered_update_def
    by (intro exI [of _ "ks @ ks'"]) (auto simp: list_all2_appendI fun_eq_iff restrict_map_def)
qed

lemma answered_type: "answered_by T k m \<Longrightarrow> \<exists>tw. T k = Some tw \<and> fst m = rw_Response tw \<and>
    msg_type (snd m) = req_TypeUrl (rw_Request tw)"
  by (auto simp: answered_by_def answers_def msg_type_def req_getTypeUrl_def)

lemma answered_by_in: "list_all2 (answered_by T) ks out \<Longrightarrow> p \<in> set out \<Longrightarrow> \<exists>k\<in>set ks. answered_by T k p"
  by (induction rule: list_all2_induct) auto

lemma queue_answered:
  assumes "list_all2 (answered_by T) ks out" and "distinct ks"
    and "\<And>k tw. k \<in> set ks \<Longrightarrow> T k = Some tw \<Longrightarrow> rw_Response tw = ch \<Longrightarrow> req_TypeUrl (rw_Request tw) = u \<Longrightarrow> k = own"
  shows "own \<notin> set ks \<Longrightarrow> queue out ch u = []"
    and "own \<in> set ks \<Longrightarrow> T own = Some tw \<Longrightarrow> rw_Response tw = ch \<Longrightarrow> req_TypeUrl (rw_Request tw) = u \<Longrightarrow>
      \<exists>r. queue out ch u = [Some (RawR r)] \<and> answers u r (rw_subscription tw)"
proof -
  have other: "queue out ch u = []" if "list_all2 (answered_by T) ks out" "own \<notin> set ks" "set ks \<subseteq> K"
    "\<And>k tw. k \<in> K \<Longrightarrow> T k = Some tw \<Longrightarrow> rw_Response tw = ch \<Longrightarrow> req_TypeUrl (rw_Request tw) = u \<Longrightarrow> k = own" for ks out K
    using that
  proof (induction rule: list_all2_induct)
    case (Cons k ks m out)
    then have "\<not> on_watch ch u m" using answered_type [OF Cons(1)] by (auto simp: on_watch_def)
    with Cons show ?case by auto
  qed simp
  show "queue out ch u = []" if "own \<notin> set ks"
    by (rule other [OF assms(1) that subset_refl]) (use assms(3) in blast)
  show "\<exists>r. queue out ch u = [Some (RawR r)] \<and> answers u r (rw_subscription tw)"
    if own: "own \<in> set ks" and tw: "T own = Some tw" "rw_Response tw = ch" "req_TypeUrl (rw_Request tw) = u"
  proof -
    have "\<exists>r. queue out ch u = [Some (RawR r)] \<and> answers u r (rw_subscription tw)"
      if "list_all2 (answered_by T) js out" "distinct js" "own \<in> set js" "set js \<subseteq> set ks" for js out
      using that
    proof (induction rule: list_all2_induct)
      case (Cons k js m out)
      show ?case
      proof (cases "k = own")
        case True
        have "queue out ch u = []"
          by (rule other [OF Cons(2), of "set ks"]) (use Cons.prems True assms(3) in auto)
        moreover obtain r where "m = (ch, Some (RawR r))" "answers u r (rw_subscription tw)"
          using Cons(1) True tw by (auto simp: answered_by_def)
        ultimately show ?thesis by (auto simp: on_watch_def answers_def msg_type_def req_getTypeUrl_def)
      next
        case False
        then have "\<not> on_watch ch u m"
          using answered_type [OF Cons(1)] assms(3) [of k] Cons.prems(3) by (auto simp: on_watch_def)
        with Cons False show ?thesis by simp
      qed
    qed simp
    from this [OF assms(1,2) own] show ?thesis by simp
  qed
qed

lemma watches_inv_update:
  assumes inv: "watches_inv drops T P R lp mine"
    and ks: "distinct ks" "list_all2 (answered_by T) ks out"
    and T': "T' = T |` (- set ks)"
  shows "watches_inv drops T' (P @ out) R lp mine"
proof (rule watches_invI)
  fix u w assume w: "R u = Some w"
  show "w_response w \<in> mine" "sub_known (w_sub w)" using watches_invD [OF inv] w by blast+
  let ?ch = "w_response w" and ?k = "w_cancel w"
  have uniq: "k = ?k" if "k \<in> set ks" "T k = Some tw" "rw_Response tw = ?ch" "req_TypeUrl (rw_Request tw) = u" for k tw
    by (rule tracked_current [OF inv w that(2,3,4)])
  note ph = watches_invD(3) [OF inv w]
  show "watch_phase drops T' (P @ out) u w"
  proof (cases "?k \<in> set ks")
    case False
    then have "queue out ?ch u = []" by (intro queue_answered(1) [OF ks(2,1), where own = "w_cancel w"]) (use uniq in blast)+
    with ph False show ?thesis by (subst watch_phase_cong) (auto simp: T' restrict_map_def)
  next
    case True
    then obtain tw where tw: "T ?k = Some tw"
      using ks(2) by (auto simp: list_all2_conv_all_nth answered_by_def in_set_conv_nth)
    then have o: "queue P ?ch u = []" "w_nonce w = ''''" "rw_Response tw = ?ch" "rw_subscription tw = w_sub w"
      "req_TypeUrl (rw_Request tw) = u"
      using ph by (auto simp: watch_phase_def split: list.splits)
    obtain r where "queue out ?ch u = [Some (RawR r)]" "answers u r (rw_subscription tw)"
      using queue_answered(2) [OF ks(2,1), where own = "w_cancel w", OF _ True tw o(3,5)] uniq by blast
    with o True show ?thesis by (simp add: watch_phase_def T')
  qed
next
  show "\<exists>u w. R u = Some w \<and> w_cancel w = k" if "T' k = Some tw" "rw_Response tw \<in> mine" for k tw
    using watches_invD(4) [OF inv, of k tw] that by (auto simp: T' restrict_map_def split: if_splits)
next
  fix ch m assume m: "(ch, m) \<in> set (P @ out)" and l: "live R lp ch"
  show "\<exists>w. R (msg_type m) = Some w \<and> w_response w = ch"
  proof (cases "(ch, m) \<in> set P")
    case True
    then show ?thesis by (rule watches_invD(5) [OF inv _ l])
  next
    case False
    with m answered_by_in [OF ks(2)] obtain k where "answered_by T k (ch, m)" by auto
    then obtain tw where tw: "T k = Some tw" "ch = rw_Response tw" "msg_type m = req_TypeUrl (rw_Request tw)"
      using answered_type by fastforce
    obtain u w where w: "R u = Some w" "w_cancel w = k"
      using watches_invD(4) [OF inv tw(1)] live_mine [OF inv l] tw(2) by blast
    then show ?thesis
      using watches_invD(3) [OF inv w(1)] tw by (auto simp: watch_phase_def split: list.splits)
  qed
qed (use watches_invD(6,7,8) [OF inv] in blast)+


text \<open>Watches may be forgotten if they may be dropped.\<close>

lemma watches_inv_forget:
  assumes inv: "watches_inv drops T P R lp mine"
    and mono: "\<And>k q sub. drops k q sub \<Longrightarrow> drops' k q sub" and lost: "\<And>k q sub. k \<in> L \<Longrightarrow> drops' k q sub"
  shows "watches_inv drops' (T |` (- L)) P R lp mine"
proof (rule watches_invI)
  fix u w assume w: "R u = Some w"
  show "w_response w \<in> mine" "sub_known (w_sub w)" using watches_invD [OF inv] w by blast+
  have "\<exists>q. req_TypeUrl q = u" by (rule exI [of _ "undefined\<lparr>req_TypeUrl := u\<rparr>"]) simp
  then show "watch_phase drops' (T |` (- L)) P u w"
    using watches_invD(3) [OF inv w] mono lost
    by (cases "w_cancel w \<in> L") (auto simp: watch_phase_def restrict_map_def split: list.splits option.splits)
next
  show "\<exists>u w. R u = Some w \<and> w_cancel w = k" if "(T |` (- L)) k = Some tw" "rw_Response tw \<in> mine" for k tw
    using watches_invD(4) [OF inv, of k tw] that by (auto simp: restrict_map_def split: if_splits)
qed (use watches_invD(5-8) [OF inv] in blast)+

text \<open>What other streams do: watches on other channels appear and disappear.\<close>

lemma watches_inv_other:
  assumes inv: "watches_inv drops T P R lp mine"
    and own: "\<And>u w. R u = Some w \<Longrightarrow> T' (w_cancel w) = T (w_cancel w)"
    and new: "\<And>k tw. T' k = Some tw \<Longrightarrow> rw_Response tw \<in> mine \<Longrightarrow> T k = Some tw"
    and out: "\<And>p. p \<in> set out \<Longrightarrow> fst p \<notin> mine"
  shows "watches_inv drops T' (P @ out) R lp mine"
proof (rule watches_invI)
  fix u w assume w: "R u = Some w"
  show r: "w_response w \<in> mine" "sub_known (w_sub w)" using watches_invD [OF inv] w by blast+
  have "queue out (w_response w) u = []"
    by (rule queue_empty) (use out r(1) in \<open>force simp: on_watch_def\<close>)
  with watches_invD(3) [OF inv w] own [OF w] show "watch_phase drops T' (P @ out) u w"
    by (subst watch_phase_cong) auto
next
  show "\<exists>u w. R u = Some w \<and> w_cancel w = k" if "T' k = Some tw" "rw_Response tw \<in> mine" for k tw
    by (rule watches_invD(4) [OF inv new [OF that] that(2)])
next
  fix ch m assume "(ch, m) \<in> set (P @ out)" and l: "live R lp ch"
  then have "(ch, m) \<in> set P" using out [of "(ch, m)"] live_mine [OF inv l] by auto
  then show "\<exists>w. R (msg_type m) = Some w \<and> w_response w = ch" by (rule watches_invD(5) [OF inv _ l])
qed (use watches_invD(6,7,8) [OF inv] in blast)+

text \<open>What is received from a channel of the stream answers the current watch of its type.\<close>

lemma watches_inv_received:
  assumes inv: "watches_inv drops T P R lp mine" and rec: "receive ch P = Some (x, P')" and l: "live R lp ch"
  obtains r w where "x = Some (RawR r)" "R (msg_type x) = Some w" "w_response w = ch"
    "answers (msg_type x) r (w_sub w)" "w_nonce w = ''''" "T (w_cancel w) = None" "queue P' ch (msg_type x) = []"
proof -
  note Q = receive_queue [OF rec, of "msg_type x"]
  obtain w where w: "R (msg_type x) = Some w" "w_response w = ch"
    using watches_invD(5) [OF inv _ l] Q by blast
  with watches_invD(3) [OF inv w(1)] Q that show thesis
    by (auto simp: watch_phase_def split: list.splits)
qed

lemma watches_inv_send:
  assumes inv: "watches_inv drops T P R lp mine" and rec: "receive ch P = Some (Some (RawR r), P')" and l: "live R lp ch"
    and w: "R (msg_type (Some (RawR r))) = Some w" and n: "n \<noteq> ''''"
  shows "watches_inv drops T P'
    (R(msg_type (Some (RawR r)) \<mapsto> w\<lparr>w_sub := SetReturnedResources (w_sub w) (raw_returnedResources r), w_nonce := n\<rparr>)) lp mine"
    (is "watches_inv drops T P' ?R lp mine")
proof -
  let ?u = "msg_type (Some (RawR r))"
  obtain r' v where "Some (RawR r) = Some (RawR r')" "R ?u = Some v" "w_response v = ch" "answers ?u r' (w_sub v)"
    "T (w_cancel v) = None" "queue P' ch ?u = []"
    by (rule watches_inv_received [OF inv rec l])
  then have A: "w_response w = ch" "answers ?u r (w_sub w)" "T (w_cancel w) = None" "queue P' ch ?u = []"
    using w by simp_all
  note Q = receive_queue [OF rec]
  have live: "live R lp d" if "live ?R lp d" for d using that w by (auto simp: live_def split: if_splits)
  show ?thesis
  proof (rule watches_invI)
    fix u v assume v: "?R u = Some v"
    show "w_response v \<in> mine" using watches_invD(1) [OF inv] v w by (auto split: if_splits)
    show "sub_known (w_sub v)"
      using watches_invD(2) [OF inv] v w answers_known [OF A(2)] by (auto split: if_splits)
    show "watch_phase drops T P' u v"
    proof (cases "u = ?u")
      case True
      with v A n show ?thesis by (auto simp: watch_phase_def)
    next
      case False
      then have R: "R u = Some v" using v by simp
      have "queue P' (w_response v) u = queue P (w_response v) u"
        using Q [of u] False by (cases "w_response v = ch") auto
      with watches_invD(3) [OF inv R] show ?thesis by (subst watch_phase_cong) auto
    qed
  next
    fix k tw assume tw: "T k = Some tw" "rw_Response tw \<in> mine"
    obtain u v where "R u = Some v" "w_cancel v = k" using watches_invD(4) [OF inv tw] by blast
    with A(3) tw(1) w show "\<exists>u w. ?R u = Some w \<and> w_cancel w = k" by (intro exI [of _ u] exI [of _ v]) auto
  next
    fix d m assume m: "(d, m) \<in> set P'" "live ?R lp d"
    then obtain v where "R (msg_type m) = Some v" "w_response v = d"
      using watches_invD(5) [OF inv, of d m] Q live by auto
    with w show "\<exists>w. ?R (msg_type m) = Some w \<and> w_response w = d" by auto
  next
    show "u = u'" if "lp = None" "?R u = Some v" "?R u' = Some v'" "w_response v = w_response v'" for u u' v v'
      using that w watches_invD(6) [OF inv that(1)] by (auto split: if_splits)
  qed (use watches_invD(7,8) [OF inv] w in \<open>auto split: if_splits\<close>)
qed


text \<open>Closing the watch of a type; on an ordered stream its queued responses are discarded.\<close>

definition discard :: "chan option \<Rightarrow> string \<Rightarrow> response_sends \<Rightarrow> response_sends" where
  "discard lp u P = (case lp of None \<Rightarrow> P | Some ch \<Rightarrow> filter (\<lambda>p. \<not> on_watch ch u p) P)"

lemma queue_discard: "u' \<noteq> u \<Longrightarrow> queue (discard lp u P) ch u' = queue P ch u'"
  by (auto simp: discard_def on_watch_def intro!: queue_filter_other split: option.splits)

lemma watches_inv_close:
  assumes inv: "watches_inv drops T P R lp mine" and w: "R u = Some w"
  shows "watches_inv drops (T(w_cancel w := None)) (discard lp u P) (R(u := None)) lp mine"
proof (rule watches_invI)
  fix u' v assume v: "(R(u := None)) u' = Some v"
  then have u': "u' \<noteq> u" "R u' = Some v" by (auto split: if_splits)
  show "w_response v \<in> mine" "sub_known (w_sub v)" using watches_invD [OF inv] u' by blast+
  have "T (w_cancel v) = None" if "w_cancel v = w_cancel w"
    using watches_invD(3) [OF inv w] watches_invD(3) [OF inv u'(2)] that u'(1)
    by (auto simp: watch_phase_def split: list.splits option.splits)
  then show "watch_phase drops (T(w_cancel w := None)) (discard lp u P) u' v"
    using watches_invD(3) [OF inv u'(2)] queue_discard [OF u'(1)] by (subst watch_phase_cong) auto
next
  fix k tw assume tw: "(T(w_cancel w := None)) k = Some tw" "rw_Response tw \<in> mine"
  then have "k \<noteq> w_cancel w" "T k = Some tw" by (auto split: if_splits)
  with watches_invD(4) [OF inv _ tw(2)] w show "\<exists>u' v. (R(u := None)) u' = Some v \<and> w_cancel v = k"
    by (metis fun_upd_other option.inject)
next
  fix ch m assume m: "(ch, m) \<in> set (discard lp u P)" and l: "live (R(u := None)) lp ch"
  have l': "live R lp ch" using l by (auto simp: live_def split: if_splits)
  have "(ch, m) \<in> set P" using m by (auto simp: discard_def split: option.splits)
  then obtain v where v: "R (msg_type m) = Some v" "w_response v = ch"
    using watches_invD(5) [OF inv _ l'] by blast
  have "msg_type m \<noteq> u"
  proof
    assume u: "msg_type m = u"
    show False
    proof (cases lp)
      case None
      then obtain u' v' where "R u' = Some v'" "w_response v' = ch" "u' \<noteq> u"
        using l by (auto simp: live_def split: if_splits)
      with watches_invD(6) [OF inv None] v u show False by auto
    next
      case (Some c)
      then have "ch = c" using watches_invD(8) [OF inv Some v(1)] v(2) by simp
      with m u Some show False by (simp add: discard_def on_watch_def)
    qed
  qed
  with v show "\<exists>w. (R(u := None)) (msg_type m) = Some w \<and> w_response w = ch" by simp
qed (use watches_invD(6,7,8) [OF inv] in \<open>auto split: if_splits\<close>)

text \<open>The outcome of creating a watch.\<close>

definition created ::
  "('k \<Rightarrow> DiscoveryRequest \<Rightarrow> Subscription \<Rightarrow> bool) \<Rightarrow> DiscoveryRequest \<Rightarrow> Subscription \<Rightarrow> chan \<Rightarrow>
     ('k \<Rightarrow> ResponseWatch option) \<Rightarrow> ('k \<Rightarrow> ResponseWatch option) \<Rightarrow> response_sends \<Rightarrow> 'k \<Rightarrow> bool" where
  "created drops q sub ch T T' out k \<longleftrightarrow> T k = None \<and>
     ((\<exists>r. out = [(ch, Some (RawR r))] \<and> answers (req_TypeUrl q) r sub \<and> T' = T) \<or>
      (\<exists>tw. out = [] \<and> rw_Request tw = q \<and> rw_Response tw = ch \<and> rw_subscription tw = sub \<and> T' = T(k \<mapsto> tw)) \<or>
      (out = [] \<and> T' = T \<and> drops k q sub))"

lemma createdD:
  assumes "created drops q sub ch T T' out k"
  shows "T k = None" "p \<in> set out \<Longrightarrow> fst p = ch \<and> msg_type (snd p) = req_TypeUrl q"
    "k' \<noteq> k \<Longrightarrow> T' k' = T k'" "T' k' = Some tw \<Longrightarrow> T k' \<noteq> Some tw \<Longrightarrow> k' = k \<and> rw_Response tw = ch"
  using assms by (auto simp: created_def answers_def msg_type_def req_getTypeUrl_def split: if_splits)

lemma watches_inv_create:
  assumes inv: "watches_inv drops T P R lp mine" and u: "R (req_TypeUrl q) = None"
    and new: "created drops q sub ch T T' out k" "sub_known sub"
    and ch: "lp = Some ch \<or> lp = None \<and> ch \<notin> mine \<and> (\<forall>p\<in>set P. fst p \<noteq> ch)"
    and fresh: "\<And>u w. R u = Some w \<Longrightarrow> w_cancel w = k \<Longrightarrow> T' k = None"
    and other: "\<And>k tw. T k = Some tw \<Longrightarrow> rw_Response tw = ch \<Longrightarrow> ch \<in> mine"
  shows "watches_inv drops T' (P @ out)
    (R(req_TypeUrl q \<mapsto> \<lparr>w_cancel = k, w_response = ch, w_sub = sub, w_nonce = ''''\<rparr>)) lp (insert ch mine)"
    (is "watches_inv drops T' (P @ out) (R(?u \<mapsto> ?w)) lp _")
proof -
  note D = createdD [OF new(1)]
  have none: "queue P ch ?u = []"
  proof (rule queue_empty)
    fix p assume p: "p \<in> set P"
    show "\<not> on_watch ch ?u p"
    proof
      assume o: "on_watch ch ?u p"
      then have "lp = Some ch" using ch p by (auto simp: on_watch_def)
      then have "live R lp (fst p)" using o by (simp add: live_def on_watch_def)
      with watches_invD(5) [OF inv, of "fst p" "snd p"] p o u show False by (auto simp: on_watch_def)
    qed
  qed
  have apart: "lp = None \<Longrightarrow> R v = Some x \<Longrightarrow> w_response x \<noteq> ch" for v x
    using watches_invD(1) [OF inv, of v x] ch by auto
  show ?thesis
  proof (rule watches_invI)
    fix v x assume x: "(R(?u \<mapsto> ?w)) v = Some x"
    show "w_response x \<in> insert ch mine" "sub_known (w_sub x)"
      using watches_invD(1,2) [OF inv, of v x] x new(2) by (auto split: if_splits)
    show "watch_phase drops T' (P @ out) v x"
    proof (cases "v = ?u")
      case True
      with x have "x = ?w" by simp
      with new(1) none True show ?thesis
        by (auto simp: watch_phase_def created_def on_watch_def answers_def msg_type_def req_getTypeUrl_def)
    next
      case False
      then have R: "R v = Some x" using x by simp
      have "queue out (w_response x) v = []"
        by (rule queue_empty) (use D(2) False in \<open>auto simp: on_watch_def\<close>)
      moreover have "T' (w_cancel x) = T (w_cancel x)"
        using D(1) D(3) [of "w_cancel x"] fresh [OF R] by (cases "w_cancel x = k") auto
      ultimately show ?thesis using watches_invD(3) [OF inv R] by (subst watch_phase_cong) auto
    qed
  next
    fix k' tw assume tw: "T' k' = Some tw" "rw_Response tw \<in> insert ch mine"
    show "\<exists>v x. (R(?u \<mapsto> ?w)) v = Some x \<and> w_cancel x = k'"
    proof (cases "T k' = Some tw")
      case True
      then have "rw_Response tw \<in> mine" using tw(2) other [OF True] by auto
      with watches_invD(4) [OF inv True] u show ?thesis by (metis fun_upd_other option.distinct(1))
    next
      case False
      with D(4) [OF tw(1)] show ?thesis by (intro exI [of _ ?u] exI [of _ ?w]) simp
    qed
  next
    fix d m assume m: "(d, m) \<in> set (P @ out)" and l: "live (R(?u \<mapsto> ?w)) lp d"
    show "\<exists>x. (R(?u \<mapsto> ?w)) (msg_type m) = Some x \<and> w_response x = d"
    proof (cases "(d, m) \<in> set out")
      case True
      with D(2) [of "(d, m)"] show ?thesis by simp
    next
      case False
      then have p: "(d, m) \<in> set P" using m by simp
      have "live R lp d" using l ch p by (auto simp: live_def split: if_splits)
      with watches_invD(5) [OF inv p] u show ?thesis by fastforce
    qed
  next
    show "v = v'" if "lp = None" "(R(?u \<mapsto> ?w)) v = Some x" "(R(?u \<mapsto> ?w)) v' = Some x'" "w_response x = w_response x'"
      for v v' x x'
      using that(2-4) apart [OF that(1), of v x] apart [OF that(1), of v' x'] watches_invD(6) [OF inv that(1), of v x v' x']
      by (auto split: if_splits)
  qed (use watches_invD(7,8) [OF inv] ch in \<open>auto split: if_splits\<close>)
qed


subsection \<open>Steps of a stream\<close>

text \<open>Sending a response that the current watch of its type is waiting for.\<close>

lemma send_answer:
  assumes send: "sotw_send srv env (Some (RawR r)) s = (s', None)"
    and w: "responder s (msg_type (Some (RawR r))) = Some w" and ans: "answers (msg_type (Some (RawR r))) r (w_sub w)"
  obtains n where "n \<noteq> ''''" "responder s' = (responder s)(msg_type (Some (RawR r)) \<mapsto>
      w\<lparr>w_sub := SetReturnedResources (w_sub w) (raw_returnedResources r), w_nonce := n\<rparr>)"
    "ss_cache s' = ss_cache s" "ss_pending s' = ss_pending s" "ss_chans s' = ss_chans s"
    "ws_cases (sw_watches (ss_stream s')) = ws_cases (sw_watches (ss_stream s))"
    "\<exists>d. fst (GetDiscoveryResponse (env_marshal env) r) = Inr d \<and>
      sw_sent (ss_stream s') = sw_sent (ss_stream s) @ [d\<lparr>resp_Nonce := FormatInt (sw_nonce (ss_stream s) + 1)\<rparr>]"
  using send
proof (cases rule: sotw_send_cases)
  case unchanged
  with w ans show thesis by (auto simp: answers_def msg_type_def req_getTypeUrl_def)
next
  case (sent r' req w' out)
  let ?n = "FormatInt (sw_nonce (ss_stream s) + 1)"
  have t: "msg_type (Some (RawR r)) = req_TypeUrl req" using sent(1,2) by (auto simp: msg_type_def req_getTypeUrl_def)
  have w': "w' = w" using sent(3) w t by simp
  have "responder s' = (responder s)(req_TypeUrl req \<mapsto>
      w\<lparr>w_sub := SetReturnedResources (w_sub w) (raw_returnedResources r), w_nonce := ?n\<rparr>)"
    using responder_addWatch [OF sent(13)] sent(1) by (auto simp: w')
  with sent t show thesis
    by (intro that [of ?n]) (auto simp: addWatch_def split: sum.splits)
qed

text \<open>\<open>processAllExcept\<close> seen by the watches of the other types.\<close>

lemma processAllExcept_inv:
  assumes "processAllExcept srv env ch u ms s = (s', None)" and "channel_contents ch (ss_pending s) = ms"
    and "watches_inv drops T (discard (Some ch) u (ss_pending s)) ((responder s)(u := None)) (Some ch) mine"
  shows "watches_inv drops T (discard (Some ch) u (ss_pending s')) ((responder s')(u := None)) (Some ch) mine \<and>
    responder s' u = responder s u \<and> ss_cache s' = ss_cache s \<and> ss_chans s' = ss_chans s \<and>
    set (ss_pending s') \<subseteq> set (ss_pending s) \<and> channel_contents ch (ss_pending s') = [] \<and>
    w_cancel ` ran (responder s') \<subseteq> w_cancel ` ran (responder s)"
  using assms
proof (induction ms arbitrary: s)
  case (Cons res rest)
  let ?s = "s\<lparr>ss_pending := drop_first ch (ss_pending s)\<rparr>"
  have R: "responder (s\<lparr>ss_pending := p\<rparr>) = responder s" "ss_pending (s\<lparr>ss_pending := p\<rparr>) = p" for p
    by (rule ext, simp add: responder_def) simp
  note drop = channel_drop_first [OF Cons.prems(2)]
  obtain P' where rec: "receive ch (ss_pending s) = Some (res, P')" using receive_ex [OF Cons.prems(2)] by blast
  then have P': "drop_first ch (ss_pending s) = P'" by (simp add: drop_first_def)
  have sub: "set P' \<subseteq> set (ss_pending s)" using receive_queue [OF rec] by blast
  obtain r where r: "res = Some r" using Cons.prems(1) by (auto simp: Let_def split: option.splits)
  have t: "msg_type res = req_getTypeUrl (GetRequest r)" by (simp add: r msg_type_def)
  note F = receive_filter [OF rec, of "\<lambda>p. \<not> on_watch ch u p"]
  show ?case
  proof (cases "msg_type res = u")
    case True
    then have run: "processAllExcept srv env ch u rest ?s = (s', None)" using Cons.prems(1) r t by (simp add: Let_def)
    have "discard (Some ch) u P' = discard (Some ch) u (ss_pending s)"
      using F True by (simp add: discard_def on_watch_def)
    then have "watches_inv drops T (discard (Some ch) u (ss_pending ?s)) ((responder ?s)(u := None)) (Some ch) mine"
      using Cons.prems(3) by (simp only: R P')
    from Cons.IH [OF run _ this] drop sub R P' show ?thesis by auto
  next
    case False
    obtain s1 where send: "sotw_send srv env (Some r) ?s = (s1, None)" and run: "processAllExcept srv env ch u rest s1 = (s', None)"
      using Cons.prems(1) r t False by (auto simp: Let_def split: prod.splits option.splits)
    have rec': "receive ch (discard (Some ch) u (ss_pending s)) = Some (res, discard (Some ch) u P')"
      using F False by (simp add: discard_def on_watch_def)
    have l: "live ((responder s)(u := None)) (Some ch) ch" by (simp add: live_def)
    obtain rr w where w: "res = Some (RawR rr)" "((responder s)(u := None)) (msg_type res) = Some w" "answers (msg_type res) rr (w_sub w)"
      by (rule watches_inv_received [OF Cons.prems(3) rec' l])
    have w': "responder ?s (msg_type (Some (RawR rr))) = Some w" using w(1,2) False R by simp
    have ans: "answers (msg_type (Some (RawR rr))) rr (w_sub w)" using w(1,3) by simp
    have rr: "r = RawR rr" using w(1) r by simp
    obtain n where n: "n \<noteq> ''''" "responder s1 = (responder s)(msg_type (Some (RawR rr)) \<mapsto>
        w\<lparr>w_sub := SetReturnedResources (w_sub w) (raw_returnedResources rr), w_nonce := n\<rparr>)"
      "ss_cache s1 = ss_cache s" "ss_pending s1 = P'" "ss_chans s1 = ss_chans s"
      by (rule send_answer [OF send [unfolded rr] w' ans]) (auto simp: R P')
    have inv1: "watches_inv drops T (discard (Some ch) u (ss_pending s1)) ((responder s1)(u := None)) (Some ch) mine"
      using watches_inv_send [OF Cons.prems(3) rec' [unfolded w(1)] l _ n(1)] w(1,2) False n(2,4) by (simp add: fun_upd_twist)
    have rest: "channel_contents ch (ss_pending s1) = rest" using drop n(4) P' by simp
    have ran1: "w_cancel ` ran (responder s1) \<subseteq> w_cancel ` ran (responder s)"
      using w' R unfolding n(2) ran_def by auto
    have own: "responder s1 u = responder s u" using w(1) False n(2) by simp
    note I = Cons.IH [OF run rest inv1]
    have "w_cancel ` ran (responder s') \<subseteq> w_cancel ` ran (responder s)"
      by (rule order_trans [OF _ ran1]) (use I in simp)
    moreover have "set (ss_pending s') \<subseteq> set (ss_pending s)"
      by (rule order_trans [OF _ sub]) (use I n(4) in simp)
    ultimately show ?thesis using I n(3,5) own by simp
  qed
qed simp


text \<open>A request on an ordered stream after which the stream goes on.\<close>

lemma processADS_request_Continue:
  assumes step: "processADS_request srv env ch req s = (s', Continue)"
  obtains (stale) "ss_cache s' = ss_cache s" "ss_pending s' = ss_pending s" "ss_chans s' = ss_chans s"
      "sw_watches (ss_stream s') = sw_watches (ss_stream s)"
  | (watch) q s2 s3 sub out k where
      "cw_CreateWatch (srv_cache srv) q sub ch (ss_cache s3) = (ss_cache s', out, Inr k)"
      "case responder s (req_TypeUrl q) of
         None \<Rightarrow> s3 = s2 \<and> ss_cache s2 = ss_cache s \<and>
           sub = NewSotwSubscription (req_ResourceNames q) (IsLegacyWildcardActive (srv_opts srv) (req_TypeUrl q))
       | Some w \<Rightarrow> ss_cache s2 = cw_cancel (srv_cache srv) (w_cancel w) (ss_cache s) \<and>
           processAllExcept srv env ch (req_TypeUrl q) (channel_contents ch (ss_pending s2)) s2 = (s3, None) \<and>
           sub = SetResourceSubscription (w_sub w) (req_ResourceNames q)"
      "responder s2 = responder s" "ss_pending s2 = ss_pending s" "ss_chans s2 = ss_chans s"
      "ss_pending s' = ss_pending s3 @ out" "ss_chans s' = ss_chans s3"
      "responder s' = (responder s3)(req_TypeUrl q \<mapsto> \<lparr>w_cancel = k, w_response = ch, w_sub = sub, w_nonce = ''''\<rparr>)"
      "req_TypeUrl q = req_TypeUrl req" "req_ResourceNames q = req_ResourceNames req"
      "sw_sent (ss_stream s2) = sw_sent (ss_stream s)" "sw_sent (ss_stream s') = sw_sent (ss_stream s3)"
proof -
  obtain q s1 where r: "reassignNode req s = (q, s1)" by (cases "reassignNode req s")
  obtain s2 e2 where o: "onStreamRequest srv q s1 = (s2, e2)" by (cases "onStreamRequest srv q s1")
  note f = reassignNode_frame [OF r] onStreamRequest_frame [OF o]
  have R: "responder s2 = responder s" by (rule ext) (use f in \<open>simp add: responder_def\<close>)
  let ?u = "req_TypeUrl q"
  note eval = step [unfolded processADS_request_def r prod.case Let_def o]
  have create: thesis
    if opened: "openWatch srv q sub ch s3 = (s', None)" and frames: "responder s4 = responder s" "ss_pending s4 = ss_pending s" "ss_chans s4 = ss_chans s"
      "sw_sent (ss_stream s4) = sw_sent (ss_stream s)"
      "case responder s ?u of
         None \<Rightarrow> s3 = s4 \<and> ss_cache s4 = ss_cache s \<and>
           sub = NewSotwSubscription (req_ResourceNames q) (IsLegacyWildcardActive (srv_opts srv) ?u)
       | Some w \<Rightarrow> ss_cache s4 = cw_cancel (srv_cache srv) (w_cancel w) (ss_cache s) \<and>
           processAllExcept srv env ch ?u (channel_contents ch (ss_pending s4)) s4 = (s3, None) \<and>
           sub = SetResourceSubscription (w_sub w) (req_ResourceNames q)" for s3 s4 sub
  proof -
    obtain c out k where c: "cw_CreateWatch (srv_cache srv) q sub ch (ss_cache s3) = (c, out, Inr k)"
      and s': "s' = set_watches (addWatch ?u \<lparr>w_cancel = k, w_response = ch, w_sub = sub, w_nonce = ''''\<rparr>)
          (s3\<lparr>ss_cache := c, ss_pending := ss_pending s3 @ out\<rparr>)"
      using opened by (auto simp: openWatch_def Let_def split: prod.splits sum.splits)
    have "responder s' = (responder s3)(?u \<mapsto> \<lparr>w_cancel = k, w_response = ch, w_sub = sub, w_nonce = ''''\<rparr>)"
      by (rule ext) (simp add: s' responder_def set_watches_def addWatch_def)
    with c s' frames f(7,8) show thesis by (intro watch [of q sub s3 out k s4]) (auto simp: set_watches_def)
  qed
  show thesis
  proof (cases "case responder s ?u of None \<Rightarrow> False | Some w \<Rightarrow> staleNonce q w")
    case True
    with eval R f show thesis by (intro stale) (auto split: if_splits option.splits)
  next
    case fresh: False
    show thesis
    proof (cases "responder s ?u")
      case None
      with eval R f fresh show thesis by (intro create [of _ s2 s2]) (auto split: if_splits option.splits prod.splits)
    next
      case (Some w)
      let ?s2 = "s2\<lparr>ss_cache := watch_close (srv_cache srv) w (ss_cache s2)\<rparr>"
      obtain s3 e3 where p: "processAllExcept srv env ch ?u (channel_contents ch (ss_pending s2)) ?s2 = (s3, e3)"
        by (cases "processAllExcept srv env ch ?u (channel_contents ch (ss_pending s2)) ?s2")
      have e3: "e3 = None" and e2: "e2 = None"
        using eval Some fresh R p by (auto split: if_splits option.splits)
      have s2: "responder (s2\<lparr>ss_cache := c\<rparr>) = responder s2" for c by (rule ext) (simp add: responder_def)
      have "responder s3 ?u = responder ?s2 ?u"
        using processAllExcept_sends [OF p [unfolded e3]] by auto
      then have "responder s3 ?u = Some w" using Some R s2 by simp
      with eval Some fresh R p e2 e3 f show thesis
        by (intro create [of "SetResourceSubscription (w_sub w) (req_ResourceNames q)" s3 ?s2])
          (auto simp: s2 watch_close_def split: if_splits option.splits prod.splits)
    qed
  qed
qed


section \<open>Streams\<close>

fun loop_step ::
  "('c, 'k, 'u) sotw_server \<Rightarrow> stream_env \<Rightarrow> string \<Rightarrow> chan option \<Rightarrow> stream_event \<Rightarrow> ('c, 'k, 'u) sotw_state \<Rightarrow>
     ('c, 'k, 'u) sotw_state \<times> outcome" where
  "loop_step srv env t None = process_step srv env t"
| "loop_step srv env t (Some ch) = processADS_step srv env ch"

text \<open>The type of a request, which the unordered loop defaults to the type of the stream.\<close>

definition loop_type :: "string \<Rightarrow> chan option \<Rightarrow> DiscoveryRequest \<Rightarrow> string" where
  "loop_type t lp q = (if lp = None \<and> req_TypeUrl q = '''' then t else req_TypeUrl q)"

text \<open>
  A stream on a cache that others use as well: \<open>update g c out g' c'\<close> are the updates of the cache with what they
  send, \<open>g\<close> being what is remembered of them for the contract and not part of the cache; \<open>room\<close> says that the cache can number another watch. The stream runs the unordered loop, or the
  ordered one with its shared channel; \<open>mine\<close> are the channels it has made. Other streams use other
  channels and do not cancel the watches of this one.
\<close>

inductive watched_stream ::
  "('g \<Rightarrow> 'c \<Rightarrow> bool) \<Rightarrow> ('c \<Rightarrow> bool) \<Rightarrow> ('g \<Rightarrow> 'c \<Rightarrow> response_sends \<Rightarrow> 'g \<Rightarrow> 'c \<Rightarrow> bool) \<Rightarrow> ('c, 'k, 'u) sotw_server \<Rightarrow> stream_env \<Rightarrow>
     string \<Rightarrow> chan option \<Rightarrow> chan set \<Rightarrow> ('c, 'k, 'u) sotw_state \<Rightarrow> 'g \<Rightarrow> bool" for start room update srv env t where
  wst_open: "start g (ss_cache s0) \<Longrightarrow> ss_pending s0 = [] \<Longrightarrow> stream_open srv env t s0 = (s, None) \<Longrightarrow>
    watched_stream start room update srv env t None {} (set_watches recompute s) g"
| wst_open_ads: "start g (ss_cache s0) \<Longrightarrow> ss_pending s0 = [] \<Longrightarrow> stream_open srv env t s0 = (s, None) \<Longrightarrow>
    watched_stream start room update srv env t (Some (ss_chans s)) {ss_chans s} (s\<lparr>ss_chans := Suc (ss_chans s)\<rparr>) g"
| wst_event: "watched_stream start room update srv env t lp mine s g \<Longrightarrow> room (ss_cache s) \<Longrightarrow>
    loop_step srv env t lp e s = (s', Continue) \<Longrightarrow>
    watched_stream start room update srv env t lp (mine \<union> {ss_chans s..<ss_chans s'}) s' g"
| wst_update: "watched_stream start room update srv env t lp mine s g \<Longrightarrow> update g (ss_cache s) out g' c' \<Longrightarrow>
    watched_stream start room update srv env t lp mine (s\<lparr>ss_cache := c', ss_pending := ss_pending s @ out\<rparr>) g'"
| wst_other_watch: "watched_stream start room update srv env t lp mine s g \<Longrightarrow> room (ss_cache s) \<Longrightarrow>
    cw_CreateWatch (srv_cache srv) q sub ch (ss_cache s) = (c', out, Inr k) \<Longrightarrow> sub_known sub \<Longrightarrow>
    ch \<notin> mine \<Longrightarrow> ss_chans s \<le> n \<Longrightarrow> ch < n \<Longrightarrow>
    watched_stream start room update srv env t lp mine
      (s\<lparr>ss_cache := c', ss_pending := ss_pending s @ out, ss_chans := n\<rparr>) g"
| wst_other_cancel: "watched_stream start room update srv env t lp mine s g \<Longrightarrow>
    (\<And>u w. responder s u = Some w \<Longrightarrow> w_cancel w \<noteq> k) \<Longrightarrow>
    watched_stream start room update srv env t lp mine (s\<lparr>ss_cache := cw_cancel (srv_cache srv) k (ss_cache s)\<rparr>) g"

text \<open>The invariant of such a stream. \<open>issued\<close> are the cancel functions the cache has given out.\<close>

definition parts_ok ::
  "('c \<Rightarrow> bool) \<Rightarrow> ('c \<Rightarrow> 'k \<Rightarrow> ResponseWatch option) \<Rightarrow> ('c \<Rightarrow> 'k \<Rightarrow> bool) \<Rightarrow>
     ('k \<Rightarrow> DiscoveryRequest \<Rightarrow> Subscription \<Rightarrow> bool) \<Rightarrow> chan option \<Rightarrow> chan set \<Rightarrow>
     'c \<Rightarrow> response_sends \<Rightarrow> (string \<Rightarrow> 'k sotw_watch option) \<Rightarrow> chan \<Rightarrow> bool" where
  "parts_ok ok held issued drops lp mine c P R n \<longleftrightarrow>
     ok c \<and> watches_inv drops (held c) P R lp mine \<and> (\<forall>k\<in>w_cancel ` ran R. issued c k) \<and>
     (\<forall>tw\<in>ran (held c). rw_Response tw < n) \<and> (\<forall>p\<in>set P. fst p < n) \<and> (\<forall>ch\<in>mine. ch < n)"

text \<open>The unordered loop waits on the channels of the current watches.\<close>

definition loop_ok :: "('c, 'k, 'u) sotw_state \<Rightarrow> bool" where
  "loop_ok s \<longleftrightarrow> gomap_ok (ws_responders (sw_watches (ss_stream s))) \<and> cases_ok s \<and>
     (\<forall>ch. CaseWatch ch \<in> set (ws_cases (sw_watches (ss_stream s))) \<longrightarrow> live (responder s) None ch)"

definition stream_ok ::
  "('c \<Rightarrow> bool) \<Rightarrow> ('c \<Rightarrow> 'k \<Rightarrow> ResponseWatch option) \<Rightarrow> ('c \<Rightarrow> 'k \<Rightarrow> bool) \<Rightarrow>
     ('k \<Rightarrow> DiscoveryRequest \<Rightarrow> Subscription \<Rightarrow> bool) \<Rightarrow> chan option \<Rightarrow> chan set \<Rightarrow> ('c, 'k, 'u) sotw_state \<Rightarrow> bool" where
  "stream_ok ok held issued drops lp mine s \<longleftrightarrow>
     parts_ok ok held issued drops lp mine (ss_cache s) (ss_pending s) (responder s) (ss_chans s) \<and>
     (lp = None \<longrightarrow> loop_ok s)"

lemmas stream_ok_defs = stream_ok_def parts_ok_def

lemma loop_ok_frame: "sw_watches (ss_stream s') = sw_watches (ss_stream s) \<Longrightarrow> loop_ok s' = loop_ok s"
  by (simp add: loop_ok_def cases_ok_def live_def responder_def)

lemma loop_ok_step:
  assumes ok: "loop_ok s" and step: "process_step srv env t e s = (s', Continue)"
  shows "loop_ok s'"
proof -
  have g: "gomap_ok (ws_responders (sw_watches (ss_stream s')))" "cases_ok s'"
    using ok responders_ok_step [OF _ step] cases_ok_step [OF _ step] by (auto simp: loop_ok_def)
  have "live (responder s') None d" if d: "CaseWatch d \<in> set (ws_cases (sw_watches (ss_stream s')))" for d
    using step
  proof (cases rule: process_step_Continue)
    case (request req)
    then show ?thesis
    proof (cases rule: process_request_Continue)
      case stale
      with ok d show ?thesis by (simp add: loop_ok_def live_def responder_def)
    next
      case (watch q sub c1 out k)
      with d obtain u w where "(u, w) \<in> set (ws_responders (sw_watches (ss_stream s')))" "w_response w = d"
        using CaseWatch_recompute by (auto simp: recompute_def)
      with g(1) show ?thesis unfolding live_def responder_def by (metis map_of_iff)
    qed
  next
    case (response i)
    then show ?thesis
    proof (cases rule: process_response_Continue)
      case (received ch res p')
      from received(3) show ?thesis
      proof (cases rule: sotw_send_cases)
        case (sent r req w out)
        have R: "responder s (req_TypeUrl req) = Some w" using sent(3) by (simp add: responder_def)
        have "live (responder s) None d" using ok d sent(13) by (simp add: loop_ok_def addWatch_def)
        moreover have "responder s' = (responder s)(req_TypeUrl req \<mapsto>
            w\<lparr>w_sub := SetReturnedResources (w_sub w) (GetReturnedResources r), w_nonce := FormatInt (sw_nonce (ss_stream s) + 1)\<rparr>)"
          using responder_addWatch [OF sent(13)] by (auto simp: responder_def)
        ultimately show ?thesis using live_upd [where R = "responder s", OF R] by simp
      qed (use ok d in \<open>simp add: loop_ok_def live_def responder_def\<close>)
    qed (use ok d in \<open>simp add: loop_ok_def\<close>)
  qed
  with g show ?thesis by (simp add: loop_ok_def)
qed

section \<open>The interface\<close>

text \<open>
  What a cache promises for the watches it is given: creating one answers it at once, or tracks it under
  a cancel function that was not given out before, or drops the request if \<open>drops\<close> allows it; the cancel
  function removes it; an update answers some of the tracked watches, once each, and keeps the others,
  save those it may drop from then on.
\<close>

locale config_watcher =
  fixes cache :: "('c, 'k) Cache"
    and start :: "'g \<Rightarrow> 'c \<Rightarrow> bool"
    and ok :: "'g \<Rightarrow> 'c \<Rightarrow> bool"
    and room :: "'c \<Rightarrow> bool"
    and held :: "'c \<Rightarrow> 'k \<Rightarrow> ResponseWatch option"
    and issued :: "'c \<Rightarrow> 'k \<Rightarrow> bool"
    and update :: "'g \<Rightarrow> 'c \<Rightarrow> response_sends \<Rightarrow> 'g \<Rightarrow> 'c \<Rightarrow> bool"
    and drops :: "'g \<Rightarrow> 'k \<Rightarrow> DiscoveryRequest \<Rightarrow> Subscription \<Rightarrow> bool"
  assumes start_ok: "start g c \<Longrightarrow> ok g c"
    and start_empty: "start g c \<Longrightarrow> held c = Map.empty"
    and create: "ok g c \<Longrightarrow> room c \<Longrightarrow> sub_known sub \<Longrightarrow> cw_CreateWatch cache q sub ch c = (c', out, Inr k) \<Longrightarrow>
      ok g c' \<and> created (drops g) q sub ch (held c) (held c') out k \<and>
      issued c' k \<and> (\<forall>k'. issued c k' \<longrightarrow> issued c' k') \<and> (held c' k \<noteq> None \<longrightarrow> \<not> issued c k)"
    and cancel: "ok g c \<Longrightarrow> ok g (cw_cancel cache k c) \<and> held (cw_cancel cache k c) = (held c)(k := None) \<and>
      issued (cw_cancel cache k c) = issued c \<and> (room c \<longrightarrow> room (cw_cancel cache k c))"
    and updates: "ok g c \<Longrightarrow> update g c out g' c' \<Longrightarrow> ok g' c' \<and> (\<forall>k. issued c k \<longrightarrow> issued c' k) \<and>
      (\<forall>k q sub. drops g k q sub \<longrightarrow> drops g' k q sub) \<and>
      (\<exists>T L. answered_update (held c) out T \<and> held c' = T |` (- L) \<and> (\<forall>k\<in>L. \<forall>q sub. drops g' k q sub))"
begin

lemma stream_ok_update:
  assumes inv: "stream_ok (ok g) held issued (drops g) lp mine s" and up: "update g (ss_cache s) out g' c'"
  shows "stream_ok (ok g') held issued (drops g') lp mine (s\<lparr>ss_cache := c', ss_pending := ss_pending s @ out\<rparr>)"
proof -
  have okc: "ok g (ss_cache s)" and wi: "watches_inv (drops g) (held (ss_cache s)) (ss_pending s) (responder s) lp mine"
    using inv by (auto simp: stream_ok_defs)
  note U = updates [OF okc up]
  obtain T L where T: "answered_update (held (ss_cache s)) out T" and L: "held c' = T |` (- L)" "\<forall>k\<in>L. \<forall>q sub. drops g' k q sub"
    using U by blast
  obtain ks where ks: "distinct ks" "list_all2 (answered_by (held (ss_cache s))) ks out" "T = held (ss_cache s) |` (- set ks)"
    using T unfolding answered_update_def by blast
  have "watches_inv (drops g') (T |` (- L)) (ss_pending s @ out) (responder s) lp mine"
    by (rule watches_inv_forget [OF watches_inv_update [OF wi ks]]) (use U L(2) in blast)+
  then have wi': "watches_inv (drops g') (held c') (ss_pending s @ out) (responder s) lp mine" by (simp only: L(1))
  have R: "responder (s\<lparr>ss_cache := c', ss_pending := ss_pending s @ out\<rparr>) = responder s"
    by (rule ext) (simp add: responder_def)
  have Lo: "loop_ok (s\<lparr>ss_cache := c', ss_pending := ss_pending s @ out\<rparr>) = loop_ok s" by (rule loop_ok_frame) simp
  have "fst p < ss_chans s" if "p \<in> set out" for p
    using answered_by_in [OF ks(2) that] inv by (auto simp: answered_by_def stream_ok_defs ran_def)
  moreover have "ran (held c') \<subseteq> ran (held (ss_cache s))"
    unfolding L(1) ks(3) by (auto simp: ran_def restrict_map_def split: if_splits)
  ultimately show ?thesis
    using inv U wi' unfolding stream_ok_defs R Lo by auto
qed

lemma stream_ok_other_watch:
  assumes inv: "stream_ok (ok g) held issued (drops g) lp mine s" and room: "room (ss_cache s)" and sub: "sub_known sub"
    and cr: "cw_CreateWatch cache q sub ch (ss_cache s) = (c', out, Inr k)"
    and ch: "ch \<notin> mine" "ss_chans s \<le> n" "ch < n"
  shows "stream_ok (ok g) held issued (drops g) lp mine (s\<lparr>ss_cache := c', ss_pending := ss_pending s @ out, ss_chans := n\<rparr>)"
proof -
  have okc: "ok g (ss_cache s)" and wi: "watches_inv (drops g) (held (ss_cache s)) (ss_pending s) (responder s) lp mine"
    using inv by (auto simp: stream_ok_defs)
  have C: "ok g c'" "created (drops g) q sub ch (held (ss_cache s)) (held c') out k"
    "\<And>k'. issued (ss_cache s) k' \<Longrightarrow> issued c' k'" "held c' k \<noteq> None \<Longrightarrow> \<not> issued (ss_cache s) k"
    using create [OF okc room sub cr] by blast+
  note D = createdD [OF C(2)]
  have R: "responder (s\<lparr>ss_cache := c', ss_pending := ss_pending s @ out, ss_chans := n\<rparr>) = responder s"
    by (rule ext) (simp add: responder_def)
  have L: "loop_ok (s\<lparr>ss_cache := c', ss_pending := ss_pending s @ out, ss_chans := n\<rparr>) = loop_ok s" by (rule loop_ok_frame) simp
  have own: "held c' (w_cancel w) = held (ss_cache s) (w_cancel w)" if "responder s u = Some w" for u w
  proof (cases "w_cancel w = k")
    case True
    have "issued (ss_cache s) k" using inv that True by (auto simp: stream_ok_defs ran_def)
    with C(4) D(1) True show ?thesis by (cases "held c' k") auto
  qed (use D(3) in simp)
  have "watches_inv (drops g) (held c') (ss_pending s @ out) (responder s) lp mine"
    by (rule watches_inv_other [OF wi own]) (use D(2,4) ch(1) in blast)+
  moreover have "rw_Response tw < n" if tw: "tw \<in> ran (held c')" for tw
  proof -
    obtain k' where "held c' k' = Some tw" using tw by (auto simp: ran_def)
    with D(4) ch inv show ?thesis by (cases "held (ss_cache s) k' = Some tw") (force simp: stream_ok_defs ran_def)+
  qed
  ultimately show ?thesis
    using inv C(1,3) D(2) ch unfolding stream_ok_defs R L by force
qed

lemma stream_ok_other_cancel:
  assumes inv: "stream_ok (ok g) held issued (drops g) lp mine s" and k: "\<And>u w. responder s u = Some w \<Longrightarrow> w_cancel w \<noteq> k"
  shows "stream_ok (ok g) held issued (drops g) lp mine (s\<lparr>ss_cache := cw_cancel cache k (ss_cache s)\<rparr>)"
proof -
  have okc: "ok g (ss_cache s)" and wi: "watches_inv (drops g) (held (ss_cache s)) (ss_pending s) (responder s) lp mine"
    using inv by (auto simp: stream_ok_defs)
  note C = cancel [OF okc, of k]
  have R: "responder (s\<lparr>ss_cache := cw_cancel cache k (ss_cache s)\<rparr>) = responder s"
    by (rule ext) (simp add: responder_def)
  have L: "loop_ok (s\<lparr>ss_cache := cw_cancel cache k (ss_cache s)\<rparr>) = loop_ok s" by (rule loop_ok_frame) simp
  have "watches_inv (drops g) (held (cw_cancel cache k (ss_cache s))) (ss_pending s @ []) (responder s) lp mine"
    by (rule watches_inv_other [OF wi]) (use C k in \<open>auto split: if_splits\<close>)
  then show ?thesis
    using inv C unfolding stream_ok_defs R L by (auto simp: ran_def split: if_splits)
qed

lemma stream_ok_send:
  assumes inv: "stream_ok (ok g) held issued (drops g) lp mine s" and rec: "receive ch (ss_pending s) = Some (x, P')"
    and l: "live (responder s) lp ch" and send: "sotw_send srv env x (s\<lparr>ss_pending := P'\<rparr>) = (s', None)"
  shows "parts_ok (ok g) held issued (drops g) lp mine (ss_cache s') (ss_pending s') (responder s') (ss_chans s') \<and>
    ss_chans s' = ss_chans s"
proof -
  let ?s = "s\<lparr>ss_pending := P'\<rparr>"
  have wi: "watches_inv (drops g) (held (ss_cache s)) (ss_pending s) (responder s) lp mine"
    using inv by (auto simp: stream_ok_defs)
  have R: "responder ?s = responder s" by (rule ext) (simp add: responder_def)
  obtain r w where x: "x = Some (RawR r)" and w: "responder s (msg_type x) = Some w" "answers (msg_type x) r (w_sub w)"
    by (rule watches_inv_received [OF wi rec l])
  have w': "responder ?s (msg_type (Some (RawR r))) = Some w" using w(1) x R by simp
  obtain n where n: "n \<noteq> ''''" "responder s' = (responder s)(msg_type (Some (RawR r)) \<mapsto>
      w\<lparr>w_sub := SetReturnedResources (w_sub w) (raw_returnedResources r), w_nonce := n\<rparr>)"
    "ss_cache s' = ss_cache s" "ss_pending s' = P'" "ss_chans s' = ss_chans s"
    by (rule send_answer [OF send [unfolded x] w' w(2) [unfolded x]]) (auto simp: R)
  have "watches_inv (drops g) (held (ss_cache s)) P' (responder s') lp mine"
    unfolding n(2) by (rule watches_inv_send [OF wi rec [unfolded x] l w(1) [unfolded x] n(1)])
  moreover have iss: "issued (ss_cache s) (w_cancel v)" if "responder s u = Some v" for u v
    using inv that by (auto simp: stream_ok_defs ran_def)
  have "\<forall>k\<in>w_cancel ` ran (responder s'). issued (ss_cache s) k"
    using iss [OF w(1)] iss x unfolding n(2) by (auto simp: ran_def split: if_splits)
  moreover have "\<forall>p\<in>set P'. fst p < ss_chans s"
    using inv receive_queue [OF rec, of "''''"] by (auto simp: stream_ok_defs)
  ultimately show ?thesis
    using inv n(3-5) by (simp add: stream_ok_defs)
qed

text \<open>Opening a watch for a type that has none, on a fresh channel or the shared one.\<close>

lemma parts_ok_create:
  assumes inv: "parts_ok (ok g) held issued (drops g) lp mine c P R n" and room: "room c" and sub: "sub_known sub"
    and u: "R (req_TypeUrl q) = None" and cr: "cw_CreateWatch cache q sub ch c = (c', out, Inr k)"
    and ch: "lp = Some ch \<or> lp = None \<and> ch = n"
  shows "parts_ok (ok g) held issued (drops g) lp (insert ch mine) c' (P @ out)
    (R(req_TypeUrl q \<mapsto> \<lparr>w_cancel = k, w_response = ch, w_sub = sub, w_nonce = ''''\<rparr>)) (max n (Suc ch))"
proof -
  have okc: "ok g c" and wi: "watches_inv (drops g) (held c) P R lp mine" using inv by (auto simp: parts_ok_def)
  have C: "ok g c'" "created (drops g) q sub ch (held c) (held c') out k" "issued c' k"
    "\<And>k'. issued c k' \<Longrightarrow> issued c' k'" "held c' k \<noteq> None \<Longrightarrow> \<not> issued c k"
    using create [OF okc room sub cr] by blast+
  note D = createdD [OF C(2)]
  have iss: "issued c (w_cancel w)" if "R v = Some w" for v w using inv that by (auto simp: parts_ok_def ran_def)
  have tw: "rw_Response tw < n" if "held c k' = Some tw" for k' tw using inv that by (auto simp: parts_ok_def ran_def)
  have "watches_inv (drops g) (held c') (P @ out)
      (R(req_TypeUrl q \<mapsto> \<lparr>w_cancel = k, w_response = ch, w_sub = sub, w_nonce = ''''\<rparr>)) lp (insert ch mine)"
  proof (rule watches_inv_create [OF wi u C(2) sub])
    show "lp = Some ch \<or> lp = None \<and> ch \<notin> mine \<and> (\<forall>p\<in>set P. fst p \<noteq> ch)"
      using ch inv by (auto simp: parts_ok_def)
    show "held c' k = None" if "R v = Some w" "w_cancel w = k" for v w using iss [OF that(1)] that(2) C(5) by blast
    show "ch \<in> mine" if "held c k' = Some tw" "rw_Response tw = ch" for k' tw
      using ch tw [OF that(1)] that(2) watches_invD(7) [OF wi] by auto
  qed
  moreover have "rw_Response tw < max n (Suc ch)" if t: "tw \<in> ran (held c')" for tw
  proof -
    obtain k' where k': "held c' k' = Some tw" using t by (auto simp: ran_def)
    then show ?thesis using D(4) [OF k'] tw [of k' tw] by (cases "held c k' = Some tw") auto
  qed
  moreover have "issued c' k'" if t: "k' \<in> w_cancel ` ran (R(req_TypeUrl q \<mapsto> \<lparr>w_cancel = k, w_response = ch, w_sub = sub, w_nonce = ''''\<rparr>))" for k'
    using t C(3,4) iss by (auto simp: ran_def split: if_splits)
  ultimately show ?thesis
    using inv C(1) D(2) unfolding parts_ok_def by fastforce
qed

lemma parts_ok_close:
  assumes inv: "parts_ok (ok g) held issued (drops g) lp mine c P R n" and w: "R u = Some w"
  shows "parts_ok (ok g) held issued (drops g) lp mine (cw_cancel cache (w_cancel w) c) (discard lp u P) (R(u := None)) n"
proof -
  have okc: "ok g c" and wi: "watches_inv (drops g) (held c) P R lp mine" using inv by (auto simp: parts_ok_def)
  note C = cancel [OF okc, of "w_cancel w"]
  have "set (discard lp u P) \<subseteq> set P" by (auto simp: discard_def split: option.splits)
  then show ?thesis
    using inv C watches_inv_close [OF wi w] unfolding parts_ok_def by (auto simp: ran_def split: if_splits)
qed

lemma stream_ok_request:
  assumes inv: "stream_ok (ok g) held issued (drops g) None mine s" and room: "room (ss_cache s)" and srv: "srv_cache srv = cache"
    and step: "process_request srv t req s = (s', Continue)"
  shows "parts_ok (ok g) held issued (drops g) None (mine \<union> {ss_chans s..<ss_chans s'})
    (ss_cache s') (ss_pending s') (responder s') (ss_chans s')"
  using step
proof (cases rule: process_request_Continue)
  case stale
  then have "responder s' = responder s" by (intro ext) (simp add: responder_def)
  with stale inv show ?thesis by (simp add: stream_ok_def)
next
  case (watch q sub c1 out k)
  let ?u = "req_TypeUrl q" and ?R = "(responder s)(req_TypeUrl q := None)"
  let ?w = "\<lparr>w_cancel = k, w_response = ss_chans s, w_sub = sub, w_nonce = ''''\<rparr>"
  have parts: "parts_ok (ok g) held issued (drops g) None mine (ss_cache s) (ss_pending s) (responder s) (ss_chans s)"
    using inv by (simp add: stream_ok_def)
  then have wi: "watches_inv (drops g) (held (ss_cache s)) (ss_pending s) (responder s) None mine" and okc: "ok g (ss_cache s)"
    by (simp_all add: parts_ok_def)
  have "parts_ok (ok g) held issued (drops g) None mine c1 (ss_pending s) ?R (ss_chans s) \<and> room c1 \<and> sub_known sub"
  proof (cases "responder s ?u")
    case None
    then have "?R = responder s" by auto
    with None parts watch(2) room NewSotw_known show ?thesis by simp
  next
    case (Some w)
    have "sub_known (w_sub w)" by (rule watches_invD(2) [OF wi Some])
    moreover have "parts_ok (ok g) held issued (drops g) None mine c1 (ss_pending s) ?R (ss_chans s)"
      using parts_ok_close [OF parts Some] watch(2) Some srv by (simp add: discard_def)
    moreover have "room c1" using cancel [OF okc] room watch(2) Some srv by simp
    ultimately show ?thesis using watch(2) Some SetResourceSubscription_known by simp
  qed
  then have "parts_ok (ok g) held issued (drops g) None (insert (ss_chans s) mine) (ss_cache s') (ss_pending s @ out)
      (?R(?u \<mapsto> ?w)) (max (ss_chans s) (Suc (ss_chans s)))"
    using watch(1) srv by (intro parts_ok_create) auto
  moreover have "responder s' = ?R(?u \<mapsto> ?w)"
    by (rule ext) (simp add: responder_def watch(6) recompute_def addWatch_def)
  ultimately show ?thesis using watch(3,4) by (simp add: atLeastLessThanSuc)
qed

lemma stream_ok_ads_request:
  assumes inv: "stream_ok (ok g) held issued (drops g) (Some ch) mine s" and room: "room (ss_cache s)" and srv: "srv_cache srv = cache"
    and step: "processADS_request srv env ch req s = (s', Continue)"
  shows "stream_ok (ok g) held issued (drops g) (Some ch) mine s' \<and> ss_chans s' = ss_chans s"
  using step
proof (cases rule: processADS_request_Continue)
  case stale
  then have "responder s' = responder s" by (intro ext) (simp add: responder_def)
  with stale inv show ?thesis by (simp add: stream_ok_def)
next
  case (watch q s2 s3 sub out k)
  let ?u = "req_TypeUrl q" and ?P = "parts_ok (ok g) held issued (drops g) (Some ch) mine"
  let ?w = "\<lparr>w_cancel = k, w_response = ch, w_sub = sub, w_nonce = ''''\<rparr>"
  have parts: "?P (ss_cache s) (ss_pending s) (responder s) (ss_chans s)" using inv by (simp add: stream_ok_def)
  then have wi: "watches_inv (drops g) (held (ss_cache s)) (ss_pending s) (responder s) (Some ch) mine" and okc: "ok g (ss_cache s)"
    by (simp_all add: parts_ok_def)
  have ch: "ch \<in> mine" by (rule watches_invD(7) [OF wi refl])
  then have lt: "ch < ss_chans s" using parts by (simp add: parts_ok_def)
  have "?P (ss_cache s3) (ss_pending s3) ((responder s3)(?u := None)) (ss_chans s3) \<and> room (ss_cache s3) \<and>
      sub_known sub \<and> ss_chans s3 = ss_chans s"
  proof (cases "responder s ?u")
    case None
    then have "(responder s)(?u := None) = responder s" by auto
    with None parts watch(2-5) room NewSotw_known show ?thesis by simp
  next
    case (Some w)
    have kn: "sub_known (w_sub w)" by (rule watches_invD(2) [OF wi Some])
    have run: "processAllExcept srv env ch ?u (channel_contents ch (ss_pending s2)) s2 = (s3, None)"
      and c2: "ss_cache s2 = cw_cancel cache (w_cancel w) (ss_cache s)"
      and sub: "sub = SetResourceSubscription (w_sub w) (req_ResourceNames q)"
      using watch(2) Some srv by auto
    have P2: "?P (ss_cache s2) (discard (Some ch) ?u (ss_pending s2)) ((responder s2)(?u := None)) (ss_chans s2)"
      using parts_ok_close [OF parts Some] by (simp only: c2 watch(3-5))
    then have wi2: "watches_inv (drops g) (held (ss_cache s2)) (discard (Some ch) ?u (ss_pending s2)) ((responder s2)(?u := None)) (Some ch) mine"
      by (simp only: parts_ok_def)
    note A = processAllExcept_inv [OF run refl wi2]
    have all: "discard (Some ch) ?u (ss_pending s3) = ss_pending s3"
      using A by (auto simp: discard_def on_watch_def channel_contents_def filter_id_conv filter_empty_conv)
    have "\<forall>p\<in>set (ss_pending s3). fst p < ss_chans s" using A watch(4) parts by (auto simp: parts_ok_def)
    moreover have "\<forall>k\<in>w_cancel ` ran ((responder s3)(?u := None)). issued (ss_cache s2) k"
    proof
      fix k' assume "k' \<in> w_cancel ` ran ((responder s3)(?u := None))"
      then have "k' \<in> w_cancel ` ran (responder s3)" by (auto simp: ran_def split: if_splits)
      then have "k' \<in> w_cancel ` ran (responder s)" using A unfolding watch(3) by blast
      then show "issued (ss_cache s2) k'"
        using parts cancel [OF okc] unfolding c2 parts_ok_def by auto
    qed
    ultimately have "?P (ss_cache s3) (ss_pending s3) ((responder s3)(?u := None)) (ss_chans s3)"
      using A P2 all watch(5) unfolding parts_ok_def by simp
    moreover have "room (ss_cache s3)" using A c2 room cancel [OF okc] by simp
    ultimately show ?thesis using A watch(5) kn sub SetResourceSubscription_known by simp
  qed
  then have P3: "?P (ss_cache s3) (ss_pending s3) ((responder s3)(?u := None)) (ss_chans s)" "room (ss_cache s3)" "sub_known sub"
      "ss_chans s3 = ss_chans s" by auto
  have "parts_ok (ok g) held issued (drops g) (Some ch) (insert ch mine) (ss_cache s') (ss_pending s3 @ out)
      (((responder s3)(?u := None))(?u \<mapsto> ?w)) (max (ss_chans s) (Suc ch))"
    by (rule parts_ok_create [OF P3(1-3)]) (use watch(1) srv in simp_all)
  moreover have "max (ss_chans s) (Suc ch) = ss_chans s" using lt by simp
  ultimately show ?thesis
    using ch P3(4) watch(6-8) by (simp add: stream_ok_def insert_absorb)
qed

lemma stream_ok_event:
  assumes inv: "stream_ok (ok g) held issued (drops g) lp mine s" and room: "room (ss_cache s)" and srv: "srv_cache srv = cache"
    and step: "loop_step srv env t lp e s = (s', Continue)"
  shows "stream_ok (ok g) held issued (drops g) lp (mine \<union> {ss_chans s..<ss_chans s'}) s'"
proof (cases lp)
  case None
  have step': "process_step srv env t e s = (s', Continue)" using step None by simp
  have loop: "loop_ok s'" using loop_ok_step [OF _ step'] inv None by (simp add: stream_ok_def)
  from step' have "parts_ok (ok g) held issued (drops g) None (mine \<union> {ss_chans s..<ss_chans s'})
      (ss_cache s') (ss_pending s') (responder s') (ss_chans s')"
  proof (cases rule: process_step_Continue)
    case (request req)
    show ?thesis by (rule stream_ok_request [OF _ room srv request]) (use inv None in simp)
  next
    case (response i)
    then show ?thesis
    proof (cases rule: process_response_Continue)
      case idle
      with inv None show ?thesis by (simp add: stream_ok_def)
    next
      case (received ch res p')
      have "live (responder s) None ch" using inv None received(1) by (simp add: stream_ok_def loop_ok_def)
      from stream_ok_send [OF inv [unfolded None] received(2) this received(3)] show ?thesis by auto
    qed
  qed
  with loop None show ?thesis by (simp add: stream_ok_def)
next
  case (Some ch)
  note inv' = inv [unfolded Some]
  show ?thesis
  proof (cases "\<exists>req. e = SelectRequest (Some (Some req))")
    case True
    with step Some stream_ok_ads_request [OF inv' room srv, of env _ s'] show ?thesis by auto
  next
    case False
    have l: "live (responder s) (Some ch) ch" by (simp add: live_def)
    from False step Some consider "s' = s" | x P' where "receive ch (ss_pending s) = Some (x, P')"
      "sotw_send srv env x (s\<lparr>ss_pending := P'\<rparr>) = (s', None)"
      by (cases "(srv, env, ch, e, s)" rule: processADS_step.cases) (auto split: option.splits prod.splits)
    then show ?thesis
    proof cases
      case 1
      with inv show ?thesis by simp
    next
      case 2
      from stream_ok_send [OF inv' 2(1) l 2(2)] Some show ?thesis by (auto simp: stream_ok_def)
    qed
  qed
qed

theorem watched_stream_ok:
  "watched_stream start room update srv env t lp mine s g \<Longrightarrow> srv_cache srv = cache \<Longrightarrow>
     stream_ok (ok g) held issued (drops g) lp mine s"
proof (induction rule: watched_stream.induct)
  case (wst_open g s0 s)
  then have s: "sw_watches (ss_stream s) = sotw_newWatches" "ss_cache s = ss_cache s0" "ss_pending s = []"
    by (auto simp: stream_open_def Let_def split: option.splits prod.splits)
  then have R: "responder (set_watches recompute s) = Map.empty" "loop_ok (set_watches recompute s)"
    by (auto simp: responder_def recompute_def sotw_newWatches_def loop_ok_def cases_ok_def)
  show ?case
    using start_ok [OF wst_open(1)] start_empty [OF wst_open(1)] s R
    by (simp add: stream_ok_defs watches_inv_def)
next
  case (wst_open_ads g s0 s)
  then have s: "sw_watches (ss_stream s) = sotw_newWatches" "ss_cache s = ss_cache s0" "ss_pending s = []"
    by (auto simp: stream_open_def Let_def split: option.splits prod.splits)
  then have R: "responder (s\<lparr>ss_chans := n\<rparr>) = Map.empty" for n by (auto simp: responder_def sotw_newWatches_def)
  show ?case
    using start_ok [OF wst_open_ads(1)] start_empty [OF wst_open_ads(1)] s R
    by (simp add: stream_ok_defs watches_inv_def)
next
  case (wst_event lp mine s g e s')
  then show ?case by (intro stream_ok_event) auto
next
  case (wst_update lp mine s g out g' c')
  then show ?case by (intro stream_ok_update) auto
next
  case (wst_other_watch lp mine s g q sub ch c' out k n)
  then show ?case by (intro stream_ok_other_watch) auto
next
  case (wst_other_cancel lp mine s g k)
  then show ?case using stream_ok_other_cancel [of g lp mine s k] by blast
qed

text \<open>The life of a watch.\<close>

theorem watch_life:
  assumes "watched_stream start room update srv env t lp mine s g" and "srv_cache srv = cache" and "responder s u = Some w"
  shows "watch_phase (drops g) (held (ss_cache s)) (ss_pending s) u w"
  using watched_stream_ok [OF assms(1,2)] assms(3) watches_invD(3) unfolding stream_ok_defs by metis

text \<open>A queued response is sent when it is received, or ends the stream because it cannot be marshaled.\<close>

theorem queued_response_delivered:
  assumes run: "watched_stream start room update srv env t lp mine s g" and srv: "srv_cache srv = cache"
    and w: "responder s u = Some w" and q: "queue (ss_pending s) (w_response w) u \<noteq> []"
  shows "\<exists>i r rest. channel_contents (w_response w) (ss_pending s) = Some (RawR r) # rest \<and>
    (lp = None \<longrightarrow> msg_type (Some (RawR r)) = u) \<and>
    (case fst (GetDiscoveryResponse (env_marshal env) r) of
       Inl e \<Rightarrow> \<exists>e'. snd (loop_step srv env t lp (SelectResponse i) s) = Return (Some e')
     | Inr d \<Rightarrow> sw_sent (ss_stream (fst (loop_step srv env t lp (SelectResponse i) s))) =
         sw_sent (ss_stream s) @ [d\<lparr>resp_Nonce := FormatInt (sw_nonce (ss_stream s) + 1)\<rparr>])"
proof -
  let ?ch = "w_response w" and ?cases = "ws_cases (sw_watches (ss_stream s))"
  have inv: "stream_ok (ok g) held issued (drops g) lp mine s" by (rule watched_stream_ok [OF run srv])
  then have wi: "watches_inv (drops g) (held (ss_cache s)) (ss_pending s) (responder s) lp mine" by (simp add: stream_ok_defs)
  have l: "live (responder s) lp ?ch" using w by (auto simp: live_def)
  obtain x rest where xs: "channel_contents ?ch (ss_pending s) = x # rest"
    using q by (cases "channel_contents ?ch (ss_pending s)")
      (auto simp: queue_def channel_contents_def on_watch_def filter_empty_conv)
  obtain P' where rec: "receive ?ch (ss_pending s) = Some (x, P')" using receive_ex [OF xs] by blast
  obtain r v where x: "x = Some (RawR r)" and v: "responder s (msg_type x) = Some v" "w_response v = ?ch"
    "answers (msg_type x) r (w_sub v)"
    by (rule watches_inv_received [OF wi rec l])
  have u: "msg_type x = u" if "lp = None" using watches_invD(6) [OF wi that v(1) w v(2)] .
  let ?s = "s\<lparr>ss_pending := P'\<rparr>"
  obtain q where q: "GetRequest (RawR r) = Some q" "req_TypeUrl q = msg_type x" "responseMatchesCurrentSubscription (RawR r) (w_sub v)"
    using v(3) by (auto simp: answers_def)
  have "responder ?s (req_TypeUrl q) = Some v" using v(1) q(2) by (simp add: responder_def)
  note send = sotw_send_matching [OF q(1) this q(3), where srv = srv and env = env]
  define sent where "sent = sotw_send srv env (Some (RawR r)) ?s"
  obtain i where i: "lp = None \<Longrightarrow> i < length ?cases \<and> ?cases ! i = CaseWatch ?ch"
  proof (cases lp)
    case None
    then have "CaseWatch ?ch \<in> set ?cases" using inv w by (auto simp: stream_ok_def loop_ok_def cases_ok_def)
    with that show thesis by (auto simp: in_set_conv_nth)
  qed (use that in simp)
  have ch: "ch = ?ch" if "lp = Some ch" for ch using watches_invD(8) [OF wi that w] by simp
  have step: "fst (loop_step srv env t lp (SelectResponse i) s) = fst sent \<and>
      (\<forall>e. snd sent = Some e \<longrightarrow> (\<exists>e'. snd (loop_step srv env t lp (SelectResponse i) s) = Return (Some e')))"
    using i rec x ch unfolding sent_def
    by (cases lp) (auto simp: process_response_def Let_def split: option.splits prod.splits)
  have "case fst (GetDiscoveryResponse (env_marshal env) r) of
       Inl e \<Rightarrow> \<exists>e'. snd (loop_step srv env t lp (SelectResponse i) s) = Return (Some e')
     | Inr d \<Rightarrow> sw_sent (ss_stream (fst (loop_step srv env t lp (SelectResponse i) s))) =
         sw_sent (ss_stream s) @ [d\<lparr>resp_Nonce := FormatInt (sw_nonce (ss_stream s) + 1)\<rparr>]"
    using send step unfolding sent_def by (auto split: sum.splits option.splits)
  with xs x u show ?thesis by blast
qed

text \<open>What a step of the loop does to a queued response: it stays queued for the same watch, or is sent, or a
  request of its own type is handled, which gives the type a new watch.\<close>

lemma queued_kept:
  assumes run: "watched_stream start room update srv env t lp mine s' g" and srv: "srv_cache srv = cache"
    and w: "responder s' u = Some w" and q: "queue (ss_pending s') (w_response w) u = Some (RawR r) # rest"
  shows "queue (ss_pending s') (w_response w) u = [Some (RawR r)]"
  using watch_life [OF run srv w] q by (auto simp: watch_phase_def)

lemma queued_response_received:
  assumes inv: "stream_ok (ok g) held issued (drops g) lp mine s"
    and w: "responder s u = Some w" and r: "queue (ss_pending s) (w_response w) u = [Some (RawR r)]"
    and rec: "receive ch (ss_pending s) = Some (x, P')" and l: "live (responder s) lp ch"
    and send: "sotw_send srv env x (s\<lparr>ss_pending := P'\<rparr>) = (s', None)"
  shows "responder s' u = Some w \<and> queue (ss_pending s') (w_response w) u = [Some (RawR r)] \<or>
    (\<exists>d n. fst (GetDiscoveryResponse (env_marshal env) r) = Inr d \<and> sw_sent (ss_stream s') = sw_sent (ss_stream s) @ [d\<lparr>resp_Nonce := n\<rparr>])"
proof -
  let ?s = "s\<lparr>ss_pending := P'\<rparr>"
  have wi: "watches_inv (drops g) (held (ss_cache s)) (ss_pending s) (responder s) lp mine"
    using inv by (auto simp: stream_ok_defs)
  have R: "responder ?s = responder s" by (rule ext) (simp add: responder_def)
  obtain r' v where x: "x = Some (RawR r')" and v: "responder s (msg_type x) = Some v" "w_response v = ch" "answers (msg_type x) r' (w_sub v)"
    by (rule watches_inv_received [OF wi rec l])
  have v': "responder ?s (msg_type (Some (RawR r'))) = Some v" using v(1) x R by simp
  obtain n where n: "responder s' = (responder s)(msg_type (Some (RawR r')) \<mapsto>
      v\<lparr>w_sub := SetReturnedResources (w_sub v) (raw_returnedResources r'), w_nonce := n\<rparr>)" "ss_pending s' = P'"
    and sent: "\<exists>d. fst (GetDiscoveryResponse (env_marshal env) r') = Inr d \<and>
      sw_sent (ss_stream s') = sw_sent (ss_stream s) @ [d\<lparr>resp_Nonce := FormatInt (sw_nonce (ss_stream s) + 1)\<rparr>]"
    by (rule send_answer [OF send [unfolded x] v' v(3) [unfolded x]]) (auto simp: R)
  note Q = receive_queue [OF rec, of u]
  show ?thesis
  proof (cases "msg_type x = u")
    case True
    then have "v = w" using v(1) w by simp
    then have "r' = r" using Q r v(2) x True by simp
    with sent show ?thesis by blast
  next
    case False
    then have "queue P' (w_response w) u = [Some (RawR r)]" using Q r by (cases "w_response w = ch") auto
    with False n w x show ?thesis by simp
  qed
qed

lemma numbered_in: "d \<in> set ds \<Longrightarrow> \<exists>n. d\<lparr>resp_Nonce := n\<rparr> \<in> set (numbered k ds)"
proof (induction ds arbitrary: k)
  case (Cons a ds)
  then show ?case by (cases "d = a") auto
qed simp

text \<open>A request of another type on an ordered stream sends it.\<close>

lemma queued_response_flushed:
  assumes inv: "stream_ok (ok g) held issued (drops g) (Some ch) mine s"
    and w: "responder s u = Some w" and r: "queue (ss_pending s) (w_response w) u = [Some (RawR r)]"
    and all: "processAllExcept srv env ch v (channel_contents ch (ss_pending s2)) s2 = (s3, None)" and v: "v \<noteq> u"
    and s2: "responder s2 = responder s" "ss_pending s2 = ss_pending s"
  shows "\<exists>d n sent. fst (GetDiscoveryResponse (env_marshal env) r) = Inr d \<and>
    sw_sent (ss_stream s3) = sw_sent (ss_stream s2) @ sent \<and> d\<lparr>resp_Nonce := n\<rparr> \<in> set sent"
proof -
  have wi: "watches_inv (drops g) (held (ss_cache s)) (ss_pending s) (responder s) (Some ch) mine"
    using inv by (auto simp: stream_ok_defs)
  have ch: "w_response w = ch" by (rule watches_invD(8) [OF wi refl w])
  have "answers u r (w_sub w)" using watches_invD(3) [OF wi w] r by (auto simp: watch_phase_def)
  then have "passes s2 v (RawR r)" using v w by (auto simp: passes_def s2 answers_def req_getTypeUrl_def)
  obtain rs ds where P: "channel_contents ch (ss_pending s2) = map Some rs"
    "rmap (response_GetDiscoveryResponse (env_marshal env)) (filter (passes s2 v) rs) = Inr (map Some ds)"
    "sw_sent (ss_stream s3) = sw_sent (ss_stream s2) @ numbered (sw_nonce (ss_stream s2)) ds"
    using processAllExcept_sends [OF all refl] by blast
  have "Some (RawR r) \<in> set (channel_contents ch (ss_pending s2))"
    using r ch queue_in [of "Some (RawR r)" "ss_pending s" ch u] by (auto simp: s2 channel_contents_def image_iff)
  then have "RawR r \<in> set (filter (passes s2 v) rs)" using P(1) \<open>passes s2 v (RawR r)\<close> by auto
  from rmap_member [OF P(2) this] obtain d where d: "d \<in> set ds" "fst (GetDiscoveryResponse (env_marshal env) r) = Inr d"
    by (auto split: sum.splits)
  with numbered_in [OF d(1)] P(3) show ?thesis by blast
qed

theorem queued_response_step:
  assumes run: "watched_stream start room update srv env t lp mine s g" and srv: "srv_cache srv = cache" and room: "room (ss_cache s)"
    and w: "responder s u = Some w" and r: "queue (ss_pending s) (w_response w) u = [Some (RawR r)]"
    and step: "loop_step srv env t lp e s = (s', Continue)"
  shows "responder s' u = Some w \<and> queue (ss_pending s') (w_response w) u = [Some (RawR r)] \<or>
    (\<exists>d n sent. fst (GetDiscoveryResponse (env_marshal env) r) = Inr d \<and>
       sw_sent (ss_stream s') = sw_sent (ss_stream s) @ sent \<and> d\<lparr>resp_Nonce := n\<rparr> \<in> set sent) \<or>
    (\<exists>q w'. e = SelectRequest (Some (Some q)) \<and> loop_type t lp q = u \<and> responder s' u = Some w' \<and>
       w_nonce w' = '''' \<and> w_sub w' = SetResourceSubscription (w_sub w) (req_ResourceNames q))"
    (is "?kept \<or> ?sent \<or> ?replaced")
proof -
  have inv: "stream_ok (ok g) held issued (drops g) lp mine s" by (rule watched_stream_ok [OF run srv])
  have kept: ?kept if "responder s' u = Some w" "ss_pending s' = ss_pending s @ out" for out
    using queued_kept [OF wst_event [OF run room step] srv that(1), of r "queue out (w_response w) u"] that r by simp
  have rcv: "?kept \<or> ?sent" if "receive ch (ss_pending s) = Some (x, P')" "live (responder s) lp ch"
    "sotw_send srv env x (s\<lparr>ss_pending := P'\<rparr>) = (s', None)" for ch x P'
    using queued_response_received [OF inv w r that] by fastforce
  show ?thesis
  proof (cases lp)
    case None
    from step None have "process_step srv env t e s = (s', Continue)" by simp
    then consider (q) q where "e = SelectRequest (Some (Some q))" "process_request srv t q s = (s', Continue)"
      | (i) i where "process_response srv env i s = (s', Continue)"
      by (cases "(srv, env, t, e, s)" rule: process_step.cases) auto
    then show ?thesis
    proof cases
      case q
      from q(2) show ?thesis
      proof (cases rule: process_request_Continue)
        case stale
        with kept [of "[]"] w show ?thesis by (simp add: responder_def)
      next
        case (watch q' sub c1 out k)
        have R: "responder s' = (responder s)(req_TypeUrl q' \<mapsto> \<lparr>w_cancel = k, w_response = ss_chans s, w_sub = sub, w_nonce = ''''\<rparr>)"
          by (rule ext) (simp add: responder_def watch(6) recompute_def addWatch_def)
        show ?thesis
        proof (cases "req_TypeUrl q' = u")
          case True
          with R watch(2,7,8) w q(1) None have ?replaced by (auto simp: loop_type_def)
          then show ?thesis by blast
        next
          case False
          with R w kept watch(3) show ?thesis by simp
        qed
      qed
    next
      case i
      then show ?thesis
      proof (cases rule: process_response_Continue)
        case idle
        with w r show ?thesis by simp
      next
        case (received ch res p')
        have "live (responder s) lp ch" using inv None received(1) by (simp add: stream_ok_def loop_ok_def)
        from rcv [OF received(2) this received(3)] show ?thesis by blast
      qed
    qed
  next
    case (Some ch)
    show ?thesis
    proof (cases "\<exists>q. e = SelectRequest (Some (Some q))")
      case True
      then obtain q where q: "e = SelectRequest (Some (Some q))" "processADS_request srv env ch q s = (s', Continue)"
        using step Some by auto
      from q(2) show ?thesis
      proof (cases rule: processADS_request_Continue)
        case stale
        with kept [of "[]"] w show ?thesis by (simp add: responder_def)
      next
        case (watch q' s2 s3 sub out k)
        show ?thesis
        proof (cases "req_TypeUrl q' = u")
          case True
          with watch(2,8,9,10) w q(1) Some have ?replaced by (auto simp: loop_type_def)
          then show ?thesis by blast
        next
          case v: False
          show ?thesis
          proof (cases "responder s (req_TypeUrl q')")
            case None
            with watch v w kept show ?thesis by simp
          next
            case (Some w0)
            then have "processAllExcept srv env ch (req_TypeUrl q') (channel_contents ch (ss_pending s2)) s2 = (s3, None)"
              using watch(2) by simp
            from queued_response_flushed [OF inv [unfolded \<open>lp = Some ch\<close>] w r this v watch(3,4)] watch(11,12)
            have ?sent by simp
            then show ?thesis by blast
          qed
        qed
      qed
    next
      case False
      have l: "live (responder s) lp ch" using Some by (simp add: live_def)
      from False step Some consider "s' = s" | x P' where "receive ch (ss_pending s) = Some (x, P')"
        "sotw_send srv env x (s\<lparr>ss_pending := P'\<rparr>) = (s', None)"
        by (cases "(srv, env, ch, e, s)" rule: processADS_step.cases) (auto split: option.splits prod.splits)
      then show ?thesis
      proof cases
        case 1
        with w r show ?thesis by simp
      next
        case 2
        from rcv [OF 2(1) l 2(2)] show ?thesis by blast
      qed
    qed
  qed
qed

end

end
