(* ===== verification/Snapshot_Stream.thy ===== *)
theory Snapshot_Stream
  imports Config_Watcher Simple_Properties
begin

text \<open>
  State-of-the-world streams on the snapshot cache, unordered and ordered, while snapshots are set and
  other streams come and go: the snapshot cache keeps the contract of \<open>Config_Watcher\<close>, so that every
  watch of a stream is queued, open, answered, was dropped in ADS mode or was removed by \<open>ClearSnapshot\<close>, and
  an open one is up to date unless the last \<open>SetSnapshot\<close> of its node failed.
\<close>

section \<open>Definitions\<close>

text \<open>The state-of-the-world watches the cache tracks, by their cancel functions.\<close>

fun sc_held :: "clocked \<Rightarrow> sc_cancel \<Rightarrow> ResponseWatch option" where
  "sc_held (c, now) (ScCancelWatch node i) =
     (case map_of (sc_status c) node of None \<Rightarrow> None | Some info \<Rightarrow> map_of (si_watches info) i)"
| "sc_held (c, now) ScNoop = None"
| "sc_held (c, now) (ScCancelDeltaWatch node i) = None"

fun sc_issued :: "clocked \<Rightarrow> sc_cancel \<Rightarrow> bool" where
  "sc_issued (c, now) (ScCancelWatch node i) \<longleftrightarrow> i \<le> sc_watchCount c"
| "sc_issued (c, now) ScNoop \<longleftrightarrow> True"
| "sc_issued (c, now) (ScCancelDeltaWatch node i) \<longleftrightarrow> True"

text \<open>The counter of watches does not overflow.\<close>

definition sc_room :: "clocked \<Rightarrow> bool" where
  "sc_room s \<longleftrightarrow> sc_watchCount (fst s) + 1 \<noteq> 0"

text \<open>What is remembered of the updates: the nodes whose last \<open>SetSnapshot\<close> failed, and the cancel functions of the
  watches that \<open>ClearSnapshot\<close> removed while they were open.\<close>

type_synonym sc_past = "string set \<times> sc_cancel set"

definition sc_start :: "bool \<Rightarrow> sc_past \<Rightarrow> clocked \<Rightarrow> bool" where
  "sc_start ads g s \<longleftrightarrow> g = ({}, {}) \<and> (\<exists>hash. fst s = NewSnapshotCache ads hash)"

definition sc_ok :: "marshaler \<Rightarrow> bool \<Rightarrow> sc_past \<Rightarrow> clocked \<Rightarrow> bool" where
  "sc_ok m ads g s \<longleftrightarrow> sc_inv m (fst g) (fst s) \<and> sc_ads (fst s) = ads \<and>
     (\<forall>k w. sc_held s k = Some w \<longrightarrow> sc_issued s k \<and> sub_known (rw_subscription w) \<and>
        (\<forall>node i. k = ScCancelWatch node i \<longrightarrow> node = sc_hash (fst s) (req_Node (rw_Request w))))"

text \<open>What happens to the cache around the streams: snapshots are set, with or without an error, and cleared,
  heartbeats are sent, delta watches come and go, and time passes.\<close>

inductive sc_update :: "marshaler \<Rightarrow> sc_past \<Rightarrow> clocked \<Rightarrow> response_sends \<Rightarrow> sc_past \<Rightarrow> clocked \<Rightarrow> bool" for m where
  su_set: "SetSnapshot m ctx node s c = (c', out, e) \<Longrightarrow>
    sc_update m (F, lost) (c, now) (sotw_sends out) (failed_nodes node e F, lost) (c', now)"
| su_heartbeat: "heartbeatTick m ctx c = (c', out) \<Longrightarrow> sc_update m g (c, now) (sotw_sends out) g (c', now)"
| su_clear: "sc_update m (F, lost) (c, now) []
    (F - {node}, lost \<union> {ScCancelWatch node i |i. sc_held (c, now) (ScCancelWatch node i) \<noteq> None}) (ClearSnapshot node c, now)"
| su_delta: "sc_CreateDeltaWatch m now q sub ch c = (c', out, r) \<Longrightarrow> sc_update m g (c, now) [] g (c', now)"
| su_delta_cancel: "sc_update m g (c, now) [] g (sc_runCancel (ScCancelDeltaWatch node i) c, now)"
| su_time: "now \<le> now' \<Longrightarrow> sc_update m g (c, now) [] g (c, now')"

text \<open>In ADS mode a request that is not for a wildcard may be dropped, and a watch may be lost to \<open>ClearSnapshot\<close>.\<close>

definition sc_drops :: "bool \<Rightarrow> sc_past \<Rightarrow> sc_cancel \<Rightarrow> DiscoveryRequest \<Rightarrow> Subscription \<Rightarrow> bool" where
  "sc_drops ads g k q sub \<longleftrightarrow> ads \<and> \<not> IsWildcard sub \<or> k \<in> snd g"

section \<open>Lemmas\<close>

lemma covered_matches:
  "(\<And>n. n \<in> fst ` set (raw_returnedResources r) \<Longrightarrow> covers sub n) \<Longrightarrow> responseMatchesCurrentSubscription (RawR r) sub"
  unfolding responseMatchesCurrentSubscription_def
  by (auto simp: list_all_iff list_ex_iff covers_def matchesAnyPrefix_iff)

text \<open>The responses of the cache answer the watches they are computed for.\<close>

lemma createResponse_answers:
  assumes "createResponse m s w ads = Inr (Some resp)"
  shows "answers (req_TypeUrl (rw_Request w)) (resp\<lparr>raw_Ctx := ctx\<rparr>) (rw_subscription w)"
proof -
  note C = createResponse_Some [OF assms]
  have "responseMatchesCurrentSubscription (RawR (resp\<lparr>raw_Ctx := ctx\<rparr>)) (rw_subscription w)"
    by (rule covered_matches) (use C(2) in \<open>auto simp: snapshot_names_def snap_covers_def covers_def\<close>)
  then show ?thesis using C(5) by (simp add: answers_def)
qed

lemma replySOTW_answers:
  assumes "replySOTW m ctx s ads w = Inr (Some x)"
  shows "\<exists>r. x = (rw_Response w, WRaw r) \<and> answers (req_TypeUrl (rw_Request w)) r (rw_subscription w)"
proof -
  obtain resp where "createResponse m s w ads = Inr (Some resp)" "x = (rw_Response w, WRaw (resp\<lparr>raw_Ctx := ctx\<rparr>))"
    using assms by (auto simp: replySOTW_def sc_respond_def split: if_splits sum.splits option.splits)
  then show ?thesis using createResponse_answers by blast
qed

lemma heartbeat_answers:
  assumes "heartbeatResponse m ctx s w = Some resp" and "sub_known (rw_subscription w)"
  shows "answers (req_TypeUrl (rw_Request w)) (resp\<lparr>raw_Ctx := ctx'\<rparr>) (rw_subscription w)"
proof -
  have r: "raw_Request resp = Some (rw_Request w)" "raw_returnedResources resp = sub_returnedResources (rw_subscription w)"
    using assms(1) by (auto simp: heartbeatResponse_def Let_def split: if_splits)
  have "responseMatchesCurrentSubscription (RawR (resp\<lparr>raw_Ctx := ctx'\<rparr>)) (rw_subscription w)"
    by (rule covered_matches) (use r assms(2) in \<open>auto simp: sub_known_def\<close>)
  then show ?thesis using r by (simp add: answers_def)
qed

text \<open>The two loops answer watches, each once.\<close>

definition replied ::
  "('w \<Rightarrow> 'x \<Rightarrow> bool) \<Rightarrow> ('i \<Rightarrow> 'w option) \<Rightarrow> 'i list \<Rightarrow> 'x list \<Rightarrow> ('i \<Rightarrow> 'w option) \<Rightarrow> bool" where
  "replied Q M js sent M' \<longleftrightarrow> distinct js \<and> list_all2 (\<lambda>j x. \<exists>w. M j = Some w \<and> Q w x) js sent \<and> M' = M |` (- set js)"

lemma replied_Nil: "replied Q M [] [] M"
  by (simp add: replied_def restrict_map_def fun_eq_iff)

lemma replied_Cons:
  assumes "replied Q (M(i := None)) js sent M'" and "M i = Some w" and "Q w x"
  shows "replied Q M (i # js) (x # sent) M'"
proof -
  have all: "list_all2 (\<lambda>j x. \<exists>w. (M(i := None)) j = Some w \<and> Q w x) js sent" and d: "distinct js"
    and M': "M' = (M(i := None)) |` (- set js)" using assms(1) by (simp_all only: replied_def)
  have "i \<notin> set js" using all by (induction rule: list_all2_induct) auto
  moreover have "list_all2 (\<lambda>j x. \<exists>w. M j = Some w \<and> Q w x) js sent"
    using all by (rule list_all2_mono) (auto split: if_splits)
  moreover have "M' = M |` (- set (i # js))" unfolding M' by (auto simp: restrict_map_def fun_eq_iff)
  ultimately show ?thesis using d assms(2,3) unfolding replied_def by auto
qed

lemma watchLoop_replied:
  "watchLoop reply ids ws out = (ws', out', e) \<Longrightarrow>
     \<exists>js sent. out' = out @ sent \<and> replied (\<lambda>w x. reply w = Inr (Some x)) (map_of ws) js sent (map_of ws')"
proof (induction ids arbitrary: ws out)
  case (Cons i ids)
  show ?case
  proof (cases "\<exists>w s. map_of ws i = Some w \<and> reply w = Inr (Some s)")
    case True
    then obtain w s where w: "map_of ws i = Some w" "reply w = Inr (Some s)" by blast
    with Cons.prems have "watchLoop reply ids (AList.delete i ws) (out @ [s]) = (ws', out', e)" by simp
    from Cons.IH [OF this] obtain js sent where js: "out' = (out @ [s]) @ sent"
      "replied (\<lambda>w x. reply w = Inr (Some x)) (map_of (AList.delete i ws)) js sent (map_of ws')" by blast
    have "replied (\<lambda>w x. reply w = Inr (Some x)) (map_of ws) (i # js) (s # sent) (map_of ws')"
      by (rule replied_Cons [where w = w]) (use js(2) w in \<open>simp_all only: AList.delete_conv'\<close>)
    with js(1) show ?thesis by auto
  next
    case False
    then consider "watchLoop reply ids ws out = (ws', out', e)" | "out' = out" "ws' = ws"
      using Cons.prems by (auto split: option.splits sum.splits)
    then show ?thesis
    proof cases
      case 1
      then show ?thesis by (rule Cons.IH)
    next
      case 2
      then show ?thesis using replied_Nil by fastforce
    qed
  qed
qed (use replied_Nil in fastforce)

lemma heartbeatLoop_replied:
  assumes "heartbeatLoop m ctx s todo ws out = (ws', out')" and "distinct (map fst todo)"
    and "\<And>i w. (i, w) \<in> set todo \<Longrightarrow> map_of ws i = Some w"
  shows "\<exists>js sent. out' = out @ sent \<and> replied (\<lambda>w x. \<exists>resp. heartbeatResponse m ctx s w = Some resp \<and>
      x = (rw_Response w, WRaw (resp\<lparr>raw_Ctx := ctx\<rparr>))) (map_of ws) js sent (map_of ws')"
    (is "\<exists>js sent. _ \<and> replied ?Q _ _ _ _")
  using assms
proof (induction todo arbitrary: ws out)
  case (Cons p todo)
  obtain i w where p: "p = (i, w)" by (cases p)
  show ?case
  proof (cases "\<exists>resp x. heartbeatResponse m ctx s w = Some resp \<and> sc_respond ctx w resp = Inr x")
    case True
    then obtain resp x where x: "heartbeatResponse m ctx s w = Some resp" "sc_respond ctx w resp = Inr x" by blast
    let ?ws = "AList.delete i ws"
    have run: "heartbeatLoop m ctx s todo ?ws (out @ [x]) = (ws', out')" using Cons.prems(1) p x by simp
    have "\<exists>js sent. out' = (out @ [x]) @ sent \<and> replied ?Q (map_of ?ws) js sent (map_of ws')"
      by (rule Cons.IH [OF run]) (use Cons.prems(2,3) p in force)+
    then obtain js sent where js: "out' = (out @ [x]) @ sent" "replied ?Q (map_of ?ws) js sent (map_of ws')" by blast
    have "replied ?Q (map_of ws) (i # js) (x # sent) (map_of ws')"
    proof (rule replied_Cons)
      show "replied ?Q ((map_of ws)(i := None)) js sent (map_of ws')" using js(2) by (simp only: AList.delete_conv')
      show "map_of ws i = Some w" using Cons.prems(3) p by simp
      show "?Q w x" using x by (auto simp: sc_respond_def split: if_splits)
    qed
    with js(1) show ?thesis by auto
  next
    case False
    then have run: "heartbeatLoop m ctx s todo ws out = (ws', out')"
      using Cons.prems(1) p by (auto split: option.splits sum.splits)
    show ?thesis by (rule Cons.IH [OF run]) (use Cons.prems(2,3) p in auto)
  qed
qed (use replied_Nil in fastforce)

text \<open>In terms of the tracked watches: the replies to watches of one node.\<close>

lemma answered_node:
  assumes rep: "replied Q (map_of (si_watches info)) js sent (map_of (si_watches info'))"
    and Q: "\<And>i w x. map_of (si_watches info) i = Some w \<Longrightarrow> Q w x \<Longrightarrow>
      \<exists>r. x = (rw_Response w, WRaw r) \<and> answers (req_TypeUrl (rw_Request w)) r (rw_subscription w)"
    and c: "map_of (sc_status c) node = Some info"
    and c': "\<And>n. map_of (sc_status c') n = (if n = node then Some info' else map_of (sc_status c) n)"
  shows "answered_update (sc_held (c, now)) (sotw_sends sent) (sc_held (c', now))"
proof -
  let ?T = "sc_held (c, now)" and ?k = "ScCancelWatch node"
  have M': "map_of (si_watches info') = map_of (si_watches info) |` (- set js)" and js: "distinct js"
    and all: "list_all2 (\<lambda>j x. \<exists>w. map_of (si_watches info) j = Some w \<and> Q w x) js sent"
    using rep by (simp_all only: replied_def)
  have "list_all2 (answered_by ?T) (map ?k js) (sotw_sends sent)"
    using all
  proof (induction rule: list_all2_induct)
    case (Cons j js x sent)
    then obtain w where w: "map_of (si_watches info) j = Some w" "Q w x" by blast
    obtain r where "x = (rw_Response w, WRaw r)" "answers (req_TypeUrl (rw_Request w)) r (rw_subscription w)"
      using Q [OF w] by blast
    with w(1) c Cons.IH show ?case by (simp add: sotw_sends_def map_filter_simps answered_by_def)
  qed (simp add: sotw_sends_def map_filter_simps)
  moreover have "sc_held (c', now) k = (?T |` (- set (map ?k js))) k" for k
    by (cases k) (auto simp: c' c M' restrict_map_def split: option.splits)
  moreover have "distinct (map ?k js)" using js by (simp add: distinct_map inj_on_def)
  ultimately show ?thesis unfolding answered_update_def by (intro exI [of _ "map ?k js"]) auto
qed

lemma sotw_sends_append [simp]: "sotw_sends (a @ b) = sotw_sends a @ sotw_sends b"
  by (induction a) (auto simp: sotw_sends_def map_filter_simps split: option.splits)

lemma sotw_sends_delta: "(\<And>x. x \<in> set out \<Longrightarrow> \<exists>r. snd x = WDelta r) \<Longrightarrow> sotw_sends out = []"
proof (induction out)
  case (Cons x out)
  then obtain ch r where "x = (ch, WDelta r)" by (cases x) fastforce
  with Cons show ?case by (simp add: sotw_sends_def map_filter_simps)
qed (simp add: sotw_sends_def map_filter_simps)

lemma respondDelta_kind:
  assumes "respondDeltaWatches m ctx ads info s = (info', s', out, e)" and "x \<in> set out"
  shows "\<exists>r. snd x = WDelta r"
proof -
  obtain s1 ids ws where "watchLoop (replyDelta m ctx s1) ids (si_deltaWatches info) [] = (ws, out, e)"
    using assms by (cases ads) (auto simp: respondDeltaWatches_def Let_def split: prod.splits option.splits if_splits)
  from watchLoop_replied [OF this] obtain js where
    "list_all2 (\<lambda>j x. \<exists>w. map_of (si_deltaWatches info) j = Some w \<and> replyDelta m ctx s1 w = Inr (Some x)) js out"
    by (auto simp: replied_def)
  then show ?thesis using assms(2) replyDelta_type by (induction rule: list_all2_induct) auto
qed

lemma SetSnapshot_answered:
  assumes inv: "sc_inv m F c" and run: "SetSnapshot m ctx node s c = (c', out, e)"
  shows "answered_update (sc_held (c, now)) (sotw_sends out) (sc_held (c', now)) \<and>
    sc_watchCount c' = sc_watchCount c \<and> sc_ads c' = sc_ads c \<and> sc_hash c' = sc_hash c"
proof (cases "map_of (sc_status c) node")
  case None
  with run have c': "c' = c\<lparr>sc_snapshots := AList.update node s (sc_snapshots c)\<rparr>" "out = []"
    by (simp_all add: SetSnapshot_def)
  have "sc_held (c', now) k = sc_held (c, now) k" for k by (cases k) (simp_all add: c')
  then have "sc_held (c', now) = sc_held (c, now)" by (rule ext)
  then show ?thesis using answered_update_refl c' by (simp add: sotw_sends_def map_filter_simps)
next
  case (Some info)
  have ok: "statusInfo_ok info" using inv Some by (auto simp: sc_inv_def)
  obtain i1 o1 e1 where r1: "respondSOTWWatches m ctx (sc_ads c) info s = (i1, o1, e1)" by (metis prod_cases3)
  obtain i2 s2 o2 e2 where r2: "respondDeltaWatches m ctx (sc_ads c) i1 s = (i2, s2, o2, e2)" by (metis prod_cases4)
  have i2: "si_watches i2 = si_watches i1" using respondDelta_sub [OF _ r2] respondSOTW_sub [OF ok r1] by simp
  have o2: "sotw_sends o2 = []" by (rule sotw_sends_delta) (rule respondDelta_kind [OF r2])
  let ?i = "if e1 = None then i2 else i1"
  have c': "\<And>n. map_of (sc_status c') n = (if n = node then Some ?i else map_of (sc_status c) n)"
    "sotw_sends out = sotw_sends o1" "sc_watchCount c' = sc_watchCount c \<and> sc_ads c' = sc_ads c \<and> sc_hash c' = sc_hash c"
    using run Some r1 r2 o2 by (cases e1; auto simp: SetSnapshot_def)+
  let ?ids = "if sc_ads c then map key_ID (si_orderedWatches (orderResponseWatches info)) else map fst (si_watches info)"
  have "watchLoop (replySOTW m ctx s (sc_ads c)) ?ids (si_watches info) [] = (si_watches i1, o1, e1)"
    using r1 unfolding respondSOTWWatches_def Let_def by (cases "sc_ads c") (auto split: prod.splits)
  from watchLoop_replied [OF this] obtain js where
    "replied (\<lambda>w x. replySOTW m ctx s (sc_ads c) w = Inr (Some x)) (map_of (si_watches info)) js o1 (map_of (si_watches i1))"
    by auto
  moreover have "si_watches i1 = si_watches ?i" by (simp add: i2)
  ultimately have
    rep: "replied (\<lambda>w x. replySOTW m ctx s (sc_ads c) w = Inr (Some x)) (map_of (si_watches info)) js o1 (map_of (si_watches ?i))"
    by (simp only:)
  have "answered_update (sc_held (c, now)) (sotw_sends o1) (sc_held (c', now))"
    by (rule answered_node [OF rep _ Some c'(1)]) (use replySOTW_answers in auto)
  then show ?thesis using c'(2,3) by simp
qed

lemma sendHeartbeats_answered:
  assumes inv: "sc_inv m F c" and run: "sendHeartbeats m ctx node c = (c', out)"
    and known: "\<And>k w. sc_held (c, now) k = Some w \<Longrightarrow> sub_known (rw_subscription w)"
  shows "answered_update (sc_held (c, now)) (sotw_sends out) (sc_held (c', now)) \<and>
    sc_watchCount c' = sc_watchCount c \<and> sc_ads c' = sc_ads c \<and> sc_hash c' = sc_hash c"
proof (cases "\<exists>s info. map_of (sc_snapshots c) node = Some s \<and> map_of (sc_status c) node = Some info")
  case True
  then obtain s info where si: "map_of (sc_snapshots c) node = Some s" "map_of (sc_status c) node = Some info" by blast
  obtain ws where loop: "heartbeatLoop m ctx s (si_watches info) (si_watches info) [] = (ws, out)"
    and c': "c' = c\<lparr>sc_status := AList.update node (info\<lparr>si_watches := ws\<rparr>) (sc_status c)\<rparr>"
    using run si by (auto simp: sendHeartbeats_def split: prod.splits)
  have ok: "gomap_ok (si_watches info)" using inv si by (auto simp: sc_inv_def statusInfo_ok_def)
  then have mo: "(i, w) \<in> set (si_watches info) \<Longrightarrow> map_of (si_watches info) i = Some w" for i w
    by (simp only: map_of_iff)
  have d: "distinct (map fst (si_watches info))" using ok by (simp add: gomap_ok_def)
  obtain js where rep: "replied (\<lambda>w x. \<exists>resp. heartbeatResponse m ctx s w = Some resp \<and>
      x = (rw_Response w, WRaw (resp\<lparr>raw_Ctx := ctx\<rparr>))) (map_of (si_watches info)) js out
      (map_of (si_watches (info\<lparr>si_watches := ws\<rparr>)))"
    using heartbeatLoop_replied [OF loop d mo] by auto
  have "answered_update (sc_held (c, now)) (sotw_sends out) (sc_held (c', now))"
  proof (rule answered_node [OF rep _ si(2)])
    fix i w x assume w: "map_of (si_watches info) i = Some w"
      and x: "\<exists>resp. heartbeatResponse m ctx s w = Some resp \<and> x = (rw_Response w, WRaw (resp\<lparr>raw_Ctx := ctx\<rparr>))"
    have "sub_known (rw_subscription w)" by (rule known [of "ScCancelWatch node i"]) (simp add: si(2) w)
    with x show "\<exists>r. x = (rw_Response w, WRaw r) \<and> answers (req_TypeUrl (rw_Request w)) r (rw_subscription w)"
      using heartbeat_answers by blast
  qed (simp add: c')
  then show ?thesis using c' by simp
next
  case False
  then have "c' = c" "out = []" using run by (auto simp: sendHeartbeats_def split: option.splits)
  then show ?thesis using answered_update_refl by (simp add: sotw_sends_def map_filter_simps)
qed

text \<open>An answered watch is no longer tracked, the others stay as they are.\<close>

lemma answered_update_sub: "answered_update T out T' \<Longrightarrow> T' k = Some w \<Longrightarrow> T k = Some w"
  by (auto simp: answered_update_def restrict_map_def split: if_splits)

lemma heartbeatTick_answered:
  assumes "sc_inv m F c" and "heartbeatTick m ctx c = (c', out)"
    and "\<And>k w. sc_held (c, now) k = Some w \<Longrightarrow> sub_known (rw_subscription w)"
  shows "answered_update (sc_held (c, now)) (sotw_sends out) (sc_held (c', now)) \<and>
    sc_watchCount c' = sc_watchCount c \<and> sc_ads c' = sc_ads c \<and> sc_hash c' = sc_hash c"
proof -
  let ?f = "\<lambda>node (c, out). case sendHeartbeats m ctx node c of (c, out') \<Rightarrow> (c, out @ out')"
  have all: "\<exists>sent. snd (fold ?f ns (c, acc)) = acc @ sent \<and>
      answered_update (sc_held (c, now)) (sotw_sends sent) (sc_held (fst (fold ?f ns (c, acc)), now)) \<and>
      sc_watchCount (fst (fold ?f ns (c, acc))) = sc_watchCount c \<and> sc_ads (fst (fold ?f ns (c, acc))) = sc_ads c \<and>
      sc_hash (fst (fold ?f ns (c, acc))) = sc_hash c"
    if "sc_inv m F c" "\<And>k w. sc_held (c, now) k = Some w \<Longrightarrow> sub_known (rw_subscription w)" for ns acc c
    using that
  proof (induction ns arbitrary: c acc)
    case Nil
    then show ?case using answered_update_refl by (simp add: sotw_sends_def map_filter_simps)
  next
    case (Cons n ns)
    obtain c1 o2 where s: "sendHeartbeats m ctx n c = (c1, o2)" by fastforce
    have H: "answered_update (sc_held (c, now)) (sotw_sends o2) (sc_held (c1, now)) \<and>
        sc_watchCount c1 = sc_watchCount c \<and> sc_ads c1 = sc_ads c \<and> sc_hash c1 = sc_hash c"
      by (rule sendHeartbeats_answered [OF Cons.prems(1) s]) (use Cons.prems(2) in blast)
    have known: "sub_known (rw_subscription w)" if "sc_held (c1, now) k = Some w" for k w
      using answered_update_sub [OF conjunct1 [OF H] that] Cons.prems(2) by blast
    obtain sent where I: "snd (fold ?f ns (c1, acc @ o2)) = (acc @ o2) @ sent"
        "answered_update (sc_held (c1, now)) (sotw_sends sent) (sc_held (fst (fold ?f ns (c1, acc @ o2)), now))"
        "sc_watchCount (fst (fold ?f ns (c1, acc @ o2))) = sc_watchCount c1" "sc_ads (fst (fold ?f ns (c1, acc @ o2))) = sc_ads c1"
        "sc_hash (fst (fold ?f ns (c1, acc @ o2))) = sc_hash c1"
      using Cons.IH [OF sc_inv_sendHeartbeats [OF Cons.prems(1) s]] known by blast
    have "answered_update (sc_held (c, now)) (sotw_sends (o2 @ sent)) (sc_held (fst (fold ?f ns (c1, acc @ o2)), now))"
      using answered_update_trans [OF conjunct1 [OF H] I(2)] by simp
    with I H s show ?case by (intro exI [of _ "o2 @ sent"]) simp
  qed
  have "fold ?f (map fst (sc_status c)) (c, []) = (c', out)" using assms(2) by (simp add: heartbeatTick_def)
  note A = all [where c = c and ns = "map fst (sc_status c)" and acc = "[]", OF assms(1), unfolded this fst_conv snd_conv append_Nil]
  show ?thesis using A assms(3) by blast
qed

text \<open>Operations that do not touch the state-of-the-world watches of any node.\<close>

lemma sc_held_cong:
  assumes "\<And>node. map_option si_watches (map_of (sc_status c') node) = map_option si_watches (map_of (sc_status c) node) \<or>
      (\<forall>c\<in>{c, c'}. \<forall>info. map_of (sc_status c) node = Some info \<longrightarrow> si_watches info = [])"
  shows "sc_held (c', now') = sc_held (c, now)"
proof
  fix k show "sc_held (c', now') k = sc_held (c, now) k"
  proof (cases k)
    case (ScCancelWatch node i)
    with assms [of node] show ?thesis by (auto split: option.splits)
  qed simp_all
qed

lemma CreateDeltaWatch_frame:
  assumes "sc_CreateDeltaWatch m now q sub ch c = (c', out, r)"
  shows "sc_held (c', now) = sc_held (c, now) \<and> sc_watchCount c' = sc_watchCount c \<and> sc_ads c' = sc_ads c \<and> sc_hash c' = sc_hash c"
proof -
  obtain info' where c': "\<And>n. map_of (sc_status c') n = (if n = sc_hash c (dreq_Node q) then Some info' else map_of (sc_status c) n)"
    and w: "si_watches info' = si_watches (statusFor (sc_hash c (dreq_Node q)) (dreq_Node q) c)"
    and f: "sc_watchCount c' = sc_watchCount c" "sc_ads c' = sc_ads c" "sc_hash c' = sc_hash c"
    using assms unfolding sc_CreateDeltaWatch_def Let_def setLastDeltaWatchRequestTime_def setDeltaResponseWatch_def
    by (auto split: option.splits prod.splits sum.splits)
  have "sc_held (c', now) = sc_held (c, now)"
    by (rule sc_held_cong) (auto simp: c' w statusFor_def newStatusInfo_def split: option.splits)
  with f show ?thesis by simp
qed

lemma CreateWatch_created:
  assumes inv: "sc_ok m ads g (c, now)" and room: "sc_room (c, now)"
    and run: "sc_CreateWatch m now q sub ch c = (c', out, Inr k)"
  shows "created (sc_drops ads g) q sub ch (sc_held (c, now)) (sc_held (c', now)) (sotw_sends out) k \<and>
    sc_ads c' = ads \<and> sc_hash c' = sc_hash c \<and> sc_watchCount c \<le> sc_watchCount c' \<and> sc_issued (c', now) k \<and>
    (\<forall>node i. k = ScCancelWatch node i \<longrightarrow> node = sc_hash c (req_Node q)) \<and>
    (sc_held (c', now) k \<noteq> None \<longrightarrow> \<not> sc_issued (c, now) k)"
proof -
  let ?id = "sc_hash c (req_Node q)"
  let ?info = "setLastWatchRequestTime now (statusFor ?id (req_Node q) c)"
  let ?c = "c\<lparr>sc_status := AList.update ?id ?info (sc_status c)\<rparr>"
  let ?w = "\<lparr>rw_Request = q, rw_Response = ch, rw_subscription = sub,
      rw_fullStateResponses = ResourceRequiresFullStateInSotw (req_TypeUrl q)\<rparr>"
  let ?T = "sc_held (c, now)" and ?n = "sc_watchCount c + 1"
  have ads: "sc_ads c = ads" using inv by (simp add: sc_ok_def)
  have lt: "sc_watchCount c < ?n" using room word_less_inc by (simp add: sc_room_def)
  have iss: "?T (ScCancelWatch ?id ?n) = None"
    using inv lt by (cases "?T (ScCancelWatch ?id ?n)") (fastforce simp: sc_ok_def simp del: sc_held.simps)+
  have T: "sc_held (?c, now) = ?T"
    by (rule sc_held_cong) (auto simp: statusFor_def newStatusInfo_def setLastWatchRequestTime_def split: option.splits)
  have track: ?thesis if t: "sc_createWatch ?id ?info ?w ?c = (c', out, Inr k)"
  proof -
    have c': "c' = ?c\<lparr>sc_watchCount := ?n, sc_status := AList.update ?id
        (?info\<lparr>si_watches := AList.update ?n ?w (si_watches ?info)\<rparr>) (sc_status ?c)\<rparr>"
      and k: "k = ScCancelWatch ?id ?n" "out = []" using t by (auto simp: sc_createWatch_def Let_def)
    have "sc_held (c', now) = ?T(k \<mapsto> ?w)"
    proof
      fix x show "sc_held (c', now) x = (?T(k \<mapsto> ?w)) x"
        using T by (cases x) (auto simp: c' k setLastWatchRequestTime_def statusFor_def newStatusInfo_def fun_eq_iff split: option.splits)
    qed
    moreover from this iss k have "created (sc_drops ads g) q sub ch ?T (sc_held (c', now)) (sotw_sends out) k"
      unfolding created_def by (intro conjI disjI2 disjI1 exI [of _ ?w]) (simp_all add: sotw_sends_def map_filter_simps)
    moreover have "sc_watchCount c \<le> ?n" "\<not> ?n \<le> sc_watchCount c" using lt by (auto simp: not_le)
    ultimately show ?thesis using k ads by (simp add: c')
  qed
  show ?thesis
  proof (cases "map_of (sc_snapshots c) ?id")
    case None
    with run track show ?thesis by (simp add: sc_CreateWatch_def Let_def)
  next
    case (Some s)
    note eval = run [unfolded sc_CreateWatch_def Let_def]
    show ?thesis
    proof (cases "createResponse m s ?w ads")
      case (Inl e)
      then have "isMissingRequestResource e" and d: "sc_drops ads g ScNoop q sub" by (auto simp: sc_drops_def createResponse_missing)
      with eval Some Inl ads have "c' = ?c" "out = []" "k = ScNoop" by simp_all
      with d T ads show ?thesis by (simp add: created_def sotw_sends_def map_filter_simps)
    next
      case (Inr x)
      show ?thesis
      proof (cases x)
        case None
        with eval Some Inr ads show ?thesis by (intro track) simp
      next
        case (Some resp)
        with eval \<open>map_of (sc_snapshots c) ?id = Some s\<close> Inr ads
        have "c' = ?c" "out = [(ch, WRaw (resp\<lparr>raw_Ctx := Background\<rparr>))]" "k = ScNoop"
          by (auto simp: sc_respond_def split: if_splits)
        with Inr Some T ads createResponse_answers [of m s ?w ads resp Background] show ?thesis
          by (simp add: created_def sotw_sends_def map_filter_simps)
      qed
    qed
  qed
qed

lemma sc_runCancel_held: "sc_held (sc_runCancel k c, now) = (sc_held (c, now))(k := None)"
proof
  fix x show "sc_held (sc_runCancel k c, now) x = ((sc_held (c, now))(k := None)) x"
    by (cases k; cases x) (auto split: option.splits)
qed

lemma sc_runCancel_frame: "sc_watchCount (sc_runCancel k c) = sc_watchCount c" "sc_ads (sc_runCancel k c) = sc_ads c"
  "sc_hash (sc_runCancel k c) = sc_hash c"
  by (cases k; simp split: option.splits)+

section \<open>The snapshot cache keeps the contract\<close>

lemma sc_issued_mono: "sc_watchCount c \<le> sc_watchCount c' \<Longrightarrow> sc_issued (c, now) k \<Longrightarrow> sc_issued (c', now') k"
  by (cases k) auto

lemma sc_ok_sub:
  assumes "sc_ok m ads g (c, now)" and "sc_inv m (fst g') c'" and "sc_ads c' = sc_ads c" and "sc_hash c' = sc_hash c"
    and "sc_watchCount c' = sc_watchCount c" and "\<And>k w. sc_held (c', now') k = Some w \<Longrightarrow> sc_held (c, now) k = Some w"
  shows "sc_ok m ads g' (c', now')"
  using assms sc_issued_mono [of c c' now _ now'] unfolding sc_ok_def fst_conv by (metis order_refl)

text \<open>\<open>ClearSnapshot\<close> forgets the watches of its node and no others.\<close>

lemma ClearSnapshot_held:
  "sc_held (ClearSnapshot node c, now) =
     sc_held (c, now) |` (- {ScCancelWatch node i |i. sc_held (c, now) (ScCancelWatch node i) \<noteq> None})"
proof
  fix k show "sc_held (ClearSnapshot node c, now) k =
      (sc_held (c, now) |` (- {ScCancelWatch node i |i. sc_held (c, now) (ScCancelWatch node i) \<noteq> None})) k"
    by (cases k) (auto simp: ClearSnapshot_def restrict_map_def split: option.splits)
qed

lemma ClearSnapshot_frame:
  "sc_ads (ClearSnapshot node c) = sc_ads c" "sc_hash (ClearSnapshot node c) = sc_hash c"
  "sc_watchCount (ClearSnapshot node c) = sc_watchCount c"
  by (simp_all add: ClearSnapshot_def)

lemma restrict_all: "T |` (- {}) = T"
  by (simp add: restrict_map_def fun_eq_iff)

lemma sc_update_ok:
  assumes ok: "sc_ok m ads g s" and up: "sc_update m g s out g' s'"
  shows "sc_ok m ads g' s' \<and> sc_watchCount (fst s') = sc_watchCount (fst s) \<and> snd g \<subseteq> snd g' \<and>
    (\<exists>T L. answered_update (sc_held s) out T \<and> sc_held s' = T |` (- L) \<and> L \<subseteq> snd g')"
proof -
  have answered: "sc_ok m ads g' (c', now') \<and>
      (\<exists>T L. answered_update (sc_held (c, now)) out T \<and> sc_held (c', now') = T |` (- L) \<and> L \<subseteq> snd g')"
    if "sc_ok m ads g (c, now)" "sc_inv m (fst g') c'" and
    upd: "answered_update (sc_held (c, now)) out (sc_held (c', now')) \<and> sc_watchCount c' = sc_watchCount c \<and>
      sc_ads c' = sc_ads c \<and> sc_hash c' = sc_hash c" for g g' c c' now now' out
  proof
    show "sc_ok m ads g' (c', now')"
    proof (rule sc_ok_sub [OF that(1,2)])
      show "sc_held (c, now) k = Some w" if "sc_held (c', now') k = Some w" for k w
        by (rule answered_update_sub [OF conjunct1 [OF upd] that])
    qed (use upd in simp_all)
    show "\<exists>T L. answered_update (sc_held (c, now)) out T \<and> sc_held (c', now') = T |` (- L) \<and> L \<subseteq> snd g'"
      using upd restrict_all [symmetric] by blast
  qed
  have same: "sc_ok m ads g (c', now') \<and>
      (\<exists>T L. answered_update (sc_held (c, now)) [] T \<and> sc_held (c', now') = T |` (- L) \<and> L \<subseteq> snd g)"
    if "sc_ok m ads g (c, now)" "sc_inv m (fst g) c'" "sc_held (c', now') = sc_held (c, now)" "sc_ads c' = sc_ads c"
      "sc_hash c' = sc_hash c" "sc_watchCount c' = sc_watchCount c" for g c c' now now'
    by (rule answered [OF that(1,2)]) (simp add: that(3-) answered_update_refl)
  from up ok show ?thesis
  proof (induction rule: sc_update.induct)
    case (su_set ctx node sn c c' out e F lost now)
    then have inv: "sc_inv m F c" by (simp add: sc_ok_def)
    note S = SetSnapshot_answered [OF inv su_set(1), of now]
    from answered [OF su_set(2) _ S, of "(failed_nodes node e F, lost)"] sc_inv_SetSnapshot [OF inv su_set(1)] S
    show ?case by simp
  next
    case (su_heartbeat ctx c c' out g now)
    then have inv: "sc_inv m (fst g) c" by (simp add: sc_ok_def)
    have S: "answered_update (sc_held (c, now)) (sotw_sends out) (sc_held (c', now)) \<and>
        sc_watchCount c' = sc_watchCount c \<and> sc_ads c' = sc_ads c \<and> sc_hash c' = sc_hash c"
      by (rule heartbeatTick_answered [OF inv su_heartbeat(1)]) (use su_heartbeat(2) in \<open>auto simp: sc_ok_def\<close>)
    from answered [OF su_heartbeat(2) sc_inv_heartbeatTick [OF inv su_heartbeat(1)] S] S show ?case by simp
  next
    case (su_clear F lost c now node)
    let ?L = "{ScCancelWatch node i |i. sc_held (c, now) (ScCancelWatch node i) \<noteq> None}"
    have inv: "sc_inv m (F - {node}) (ClearSnapshot node c)"
      using su_clear by (auto simp: sc_ok_def sc_inv_def ClearSnapshot_def split: if_splits)
    note H = ClearSnapshot_held [of node c now]
    have "sc_ok m ads (F - {node}, lost \<union> ?L) (ClearSnapshot node c, now)"
      by (rule sc_ok_sub [OF su_clear])
        (use inv in \<open>auto simp: ClearSnapshot_frame H restrict_map_def split: if_splits\<close>)
    moreover have "\<exists>T L. answered_update (sc_held (c, now)) [] T \<and> sc_held (ClearSnapshot node c, now) = T |` (- L) \<and> L \<subseteq> lost \<union> ?L"
      using answered_update_refl [of "sc_held (c, now)"] H by blast
    ultimately show ?case by (simp add: ClearSnapshot_frame)
  next
    case (su_delta now q sub ch c c' out r g)
    then have inv: "sc_inv m (fst g) c" by (simp add: sc_ok_def)
    with same [OF su_delta(2) sc_inv_CreateDeltaWatch [OF inv su_delta(1)], of now] CreateDeltaWatch_frame [OF su_delta(1)]
    show ?case by simp
  next
    case (su_delta_cancel g c now node i)
    then have inv: "sc_inv m (fst g) c" by (simp add: sc_ok_def)
    have "sc_held (sc_runCancel (ScCancelDeltaWatch node i) c, now) = sc_held (c, now)"
      unfolding sc_runCancel_held by (auto simp: fun_eq_iff)
    with same [OF su_delta_cancel sc_inv_cancel [OF inv], of "ScCancelDeltaWatch node i" now]
    show ?case by (simp add: sc_runCancel_frame del: sc_runCancel.simps)
  next
    case (su_time now now' g c)
    have inv: "sc_inv m (fst g) c" using su_time(2) by (simp add: sc_ok_def)
    have "sc_held (c, now') = sc_held (c, now)" by (rule sc_held_cong) simp
    from same [OF su_time(2) inv this] show ?case by simp
  qed
qed

lemma sc_create_ok:
  assumes ok: "sc_ok m ads g s" and room: "sc_room s" and sub: "sub_known sub"
    and cr: "cw_CreateWatch (snapshot_cache m) q sub ch s = (s', out, Inr k)"
  shows "sc_ok m ads g s' \<and> created (sc_drops ads g) q sub ch (sc_held s) (sc_held s') out k \<and>
    sc_issued s' k \<and> (\<forall>k'. sc_issued s k' \<longrightarrow> sc_issued s' k') \<and> (sc_held s' k \<noteq> None \<longrightarrow> \<not> sc_issued s k)"
proof -
  obtain c now where s: "s = (c, now)" by (cases s)
  obtain c' o' where run: "sc_CreateWatch m now q sub ch c = (c', o', Inr k)" and s': "s' = (c', now)" "out = sotw_sends o'"
    using cr by (auto simp: snapshot_cache_def s split: prod.splits)
  note C = CreateWatch_created [OF ok [unfolded s] room [unfolded s] run]
  have cre: "created (sc_drops ads g) q sub ch (sc_held s) (sc_held s') out k" using C by (simp add: s s')
  have iss: "sc_issued s k' \<Longrightarrow> sc_issued s' k'" for k' using sc_issued_mono C by (auto simp: s s')
  have "sc_issued s' x \<and> sub_known (rw_subscription w) \<and>
      (\<forall>node i. x = ScCancelWatch node i \<longrightarrow> node = sc_hash c' (req_Node (rw_Request w)))" if x: "sc_held s' x = Some w" for x w
  proof (cases "sc_held s x = Some w")
    case True
    with ok C iss show ?thesis by (auto simp: sc_ok_def s)
  next
    case False
    then have "x = k \<and> rw_subscription w = sub \<and> rw_Request w = q"
      using cre x by (auto simp: created_def split: if_splits)
    with C sub show ?thesis by (simp add: s')
  qed
  then have "sc_ok m ads g s'"
    using ok sc_inv_CreateWatch [OF _ run] C by (auto simp: sc_ok_def s s')
  with C cre iss show ?thesis by (simp add: s s')
qed

lemma sc_cancel_ok:
  assumes ok: "sc_ok m ads g s"
  shows "sc_ok m ads g (cw_cancel (snapshot_cache m) k s) \<and>
    sc_held (cw_cancel (snapshot_cache m) k s) = (sc_held s)(k := None) \<and>
    sc_issued (cw_cancel (snapshot_cache m) k s) = sc_issued s \<and> (sc_room s \<longrightarrow> sc_room (cw_cancel (snapshot_cache m) k s))"
proof -
  obtain c now where s: "s = (c, now)" by (cases s)
  have e: "cw_cancel (snapshot_cache m) k (c, now) = (sc_runCancel k c, now)" by (simp add: snapshot_cache_def)
  have "sc_inv m (fst g) (sc_runCancel k c)" using ok sc_inv_cancel by (simp add: sc_ok_def s)
  then have "sc_ok m ads g (sc_runCancel k c, now)"
    by (rule sc_ok_sub [OF ok [unfolded s]]) (auto simp: sc_runCancel_frame sc_runCancel_held split: if_splits)
  moreover have "sc_issued (sc_runCancel k c, now) x = sc_issued (c, now) x" for x by (cases x) (simp_all add: sc_runCancel_frame)
  ultimately show ?thesis unfolding s e by (auto simp: sc_runCancel_held sc_room_def sc_runCancel_frame)
qed

interpretation sc: config_watcher "snapshot_cache m" "sc_start ads" "sc_ok m ads" sc_room sc_held sc_issued
  "sc_update m" "sc_drops ads" for m ads
proof
  fix c :: clocked and g :: sc_past
  assume st: "sc_start ads g c"
  then obtain hash now where c: "c = (NewSnapshotCache ads hash, now)" by (cases c) (auto simp: sc_start_def)
  have none: "sc_held c k = None" for k by (cases k) (simp_all add: c NewSnapshotCache_def newSnapshotCache_def)
  then show "sc_held c = Map.empty" by (rule ext)
  show "sc_ok m ads g c"
    using none by (simp add: sc_ok_def sc_inv_def c NewSnapshotCache_def newSnapshotCache_def)
next
  fix c c' :: clocked and g g' :: sc_past and out
  assume "sc_ok m ads g c" "sc_update m g c out g' c'"
  from sc_update_ok [OF this] show "sc_ok m ads g' c' \<and> (\<forall>k. sc_issued c k \<longrightarrow> sc_issued c' k) \<and>
      (\<forall>k q sub. sc_drops ads g k q sub \<longrightarrow> sc_drops ads g' k q sub) \<and>
      (\<exists>T L. answered_update (sc_held c) out T \<and> sc_held c' = T |` (- L) \<and> (\<forall>k\<in>L. \<forall>q sub. sc_drops ads g' k q sub))"
    using sc_issued_mono [of "fst c" "fst c'" "snd c" _ "snd c'"] unfolding sc_drops_def prod.collapse
    by (smt (verit) order_refl subset_eq)
qed (use sc_create_ok sc_cancel_ok in blast)+

section \<open>Properties\<close>

text \<open>C3: On a stream over the snapshot cache, unordered or ordered, in every interleaving with snapshots being
  set and cleared, heartbeats, delta clients and other streams: the watch of a type that was not
  answered and has no response queued is open in the cache, for the node of its request, with the
  subscription of the stream. If the node has a snapshot, and its last \<open>SetSnapshot\<close> reported no error, then the
  client's request carried the version of the snapshot, or the snapshot is withheld in ADS mode because it
  has resources that the request does not name. There are two exceptions: in ADS mode without a wildcard
  the cache may have dropped the request when it was made, and \<open>ClearSnapshot\<close> for its node may have
  removed the watch while it was open.\<close>

theorem snapshot_stream_up_to_date:
  assumes run: "watched_stream (sc_start ads) sc_room (sc_update m) srv env t lp mine s (F, lost)"
    and srv: "srv_cache srv = snapshot_cache m" and c: "ss_cache s = (c, now)"
    and w: "responder s u = Some w" "w_nonce w = ''''" "queue (ss_pending s) (w_response w) u = []"
  shows "(\<exists>node i info rw. w_cancel w = ScCancelWatch node i \<and> map_of (sc_status c) node = Some info \<and>
      map_of (si_watches info) i = Some rw \<and> node = sc_hash c (req_Node (rw_Request rw)) \<and>
      rw_Response rw = w_response w \<and> rw_subscription rw = w_sub w \<and> req_TypeUrl (rw_Request rw) = u \<and>
      (\<forall>sn. map_of (sc_snapshots c) node = Some sn \<longrightarrow> node \<notin> F \<longrightarrow>
         GetVersion (Some sn) u = req_VersionInfo (rw_Request rw) \<or>
         ads \<and> \<not> IsWildcard (w_sub w) \<and>
         difference (GetResourcesAndTTL (Some sn) u) (SubscribedResources (w_sub w)) \<noteq> [])) \<or>
    sc_held (c, now) (w_cancel w) = None \<and> (ads \<and> \<not> IsWildcard (w_sub w) \<or> w_cancel w \<in> lost)"
proof (cases "sc_held (c, now) (w_cancel w)")
  case None
  with sc.watch_life [OF run srv w(1)] w c show ?thesis by (auto simp: watch_phase_def sc_drops_def)
next
  case (Some rw)
  have ph: "rw_Response rw = w_response w" "rw_subscription rw = w_sub w" "req_TypeUrl (rw_Request rw) = u"
    using sc.watch_life [OF run srv w(1)] w c Some by (auto simp: watch_phase_def)
  have ok: "sc_ok m ads (F, lost) (c, now)" using sc.watched_stream_ok [OF run srv] c by (simp add: stream_ok_defs)
  obtain node i info where k: "w_cancel w = ScCancelWatch node i" "map_of (sc_status c) node = Some info"
    "map_of (si_watches info) i = Some rw"
    using Some by (cases "w_cancel w") (auto split: option.splits)
  have node: "node = sc_hash c (req_Node (rw_Request rw))" using ok Some unfolding sc_ok_def k(1) by (auto simp del: sc_held.simps)
  have "GetVersion (Some sn) u = req_VersionInfo (rw_Request rw) \<or>
      ads \<and> \<not> IsWildcard (w_sub w) \<and> difference (GetResourcesAndTTL (Some sn) u) (SubscribedResources (w_sub w)) \<noteq> []"
    if sn: "map_of (sc_snapshots c) node = Some sn" "node \<notin> F" for sn
  proof -
    have "sotw_settled m ads sn (si_watches info)" and g: "gomap_ok (si_watches info)"
      using ok k(2) sn by (auto simp: sc_ok_def sc_inv_def node_settled_def statusInfo_ok_def)
    then have "replySOTW m Background sn ads rw = Inr None"
      using map_of_SomeD [OF k(3)] by (auto simp: sotw_settled_def)
    then show ?thesis using ph by (auto simp: replySOTW_None createResponse_missing)
  qed
  with k node ph show ?thesis by blast
qed

text \<open>C4: What becomes of a response queued for a watch of a stream over the snapshot cache. First, receiving
  from the channel of the watch sends the response at its head with the next nonce, or ends the stream
  because it cannot be marshaled; on an unordered stream this head is the response itself. Second, as
  long as the loop goes on, each of its steps leaves the response queued for the same watch, or sends
  it, or handles a request of the response's own type, which gives the type a new watch and gives up the
  response: the unordered loop abandons its channel and the ordered loop discards it.\<close>

theorem snapshot_stream_delivers:
  assumes "watched_stream (sc_start ads) sc_room (sc_update m) srv env t lp mine s g"
    and "srv_cache srv = snapshot_cache m" and "responder s u = Some w"
    and "queue (ss_pending s) (w_response w) u \<noteq> []"
  shows "(\<exists>i r rest. channel_contents (w_response w) (ss_pending s) = Some (RawR r) # rest \<and>
      (lp = None \<longrightarrow> msg_type (Some (RawR r)) = u) \<and>
      (case fst (GetDiscoveryResponse (env_marshal env) r) of
         Inl e \<Rightarrow> \<exists>e'. snd (loop_step srv env t lp (SelectResponse i) s) = Return (Some e')
       | Inr d \<Rightarrow> sw_sent (ss_stream (fst (loop_step srv env t lp (SelectResponse i) s))) =
           sw_sent (ss_stream s) @ [d\<lparr>resp_Nonce := FormatInt (sw_nonce (ss_stream s) + 1)\<rparr>])) \<and>
    (\<exists>r. queue (ss_pending s) (w_response w) u = [Some (RawR r)] \<and>
      (\<forall>e s'. sc_room (ss_cache s) \<longrightarrow> loop_step srv env t lp e s = (s', Continue) \<longrightarrow>
         responder s' u = Some w \<and> queue (ss_pending s') (w_response w) u = [Some (RawR r)] \<or>
         (\<exists>d n sent. fst (GetDiscoveryResponse (env_marshal env) r) = Inr d \<and>
            sw_sent (ss_stream s') = sw_sent (ss_stream s) @ sent \<and> d\<lparr>resp_Nonce := n\<rparr> \<in> set sent) \<or>
         (\<exists>q w'. e = SelectRequest (Some (Some q)) \<and> loop_type t lp q = u \<and> responder s' u = Some w' \<and>
            w_nonce w' = '''' \<and> w_sub w' = SetResourceSubscription (w_sub w) (req_ResourceNames q))))"
proof -
  obtain r where r: "queue (ss_pending s) (w_response w) u = [Some (RawR r)]"
    using sc.watch_life [OF assms(1-3)] assms(4) by (auto simp: watch_phase_def split: list.splits)
  from sc.queued_response_delivered [OF assms] sc.queued_response_step [OF assms(1,2) _ assms(3) r] r show ?thesis
    by (intro conjI exI [of _ r]) blast+
qed

text \<open>C40: In ADS mode a request without a wildcard that does not name every resource of its node's snapshot is
  neither answered nor tracked. If no other watch of its type waits on its channel, which on an
  ordered stream may well be shared by watches of other types, then the next snapshot that is set, for
  whatever node, brings no response of the type on the channel, not even a snapshot that holds exactly
  the requested resources.\<close>

theorem ads_request_dropped:
  assumes run: "snapshot_run m c F" and ads: "sc_ads c" and sn: "map_of (sc_snapshots c) (sc_hash c (req_Node q)) = Some sn"
    and sub: "\<not> IsWildcard sub" "difference (GetResourcesAndTTL (Some sn) (req_TypeUrl q)) (SubscribedResources sub) \<noteq> []"
    and cr: "sc_CreateWatch m now q sub ch c = (c', out, r)"
    and fresh: "\<And>k w. sc_held (c, now) k = Some w \<Longrightarrow> rw_Response w = ch \<Longrightarrow> req_TypeUrl (rw_Request w) \<noteq> req_TypeUrl q"
    and set: "SetSnapshot m ctx node sn' c' = (c'', out', e)"
  shows "out = [] \<and> r = Inr ScNoop \<and> sc_held (c', now) = sc_held (c, now) \<and> queue (sotw_sends out') ch (req_TypeUrl q) = []"
proof -
  let ?w = "\<lparr>rw_Request = q, rw_Response = ch, rw_subscription = sub,
      rw_fullStateResponses = ResourceRequiresFullStateInSotw (req_TypeUrl q)\<rparr>"
  let ?id = "sc_hash c (req_Node q)" and ?m = "difference (GetResourcesAndTTL (Some sn) (req_TypeUrl q)) (SubscribedResources sub)"
  have "createResponse m sn ?w (sc_ads c) = Inl (MissingRequestResource ?m)"
    using ads sub by (simp add: createResponse_missing)
  with cr sn have c': "c' = c\<lparr>sc_status := AList.update ?id (setLastWatchRequestTime now (statusFor ?id (req_Node q) c)) (sc_status c)\<rparr>"
    "out = []" "r = Inr ScNoop" by (simp_all add: sc_CreateWatch_def Let_def)
  have held: "sc_held (c', now) = sc_held (c, now)"
    by (rule sc_held_cong) (auto simp: c' statusFor_def newStatusInfo_def setLastWatchRequestTime_def split: option.splits)
  have "sc_inv m F c'" by (rule snapshot_run_inv [OF srun_watch [OF run cr]])
  then have "answered_update (sc_held (c, now)) (sotw_sends out') (sc_held (c'', now))"
    using SetSnapshot_answered [OF _ set, of F now] held by simp
  then obtain ks where ks: "list_all2 (answered_by (sc_held (c, now))) ks (sotw_sends out')" by (auto simp: answered_update_def)
  have "queue (sotw_sends out') ch (req_TypeUrl q) = []"
  proof (rule queue_empty)
    fix p assume "p \<in> set (sotw_sends out')"
    then obtain k where "answered_by (sc_held (c, now)) k p" using answered_by_in [OF ks] by blast
    from answered_type [OF this] obtain tw where tw: "sc_held (c, now) k = Some tw" "fst p = rw_Response tw"
      "msg_type (snd p) = req_TypeUrl (rw_Request tw)" by blast
    with fresh [OF tw(1)] show "\<not> on_watch ch (req_TypeUrl q) p" by (auto simp: on_watch_def)
  qed
  with c' held show ?thesis by blast
qed

section \<open>Examples\<close>

text \<open>A client asks for the runtime layer \<open>r\<close> before its node has a snapshot; then the snapshot is set.\<close>

definition exn_server :: "(clocked, sc_cancel, unit) sotw_server" where
  "exn_server = sotw_NewServer (snapshot_cache exs_marshal) None []"

definition exn_env :: stream_env where
  "exn_env = \<lparr>env_marshal = exs_marshal, env_Send = (\<lambda>sent r. None), env_Context = Background\<rparr>"

definition exn_req :: DiscoveryRequest where
  "exn_req = (exs_req '''')\<lparr>req_ResourceNames := [''r'']\<rparr>"

definition exn_state :: "clocked \<Rightarrow> chan \<Rightarrow> response_sends \<Rightarrow> sc_cancel sotw_watches \<Rightarrow> Node option \<Rightarrow>
    (clocked, sc_cancel, unit) sotw_state" where
  "exn_state c n pending ws node = \<lparr>ss_cache = c, ss_callbacks = (), ss_streamCount = 1, ss_chans = n, ss_pending = pending,
     ss_stream = \<lparr>sw_ID = 1, sw_nonce = 0, sw_watches = ws, sw_node = node, sw_sent = []\<rparr>\<rparr>"

definition exn_cache :: snapshotCache where
  "exn_cache = NewSnapshotCache False IDHash"

definition exn_cases :: "chan list \<Rightarrow> select_case list" where
  "exn_cases chs = [CaseDone, CaseRequest] @ map CaseWatch chs"

definition exn_0 :: "(clocked, sc_cancel, unit) sotw_state" where
  "exn_0 = exn_state (exn_cache, 0) 0 [] \<lparr>ws_responders = [], ws_cases = exn_cases []\<rparr> (Some emptyNode)"

definition exn_watch :: "sc_cancel sotw_watch" where
  "exn_watch = \<lparr>w_cancel = ScCancelWatch ''n'' 1, w_response = 0, w_sub = exs_sub False [''r''] [], w_nonce = ''''\<rparr>"

definition exn_rw :: ResponseWatch where
  "exn_rw = \<lparr>rw_Request = exn_req, rw_Response = 0, rw_subscription = exs_sub False [''r''] [], rw_fullStateResponses = False\<rparr>"

definition exn_cache1 :: snapshotCache where
  "exn_cache1 = exn_cache\<lparr>sc_watchCount := 1, sc_status := [(''n'', (newStatusInfo exs_node)\<lparr>si_watches := [(1, exn_rw)]\<rparr>)]\<rparr>"

definition exn_1 :: "(clocked, sc_cancel, unit) sotw_state" where
  "exn_1 = exn_state (exn_cache1, 0) 1 [] \<lparr>ws_responders = [(RuntimeType, exn_watch)], ws_cases = exn_cases [0]\<rparr> exs_node"

abbreviation exn_stream where
  "exn_stream \<equiv> watched_stream (sc_start False) sc_room (sc_update exs_marshal) exn_server exn_env RuntimeType None"

lemma exn_sub: "NewSotwSubscription [''r''] b = exs_sub False [''r''] []"
  by (simp add: NewSotwSubscription_def SetResourceSubscription_def newSubscription_def exs_sub_def
      classify_name_def explicitWildcard_def globSuffix_def HasSuffix_def set_add_def)

lemma exn_create: "sc_CreateWatch exs_marshal 0 exn_req (exs_sub False [''r''] []) 0 exn_cache = (exn_cache1, [], Inr (ScCancelWatch ''n'' 1))"
  by (simp add: sc_CreateWatch_def sc_createWatch_def exn_cache_def exn_cache1_def NewSnapshotCache_def newSnapshotCache_def
      exn_req_def exs_defs IDHash_def statusFor_def newStatusInfo_def setLastWatchRequestTime_def exn_rw_def
      ResourceRequiresFullStateInSotw_def type_url_defs Let_def)

lemma exn_run0: "exn_stream {} exn_0 ({}, {})"
proof -
  let ?s0 = "exn_0\<lparr>ss_streamCount := 0\<rparr>"
  obtain s e where o: "stream_open exn_server exn_env RuntimeType ?s0 = (s, e)" by fastforce
  then have s: "set_watches recompute s = exn_0" "e = None"
    by (auto simp: stream_open_def exn_server_def sotw_NewServer_def exn_0_def exn_state_def exn_cases_def
        sotw_newWatches_def set_watches_def recompute_def Let_def)
  have "exn_stream {} (set_watches recompute s) ({}, {})"
    by (rule wst_open [where ?s0.0 = ?s0]) (use o s in \<open>auto simp: exn_0_def exn_state_def sc_start_def exn_cache_def\<close>)
  with s show ?thesis by simp
qed

lemma exn_step: "process_step exn_server exn_env RuntimeType (SelectRequest (Some (Some exn_req))) exn_0 = (exn_1, Continue)"
  using exn_create
  by (simp add: process_request_def reassignNode_def onStreamRequest_def responder_def openWatch_def set_watches_def
      addWatch_def recompute_def exn_server_def sotw_NewServer_def exn_0_def exn_1_def exn_state_def exn_cases_def exn_sub
      exn_watch_def snapshot_cache_def exn_req_def exs_req_def exs_node_def sotw_sends_def map_filter_simps
      AnyType_def type_url_defs Let_def)

lemma exn_run1: "exn_stream {0} exn_1 ({}, {})"
proof -
  have "exn_stream ({} \<union> {ss_chans exn_0..<ss_chans exn_1}) exn_1 ({}, {})"
    by (rule wst_event [OF exn_run0, where e = "SelectRequest (Some (Some exn_req))"])
      (use exn_step in \<open>simp_all add: sc_room_def exn_0_def exn_state_def exn_cache_def NewSnapshotCache_def newSnapshotCache_def\<close>)
  then show ?thesis by (simp add: exn_0_def exn_1_def exn_state_def)
qed

lemma exn_1_fields: "responder exn_1 RuntimeType = Some exn_watch" "w_nonce exn_watch = ''''" "ss_cache exn_1 = (exn_cache1, 0)"
    "ss_pending exn_1 = []" "srv_cache exn_server = snapshot_cache exs_marshal"
  by (simp_all add: exn_1_def exn_state_def responder_def exn_watch_def exn_server_def sotw_NewServer_def)

theorem snapshot_stream_up_to_date_witness:
  "\<exists>rw. map_of (si_watches (the (map_of (sc_status exn_cache1) ''n''))) 1 = Some rw \<and>
     rw_subscription rw = w_sub exn_watch \<and> req_TypeUrl (rw_Request rw) = RuntimeType"
proof -
  have "w_cancel exn_watch = ScCancelWatch ''n'' 1" by (simp add: exn_watch_def)
  with snapshot_stream_up_to_date [OF exn_run1 exn_1_fields(5) exn_1_fields(3) exn_1_fields(1,2)] exn_1_fields(4)
  show ?thesis by auto
qed

text \<open>The snapshot arrives.\<close>

definition exn_2 :: "(clocked, sc_cancel, unit) sotw_state" where
  "exn_2 = (case SetSnapshot exs_marshal Background ''n'' exs_snapshot exn_cache1 of
     (c, out, e) \<Rightarrow> exn_1\<lparr>ss_cache := (c, 0), ss_pending := sotw_sends out\<rparr>)"

definition exn_response :: RawResponse where
  "exn_response = the (case createResponse exs_marshal exs_snapshot exn_rw False of Inr x \<Rightarrow> x | Inl e \<Rightarrow> None)"

lemma exn_createResponse: "createResponse exs_marshal exs_snapshot exn_rw False = Inr (Some exn_response)"
  by (simp add: exn_response_def createResponse_def add_named_def exn_rw_def exn_req_def exs_req_def exs_sub_def Let_def)

lemma exn_set: "\<exists>c r. SetSnapshot exs_marshal Background ''n'' exs_snapshot exn_cache1 = (c, [(0, WRaw r)], None) \<and>
    raw_Request r = Some exn_req"
proof -
  have "rw_Request exn_rw = exn_req" "req_TypeUrl exn_req = RuntimeType" "req_VersionInfo exn_req = ''''" "rw_Response exn_rw = 0"
    by (simp_all add: exn_rw_def exn_req_def exs_req_def)
  with exn_createResponse createResponse_Some(5) [OF exn_createResponse] show ?thesis
    by (auto simp: SetSnapshot_def exn_cache1_def exn_cache_def NewSnapshotCache_def newSnapshotCache_def newStatusInfo_def
        respondSOTWWatches_def respondDeltaWatches_def replySOTW_def sc_respond_def Let_def)
qed

theorem snapshot_stream_delivers_witness:
  "\<exists>r rest. channel_contents 0 (ss_pending exn_2) = Some (RawR r) # rest \<and> msg_type (Some (RawR r)) = RuntimeType"
proof -
  obtain c r where set: "SetSnapshot exs_marshal Background ''n'' exs_snapshot exn_cache1 = (c, [(0, WRaw r)], None)"
    "raw_Request r = Some exn_req" using exn_set by blast
  have s: "exn_2 = exn_1\<lparr>ss_cache := (c, 0), ss_pending := ss_pending exn_1 @ sotw_sends [(0, WRaw r)]\<rparr>"
    by (simp add: exn_2_def set exn_1_fields)
  have run: "exn_stream {0} exn_2 ({}, {})"
    unfolding s by (rule wst_update [OF exn_run1]) (use su_set [OF set(1), of "{}" "{}" 0] exn_1_fields(3) in \<open>simp add: failed_nodes_def\<close>)
  have w: "responder exn_2 RuntimeType = Some exn_watch" using exn_1_fields(1) by (simp add: s responder_def)
  have "msg_type (Some (RawR r)) = RuntimeType"
    using set(2) by (simp add: msg_type_def req_getTypeUrl_def exn_req_def exs_req_def)
  then have "queue (ss_pending exn_2) (w_response exn_watch) RuntimeType \<noteq> []"
    by (simp add: s exn_1_fields sotw_sends_def map_filter_simps on_watch_def exn_watch_def)
  from snapshot_stream_delivers [OF run exn_1_fields(5) w this] show ?thesis by (auto simp: exn_watch_def)
qed

text \<open>In ADS mode a request that does not name the resource of the snapshot is dropped.\<close>

definition exd_cache :: snapshotCache where
  "exd_cache = (NewSnapshotCache True IDHash)\<lparr>sc_snapshots := [(''n'', exs_snapshot)]\<rparr>"

text \<open>The next snapshot of the node holds exactly the requested resource.\<close>

definition exd_next :: Snapshot where
  "exd_next = emptySnapshot\<lparr>sn_Resources := (sn_Resources emptySnapshot)
     (Runtime := \<lparr>rs_Version = ''v2'',
        rs_Items = [(''z'', \<lparr>rt_Resource = MRuntime ''z'' ''y'', rt_TTL = None\<rparr>)]\<rparr>)\<rparr>"

lemma exd_run: "snapshot_run exs_marshal exd_cache {}"
proof -
  have "SetSnapshot exs_marshal Background ''n'' exs_snapshot (NewSnapshotCache True IDHash) = (exd_cache, [], None)"
    by (simp add: SetSnapshot_def exd_cache_def NewSnapshotCache_def newSnapshotCache_def)
  from srun_set [OF srun_new this] show ?thesis by (simp add: failed_nodes_def)
qed

theorem ads_request_dropped_witness:
  "\<exists>c c2 out2 e. sc_CreateWatch exs_marshal 0 (exs_req '''') (exs_sub False [''z''] []) 7 exd_cache = (c, [], Inr ScNoop) \<and>
     SetSnapshot exs_marshal Background ''n'' exd_next c = (c2, out2, e) \<and>
     GetResourcesAndTTL (Some exd_next) RuntimeType = [(''z'', \<lparr>rt_Resource = MRuntime ''z'' ''y'', rt_TTL = None\<rparr>)] \<and>
     queue (sotw_sends out2) 7 RuntimeType = []"
proof -
  obtain c out r where cr: "sc_CreateWatch exs_marshal 0 (exs_req '''') (exs_sub False [''z''] []) 7 exd_cache = (c, out, r)"
    by (metis prod_cases3)
  obtain c2 out2 e where set: "SetSnapshot exs_marshal Background ''n'' exd_next c = (c2, out2, e)" by (metis prod_cases3)
  have held: "sc_held (exd_cache, 0) k = None" for k
    by (cases k) (simp_all add: exd_cache_def NewSnapshotCache_def newSnapshotCache_def)
  have "out = [] \<and> r = Inr ScNoop \<and> queue (sotw_sends out2) 7 RuntimeType = []"
    using ads_request_dropped [OF exd_run _ _ _ _ cr _ set, where sn = exs_snapshot] held
    by (simp add: exd_cache_def NewSnapshotCache_def newSnapshotCache_def exs_req_def exs_node_def IDHash_def
        exs_sub_def difference_def)
  moreover have "GetResourcesAndTTL (Some exd_next) RuntimeType = [(''z'', \<lparr>rt_Resource = MRuntime ''z'' ''y'', rt_TTL = None\<rparr>)]"
    by (simp add: GetResourcesAndTTL_def exd_next_def emptySnapshot_def gsub_def Let_def)
  ultimately show ?thesis using cr set by blast
qed

end
