(* ===== verification/Delta_Server.thy ===== *)
theory Delta_Server
  imports Sotw_Server
begin

text \<open>
  The incremental stream server: \<open>src/pkg/server/delta/v3\<close>, files \<open>watches.go\<close> and \<open>server.go\<close>. One stream is
  one goroutine over a \<open>select\<close>, as for the state-of-the-world server; all watches of a stream share one
  channel. \<open>watches.deltaWatches[typ]\<close> for a type without watch is the zero watch, whose cancel function
  is nil (\<open>None\<close>) and whose subscription has nil maps. The channel is closed only when the stream ends,
  so the branches for a closed channel are never taken inside the loop.
\<close>

section \<open>Definitions\<close>

subsection \<open>Watches\<close>

record 'k delta_watch =
  dw_cancel :: "'k option"
  dw_nonce :: string
  dw_subscription :: Subscription

record 'k delta_watches =
  dws_deltaWatches :: "(string, 'k delta_watch) gomap"
  dws_deltaMuxedResponses :: chan

definition delta_newWatches :: "chan \<Rightarrow> 'k delta_watches" where
  "delta_newWatches ch = \<lparr>dws_deltaWatches = [], dws_deltaMuxedResponses = ch\<rparr>"

definition zeroSubscription :: Subscription where
  "zeroSubscription =
     \<lparr>sub_wildcard = False, sub_allowLegacyWildcard = False, sub_subscribedResourceNames = [],
      sub_subscribedPrefixes = [], sub_returnedResources = []\<rparr>"

definition zeroDeltaWatch :: "'k delta_watch" where
  "zeroDeltaWatch = \<lparr>dw_cancel = None, dw_nonce = '''', dw_subscription = zeroSubscription\<rparr>"

definition delta_watch_Cancel :: "('c, 'k) Cache \<Rightarrow> 'k delta_watch \<Rightarrow> 'c \<Rightarrow> 'c" where
  "delta_watch_Cancel cache w c =
     (case dw_cancel w of None \<Rightarrow> c | Some k \<Rightarrow> cw_cancel cache k c)"

definition delta_watches_Cancel :: "('c, 'k) Cache \<Rightarrow> 'k delta_watches \<Rightarrow> 'c \<Rightarrow> 'c" where
  "delta_watches_Cancel cache w c =
     fold (\<lambda>(typeURL, watch) c. delta_watch_Cancel cache watch c) (dws_deltaWatches w) c"

subsection \<open>Server and stream\<close>

record 'u delta_Callbacks =
  cb_OnDeltaStreamOpen :: "go_context \<Rightarrow> 64 word \<Rightarrow> string \<Rightarrow> 'u \<Rightarrow> error option \<times> 'u"
  cb_OnDeltaStreamClosed :: "64 word \<Rightarrow> Node option \<Rightarrow> 'u \<Rightarrow> 'u"
  cb_OnStreamDeltaRequest :: "64 word \<Rightarrow> DeltaDiscoveryRequest \<Rightarrow> 'u \<Rightarrow> error option \<times> 'u"
  cb_OnStreamDeltaResponse ::
    "64 word \<Rightarrow> DeltaDiscoveryRequest option \<Rightarrow> DeltaDiscoveryResponse \<Rightarrow> 'u \<Rightarrow> 'u"

record ('c, 'k, 'u) delta_server =
  dsrv_cache :: "('c, 'k) Cache"
  dsrv_callbacks :: "'u delta_Callbacks option"
  dsrv_opts :: Opts

definition delta_NewServer ::
  "('c, 'k) Cache \<Rightarrow> 'u delta_Callbacks option \<Rightarrow> XDSOption list \<Rightarrow> ('c, 'k, 'u) delta_server" where
  "delta_NewServer cw callbacks opts =
     \<lparr>dsrv_cache = cw, dsrv_callbacks = callbacks, dsrv_opts = applyOpts opts zeroOpts\<rparr>"

record delta_env =
  denv_Send :: "DeltaDiscoveryResponse list \<Rightarrow> DeltaDiscoveryResponse \<Rightarrow> error option"
  denv_Context :: go_context

record ('c, 'k, 'u) delta_state =
  ds_cache :: 'c
  ds_callbacks :: 'u
  ds_streamCount :: "64 word"
  ds_chans :: chan
  ds_pending :: delta_sends
  ds_streamID :: "64 word"
  ds_streamNonce :: "64 word"
  ds_watches :: "'k delta_watches"
  ds_node :: "Node option"
  ds_sent :: "DeltaDiscoveryResponse list"

definition delta_watch_of :: "('c, 'k, 'u) delta_state \<Rightarrow> string \<Rightarrow> 'k delta_watch option" where
  "delta_watch_of s typeURL = map_of (dws_deltaWatches (ds_watches s)) typeURL"

definition set_delta_watch ::
  "string \<Rightarrow> 'k delta_watch \<Rightarrow> ('c, 'k, 'u) delta_state \<Rightarrow> ('c, 'k, 'u) delta_state" where
  "set_delta_watch typeURL watch s =
     s\<lparr>ds_watches := (ds_watches s)\<lparr>dws_deltaWatches :=
         AList.update typeURL watch (dws_deltaWatches (ds_watches s))\<rparr>\<rparr>"

subsection \<open>Responses\<close>

text \<open>The closure \<open>send\<close>: the nonce, or the error; the nonce is consumed even when \<open>Send\<close> fails.\<close>

definition delta_send ::
  "('c, 'k, 'u) delta_server \<Rightarrow> delta_env \<Rightarrow> DeltaResponse \<Rightarrow> ('c, 'k, 'u) delta_state \<Rightarrow>
     ('c, 'k, 'u) delta_state \<times> string result" where
  "delta_send srv env resp s =
     (case response_GetDeltaDiscoveryResponse resp of
        Inl e \<Rightarrow> (s, Inl e)
      | Inr None \<Rightarrow> (s, Inl (Panic ''nil pointer dereference''))
      | Inr (Some response) \<Rightarrow>
          (let s = s\<lparr>ds_streamNonce := ds_streamNonce s + 1\<rparr>;
               response = response\<lparr>dresp_Nonce := FormatInt (ds_streamNonce s)\<rparr>;
               s = (case dsrv_callbacks srv of
                      None \<Rightarrow> s
                    | Some cb \<Rightarrow>
                        s\<lparr>ds_callbacks :=
                            cb_OnStreamDeltaResponse cb (ds_streamID s) (GetDeltaRequest resp) response
                              (ds_callbacks s)\<rparr>);
               sent = ds_sent s;
               s = s\<lparr>ds_sent := sent @ [response]\<rparr>
           in case denv_Send env sent response of
                Some e \<Rightarrow> (s, Inl e)
              | None \<Rightarrow> (s, Inr (dresp_Nonce response))))"

text \<open>The closure \<open>process\<close>; a method call on a nil response panics.\<close>

definition delta_process ::
  "('c, 'k, 'u) delta_server \<Rightarrow> delta_env \<Rightarrow> delta_message \<Rightarrow> ('c, 'k, 'u) delta_state \<Rightarrow>
     ('c, 'k, 'u) delta_state \<times> error option" where
  "delta_process srv env resp s =
     (case resp of
        DeltaNil \<Rightarrow> (s, Some (Panic ''nil pointer dereference''))
      | DeltaErrorResponse \<Rightarrow> (s, Some (StatusErr Unavailable '' watch failed''))
      | DeltaMessage r \<Rightarrow>
          (let typ = dreq_getTypeUrl (GetDeltaRequest r) in
           case delta_send srv env r s of
             (s, Inl e) \<Rightarrow> (s, Some e)
           | (s, Inr nonce) \<Rightarrow>
               (let watch = (case delta_watch_of s typ of None \<Rightarrow> zeroDeltaWatch | Some w \<Rightarrow> w);
                    watch = watch\<lparr>dw_nonce := nonce,
                              dw_subscription :=
                                SetReturnedResources (dw_subscription watch) (delta_GetReturnedResources r)\<rparr>
                in (set_delta_watch typ watch s, None))))"

text \<open>The closure \<open>processAll\<close>: receive and process until the channel is empty.\<close>

fun delta_processAll ::
  "('c, 'k, 'u) delta_server \<Rightarrow> delta_env \<Rightarrow> delta_message list \<Rightarrow> ('c, 'k, 'u) delta_state \<Rightarrow>
     ('c, 'k, 'u) delta_state \<times> error option" where
  "delta_processAll srv env [] s = (s, None)"
| "delta_processAll srv env (resp # rest) s =
     (case delta_process srv env resp
             (s\<lparr>ds_pending := drop_first (dws_deltaMuxedResponses (ds_watches s)) (ds_pending s)\<rparr>) of
        (s, Some e) \<Rightarrow> (s, Some e)
      | (s, None) \<Rightarrow> delta_processAll srv env rest s)"

subsection \<open>Requests\<close>

definition delta_reassignNode ::
  "DeltaDiscoveryRequest \<Rightarrow> ('c, 'k, 'u) delta_state \<Rightarrow>
     DeltaDiscoveryRequest \<times> ('c, 'k, 'u) delta_state" where
  "delta_reassignNode req s =
     (case dreq_Node req of
        Some node \<Rightarrow> (req, s\<lparr>ds_node := Some node\<rparr>)
      | None \<Rightarrow> (req\<lparr>dreq_Node := ds_node s\<rparr>, s))"

text \<open>The new watch of a request, after the old one is cancelled.\<close>

definition delta_subscribe ::
  "('c, 'k, 'u) delta_server \<Rightarrow> DeltaDiscoveryRequest \<Rightarrow> ('c, 'k, 'u) delta_state \<Rightarrow>
     ('c, 'k, 'u) delta_state \<times> 'k delta_watch" where
  "delta_subscribe srv req s =
     (case delta_watch_of s (dreq_TypeUrl req) of
        None \<Rightarrow>
          (s, zeroDeltaWatch\<lparr>dw_subscription :=
                NewDeltaSubscription (dreq_ResourceNamesSubscribe req) (dreq_ResourceNamesUnsubscribe req)
                  (dreq_InitialResourceVersions req)
                  (IsLegacyWildcardActive (dsrv_opts srv) (dreq_TypeUrl req))\<rparr>)
      | Some watch \<Rightarrow>
          (s\<lparr>ds_cache := delta_watch_Cancel (dsrv_cache srv) watch (ds_cache s)\<rparr>,
           watch\<lparr>dw_subscription :=
             UpdateResourceSubscriptions (dw_subscription watch) (dreq_ResourceNamesSubscribe req)
               (dreq_ResourceNamesUnsubscribe req)\<rparr>))"

definition delta_openWatch ::
  "('c, 'k, 'u) delta_server \<Rightarrow> DeltaDiscoveryRequest \<Rightarrow> 'k delta_watch \<Rightarrow> ('c, 'k, 'u) delta_state \<Rightarrow>
     ('c, 'k, 'u) delta_state \<times> outcome" where
  "delta_openWatch srv req watch s =
     (case cw_CreateDeltaWatch (dsrv_cache srv) req (dw_subscription watch)
             (dws_deltaMuxedResponses (ds_watches s)) (ds_cache s) of
        (c, out, r) \<Rightarrow>
          (let s = s\<lparr>ds_cache := c, ds_pending := ds_pending s @ out\<rparr> in
           case r of
             Inl e \<Rightarrow> (s, Return (Some e))
           | Inr cancel \<Rightarrow>
               (set_delta_watch (dreq_TypeUrl req) (watch\<lparr>dw_cancel := Some cancel\<rparr>) s, Continue)))"

definition onStreamDeltaRequest ::
  "('c, 'k, 'u) delta_server \<Rightarrow> DeltaDiscoveryRequest \<Rightarrow> ('c, 'k, 'u) delta_state \<Rightarrow>
     ('c, 'k, 'u) delta_state \<times> error option" where
  "onStreamDeltaRequest srv req s =
     (case dsrv_callbacks srv of
        None \<Rightarrow> (s, None)
      | Some cb \<Rightarrow>
          (case cb_OnStreamDeltaRequest cb (ds_streamID s) req (ds_callbacks s) of
             (e, u) \<Rightarrow> (s\<lparr>ds_callbacks := u\<rparr>, e)))"

definition delta_request ::
  "('c, 'k, 'u) delta_server \<Rightarrow> delta_env \<Rightarrow> string \<Rightarrow> DeltaDiscoveryRequest \<Rightarrow>
     ('c, 'k, 'u) delta_state \<Rightarrow> ('c, 'k, 'u) delta_state \<times> outcome" where
  "delta_request srv env defaultTypeURL req s =
     (case delta_processAll srv env
             (channel_contents (dws_deltaMuxedResponses (ds_watches s)) (ds_pending s)) s of
        (s, Some e) \<Rightarrow> (s, Return (Some e))
      | (s, None) \<Rightarrow>
          (case onStreamDeltaRequest srv req s of
             (s, Some e) \<Rightarrow> (s, Return (Some e))
           | (s, None) \<Rightarrow>
               (case delta_reassignNode req s of
                  (req, s) \<Rightarrow>
                    if defaultTypeURL = AnyType \<and> dreq_TypeUrl req = ''''
                    then (s, Return (Some (StatusErr InvalidArgument ''type URL is required for ADS'')))
                    else
                      (let req = (if dreq_TypeUrl req = '''' then req\<lparr>dreq_TypeUrl := defaultTypeURL\<rparr>
                                  else req)
                       in case delta_subscribe srv req s of
                            (s, watch) \<Rightarrow> delta_openWatch srv req watch s))))"

subsection \<open>The loop\<close>

datatype delta_event =
    DeltaSelectDone
  | DeltaSelectRequest "DeltaDiscoveryRequest option option"
  | DeltaSelectResponse

fun processDelta_step ::
  "('c, 'k, 'u) delta_server \<Rightarrow> delta_env \<Rightarrow> string \<Rightarrow> delta_event \<Rightarrow> ('c, 'k, 'u) delta_state \<Rightarrow>
     ('c, 'k, 'u) delta_state \<times> outcome" where
  "processDelta_step srv env defaultTypeURL DeltaSelectDone s = (s, Return None)"
| "processDelta_step srv env defaultTypeURL DeltaSelectResponse s =
     (case receive (dws_deltaMuxedResponses (ds_watches s)) (ds_pending s) of
        None \<Rightarrow> (s, Continue)
      | Some (resp, pending) \<Rightarrow>
          (case delta_process srv env resp (s\<lparr>ds_pending := pending\<rparr>) of
             (s, Some e) \<Rightarrow> (s, Return (Some e))
           | (s, None) \<Rightarrow> (s, Continue)))"
| "processDelta_step srv env defaultTypeURL (DeltaSelectRequest None) s = (s, Return None)"
| "processDelta_step srv env defaultTypeURL (DeltaSelectRequest (Some None)) s =
     (s, Return (Some (StatusErr Unavailable ''empty request'')))"
| "processDelta_step srv env defaultTypeURL (DeltaSelectRequest (Some (Some req))) s =
     delta_request srv env defaultTypeURL req s"

definition delta_open ::
  "('c, 'k, 'u) delta_server \<Rightarrow> delta_env \<Rightarrow> string \<Rightarrow> ('c, 'k, 'u) delta_state \<Rightarrow>
     ('c, 'k, 'u) delta_state \<times> error option" where
  "delta_open srv env defaultTypeURL s =
     (let streamID = ds_streamCount s + 1;
          s = s\<lparr>ds_streamCount := streamID, ds_streamID := streamID, ds_streamNonce := 0,
                ds_watches := delta_newWatches (ds_chans s), ds_chans := Suc (ds_chans s),
                ds_node := Some emptyNode, ds_sent := []\<rparr>
      in case dsrv_callbacks srv of
           None \<Rightarrow> (s, None)
         | Some cb \<Rightarrow>
             (case cb_OnDeltaStreamOpen cb (denv_Context env) streamID defaultTypeURL (ds_callbacks s) of
                (e, u) \<Rightarrow> (s\<lparr>ds_callbacks := u\<rparr>, e)))"

definition delta_shutdown ::
  "('c, 'k, 'u) delta_server \<Rightarrow> ('c, 'k, 'u) delta_state \<Rightarrow> ('c, 'k, 'u) delta_state" where
  "delta_shutdown srv s =
     (let s = s\<lparr>ds_cache := delta_watches_Cancel (dsrv_cache srv) (ds_watches s) (ds_cache s)\<rparr> in
      case dsrv_callbacks srv of
        None \<Rightarrow> s
      | Some cb \<Rightarrow>
          s\<lparr>ds_callbacks := cb_OnDeltaStreamClosed cb (ds_streamID s) (ds_node s) (ds_callbacks s)\<rparr>)"

definition processDelta ::
  "('c, 'k, 'u) delta_server \<Rightarrow> delta_env \<Rightarrow> string \<Rightarrow> delta_event list \<Rightarrow> ('c, 'k, 'u) delta_state \<Rightarrow>
     ('c, 'k, 'u) delta_state \<times> error option option" where
  "processDelta srv env defaultTypeURL events s =
     (case (case delta_open srv env defaultTypeURL s of
              (s, Some e) \<Rightarrow> (s, Some (Some e))
            | (s, None) \<Rightarrow> select_loop (processDelta_step srv env defaultTypeURL) events s)
      of (s, None) \<Rightarrow> (s, None)
       | (s, Some r) \<Rightarrow> (delta_shutdown srv s, Some r))"

fun delta_schedule :: "choice list \<Rightarrow> DeltaDiscoveryRequest option option list \<Rightarrow> delta_event list" where
  "delta_schedule [] reqs = []"
| "delta_schedule (TakeDone # cs) reqs = DeltaSelectDone # delta_schedule cs reqs"
| "delta_schedule (TakeResponse i # cs) reqs = DeltaSelectResponse # delta_schedule cs reqs"
| "delta_schedule (TakeRequest # cs) [] = delta_schedule cs []"
| "delta_schedule (TakeRequest # cs) (req # reqs) = DeltaSelectRequest req # delta_schedule cs reqs"

definition DeltaStreamHandler ::
  "('c, 'k, 'u) delta_server \<Rightarrow> delta_env \<Rightarrow> string \<Rightarrow> DeltaDiscoveryRequest option result list \<Rightarrow>
     choice list \<Rightarrow> ('c, 'k, 'u) delta_state \<Rightarrow> ('c, 'k, 'u) delta_state \<times> error option option" where
  "DeltaStreamHandler srv env typeURL recvs choices s =
     processDelta srv env typeURL (delta_schedule choices (recvLoop recvs)) s"

end
