(* ===== verification/Delta_Stream.thy ===== *)
theory Delta_Stream
  imports Delta_Server Ads_Order
begin

text \<open>
  What the incremental stream server (\<open>src/pkg/server/delta/v3/server.go\<close>) sends and records when a request
  comes in: everything queued is sent first, so that the subscription a request changes knows the
  versions of everything the client has been sent.
\<close>

section \<open>Definitions\<close>

fun delta_numbered :: "64 word \<Rightarrow> DeltaDiscoveryResponse list \<Rightarrow> DeltaDiscoveryResponse list" where
  "delta_numbered n [] = []"
| "delta_numbered n (d # ds) = d\<lparr>dresp_Nonce := FormatInt (n + 1)\<rparr> # delta_numbered (n + 1) ds"

text \<open>A subscription of type \<open>typeURL\<close> after the responses \<open>rs\<close> have been recorded in it.\<close>

definition recorded :: "string \<Rightarrow> DeltaResponse list \<Rightarrow> Subscription \<Rightarrow> Subscription" where
  "recorded typeURL rs sub =
     fold (\<lambda>r sub. if dreq_getTypeUrl (GetDeltaRequest r) = typeURL
                   then SetReturnedResources sub (delta_GetReturnedResources r) else sub) rs sub"

section \<open>Lemmas\<close>

lemma delta_watch_of_set [simp]:
  "delta_watch_of (set_delta_watch t w s) u = (if u = t then Some w else delta_watch_of s u)"
  by (simp add: delta_watch_of_def set_delta_watch_def)

lemma set_delta_watch_frame [simp]:
  "ds_cache (set_delta_watch t w s) = ds_cache s" "ds_pending (set_delta_watch t w s) = ds_pending s"
  "ds_sent (set_delta_watch t w s) = ds_sent s" "ds_streamNonce (set_delta_watch t w s) = ds_streamNonce s"
  "ds_node (set_delta_watch t w s) = ds_node s"
  "dws_deltaMuxedResponses (ds_watches (set_delta_watch t w s)) = dws_deltaMuxedResponses (ds_watches s)"
  by (simp_all add: set_delta_watch_def)

text \<open>One response that is processed is sent with the next nonce and recorded.\<close>

lemma delta_process_None:
  assumes "delta_process srv env m s = (s', None)"
  obtains r d where "m = DeltaMessage r" "response_GetDeltaDiscoveryResponse r = Inr (Some d)"
    "ds_sent s' = ds_sent s @ [d\<lparr>dresp_Nonce := FormatInt (ds_streamNonce s + 1)\<rparr>]"
    "ds_streamNonce s' = ds_streamNonce s + 1" "ds_pending s' = ds_pending s" "ds_cache s' = ds_cache s"
    "ds_node s' = ds_node s"
    "dws_deltaMuxedResponses (ds_watches s') = dws_deltaMuxedResponses (ds_watches s)"
    "\<And>u w. delta_watch_of s u = Some w \<Longrightarrow> \<exists>w'. delta_watch_of s' u = Some w' \<and> dw_cancel w' = dw_cancel w \<and>
       dw_subscription w' = recorded u [r] (dw_subscription w)"
proof -
  obtain r where r: "m = DeltaMessage r" using assms by (cases m) (auto simp: delta_process_def)
  let ?u = "dreq_getTypeUrl (GetDeltaRequest r)"
  obtain s1 n where send: "delta_send srv env r s = (s1, Inr n)"
    and s': "s' = set_delta_watch ?u
      ((case delta_watch_of s1 ?u of None \<Rightarrow> zeroDeltaWatch | Some w \<Rightarrow> w)\<lparr>dw_nonce := n, dw_subscription :=
         SetReturnedResources (dw_subscription (case delta_watch_of s1 ?u of None \<Rightarrow> zeroDeltaWatch | Some w \<Rightarrow> w))
           (delta_GetReturnedResources r)\<rparr>) s1"
    using assms r by (auto simp: delta_process_def Let_def split: prod.splits sum.splits)
  obtain d where d: "response_GetDeltaDiscoveryResponse r = Inr (Some d)"
    "ds_sent s1 = ds_sent s @ [d\<lparr>dresp_Nonce := FormatInt (ds_streamNonce s + 1)\<rparr>]"
    "ds_streamNonce s1 = ds_streamNonce s + 1" "ds_pending s1 = ds_pending s" "ds_cache s1 = ds_cache s"
    "ds_watches s1 = ds_watches s" "ds_node s1 = ds_node s"
    using send by (cases "dsrv_callbacks srv")
      (auto simp: delta_send_def Let_def split: sum.splits option.splits)
  have "delta_watch_of s1 = delta_watch_of s" by (rule ext) (simp add: delta_watch_of_def d)
  then have "\<exists>w'. delta_watch_of s' u = Some w' \<and> dw_cancel w' = dw_cancel w \<and>
       dw_subscription w' = recorded u [r] (dw_subscription w)" if "delta_watch_of s u = Some w" for u w
    using that by (cases "u = ?u") (auto simp: s' recorded_def)
  with r d show thesis by (intro that [of r d]) (auto simp: s')
qed

lemma recorded_Cons: "recorded u (r # rs) sub = recorded u rs (recorded u [r] sub)"
  by (simp add: recorded_def)

lemma delta_processAll_sends:
  assumes "delta_processAll srv env queue s = (s', None)"
    and "channel_contents (dws_deltaMuxedResponses (ds_watches s)) (ds_pending s) = queue"
  shows "\<exists>rs ds. queue = map DeltaMessage rs \<and>
    rmap response_GetDeltaDiscoveryResponse rs = Inr (map Some ds) \<and>
    ds_sent s' = ds_sent s @ delta_numbered (ds_streamNonce s) ds \<and>
    ds_cache s' = ds_cache s \<and> ds_node s' = ds_node s \<and>
    dws_deltaMuxedResponses (ds_watches s') = dws_deltaMuxedResponses (ds_watches s) \<and>
    channel_contents (dws_deltaMuxedResponses (ds_watches s)) (ds_pending s') = [] \<and>
    (\<forall>u w. delta_watch_of s u = Some w \<longrightarrow> (\<exists>w'. delta_watch_of s' u = Some w' \<and> dw_cancel w' = dw_cancel w \<and>
       dw_subscription w' = recorded u rs (dw_subscription w)))"
  using assms
proof (induction queue arbitrary: s)
  case Nil
  then show ?case by (simp add: recorded_def)
next
  case (Cons m rest)
  let ?ch = "dws_deltaMuxedResponses (ds_watches s)"
  let ?s = "s\<lparr>ds_pending := drop_first ?ch (ds_pending s)\<rparr>"
  note drop = channel_drop_first [OF Cons.prems(2)]
  obtain s1 where p: "delta_process srv env m ?s = (s1, None)"
    and run: "delta_processAll srv env rest s1 = (s', None)"
    using Cons.prems(1) by (auto split: prod.splits option.splits)
  obtain r d where P: "m = DeltaMessage r" "response_GetDeltaDiscoveryResponse r = Inr (Some d)"
    "ds_sent s1 = ds_sent s @ [d\<lparr>dresp_Nonce := FormatInt (ds_streamNonce s + 1)\<rparr>]"
    "ds_streamNonce s1 = ds_streamNonce s + 1" "ds_pending s1 = ds_pending ?s" "ds_cache s1 = ds_cache s"
    "ds_node s1 = ds_node s" "dws_deltaMuxedResponses (ds_watches s1) = ?ch"
    "\<And>u w. delta_watch_of s u = Some w \<Longrightarrow> \<exists>w'. delta_watch_of s1 u = Some w' \<and> dw_cancel w' = dw_cancel w \<and>
       dw_subscription w' = recorded u [r] (dw_subscription w)"
    using p by (rule delta_process_None) (auto simp: delta_watch_of_def)
  from Cons.IH [OF run] P(5,8) drop obtain rs ds where I: "rest = map DeltaMessage rs"
    "rmap response_GetDeltaDiscoveryResponse rs = Inr (map Some ds)"
    "ds_sent s' = ds_sent s1 @ delta_numbered (ds_streamNonce s1) ds" "ds_cache s' = ds_cache s1"
    "ds_node s' = ds_node s1" "dws_deltaMuxedResponses (ds_watches s') = ?ch"
    "channel_contents ?ch (ds_pending s') = []"
    "\<And>u w. delta_watch_of s1 u = Some w \<Longrightarrow> \<exists>w'. delta_watch_of s' u = Some w' \<and> dw_cancel w' = dw_cancel w \<and>
       dw_subscription w' = recorded u rs (dw_subscription w)"
    by auto
  have "\<exists>w'. delta_watch_of s' u = Some w' \<and> dw_cancel w' = dw_cancel w \<and>
       dw_subscription w' = recorded u (r # rs) (dw_subscription w)" if "delta_watch_of s u = Some w" for u w
  proof -
    from P(9) [OF that] obtain w1 where w1: "delta_watch_of s1 u = Some w1" "dw_cancel w1 = dw_cancel w"
      "dw_subscription w1 = recorded u [r] (dw_subscription w)" by blast
    from I(8) [OF w1(1)] w1(2,3) show ?thesis by (simp add: recorded_Cons [of u r rs])
  qed
  moreover have "rmap response_GetDeltaDiscoveryResponse (r # rs) = Inr (map Some (d # ds))"
    "ds_sent s' = ds_sent s @ delta_numbered (ds_streamNonce s) (d # ds)"
    using P(2-4) I(2,3) by simp_all
  ultimately show ?case
    using P(1,6,7) I(1,4-7) by (intro exI [of _ "r # rs"] exI [of _ "d # ds"]) simp
qed

section \<open>Requests on an incremental stream\<close>

text \<open>C8: A request on an incremental stream for a type that has a watch is handled after every queued
  response has been sent, in order and with consecutive nonces, and recorded: the cache is asked with
  the subscription that knows all versions sent so far, changed by the request, after the old watch
  has been cancelled, and afterwards the channel holds nothing but what the new watch was answered.\<close>

theorem delta_request_flushes:
  assumes step: "delta_request srv env t req s = (s', Continue)"
    and U: "dreq_TypeUrl req = U" "U \<noteq> ''''" and w: "delta_watch_of s U = Some w"
  shows "\<exists>q rs ds out k. dreq_TypeUrl q = U \<and>
    channel_contents (dws_deltaMuxedResponses (ds_watches s)) (ds_pending s) = map DeltaMessage rs \<and>
    rmap response_GetDeltaDiscoveryResponse rs = Inr (map Some ds) \<and>
    ds_sent s' = ds_sent s @ delta_numbered (ds_streamNonce s) ds \<and>
    cw_CreateDeltaWatch (dsrv_cache srv) q
      (UpdateResourceSubscriptions (recorded U rs (dw_subscription w))
         (dreq_ResourceNamesSubscribe req) (dreq_ResourceNamesUnsubscribe req))
      (dws_deltaMuxedResponses (ds_watches s)) (delta_watch_Cancel (dsrv_cache srv) w (ds_cache s)) =
      (ds_cache s', out, Inr k) \<and>
    channel_contents (dws_deltaMuxedResponses (ds_watches s)) (ds_pending s') =
      channel_contents (dws_deltaMuxedResponses (ds_watches s)) out"
proof -
  let ?ch = "dws_deltaMuxedResponses (ds_watches s)"
  obtain s1 e1 where p: "delta_processAll srv env (channel_contents ?ch (ds_pending s)) s = (s1, e1)"
    by (cases "delta_processAll srv env (channel_contents ?ch (ds_pending s)) s")
  have e1: "e1 = None" using step unfolding delta_request_def p by (auto split: option.splits)
  obtain rs ds where P: "channel_contents ?ch (ds_pending s) = map DeltaMessage rs"
    "rmap response_GetDeltaDiscoveryResponse rs = Inr (map Some ds)"
    "ds_sent s1 = ds_sent s @ delta_numbered (ds_streamNonce s) ds" "ds_cache s1 = ds_cache s"
    "dws_deltaMuxedResponses (ds_watches s1) = ?ch" "channel_contents ?ch (ds_pending s1) = []"
    "\<And>u w. delta_watch_of s u = Some w \<Longrightarrow> \<exists>w'. delta_watch_of s1 u = Some w' \<and> dw_cancel w' = dw_cancel w \<and>
       dw_subscription w' = recorded u rs (dw_subscription w)"
    using delta_processAll_sends [OF p [unfolded e1] refl] by blast
  obtain w1 where w1: "delta_watch_of s1 U = Some w1" "dw_cancel w1 = dw_cancel w"
    "dw_subscription w1 = recorded U rs (dw_subscription w)" using P(7) [OF w] by blast
  obtain s2 e2 where o: "onStreamDeltaRequest srv req s1 = (s2, e2)" by (cases "onStreamDeltaRequest srv req s1")
  have e2: "e2 = None" using step unfolding delta_request_def p e1 by (auto simp: o split: option.splits)
  obtain q s3 where r: "delta_reassignNode req s2 = (q, s3)" by (cases "delta_reassignNode req s2")
  have s3: "ds_watches s3 = ds_watches s1" "ds_cache s3 = ds_cache s" "ds_pending s3 = ds_pending s1" "ds_sent s3 = ds_sent s1"
    using o r P(4) by (auto simp: onStreamDeltaRequest_def delta_reassignNode_def split: option.splits prod.splits)
  have q: "dreq_TypeUrl q = U" "dreq_ResourceNamesSubscribe q = dreq_ResourceNamesSubscribe req"
    "dreq_ResourceNamesUnsubscribe q = dreq_ResourceNamesUnsubscribe req"
    using r U by (auto simp: delta_reassignNode_def split: option.splits)
  have w3: "delta_watch_of s3 U = Some w1" using w1 s3 by (simp add: delta_watch_of_def)
  let ?sub = "UpdateResourceSubscriptions (recorded U rs (dw_subscription w))
    (dreq_ResourceNamesSubscribe req) (dreq_ResourceNamesUnsubscribe req)"
  let ?c = "delta_watch_Cancel (dsrv_cache srv) w (ds_cache s)"
  have cancel: "delta_watch_Cancel (dsrv_cache srv) w1 = delta_watch_Cancel (dsrv_cache srv) w"
    by (rule ext) (simp add: delta_watch_Cancel_def w1)
  have "delta_openWatch srv q (w1\<lparr>dw_subscription := ?sub\<rparr>) (s3\<lparr>ds_cache := ?c\<rparr>) = (s', Continue)"
    using step unfolding delta_request_def p e1 prod.case option.case o e2 r Let_def
    by (auto simp: q U delta_subscribe_def w3 w1 cancel s3 split: if_splits)
  then obtain out k where "cw_CreateDeltaWatch (dsrv_cache srv) q ?sub ?ch ?c = (ds_cache s', out, Inr k)"
    "ds_pending s' = ds_pending s1 @ out" "ds_sent s' = ds_sent s1"
    by (auto simp: delta_openWatch_def Let_def s3 P(5) split: prod.splits sum.splits)
  with P(1-3,6) q(1) show ?thesis
    by (intro exI [of _ q] exI [of _ rs] exI [of _ ds] exI [of _ out] exI [of _ k]) (simp add: channel_contents_def)
qed

text \<open>An incremental stream on an empty linear cache with a response still queued.\<close>

definition exd_request :: DeltaDiscoveryRequest where
  "exd_request = \<lparr>dreq_Node = Some emptyNode, dreq_TypeUrl = ''T'', dreq_ResourceNamesSubscribe = [],
     dreq_ResourceNamesUnsubscribe = [], dreq_InitialResourceVersions = [], dreq_ResponseNonce = '''',
     dreq_ErrorDetail = None\<rparr>"

definition exd_message :: DeltaDiscoveryResponse where
  "exd_message = \<lparr>dresp_SystemVersionInfo = ''0'', dresp_Resources = [], dresp_RemovedResources = [''a''],
     dresp_TypeUrl = ''T'', dresp_Nonce = ''''\<rparr>"

definition exd_response :: DeltaResponse where
  "exd_response = PassthroughDR \<lparr>dpt_DeltaRequest = Some exd_request, dpt_NextVersionMap = [],
     dpt_DeltaDiscoveryResponse = Some exd_message, dpt_ctx = Background\<rparr>"

definition exd_sub :: Subscription where
  "exd_sub = \<lparr>sub_wildcard = False, sub_allowLegacyWildcard = False, sub_subscribedResourceNames = [''a''],
     sub_subscribedPrefixes = [], sub_returnedResources = []\<rparr>"

definition exd_watch :: "cancel delta_watch" where
  "exd_watch = \<lparr>dw_cancel = None, dw_nonce = '''', dw_subscription = exd_sub\<rparr>"

definition exd_server :: "(LinearCache, cancel, unit) delta_server" where
  "exd_server = delta_NewServer linear_cache None []"

definition exd_env :: delta_env where
  "exd_env = \<lparr>denv_Send = (\<lambda>sent r. None), denv_Context = Background\<rparr>"

definition exd_state :: "(LinearCache, cancel, unit) delta_state" where
  "exd_state = \<lparr>ds_cache = NewLinearCache ext_marshal ''T'' [], ds_callbacks = (), ds_streamCount = 1, ds_chans = 1,
     ds_pending = [(0, DeltaMessage exd_response)], ds_streamID = 1, ds_streamNonce = 2,
     ds_watches = \<lparr>dws_deltaWatches = [(''T'', exd_watch)], dws_deltaMuxedResponses = 0\<rparr>,
     ds_node = Some emptyNode, ds_sent = []\<rparr>"

lemma exd_create: "snd (snd (cw_CreateDeltaWatch linear_cache exd_request exd_sub 0 (NewLinearCache ext_marshal ''T'' []))) =
    Inr (CancelWatch 1 exd_sub)"
  by (simp add: linear_cache_def NewLinearCache_def lc_CreateDeltaWatch_def exd_request_def exd_sub_def
      computeResponse_def computeResourceChange_def trackWatch_def nextWatchID_def IsWildcard_def Let_def)

lemma exd_step: "snd (delta_request exd_server exd_env ''T'' exd_request exd_state) = Continue"
  using exd_create
  by (auto simp: delta_request_def exd_server_def exd_env_def exd_state_def exd_watch_def exd_response_def exd_message_def
      delta_NewServer_def delta_process_def delta_send_def drop_first_def delta_watch_of_def set_delta_watch_def
      onStreamDeltaRequest_def delta_reassignNode_def delta_subscribe_def delta_openWatch_def channel_contents_def
      delta_watch_Cancel_def exd_request_def exd_sub_def SetReturnedResources_def UpdateResourceSubscriptions_def
      dreq_getTypeUrl_def AnyType_def Let_def split: prod.splits sum.splits)

theorem delta_request_flushes_witness:
  "ds_sent (fst (delta_request exd_server exd_env ''T'' exd_request exd_state)) =
     [exd_message\<lparr>dresp_Nonce := FormatInt 3\<rparr>]"
proof -
  obtain s' where step: "delta_request exd_server exd_env ''T'' exd_request exd_state = (s', Continue)"
    using exd_step by (cases "delta_request exd_server exd_env ''T'' exd_request exd_state") auto
  have U: "dreq_TypeUrl exd_request = ''T''" and w: "delta_watch_of exd_state ''T'' = Some exd_watch"
    and c: "channel_contents (dws_deltaMuxedResponses (ds_watches exd_state)) (ds_pending exd_state) =
      map DeltaMessage [exd_response]"
    and f: "ds_sent exd_state = []" "ds_streamNonce exd_state = 2"
    by (simp_all add: exd_request_def exd_state_def delta_watch_of_def channel_contents_def)
  have inj: "inj DeltaMessage" by (simp add: inj_def)
  from delta_request_flushes [OF step U _ w] obtain rs ds where
    "channel_contents (dws_deltaMuxedResponses (ds_watches exd_state)) (ds_pending exd_state) = map DeltaMessage rs"
    "rmap response_GetDeltaDiscoveryResponse rs = Inr (map Some ds)"
    "ds_sent s' = ds_sent exd_state @ delta_numbered (ds_streamNonce exd_state) ds" by blast
  with c f step show ?thesis by (auto simp: inj_map_eq_map [OF inj] exd_response_def)
qed

end
