(* ===== verification/Mux_Properties.thy ===== *)
theory Mux_Properties
  imports Sotw_Stream
begin

text \<open>
  The multiplexing cache (\<open>src/pkg/cache/v3/mux.go\<close>) is transparent: a stream whose requests all go to one of
  its caches behaves as a stream on that cache alone, and leaves the other caches as they are.
\<close>

section \<open>Definitions\<close>

text \<open>The state of a stream on a multiplexing cache, seen by the cache of one key.\<close>

definition unmux_watch :: "(string \<times> 'k) sotw_watch \<Rightarrow> 'k sotw_watch" where
  "unmux_watch w =
     \<lparr>w_cancel = snd (w_cancel w), w_response = w_response w, w_sub = w_sub w, w_nonce = w_nonce w\<rparr>"

definition unmux_watches :: "(string \<times> 'k) sotw_watches \<Rightarrow> 'k sotw_watches" where
  "unmux_watches ws =
     \<lparr>ws_responders = map (\<lambda>(t, w). (t, unmux_watch w)) (ws_responders ws), ws_cases = ws_cases ws\<rparr>"

definition unmux_stream :: "(string \<times> 'k) streamWrapper \<Rightarrow> 'k streamWrapper" where
  "unmux_stream sw = \<lparr>sw_ID = sw_ID sw, sw_nonce = sw_nonce sw, sw_watches = unmux_watches (sw_watches sw),
     sw_node = sw_node sw, sw_sent = sw_sent sw\<rparr>"

definition unmux ::
  "string \<Rightarrow> ('c mux_state, string \<times> 'k, 'u) sotw_state \<Rightarrow> ('c, 'k, 'u) sotw_state" where
  "unmux key s = \<lparr>ss_cache = ss_cache s key, ss_callbacks = ss_callbacks s, ss_streamCount = ss_streamCount s,
     ss_chans = ss_chans s, ss_pending = ss_pending s, ss_stream = unmux_stream (ss_stream s)\<rparr>"

text \<open>The watches of the stream are in the cache of the key, and the other caches are as in \<open>st\<close>.\<close>

definition on_key :: "string \<Rightarrow> 'c mux_state \<Rightarrow> ('c mux_state, string \<times> 'k, 'u) sotw_state \<Rightarrow> bool" where
  "on_key key st s \<longleftrightarrow>
     (\<forall>w\<in>snd ` set (ws_responders (sw_watches (ss_stream s))). fst (w_cancel w) = key) \<and>
     (\<forall>k. k \<noteq> key \<longrightarrow> ss_cache s k = st k)"

text \<open>The subscription of a request that replaces a watch: of the watch that is registered after the flush.\<close>

definition ads_sub :: "'k sotw_watch \<Rightarrow> 'k sotw_watch option \<Rightarrow> DiscoveryRequest \<Rightarrow> Subscription" where
  "ads_sub w w' q = SetResourceSubscription (w_sub (case w' of None \<Rightarrow> w | Some w' \<Rightarrow> w')) (req_ResourceNames q)"

section \<open>Lemmas\<close>

lemma unmux_updates [simp]:
  "unmux key (s\<lparr>ss_cache := c\<rparr>) = (unmux key s)\<lparr>ss_cache := c key\<rparr>"
  "unmux key (s\<lparr>ss_callbacks := u\<rparr>) = (unmux key s)\<lparr>ss_callbacks := u\<rparr>"
  "unmux key (s\<lparr>ss_streamCount := n\<rparr>) = (unmux key s)\<lparr>ss_streamCount := n\<rparr>"
  "unmux key (s\<lparr>ss_chans := ch\<rparr>) = (unmux key s)\<lparr>ss_chans := ch\<rparr>"
  "unmux key (s\<lparr>ss_pending := p\<rparr>) = (unmux key s)\<lparr>ss_pending := p\<rparr>"
  "unmux key (s\<lparr>ss_stream := sw\<rparr>) = (unmux key s)\<lparr>ss_stream := unmux_stream sw\<rparr>"
  by (simp_all add: unmux_def)

lemma unmux_selectors [simp]:
  "ss_cache (unmux key s) = ss_cache s key" "ss_callbacks (unmux key s) = ss_callbacks s"
  "ss_streamCount (unmux key s) = ss_streamCount s" "ss_chans (unmux key s) = ss_chans s"
  "ss_pending (unmux key s) = ss_pending s" "ss_stream (unmux key s) = unmux_stream (ss_stream s)"
  by (simp_all add: unmux_def)

lemma unmux_stream_simps [simp]:
  "unmux_stream (sw\<lparr>sw_nonce := n\<rparr>) = (unmux_stream sw)\<lparr>sw_nonce := n\<rparr>"
  "unmux_stream (sw\<lparr>sw_node := nd\<rparr>) = (unmux_stream sw)\<lparr>sw_node := nd\<rparr>"
  "unmux_stream (sw\<lparr>sw_sent := l\<rparr>) = (unmux_stream sw)\<lparr>sw_sent := l\<rparr>"
  "unmux_stream (sw\<lparr>sw_watches := ws\<rparr>) = (unmux_stream sw)\<lparr>sw_watches := unmux_watches ws\<rparr>"
  "sw_ID (unmux_stream sw) = sw_ID sw" "sw_nonce (unmux_stream sw) = sw_nonce sw"
  "sw_node (unmux_stream sw) = sw_node sw" "sw_sent (unmux_stream sw) = sw_sent sw"
  "sw_watches (unmux_stream sw) = unmux_watches (sw_watches sw)"
  by (simp_all add: unmux_stream_def)

lemma unmux_watch_simps [simp]:
  "w_sub (unmux_watch w) = w_sub w" "w_nonce (unmux_watch w) = w_nonce w" "w_response (unmux_watch w) = w_response w"
  "w_cancel (unmux_watch w) = snd (w_cancel w)"
  "unmux_watch (w\<lparr>w_sub := sub, w_nonce := n\<rparr>) = (unmux_watch w)\<lparr>w_sub := sub, w_nonce := n\<rparr>"
  by (simp_all add: unmux_watch_def)

lemma staleNonce_unmux [simp]: "staleNonce q (unmux_watch w) = staleNonce q w"
  by (simp add: staleNonce_def)

lemma map_update:
  "map (\<lambda>(t, w). (t, f w)) (AList.update t w al) = AList.update t (f w) (map (\<lambda>(t, w). (t, f w)) al)"
  by (induction al) auto

lemma map_of_map_snd: "map_of (map (\<lambda>(t, w). (t, f w)) al) t = map_option f (map_of al t)"
  by (induction al) auto

lemma responder_unmux [simp]: "responder (unmux key s) t = map_option unmux_watch (responder s t)"
  by (simp add: responder_def unmux_watches_def map_of_map_snd)

lemma unmux_addWatch [simp]:
  "unmux key (set_watches (addWatch t w) s) = set_watches (addWatch t (unmux_watch w)) (unmux key s)"
  by (simp add: set_watches_def addWatch_def unmux_watches_def map_update)

lemma unmux_recompute [simp]: "unmux key (set_watches recompute s) = set_watches recompute (unmux key s)"
  by (simp add: set_watches_def recompute_def unmux_watches_def comp_def split_beta)

lemma ws_cases_unmux [simp]: "ws_cases (unmux_watches ws) = ws_cases ws"
  by (simp add: unmux_watches_def)

lemma update_values: "x \<in> snd ` set (AList.update t w al) \<Longrightarrow> x = w \<or> x \<in> snd ` set al"
  by (induction al) (auto split: if_splits)

lemma on_key_frames [simp]:
  "on_key key st (s\<lparr>ss_callbacks := u\<rparr>) = on_key key st s" "on_key key st (s\<lparr>ss_chans := ch\<rparr>) = on_key key st s"
  "on_key key st (s\<lparr>ss_pending := p\<rparr>) = on_key key st s"
  "on_key key st (s\<lparr>ss_stream := (ss_stream s)\<lparr>sw_node := nd\<rparr>\<rparr>) = on_key key st s"
  "on_key key st (s\<lparr>ss_stream := (ss_stream s)\<lparr>sw_nonce := n, sw_sent := l\<rparr>\<rparr>) = on_key key st s"
  "on_key key st (set_watches recompute s) = on_key key st s"
  "on_key key st (s\<lparr>ss_cache := (ss_cache s)(key := c)\<rparr>) = on_key key st s"
  by (simp_all add: on_key_def set_watches_def recompute_def)

lemma on_key_addWatch:
  "on_key key st s \<Longrightarrow> fst (w_cancel w) = key \<Longrightarrow> on_key key st (set_watches (addWatch t w) s)"
  using update_values unfolding on_key_def set_watches_def addWatch_def by fastforce

lemma on_key_responder: "on_key key st s \<Longrightarrow> responder s t = Some w \<Longrightarrow> fst (w_cancel w) = key"
  unfolding on_key_def responder_def by (force dest: map_of_SomeD)

subsection \<open>Simulation\<close>

text \<open>The two servers.\<close>

definition mux_server ::
  "('c, 'k) MuxCache \<Rightarrow> 'u sotw_Callbacks option \<Rightarrow> Opts \<Rightarrow> ('c mux_state, string \<times> 'k, 'u) sotw_server" where
  "mux_server mux cb opts = \<lparr>srv_cache = mux_cache mux, srv_callbacks = cb, srv_opts = opts\<rparr>"

definition single_server ::
  "('c, 'k) Cache \<Rightarrow> 'u sotw_Callbacks option \<Rightarrow> Opts \<Rightarrow> ('c, 'k, 'u) sotw_server" where
  "single_server cache cb opts = \<lparr>srv_cache = cache, srv_callbacks = cb, srv_opts = opts\<rparr>"

lemma server_simps [simp]:
  "srv_cache (mux_server mux cb opts) = mux_cache mux" "srv_callbacks (mux_server mux cb opts) = cb"
  "srv_opts (mux_server mux cb opts) = opts" "srv_cache (single_server cache cb opts) = cache"
  "srv_callbacks (single_server cache cb opts) = cb" "srv_opts (single_server cache cb opts) = opts"
  by (simp_all add: mux_server_def single_server_def)

lemma mux_send:
  assumes "on_key key st s" and "sotw_send (mux_server mux cb opts) env r s = (s', e)"
  shows "sotw_send (single_server cache cb opts) env r (unmux key s) = (unmux key s', e) \<and> on_key key st s'"
proof (cases "\<exists>res req w out. r = Some res \<and> GetRequest res = Some req \<and> responder s (req_TypeUrl req) = Some w \<and>
    responseMatchesCurrentSubscription res (w_sub w) \<and> response_GetDiscoveryResponse (env_marshal env) res = Inr (Some out)")
  case True
  then obtain res req w out where R: "r = Some res" "GetRequest res = Some req" "responder s (req_TypeUrl req) = Some w"
    "responseMatchesCurrentSubscription res (w_sub w)" "response_GetDiscoveryResponse (env_marshal env) res = Inr (Some out)"
    by blast
  define n where "n = FormatInt (sw_nonce (ss_stream s) + 1)"
  define w' where "w' = w\<lparr>w_sub := SetReturnedResources (w_sub w) (GetReturnedResources res), w_nonce := n\<rparr>"
  define s1 where "s1 = set_watches (addWatch (req_TypeUrl req) w') s"
  have 1: "on_key key st s1"
    unfolding s1_def by (rule on_key_addWatch [OF assms(1)]) (simp add: w'_def on_key_responder [OF assms(1) R(3)])
  have u: "set_watches (addWatch (req_TypeUrl req) ((unmux_watch w)\<lparr>w_sub := SetReturnedResources (w_sub w)
      (GetReturnedResources res), w_nonce := n\<rparr>)) (unmux key s) = unmux key s1"
    by (simp add: s1_def w'_def)
  have 2: "on_key key st (s1\<lparr>ss_callbacks := x, ss_stream := (ss_stream s1)\<lparr>sw_nonce := y, sw_sent := z\<rparr>\<rparr>)" for x y z
    using 1 by (simp add: on_key_def)
  show ?thesis
    using assms(2) R 1 2
    by (cases cb) (auto simp: sotw_send_def Let_def n_def [symmetric] w'_def [symmetric] s1_def [symmetric] u)
next
  case False
  then have "s' = s" using assms(2)
    by (auto simp: sotw_send_def Let_def split: option.splits if_splits sum.splits)
  with False assms show ?thesis
    by (auto simp: sotw_send_def Let_def split: option.splits if_splits sum.splits)
qed

lemma mux_cancel_key:
  assumes "map_of (mux_Caches mux) key = Some cache" and "fst k = key"
  shows "cw_cancel (mux_cache mux) k st = st(key := cw_cancel cache (snd k) (st key))"
  using assms by (simp add: mux_cache_def mux_cancel_def)

lemma mux_reassignNode:
  assumes "on_key key st s" and "reassignNode req s = (req', s')"
  shows "reassignNode req (unmux key s) = (req', unmux key s') \<and> on_key key st s'"
  using assms by (auto simp: reassignNode_def split: option.splits)

lemma mux_onStreamRequest:
  assumes "on_key key st s" and "onStreamRequest (mux_server mux cb opts) req s = (s', e)"
  shows "onStreamRequest (single_server cache cb opts) req (unmux key s) = (unmux key s', e) \<and> on_key key st s'"
  using assms by (auto simp: onStreamRequest_def split: option.splits prod.splits)

lemma mux_openWatch:
  assumes "on_key key st s" and mux: "map_of (mux_Caches mux) key = Some cache" "mux_Classify mux req = key"
    and "openWatch (mux_server mux cb opts) req sub ch s = (s', e)"
  shows "openWatch (single_server cache cb opts) req sub ch (unmux key s) = (unmux key s', e) \<and> on_key key st s'"
proof -
  obtain c out r where create: "cw_CreateWatch cache req sub ch (ss_cache s key) = (c, out, r)"
    using prod_cases3 by blast
  define s1 where "s1 = s\<lparr>ss_cache := (ss_cache s)(key := c), ss_pending := ss_pending s @ out\<rparr>"
  have 1: "on_key key st s1" using assms(1) by (simp add: s1_def on_key_def)
  have u: "(unmux key s)\<lparr>ss_cache := c, ss_pending := ss_pending s @ out\<rparr> = unmux key s1" by (simp add: s1_def)
  show ?thesis
  proof (cases r)
    case (Inl e')
    with assms(4) mux create 1 u show ?thesis
      by (auto simp: openWatch_def mux_cache_def mux_CreateWatch_def Let_def s1_def [symmetric])
  next
    case (Inr k)
    let ?w = "\<lparr>w_cancel = (key, k), w_response = ch, w_sub = sub, w_nonce = ''''\<rparr>"
    have "s' = set_watches (addWatch (req_TypeUrl req) ?w) s1" "e = None"
      using assms(4) mux create Inr
      by (auto simp: openWatch_def mux_cache_def mux_CreateWatch_def Let_def s1_def)
    moreover have "unmux_watch ?w = \<lparr>w_cancel = k, w_response = ch, w_sub = sub, w_nonce = ''''\<rparr>"
      by (simp add: unmux_watch_def)
    ultimately show ?thesis
      using create Inr u on_key_addWatch [OF 1, of ?w] by (simp add: openWatch_def unmux_watch_def Let_def)
  qed
qed

lemma mux_process_request:
  assumes key: "on_key key st s" and mux: "map_of (mux_Caches mux) key = Some cache"
    and ours: "\<And>q. req_TypeUrl q = (if req_TypeUrl req = '''' then t else req_TypeUrl req) \<Longrightarrow> mux_Classify mux q = key"
    and step: "process_request (mux_server mux cb opts) t req s = (s', r)"
  shows "process_request (single_server cache cb opts) t req (unmux key s) = (unmux key s', r) \<and> on_key key st s'"
proof -
  obtain req1 s1 where r1: "reassignNode req s = (req1, s1)" by (cases "reassignNode req s")
  note r1' = mux_reassignNode [OF key r1]
  have q1: "req_TypeUrl req1 = req_TypeUrl req" using reassignNode_frame [OF r1] by simp
  define q where "q = (if req_TypeUrl req1 = '''' then req1\<lparr>req_TypeUrl := t\<rparr> else req1)"
  obtain s2 e2 where o2: "onStreamRequest (mux_server mux cb opts) q s1 = (s2, e2)"
    by (cases "onStreamRequest (mux_server mux cb opts) q s1")
  note o2' = mux_onStreamRequest [OF conjunct2 [OF r1'] o2, where cache = cache]
  show ?thesis
  proof (cases "t = AnyType \<and> req_TypeUrl req1 = '''' \<or> e2 \<noteq> None")
    case True
    with step r1' o2' show ?thesis
      unfolding process_request_def r1 conjunct1 [OF r1'] prod.case Let_def q_def [symmetric] o2 conjunct1 [OF o2']
      by (auto split: option.splits)
  next
    case False
    let ?U = "req_TypeUrl q"
    define close where "close = (\<lambda>w :: (string \<times> 'b) sotw_watch.
      s2\<lparr>ss_cache := (ss_cache s2)(key := cw_cancel cache (snd (w_cancel w)) (ss_cache s2 key))\<rparr>)"
    define p where "p = (case responder s2 ?U of
        Some w \<Rightarrow> (close w, SetResourceSubscription (w_sub w) (req_ResourceNames q))
      | None \<Rightarrow> (s2, NewSotwSubscription (req_ResourceNames q) (IsLegacyWildcardActive opts ?U)))"
    have close: "s2\<lparr>ss_cache := watch_close (mux_cache mux) w (ss_cache s2)\<rparr> = close w"
      if "responder s2 ?U = Some w" for w
      using mux_cancel_key [OF mux on_key_responder [OF conjunct2 [OF o2'] that]]
      by (simp add: watch_close_def close_def)
    have p: "on_key key st (fst p)" using o2' by (auto simp: p_def close_def split: option.splits)
    obtain s3 e3 where o3: "openWatch (mux_server mux cb opts) q (snd p) (ss_chans (fst p))
        ((fst p)\<lparr>ss_chans := Suc (ss_chans (fst p))\<rparr>) = (s3, e3)"
      by (cases "openWatch (mux_server mux cb opts) q (snd p) (ss_chans (fst p)) ((fst p)\<lparr>ss_chans := Suc (ss_chans (fst p))\<rparr>)")
    have cl: "mux_Classify mux q = key" by (rule ours) (simp add: q_def q1)
    note o3' = mux_openWatch [OF _ mux cl o3, of st]
    have M: "process_request (mux_server mux cb opts) t req s =
        (if (case responder s2 ?U of None \<Rightarrow> False | Some w \<Rightarrow> staleNonce q w) then (s2, Continue)
         else case (s3, e3) of (s, Some e) \<Rightarrow> (s, Return (Some e)) | (s, None) \<Rightarrow> (set_watches recompute s, Continue))"
      using False o3 close unfolding process_request_def r1 prod.case Let_def q_def [symmetric] o2
      by (auto simp: p_def split: option.splits)
    have S: "process_request (single_server cache cb opts) t req (unmux key s) =
        (if (case responder s2 ?U of None \<Rightarrow> False | Some w \<Rightarrow> staleNonce q w) then (unmux key s2, Continue)
         else case (unmux key s3, e3) of (s, Some e) \<Rightarrow> (s, Return (Some e)) | (s, None) \<Rightarrow> (set_watches recompute s, Continue))"
      using False o3' p
      unfolding process_request_def conjunct1 [OF r1'] prod.case Let_def q_def [symmetric] conjunct1 [OF o2']
      by (auto simp: p_def close_def watch_close_def split: option.splits)
    from step S o3' p o2' show ?thesis unfolding M by (auto split: if_splits option.splits)
  qed
qed

lemma mux_process_response:
  assumes key: "on_key key st s" and step: "process_response (mux_server mux cb opts) env i s = (s', r)"
  shows "process_response (single_server cache cb opts) env i (unmux key s) = (unmux key s', r) \<and> on_key key st s'"
proof -
  have send: "sotw_send (single_server cache cb opts) env x ((unmux key s)\<lparr>ss_pending := p\<rparr>) = (unmux key s'', e) \<and>
      on_key key st s''"
    if "sotw_send (mux_server mux cb opts) env x (s\<lparr>ss_pending := p\<rparr>) = (s'', e)" for x p s'' e
    using mux_send [OF _ that, of key st cache] key by simp
  show ?thesis
    using step key unfolding process_response_def Let_def unmux_selectors unmux_stream_simps ws_cases_unmux
    by (auto split: if_splits select_case.splits option.splits prod.splits dest: send)
qed

lemma mux_process_step:
  assumes key: "on_key key st s" and mux: "map_of (mux_Caches mux) key = Some cache"
    and ours: "\<And>req q. e = SelectRequest (Some (Some req)) \<Longrightarrow>
      req_TypeUrl q = (if req_TypeUrl req = '''' then t else req_TypeUrl req) \<Longrightarrow> mux_Classify mux q = key"
    and step: "process_step (mux_server mux cb opts) env t e s = (s', r)"
  shows "process_step (single_server cache cb opts) env t e (unmux key s) = (unmux key s', r) \<and> on_key key st s'"
proof (cases "\<exists>req. e = SelectRequest (Some (Some req))")
  case True
  then obtain req where e: "e = SelectRequest (Some (Some req))" by blast
  show ?thesis
    using step mux_process_request [OF key mux, of req t cb opts s' r] ours [OF e] by (simp add: e)
next
  case False
  with step key mux_process_response [OF key, of mux cb opts env _ s' r cache] show ?thesis
    by (cases "(mux_server mux cb opts, env, t, e, s)" rule: process_step.cases) auto
qed

lemma mux_processAllExcept:
  assumes "on_key key st s" and "processAllExcept (mux_server mux cb opts) env ch t rs s = (s', e)"
  shows "processAllExcept (single_server cache cb opts) env ch t rs (unmux key s) = (unmux key s', e) \<and> on_key key st s'"
  using assms
proof (induction rs arbitrary: s)
  case (Cons x rs)
  let ?s = "s\<lparr>ss_pending := drop_first ch (ss_pending s)\<rparr>"
  have key: "on_key key st ?s" using Cons.prems(1) by simp
  show ?case
  proof (cases "\<exists>r. x = Some r \<and> req_getTypeUrl (GetRequest r) \<noteq> t")
    case True
    then obtain r where r: "x = Some r" "req_getTypeUrl (GetRequest r) \<noteq> t" by blast
    obtain s1 e1 where send: "sotw_send (mux_server mux cb opts) env x ?s = (s1, e1)"
      by (cases "sotw_send (mux_server mux cb opts) env x ?s")
    note send' = mux_send [OF key send, where cache = cache]
    show ?thesis
      using Cons.prems(2) Cons.IH [OF conjunct2 [OF send']] send send' r by (cases e1) (auto simp: Let_def)
  next
    case False
    with Cons.prems(2) Cons.IH [OF key] key show ?thesis by (cases x) (auto simp: Let_def)
  qed
qed simp

text \<open>A request of the ordered loop that replaces a watch, on any server.\<close>

lemma processADS_request_replace:
  assumes "reassignNode req s = (q, s1)" and "onStreamRequest srv q s1 = (s2, None)" and "req_TypeUrl q \<noteq> ''''"
    and "responder s2 (req_TypeUrl q) = Some w" and "\<not> staleNonce q w"
    and "processAllExcept srv env ch (req_TypeUrl q) (channel_contents ch (ss_pending s2))
      (s2\<lparr>ss_cache := watch_close (srv_cache srv) w (ss_cache s2)\<rparr>) = (s3, e3)"
    and "openWatch srv q (ads_sub w (responder s3 (req_TypeUrl q)) q) ch s3 = (s4, e4)"
  shows "processADS_request srv env ch req s =
    (case e3 of Some e \<Rightarrow> (s3, Return (Some e))
     | None \<Rightarrow> (case e4 of Some e \<Rightarrow> (s4, Return (Some e)) | None \<Rightarrow> (s4, Continue)))"
  using assms unfolding processADS_request_def
  by (cases e3; cases e4) (auto simp: ads_sub_def split: option.splits)

lemma mux_ADS_request:
  assumes key: "on_key key st s" and mux: "map_of (mux_Caches mux) key = Some cache"
    and ours: "\<And>q. req_TypeUrl q = req_TypeUrl req \<Longrightarrow> mux_Classify mux q = key"
    and step: "processADS_request (mux_server mux cb opts) env ch req s = (s', r)"
  shows "processADS_request (single_server cache cb opts) env ch req (unmux key s) = (unmux key s', r) \<and> on_key key st s'"
proof -
  let ?mux = "mux_server mux cb opts" and ?single = "single_server cache cb opts"
  obtain q s1 where r1: "reassignNode req s = (q, s1)" by (cases "reassignNode req s")
  note r1' = mux_reassignNode [OF key r1]
  have "req_TypeUrl q = req_TypeUrl req" using reassignNode_frame [OF r1] by simp
  then have cl: "mux_Classify mux q = key" by (rule ours)
  let ?U = "req_TypeUrl q"
  obtain s2 e2 where o2: "onStreamRequest ?mux q s1 = (s2, e2)" by (cases "onStreamRequest ?mux q s1")
  note o2' = mux_onStreamRequest [OF conjunct2 [OF r1'] o2, where cache = cache]
  have open': "openWatch ?single q sub ch (unmux key s3) = (unmux key s4, e4) \<and> on_key key st s4"
    if "openWatch ?mux q sub ch s3 = (s4, e4)" "on_key key st s3" for sub s3 s4 e4
    by (rule mux_openWatch [OF that(2) mux cl that(1)])
  consider (skip) "?U = '''' \<or> e2 \<noteq> None \<or> (case responder s2 ?U of None \<Rightarrow> False | Some w \<Rightarrow> staleNonce q w)"
    | (new) "?U \<noteq> ''''" "e2 = None" "responder s2 ?U = None"
    | (replace) w where "?U \<noteq> ''''" "e2 = None" "responder s2 ?U = Some w" "\<not> staleNonce q w"
    by (cases "responder s2 ?U") auto
  then show ?thesis
  proof cases
    case skip
    with step r1' o2' show ?thesis
      unfolding processADS_request_def r1 conjunct1 [OF r1'] prod.case Let_def o2 conjunct1 [OF o2']
      by (auto split: option.splits)
  next
    case new
    let ?sub = "NewSotwSubscription (req_ResourceNames q) (IsLegacyWildcardActive opts ?U)"
    obtain s4 e4 where o4: "openWatch ?mux q ?sub ch s2 = (s4, e4)" by (cases "openWatch ?mux q ?sub ch s2")
    from step new o4 open' [OF o4 conjunct2 [OF o2']] show ?thesis
      unfolding processADS_request_def r1 conjunct1 [OF r1'] prod.case Let_def o2 conjunct1 [OF o2']
      by (cases e4) auto
  next
    case replace
    let ?rs = "channel_contents ch (ss_pending s2)"
    define closed where "closed = s2\<lparr>ss_cache := watch_close (mux_cache mux) w (ss_cache s2)\<rparr>"
    have c: "closed = s2\<lparr>ss_cache := (ss_cache s2)(key := cw_cancel cache (snd (w_cancel w)) (ss_cache s2 key))\<rparr>"
      using mux_cancel_key [OF mux on_key_responder [OF conjunct2 [OF o2'] replace(3)]]
      by (simp add: watch_close_def closed_def)
    have ok: "on_key key st closed" using o2' by (simp add: c)
    obtain s3 e3 where a3: "processAllExcept ?mux env ch ?U ?rs closed = (s3, e3)"
      by (cases "processAllExcept ?mux env ch ?U ?rs closed")
    note a3' = mux_processAllExcept [OF ok a3]
    let ?sub = "ads_sub w (responder s3 ?U) q"
    obtain s4 e4 where o4: "openWatch ?mux q ?sub ch s3 = (s4, e4)" by (cases "openWatch ?mux q ?sub ch s3")
    note o4' = open' [OF o4 conjunct2 [OF a3']]
    have M: "processADS_request ?mux env ch req s =
        (case e3 of Some e \<Rightarrow> (s3, Return (Some e))
         | None \<Rightarrow> (case e4 of Some e \<Rightarrow> (s4, Return (Some e)) | None \<Rightarrow> (s4, Continue)))"
      by (rule processADS_request_replace [OF r1 _ replace(1,3,4)])
        (use o2 replace(2) a3 o4 in \<open>simp_all add: closed_def\<close>)
    have sub: "ads_sub (unmux_watch w) (map_option unmux_watch (responder s3 ?U)) q = ?sub"
      by (simp add: ads_sub_def split: option.splits)
    have S: "processADS_request ?single env ch req (unmux key s) =
        (case e3 of Some e \<Rightarrow> (unmux key s3, Return (Some e))
         | None \<Rightarrow> (case e4 of Some e \<Rightarrow> (unmux key s4, Return (Some e)) | None \<Rightarrow> (unmux key s4, Continue)))"
      by (rule processADS_request_replace [OF conjunct1 [OF r1'], where ?s2.0 = "unmux key s2" and ?s3.0 = "unmux key s3"
          and w = "unmux_watch w"])
        (use o2' replace a3' o4' in \<open>simp_all add: c sub watch_close_def\<close>)
    from step S a3' o4' show ?thesis unfolding M by (auto split: option.splits)
  qed
qed

lemma mux_ADS_step:
  assumes key: "on_key key st s" and mux: "map_of (mux_Caches mux) key = Some cache"
    and ours: "\<And>req q. e = SelectRequest (Some (Some req)) \<Longrightarrow> req_TypeUrl q = req_TypeUrl req \<Longrightarrow> mux_Classify mux q = key"
    and step: "processADS_step (mux_server mux cb opts) env ch e s = (s', r)"
  shows "processADS_step (single_server cache cb opts) env ch e (unmux key s) = (unmux key s', r) \<and> on_key key st s'"
proof -
  have send: "sotw_send (single_server cache cb opts) env x ((unmux key s)\<lparr>ss_pending := p\<rparr>) = (unmux key s'', e) \<and>
      on_key key st s''"
    if "sotw_send (mux_server mux cb opts) env x (s\<lparr>ss_pending := p\<rparr>) = (s'', e)" for x p s'' e
    using mux_send [OF _ that, of key st cache] key by simp
  show ?thesis
  proof (cases e)
    case (SelectResponse i)
    show ?thesis
    proof (cases "receive ch (ss_pending s)")
      case None
      with step key SelectResponse show ?thesis by simp
    next
      case (Some m)
      obtain x p where m: "m = (x, p)" by (cases m)
      obtain s1 e1 where s1: "sotw_send (mux_server mux cb opts) env x (s\<lparr>ss_pending := p\<rparr>) = (s1, e1)"
        by (cases "sotw_send (mux_server mux cb opts) env x (s\<lparr>ss_pending := p\<rparr>)")
      from step SelectResponse Some m s1 send [OF s1] show ?thesis by (cases e1) auto
    qed
  next
    case (SelectRequest x)
    show ?thesis
    proof (cases "\<exists>req. x = Some (Some req)")
      case True
      then obtain req where req: "x = Some (Some req)" by blast
      with step mux_ADS_request [OF key mux, of req cb opts env ch s' r] ours SelectRequest show ?thesis by simp
    next
      case False
      with step key SelectRequest show ?thesis by (cases x; cases "the x") auto
    qed
  qed (use step key in simp)
qed

lemma mux_select_loop:
  assumes "on_key key st s" and "select_loop f es s = (s', r)"
    and step: "\<And>e s s1 x. e \<in> set es \<Longrightarrow> on_key key st s \<Longrightarrow> f e s = (s1, x) \<Longrightarrow> g e (unmux key s) = (unmux key s1, x) \<and> on_key key st s1"
  shows "select_loop g es (unmux key s) = (unmux key s', r) \<and> on_key key st s'"
  using assms
proof (induction es arbitrary: s)
  case (Cons e es)
  obtain s1 x where f: "f e s = (s1, x)" by (cases "f e s")
  have g: "g e (unmux key s) = (unmux key s1, x)" "on_key key st s1" using Cons.prems(3) [OF _ Cons.prems(1) f] by auto
  have "select_loop g es (unmux key s1) = (unmux key s', r) \<and> on_key key st s'" if "select_loop f es s1 = (s', r)"
    by (rule Cons.IH [OF g(2) that]) (use Cons.prems(3) in auto)
  with Cons.prems(1,2) f g show ?case by (cases x) auto
qed simp

lemma mux_fold_close:
  assumes "map_of (mux_Caches mux) key = Some cache" and "\<And>w. w \<in> snd ` set ws \<Longrightarrow> fst (w_cancel w) = key"
  shows "fold (\<lambda>(t, w) c. watch_close (mux_cache mux) w c) ws c =
    c(key := fold (\<lambda>(t, w) c. watch_close cache w c) (map (\<lambda>(t, w). (t, unmux_watch w)) ws) (c key))"
  using assms(2)
proof (induction ws arbitrary: c)
  case (Cons p ws)
  obtain t w where p: "p = (t, w)" by (cases p)
  have "fst (w_cancel w) = key" using Cons.prems p by auto
  then have close: "watch_close (mux_cache mux) w c = c(key := watch_close cache (unmux_watch w) (c key))"
    using mux_cancel_key [OF assms(1)] by (simp add: watch_close_def)
  have "fold (\<lambda>(t, w). watch_close (mux_cache mux) w) (p # ws) c =
      fold (\<lambda>(t, w). watch_close (mux_cache mux) w) ws (c(key := watch_close cache (unmux_watch w) (c key)))"
    by (simp only: p fold.simps comp_def split close)
  also have "\<dots> = (c(key := watch_close cache (unmux_watch w) (c key)))(key :=
      fold (\<lambda>(t, w). watch_close cache w) (map (\<lambda>(t, w). (t, unmux_watch w)) ws)
        ((c(key := watch_close cache (unmux_watch w) (c key))) key))"
    by (rule Cons.IH) (use Cons.prems in auto)
  finally show ?case by (simp only: p list.map fold.simps comp_def split fun_upd_upd fun_upd_same)
qed simp

lemma mux_shutdown:
  assumes key: "on_key key st s" and mux: "map_of (mux_Caches mux) key = Some cache"
  shows "shutdown (single_server cache cb opts) (unmux key s) = unmux key (shutdown (mux_server mux cb opts) s) \<and>
    (\<forall>k. k \<noteq> key \<longrightarrow> ss_cache (shutdown (mux_server mux cb opts) s) k = st k)"
proof -
  have "watches_close (mux_cache mux) (sw_watches (ss_stream s)) (ss_cache s) =
      (ss_cache s)(key := watches_close cache (unmux_watches (sw_watches (ss_stream s))) (ss_cache s key))"
    unfolding watches_close_def
    by (subst mux_fold_close [OF mux]) (use key in \<open>auto simp: on_key_def unmux_watches_def\<close>)
  with key show ?thesis by (cases cb) (auto simp: shutdown_def on_key_def Let_def)
qed

lemma mux_stream_open:
  assumes "stream_open (mux_server mux cb opts) env t s = (s', e)"
  shows "stream_open (single_server cache cb opts) env t (unmux key s) = (unmux key s', e) \<and> on_key key (ss_cache s) s'"
  using assms
  by (cases cb) (auto simp: stream_open_def Let_def on_key_def unmux_stream_def unmux_watches_def sotw_newWatches_def
      split: prod.splits)

text \<open>The two loops, after opening.\<close>

definition stream_loop ::
  "('c, 'k, 'u) sotw_server \<Rightarrow> stream_env \<Rightarrow> string \<Rightarrow> stream_event list \<Rightarrow> ('c, 'k, 'u) sotw_state \<Rightarrow>
     ('c, 'k, 'u) sotw_state \<times> error option option" where
  "stream_loop srv env t events s =
     (if t = AnyType \<and> opt_Ordered (srv_opts srv) then processADS srv env events s
      else select_loop (process_step srv env t) events (set_watches recompute s))"

lemma process_loop:
  "process srv env t events s =
     (case (case stream_open srv env t s of (s, Some e) \<Rightarrow> (s, Some (Some e)) | (s, None) \<Rightarrow> stream_loop srv env t events s)
      of (s, None) \<Rightarrow> (s, None) | (s, Some r) \<Rightarrow> (shutdown srv s, Some r))"
  unfolding process_def stream_loop_def ..

lemma mux_ADS_any_step:
  assumes key: "on_key key st s" and mux: "map_of (mux_Caches mux) key = Some cache"
    and ours: "\<And>req q. e = SelectRequest (Some (Some req)) \<Longrightarrow> req_TypeUrl q = req_TypeUrl req \<Longrightarrow>
      req_TypeUrl req \<noteq> '''' \<Longrightarrow> mux_Classify mux q = key"
    and step: "processADS_step (mux_server mux cb opts) env ch e s = (s', x)"
  shows "processADS_step (single_server cache cb opts) env ch e (unmux key s) = (unmux key s', x) \<and> on_key key st s'"
proof (cases "\<exists>req. e = SelectRequest (Some (Some req)) \<and> req_TypeUrl req = ''''")
  case True
  then obtain req where req: "e = SelectRequest (Some (Some req))" "req_TypeUrl req = ''''" by blast
  obtain q s5 where r5: "reassignNode req s = (q, s5)" by (cases "reassignNode req s")
  have "req_TypeUrl q = ''''" using reassignNode_frame [OF r5] req(2) by simp
  with step req mux_reassignNode [OF key r5] show ?thesis by (auto simp: processADS_request_def r5)
next
  case False
  then show ?thesis using mux_ADS_step [OF key mux _ step] ours by blast
qed

lemma mux_loop:
  assumes key: "on_key key st s" and mux: "map_of (mux_Caches mux) key = Some cache"
    and ours: "\<And>req q. SelectRequest (Some (Some req)) \<in> set events \<Longrightarrow>
      req_TypeUrl q = (if req_TypeUrl req = '''' then t else req_TypeUrl req) \<Longrightarrow> mux_Classify mux q = key"
    and run: "stream_loop (mux_server mux cb opts) env t events s = (s', r)"
  shows "stream_loop (single_server cache cb opts) env t events (unmux key s) = (unmux key s', r) \<and> on_key key st s'"
proof (cases "t = AnyType \<and> opt_Ordered opts")
  case True
  let ?M = "mux_server mux cb opts" and ?S = "single_server cache cb opts" and ?ch = "ss_chans s"
  have "select_loop (processADS_step ?S env ?ch) events (unmux key (s\<lparr>ss_chans := Suc ?ch\<rparr>)) = (unmux key s', r) \<and> on_key key st s'"
  proof (rule mux_select_loop)
    show "select_loop (processADS_step ?M env ?ch) events (s\<lparr>ss_chans := Suc ?ch\<rparr>) = (s', r)"
      using run True by (simp add: stream_loop_def processADS_def)
    fix e s3 s4 x
    assume e: "e \<in> set events" "on_key key st s3" "processADS_step ?M env ?ch e s3 = (s4, x)"
    show "processADS_step ?S env ?ch e (unmux key s3) = (unmux key s4, x) \<and> on_key key st s4"
      by (rule mux_ADS_any_step [OF e(2) mux _ e(3)]) (use ours e(1) in auto)
  qed (use key in simp)
  with True show ?thesis by (simp add: stream_loop_def processADS_def)
next
  case False
  let ?M = "mux_server mux cb opts" and ?S = "single_server cache cb opts"
  have "select_loop (process_step ?S env t) events (unmux key (set_watches recompute s)) = (unmux key s', r) \<and> on_key key st s'"
  proof (rule mux_select_loop)
    show "select_loop (process_step ?M env t) events (set_watches recompute s) = (s', r)"
      using run False by (auto simp: stream_loop_def)
    fix e s3 s4 x
    assume e: "e \<in> set events" "on_key key st s3" "process_step ?M env t e s3 = (s4, x)"
    show "process_step ?S env t e (unmux key s3) = (unmux key s4, x) \<and> on_key key st s4"
      by (rule mux_process_step [OF e(2) mux _ e(3)]) (use ours e(1) in blast)
  qed (use key in simp)
  with False show ?thesis by (auto simp: stream_loop_def)
qed

section \<open>The multiplexing cache is transparent\<close>

text \<open>C9: A stream on a multiplexing cache that classifies all requests of the types the stream asks for to one
  key, whatever the other fields of the requests, runs exactly like a stream on the cache of that key, from opening to shutdown, ordered or not: the same responses are sent,
  with the same nonces, the same callbacks are called, the same error ends it. The caches of the other
  keys are left as they are.\<close>

theorem mux_transparent:
  assumes mux: "map_of (mux_Caches mux) key = Some cache"
    and ours: "\<And>req q. SelectRequest (Some (Some req)) \<in> set events \<Longrightarrow>
      req_TypeUrl q = (if req_TypeUrl req = '''' then t else req_TypeUrl req) \<Longrightarrow> mux_Classify mux q = key"
    and run: "process (mux_server mux cb opts) env t events s = (s', r)"
  shows "process (single_server cache cb opts) env t events (unmux key s) = (unmux key s', r) \<and>
    (\<forall>k. k \<noteq> key \<longrightarrow> ss_cache s' k = ss_cache s k)"
proof -
  let ?M = "mux_server mux cb opts" and ?S = "single_server cache cb opts" and ?st = "ss_cache s"
  obtain s1 e1 where open1: "stream_open ?M env t s = (s1, e1)" by (cases "stream_open ?M env t s")
  have S1: "stream_open ?S env t (unmux key s) = (unmux key s1, e1)" "on_key key ?st s1"
    using mux_stream_open [OF open1, where cache = cache and key = key] by auto
  obtain s2 r2 where l: "stream_loop ?M env t events s1 = (s2, r2)" by (cases "stream_loop ?M env t events s1")
  have S2: "stream_loop ?S env t events (unmux key s1) = (unmux key s2, r2)" "on_key key ?st s2"
    using mux_loop [OF S1(2) mux ours l] by auto
  note down = mux_shutdown [OF _ mux, where st = ?st and cb = cb and opts = opts]
  show ?thesis
    using run down [OF S1(2)] down [OF S2(2)] S2 l
    unfolding process_loop open1 S1(1) by (cases e1) (auto simp: on_key_def split: option.splits)
qed

subsection \<open>A concrete multiplexed stream\<close>

definition ext_mux :: "(LinearCache, cancel) MuxCache" where
  "ext_mux = \<lparr>mux_Classify = (\<lambda>req. ''k''), mux_ClassifyDelta = (\<lambda>req. ''l''),
     mux_Caches = [(''k'', linear_cache), (''l'', linear_cache)]\<rparr>"

definition ext_mux_server :: "(LinearCache mux_state, string \<times> cancel, unit) sotw_server" where
  "ext_mux_server = mux_server ext_mux None (applyOpts [] NewOpts)"

definition ext_mux_state :: "(LinearCache mux_state, string \<times> cancel, unit) sotw_state" where
  "ext_mux_state = \<lparr>ss_cache = (\<lambda>k. ext_cache), ss_callbacks = (), ss_streamCount = 0, ss_chans = 0, ss_pending = [],
     ss_stream = \<lparr>sw_ID = 0, sw_nonce = 0, sw_watches = sotw_newWatches, sw_node = None, sw_sent = []\<rparr>\<rparr>"

lemma ext_unmux: "unmux k ext_mux_state = ext_state" "single_server linear_cache None (applyOpts [] NewOpts) = ext_server"
  by (simp_all add: ext_mux_state_def ext_state_def ext_server_def unmux_def unmux_stream_def unmux_watches_def
      sotw_newWatches_def sotw_NewServer_def single_server_def)

theorem mux_transparent_witness:
  "sw_sent (ss_stream (fst (process ext_mux_server ext_env ''T'' ext_events ext_mux_state))) = [ext_sent] \<and>
   ss_cache (fst (process ext_mux_server ext_env ''T'' ext_events ext_mux_state)) ''l'' = ext_cache"
proof -
  obtain s r where run: "process ext_mux_server ext_env ''T'' ext_events ext_mux_state = (s, r)" by force
  have "process ext_server ext_env ''T'' ext_events ext_state = (unmux ''k'' s, r) \<and>
      (\<forall>k. k \<noteq> ''k'' \<longrightarrow> ss_cache s k = ss_cache ext_mux_state k)"
    by (rule mux_transparent [where mux = ext_mux and cache = linear_cache and key = "''k''" and cb = None and
          opts = "applyOpts [] NewOpts" and s = ext_mux_state, unfolded ext_unmux])
      (use run in \<open>simp_all add: ext_mux_def ext_mux_server_def\<close>)
  with ext_run run show ?thesis by (auto simp: ext_mux_state_def)
qed

end
