(* ===== verification/Ads_Client.thy ===== *)
theory Ads_Client
  imports Responses
begin

text \<open>
  The aggregated state-of-the-world client, \<open>src/pkg/client/sotw/v3/client.go\<close>. The gRPC stream is
  represented by what the client sends on it; the results of opening the stream, of \<open>Send\<close> and of \<open>Recv\<close>
  are arguments of the operations. \<open>status.FromError\<close> of gRPC is the parameter \<open>fromError\<close>. The mutex makes
  each method one step.
\<close>

section \<open>Definitions\<close>

record client_stream =
  cs_sent :: "DiscoveryRequest list"

record adsClient =
  ac_node :: "Node option"
  ac_typeURL :: string
  ac_streamClient :: "client_stream option"
  ac_lastAckedResponse :: "DiscoveryResponse option"
  ac_lastReceivedResponse :: "DiscoveryResponse option"

definition NewADSClient :: "Node option \<Rightarrow> string \<Rightarrow> adsClient" where
  "NewADSClient node typeURL =
     \<lparr>ac_node = node, ac_typeURL = typeURL, ac_streamClient = None, ac_lastAckedResponse = None,
      ac_lastReceivedResponse = None\<rparr>"

text \<open>The getters of a possibly nil response.\<close>

definition GetVersionInfo :: "DiscoveryResponse option \<Rightarrow> string" where
  "GetVersionInfo r = (case r of None \<Rightarrow> '''' | Some d \<Rightarrow> resp_VersionInfo d)"

definition GetNonce :: "DiscoveryResponse option \<Rightarrow> string" where
  "GetNonce r = (case r of None \<Rightarrow> '''' | Some d \<Rightarrow> resp_Nonce d)"

definition client_send ::
  "(DiscoveryRequest \<Rightarrow> error option) \<Rightarrow> string option \<Rightarrow> adsClient \<Rightarrow> adsClient \<times> error option" where
  "client_send Send errorDetail c =
     (case ac_streamClient c of
        None \<Rightarrow> (c, Some ErrInit)
      | Some stream \<Rightarrow>
          (let req = \<lparr>req_VersionInfo = GetVersionInfo (ac_lastAckedResponse c), req_Node = ac_node c,
                      req_ResourceNames = [], req_TypeUrl = ac_typeURL c,
                      req_ResponseNonce = GetNonce (ac_lastReceivedResponse c),
                      req_ErrorDetail = errorDetail\<rparr>
           in (c\<lparr>ac_streamClient := Some (stream\<lparr>cs_sent := cs_sent stream @ [req]\<rparr>)\<rparr>, Send req)))"

definition Ack :: "(DiscoveryRequest \<Rightarrow> error option) \<Rightarrow> adsClient \<Rightarrow> adsClient \<times> error option" where
  "Ack Send c = client_send Send None (c\<lparr>ac_lastAckedResponse := ac_lastReceivedResponse c\<rparr>)"

definition Nack ::
  "(DiscoveryRequest \<Rightarrow> error option) \<Rightarrow> string \<Rightarrow> adsClient \<Rightarrow> adsClient \<times> error option" where
  "Nack Send message c = client_send Send (Some message) c"

definition InitConnect ::
  "client_stream result \<Rightarrow> (DiscoveryRequest \<Rightarrow> error option) \<Rightarrow> adsClient \<Rightarrow> adsClient \<times> error option"
where
  "InitConnect opened Send c =
     (case opened of
        Inl e \<Rightarrow> (c, Some e)
      | Inr streamClient \<Rightarrow> Ack Send (c\<lparr>ac_streamClient := Some streamClient\<rparr>))"

text \<open>\<open>Fetch\<close>, with the result of \<open>Recv\<close>; it returns the resources of the response.\<close>

definition client_Fetch ::
  "DiscoveryResponse option result \<Rightarrow> adsClient \<Rightarrow> adsClient \<times> any list result" where
  "client_Fetch received c =
     (case ac_streamClient c of
        None \<Rightarrow> (c, Inl ErrInit)
      | Some stream \<Rightarrow>
          (case received of
             Inl e \<Rightarrow> (c, Inl e)
           | Inr None \<Rightarrow> (c, Inl ErrNilResp)
           | Inr (Some resp) \<Rightarrow>
               (c\<lparr>ac_lastReceivedResponse := Some resp\<rparr>, Inr (resp_Resources resp))))"

definition IsConnError :: "(error \<Rightarrow> grpc_code option) \<Rightarrow> error option \<Rightarrow> bool" where
  "IsConnError fromError err =
     (case err of
        None \<Rightarrow> False
      | Some e \<Rightarrow>
          if unwrapped e = EOF then True
          else (case fromError e of
                  None \<Rightarrow> False
                | Some code \<Rightarrow> code = Unavailable \<or> code = CanceledCode))"

end
