(* ===== verification/Client_Protocol.thy ===== *)
theory Client_Protocol
  imports Ads_Client Sotw_Stream
begin

text \<open>
  The client of \<open>src/pkg/client/sotw/v3\<close> against the state-of-the-world server: which of its requests the server
  takes as an answer to its last response, and what the client says about a response it rejected.
\<close>

section \<open>Definitions\<close>

text \<open>The last request on the stream of a client.\<close>

definition last_request :: "adsClient \<Rightarrow> DiscoveryRequest" where
  "last_request c = last (cs_sent (the (ac_streamClient c)))"

section \<open>Lemmas\<close>

lemma client_send_request:
  assumes "ac_streamClient c \<noteq> None"
  shows "last_request (fst (client_send Send detail c)) =
    \<lparr>req_VersionInfo = GetVersionInfo (ac_lastAckedResponse c), req_Node = ac_node c, req_ResourceNames = [],
     req_TypeUrl = ac_typeURL c, req_ResponseNonce = GetNonce (ac_lastReceivedResponse c), req_ErrorDetail = detail\<rparr>"
  using assms by (auto simp: client_send_def last_request_def Let_def)

text \<open>A message the server sends carries the nonce the server then waits for.\<close>

lemma sotw_send_nonce:
  assumes send: "sotw_send srv env (Some r) s = (s', e)" and req: "GetRequest r = Some q"
    and out: "sw_sent (ss_stream s') = sw_sent (ss_stream s) @ [out]"
  shows "\<exists>w. responder s' (req_TypeUrl q) = Some w \<and> w_nonce w = resp_Nonce out \<and>
    resp_Nonce out = FormatInt (sw_nonce (ss_stream s) + 1) \<and> sw_nonce (ss_stream s') = sw_nonce (ss_stream s) + 1"
  using send
proof (cases rule: sotw_send_cases)
  case (sent r' req w d)
  have "req_TypeUrl req = req_TypeUrl q" using sent(1,2) req by simp
  then have "responder s' (req_TypeUrl q) = Some (w\<lparr>w_sub := SetReturnedResources (w_sub w) (GetReturnedResources r'),
      w_nonce := FormatInt (sw_nonce (ss_stream s) + 1)\<rparr>)"
    using responder_addWatch [OF sent(13), of "req_TypeUrl q"] by simp
  with sent out show ?thesis by simp
qed (use out in simp)

section \<open>Properties\<close>

text \<open>C21: When the client fetches a response the server has just sent, its acknowledgement and its rejection
  both answer it: the server does not take them for stale, the acknowledgement names the version of the
  response, the rejection the last version the client accepted, with the error. Once the server has
  sent another response of the type, the same requests are stale and are ignored.\<close>

theorem client_server_handshake:
  assumes send: "sotw_send srv env (Some r) s = (s', e)" and req: "GetRequest r = Some q"
    and out: "sw_sent (ss_stream s') = sw_sent (ss_stream s) @ [out]"
    and next_send: "sotw_send srv env (Some r2) s' = (s'', e')" and req2: "GetRequest r2 = Some q2" "req_TypeUrl q2 = req_TypeUrl q"
    and out2: "sw_sent (ss_stream s'') = sw_sent (ss_stream s') @ [out2]"
    and client: "ac_streamClient c \<noteq> None" "ac_typeURL c = req_TypeUrl q"
    and fetch: "client_Fetch (Inr (Some out)) c = (c', Inr res)"
  shows "\<exists>w w'. responder s' (req_TypeUrl q) = Some w \<and> responder s'' (req_TypeUrl q) = Some w' \<and>
    \<not> staleNonce (last_request (fst (Ack Send c'))) w \<and> staleNonce (last_request (fst (Ack Send c'))) w' \<and>
    \<not> staleNonce (last_request (fst (Nack Send msg c'))) w \<and> staleNonce (last_request (fst (Nack Send msg c'))) w' \<and>
    req_TypeUrl (last_request (fst (Ack Send c'))) = req_TypeUrl q \<and>
    req_TypeUrl (last_request (fst (Nack Send msg c'))) = req_TypeUrl q \<and>
    req_VersionInfo (last_request (fst (Ack Send c'))) = resp_VersionInfo out \<and>
    req_ErrorDetail (last_request (fst (Ack Send c'))) = None \<and>
    req_VersionInfo (last_request (fst (Nack Send msg c'))) = GetVersionInfo (ac_lastAckedResponse c) \<and>
    req_ErrorDetail (last_request (fst (Nack Send msg c'))) = Some msg"
proof -
  obtain w where w: "responder s' (req_TypeUrl q) = Some w" "w_nonce w = resp_Nonce out"
    "resp_Nonce out = FormatInt (sw_nonce (ss_stream s) + 1)" "sw_nonce (ss_stream s') = sw_nonce (ss_stream s) + 1"
    using sotw_send_nonce [OF send req out] by blast
  obtain w' where w': "responder s'' (req_TypeUrl q) = Some w'" "w_nonce w' = FormatInt (sw_nonce (ss_stream s) + 2)"
    using sotw_send_nonce [OF next_send req2(1) out2] req2(2) w(4) by auto
  have c': "c' = c\<lparr>ac_lastReceivedResponse := Some out\<rparr>"
    using fetch by (auto simp: client_Fetch_def split: option.splits)
  have ack: "last_request (fst (Ack Send c')) =
      \<lparr>req_VersionInfo = resp_VersionInfo out, req_Node = ac_node c, req_ResourceNames = [],
       req_TypeUrl = req_TypeUrl q, req_ResponseNonce = resp_Nonce out, req_ErrorDetail = None\<rparr>"
    unfolding Ack_def using client by (subst client_send_request) (auto simp: c' GetVersionInfo_def GetNonce_def)
  have nack: "last_request (fst (Nack Send msg c')) =
      \<lparr>req_VersionInfo = GetVersionInfo (ac_lastAckedResponse c), req_Node = ac_node c, req_ResourceNames = [],
       req_TypeUrl = req_TypeUrl q, req_ResponseNonce = resp_Nonce out, req_ErrorDetail = Some msg\<rparr>"
    unfolding Nack_def using client by (subst client_send_request) (auto simp: c' GetVersionInfo_def GetNonce_def)
  have "FormatInt (sw_nonce (ss_stream s) + 2) \<noteq> FormatInt (sw_nonce (ss_stream s) + 1)"
    by (simp add: FormatInt_inject)
  with w w' show ?thesis
    by (auto simp: ack nack staleNonce_def)
qed

text \<open>C39: A client that rejected a response and then reconnects acknowledges it: the first request on the new
  stream names the rejected version without an error, and the client has recorded the response as
  accepted.\<close>

theorem client_reconnect_accepts_rejected:
  assumes "ac_streamClient c \<noteq> None" and "client_Fetch (Inr (Some resp)) c = (c1, r)"
    and "Nack Send msg c1 = (c2, e)" and "InitConnect (Inr \<lparr>cs_sent = []\<rparr>) Send' c2 = (c3, e')"
  shows "cs_sent (the (ac_streamClient c3)) =
      [\<lparr>req_VersionInfo = resp_VersionInfo resp, req_Node = ac_node c, req_ResourceNames = [],
        req_TypeUrl = ac_typeURL c, req_ResponseNonce = resp_Nonce resp, req_ErrorDetail = None\<rparr>] \<and>
    ac_lastAckedResponse c3 = Some resp"
  using assms
  by (auto simp: client_Fetch_def Nack_def InitConnect_def Ack_def client_send_def GetVersionInfo_def GetNonce_def Let_def
      split: option.splits)

section \<open>Examples\<close>

definition exc_response :: Response where
  "exc_response = RawR (ext_response (ext_request ''''))"

definition exc_state :: "(LinearCache, cancel, unit) sotw_state" where
  "exc_state = ext_state\<lparr>ss_stream := (ss_stream ext_state)\<lparr>sw_watches := \<lparr>ws_responders =
     [(''T'', \<lparr>w_cancel = NoopCancel, w_response = 0, w_sub = ext_sub, w_nonce = ''''\<rparr>)], ws_cases = []\<rparr>\<rparr>\<rparr>"

definition exc_client :: adsClient where
  "exc_client = (NewADSClient None ''T'')\<lparr>ac_streamClient := Some \<lparr>cs_sent = []\<rparr>\<rparr>"

lemmas exc_defs = exc_response_def exc_state_def ext_response_def ext_sub_def ext_sent_def stream_eval ext_defs

lemma exc_send1:
  "sw_sent (ss_stream (fst (sotw_send ext_server ext_env (Some exc_response) exc_state))) =
     sw_sent (ss_stream exc_state) @ [ext_sent]"
  by (simp add: exc_defs Let_def)

lemma exc_send2:
  "sw_sent (ss_stream (fst (sotw_send ext_server ext_env (Some exc_response)
      (fst (sotw_send ext_server ext_env (Some exc_response) exc_state))))) =
     [ext_sent, ext_sent\<lparr>resp_Nonce := FormatInt 2\<rparr>]"
  by (simp add: exc_defs Let_def)

theorem client_server_handshake_witness:
  "\<exists>w w'. \<not> staleNonce (last_request (fst (Ack (\<lambda>q. None) (exc_client\<lparr>ac_lastReceivedResponse := Some ext_sent\<rparr>)))) w \<and>
     staleNonce (last_request (fst (Ack (\<lambda>q. None) (exc_client\<lparr>ac_lastReceivedResponse := Some ext_sent\<rparr>)))) (w' :: cancel sotw_watch) \<and>
     w_nonce (w :: cancel sotw_watch) = FormatInt 1"
proof -
  let ?s = exc_state and ?r = "Some exc_response" and ?q = "ext_request ''''"
  let ?c = "exc_client\<lparr>ac_lastReceivedResponse := Some ext_sent\<rparr>"
  obtain s' e where s': "sotw_send ext_server ext_env ?r ?s = (s', e)" by force
  obtain s'' e' where s'': "sotw_send ext_server ext_env ?r s' = (s'', e')" by force
  have q: "GetRequest exc_response = Some ?q" by (simp add: exc_response_def ext_response_def)
  have o1: "sw_sent (ss_stream s') = sw_sent (ss_stream ?s) @ [ext_sent]" using exc_send1 s' by simp
  have o2: "sw_sent (ss_stream s'') = sw_sent (ss_stream s') @ [ext_sent\<lparr>resp_Nonce := FormatInt 2\<rparr>]"
    using exc_send2 s' s'' o1 by (simp add: exc_state_def ext_state_def)
  have c: "ac_streamClient exc_client \<noteq> None" "ac_typeURL exc_client = req_TypeUrl ?q"
    "client_Fetch (Inr (Some ext_sent)) exc_client = (?c, Inr (resp_Resources ext_sent))"
    by (simp_all add: exc_client_def NewADSClient_def client_Fetch_def ext_request_def)
  have n: "resp_Nonce ext_sent = FormatInt 1" by (simp add: ext_sent_def)
  let ?A = "last_request (fst (Ack (\<lambda>q. None) ?c))"
  from client_server_handshake [OF s' q o1 s'' q refl o2 c, of "\<lambda>q. None" "''bad''"] obtain w w' where
    w: "responder s' (req_TypeUrl ?q) = Some w" and "responder s'' (req_TypeUrl ?q) = Some w'"
    and "\<not> staleNonce ?A w \<and> staleNonce ?A w'" by blast
  moreover from w sotw_send_nonce [OF s' q o1] n have "w_nonce w = FormatInt 1" by simp
  ultimately show ?thesis by blast
qed

theorem client_reconnect_accepts_rejected_witness:
  "map req_VersionInfo (cs_sent (the (ac_streamClient (fst (InitConnect (Inr \<lparr>cs_sent = []\<rparr>) (\<lambda>q. None)
     (fst (Nack (\<lambda>q. None) ''bad'' (fst (client_Fetch (Inr (Some ext_sent)) exc_client))))))))) = [''0'']"
proof -
  obtain c1 r where 1: "client_Fetch (Inr (Some ext_sent)) exc_client = (c1, r)" by force
  obtain c2 e where 2: "Nack (\<lambda>q. None) ''bad'' c1 = (c2, e)" by force
  obtain c3 e' where 3: "InitConnect (Inr \<lparr>cs_sent = []\<rparr>) (\<lambda>q. None) c2 = (c3, e')" by force
  have "ac_streamClient exc_client \<noteq> None" by (simp add: exc_client_def)
  from client_reconnect_accepts_rejected [OF this 1 2 3] 1 2 3 show ?thesis by (simp add: ext_sent_def)
qed

end
