(* ===== verification/Rest_Server.thy ===== *)
theory Rest_Server
  imports Delta_Server
begin

text \<open>
  The polling side and the server that bundles everything: \<open>src/pkg/server/rest/v3/server.go\<close>, the HTTP
  gateway \<open>src/pkg/server/v3/gateway.go\<close> and the per-type endpoints and \<open>CallbackFuncs\<close> of
  \<open>src/pkg/server/v3/server.go\<close>. \<open>protojson\<close> is code of the protobuf module: its two directions are
  parameters. \<open>path.Clean\<close> of the standard library is defined here.
\<close>

section \<open>Definitions\<close>

subsection \<open>The REST server\<close>

record 'u rest_Callbacks =
  cb_OnFetchRequest :: "go_context \<Rightarrow> DiscoveryRequest \<Rightarrow> 'u \<Rightarrow> error option \<times> 'u"
  cb_OnFetchResponse :: "DiscoveryRequest \<Rightarrow> DiscoveryResponse option \<Rightarrow> 'u \<Rightarrow> 'u"

record ('c, 'k, 'u) rest_server =
  rest_cache :: "('c, 'k) Cache"
  rest_callbacks :: "'u rest_Callbacks option"

definition rest_NewServer ::
  "('c, 'k) Cache \<Rightarrow> 'u rest_Callbacks option \<Rightarrow> ('c, 'k, 'u) rest_server" where
  "rest_NewServer config callbacks = \<lparr>rest_cache = config, rest_callbacks = callbacks\<rparr>"

text \<open>\<open>Fetch\<close> gives a response and an error; at most one is not nil.\<close>

definition rest_Fetch ::
  "('c, 'k, 'u) rest_server \<Rightarrow> marshaler \<Rightarrow> go_context \<Rightarrow> DiscoveryRequest \<Rightarrow> 'c \<Rightarrow> 'u \<Rightarrow>
     DiscoveryResponse option result \<times> 'u" where
  "rest_Fetch s marshal ctx req c u =
     (case (case rest_callbacks s of
              None \<Rightarrow> (None, u)
            | Some cb \<Rightarrow> cb_OnFetchRequest cb ctx req u)
      of (Some e, u) \<Rightarrow> (Inl e, u)
       | (None, u) \<Rightarrow>
           (case cw_Fetch (rest_cache s) ctx req c of
              Inl e \<Rightarrow> (Inl e, u)
            | Inr None \<Rightarrow> (Inl (Errorf ''missing response'' []), u)
            | Inr (Some resp) \<Rightarrow>
                (let r = response_GetDiscoveryResponse marshal resp;
                     out = (case r of Inl e \<Rightarrow> None | Inr out \<Rightarrow> out)
                 in (r, case rest_callbacks s of
                          None \<Rightarrow> u
                        | Some cb \<Rightarrow> cb_OnFetchResponse cb req out u))))"

subsection \<open>The bundled server\<close>

record 'u CallbackFuncs =
  StreamOpenFunc :: "(go_context \<Rightarrow> 64 word \<Rightarrow> string \<Rightarrow> 'u \<Rightarrow> error option \<times> 'u) option"
  StreamClosedFunc :: "(64 word \<Rightarrow> Node option \<Rightarrow> 'u \<Rightarrow> 'u) option"
  DeltaStreamOpenFunc :: "(go_context \<Rightarrow> 64 word \<Rightarrow> string \<Rightarrow> 'u \<Rightarrow> error option \<times> 'u) option"
  DeltaStreamClosedFunc :: "(64 word \<Rightarrow> Node option \<Rightarrow> 'u \<Rightarrow> 'u) option"
  StreamRequestFunc :: "(64 word \<Rightarrow> DiscoveryRequest \<Rightarrow> 'u \<Rightarrow> error option \<times> 'u) option"
  StreamResponseFunc ::
    "(go_context \<Rightarrow> 64 word \<Rightarrow> DiscoveryRequest option \<Rightarrow> DiscoveryResponse \<Rightarrow> 'u \<Rightarrow> 'u) option"
  StreamDeltaRequestFunc :: "(64 word \<Rightarrow> DeltaDiscoveryRequest \<Rightarrow> 'u \<Rightarrow> error option \<times> 'u) option"
  StreamDeltaResponseFunc ::
    "(64 word \<Rightarrow> DeltaDiscoveryRequest option \<Rightarrow> DeltaDiscoveryResponse \<Rightarrow> 'u \<Rightarrow> 'u) option"
  FetchRequestFunc :: "(go_context \<Rightarrow> DiscoveryRequest \<Rightarrow> 'u \<Rightarrow> error option \<times> 'u) option"
  FetchResponseFunc :: "(DiscoveryRequest \<Rightarrow> DiscoveryResponse option \<Rightarrow> 'u \<Rightarrow> 'u) option"

definition OnStreamOpen ::
  "'u CallbackFuncs \<Rightarrow> go_context \<Rightarrow> 64 word \<Rightarrow> string \<Rightarrow> 'u \<Rightarrow> error option \<times> 'u" where
  "OnStreamOpen c ctx streamID typeURL u =
     (case StreamOpenFunc c of Some f \<Rightarrow> f ctx streamID typeURL u | None \<Rightarrow> (None, u))"

definition OnStreamClosed :: "'u CallbackFuncs \<Rightarrow> 64 word \<Rightarrow> Node option \<Rightarrow> 'u \<Rightarrow> 'u" where
  "OnStreamClosed c streamID node u =
     (case StreamClosedFunc c of Some f \<Rightarrow> f streamID node u | None \<Rightarrow> u)"

definition OnDeltaStreamOpen ::
  "'u CallbackFuncs \<Rightarrow> go_context \<Rightarrow> 64 word \<Rightarrow> string \<Rightarrow> 'u \<Rightarrow> error option \<times> 'u" where
  "OnDeltaStreamOpen c ctx streamID typeURL u =
     (case DeltaStreamOpenFunc c of Some f \<Rightarrow> f ctx streamID typeURL u | None \<Rightarrow> (None, u))"

definition OnDeltaStreamClosed :: "'u CallbackFuncs \<Rightarrow> 64 word \<Rightarrow> Node option \<Rightarrow> 'u \<Rightarrow> 'u" where
  "OnDeltaStreamClosed c streamID node u =
     (case DeltaStreamClosedFunc c of Some f \<Rightarrow> f streamID node u | None \<Rightarrow> u)"

definition OnStreamRequest ::
  "'u CallbackFuncs \<Rightarrow> 64 word \<Rightarrow> DiscoveryRequest \<Rightarrow> 'u \<Rightarrow> error option \<times> 'u" where
  "OnStreamRequest c streamID req u =
     (case StreamRequestFunc c of Some f \<Rightarrow> f streamID req u | None \<Rightarrow> (None, u))"

definition OnStreamResponse ::
  "'u CallbackFuncs \<Rightarrow> go_context \<Rightarrow> 64 word \<Rightarrow> DiscoveryRequest option \<Rightarrow> DiscoveryResponse \<Rightarrow> 'u \<Rightarrow> 'u"
where
  "OnStreamResponse c ctx streamID req resp u =
     (case StreamResponseFunc c of Some f \<Rightarrow> f ctx streamID req resp u | None \<Rightarrow> u)"

definition OnStreamDeltaRequest ::
  "'u CallbackFuncs \<Rightarrow> 64 word \<Rightarrow> DeltaDiscoveryRequest \<Rightarrow> 'u \<Rightarrow> error option \<times> 'u" where
  "OnStreamDeltaRequest c streamID req u =
     (case StreamDeltaRequestFunc c of Some f \<Rightarrow> f streamID req u | None \<Rightarrow> (None, u))"

definition OnStreamDeltaResponse ::
  "'u CallbackFuncs \<Rightarrow> 64 word \<Rightarrow> DeltaDiscoveryRequest option \<Rightarrow> DeltaDiscoveryResponse \<Rightarrow> 'u \<Rightarrow> 'u"
where
  "OnStreamDeltaResponse c streamID req resp u =
     (case StreamDeltaResponseFunc c of Some f \<Rightarrow> f streamID req resp u | None \<Rightarrow> u)"

definition OnFetchRequest ::
  "'u CallbackFuncs \<Rightarrow> go_context \<Rightarrow> DiscoveryRequest \<Rightarrow> 'u \<Rightarrow> error option \<times> 'u" where
  "OnFetchRequest c ctx req u =
     (case FetchRequestFunc c of Some f \<Rightarrow> f ctx req u | None \<Rightarrow> (None, u))"

definition OnFetchResponse ::
  "'u CallbackFuncs \<Rightarrow> DiscoveryRequest \<Rightarrow> DiscoveryResponse option \<Rightarrow> 'u \<Rightarrow> 'u" where
  "OnFetchResponse c req resp u =
     (case FetchResponseFunc c of Some f \<Rightarrow> f req resp u | None \<Rightarrow> u)"

text \<open>The interface \<open>Callbacks\<close>: one value for the three servers.\<close>

record 'u Callbacks =
  cbs_rest :: "'u rest_Callbacks"
  cbs_sotw :: "'u sotw_Callbacks"
  cbs_delta :: "'u delta_Callbacks"

definition funcs_Callbacks :: "'u CallbackFuncs \<Rightarrow> 'u Callbacks" where
  "funcs_Callbacks c =
     \<lparr>cbs_rest = \<lparr>cb_OnFetchRequest = OnFetchRequest c, cb_OnFetchResponse = OnFetchResponse c\<rparr>,
      cbs_sotw = \<lparr>cb_OnStreamOpen = OnStreamOpen c, cb_OnStreamClosed = OnStreamClosed c,
                  cb_OnStreamRequest = OnStreamRequest c, cb_OnStreamResponse = OnStreamResponse c\<rparr>,
      cbs_delta = \<lparr>cb_OnDeltaStreamOpen = OnDeltaStreamOpen c,
                   cb_OnDeltaStreamClosed = OnDeltaStreamClosed c,
                   cb_OnStreamDeltaRequest = OnStreamDeltaRequest c,
                   cb_OnStreamDeltaResponse = OnStreamDeltaResponse c\<rparr>\<rparr>"

record ('c, 'k, 'u) xds_server =
  server_rest :: "('c, 'k, 'u) rest_server"
  server_sotw :: "('c, 'k, 'u) sotw_server"
  server_delta :: "('c, 'k, 'u) delta_server"

definition NewServerAdvanced ::
  "('c, 'k, 'u) rest_server \<Rightarrow> ('c, 'k, 'u) sotw_server \<Rightarrow> ('c, 'k, 'u) delta_server \<Rightarrow>
     ('c, 'k, 'u) xds_server" where
  "NewServerAdvanced restServer sotwServer deltaServer =
     \<lparr>server_rest = restServer, server_sotw = sotwServer, server_delta = deltaServer\<rparr>"

definition NewServer ::
  "('c, 'k) Cache \<Rightarrow> 'u Callbacks option \<Rightarrow> XDSOption list \<Rightarrow> ('c, 'k, 'u) xds_server" where
  "NewServer config callbacks opts =
     NewServerAdvanced (rest_NewServer config (map_option cbs_rest callbacks))
       (sotw_NewServer config (map_option cbs_sotw callbacks) opts)
       (delta_NewServer config (map_option cbs_delta callbacks) opts)"

text \<open>The stream endpoints: the handler of the bundled server at a fixed type.\<close>

type_synonym ('c, 'k, 'u) stream_endpoint =
  "('c, 'k, 'u) xds_server \<Rightarrow> stream_env \<Rightarrow> DiscoveryRequest option result list \<Rightarrow> choice list \<Rightarrow>
     ('c, 'k, 'u) sotw_state \<Rightarrow> ('c, 'k, 'u) sotw_state \<times> error option option"

definition server_StreamHandler :: "string \<Rightarrow> ('c, 'k, 'u) stream_endpoint" where
  "server_StreamHandler typeURL s env = StreamHandler (server_sotw s) env typeURL"

definition StreamAggregatedResources :: "('c, 'k, 'u) stream_endpoint" where
  "StreamAggregatedResources = server_StreamHandler AnyType"

definition StreamEndpoints :: "('c, 'k, 'u) stream_endpoint" where
  "StreamEndpoints = server_StreamHandler EndpointType"

definition StreamClusters :: "('c, 'k, 'u) stream_endpoint" where
  "StreamClusters = server_StreamHandler ClusterType"

definition StreamRoutes :: "('c, 'k, 'u) stream_endpoint" where
  "StreamRoutes = server_StreamHandler RouteType"

definition StreamScopedRoutes :: "('c, 'k, 'u) stream_endpoint" where
  "StreamScopedRoutes = server_StreamHandler ScopedRouteType"

definition StreamListeners :: "('c, 'k, 'u) stream_endpoint" where
  "StreamListeners = server_StreamHandler ListenerType"

definition StreamSecrets :: "('c, 'k, 'u) stream_endpoint" where
  "StreamSecrets = server_StreamHandler SecretType"

definition StreamRuntime :: "('c, 'k, 'u) stream_endpoint" where
  "StreamRuntime = server_StreamHandler RuntimeType"

definition StreamExtensionConfigs :: "('c, 'k, 'u) stream_endpoint" where
  "StreamExtensionConfigs = server_StreamHandler ExtensionConfigType"

definition StreamRlsConfigs :: "('c, 'k, 'u) stream_endpoint" where
  "StreamRlsConfigs = server_StreamHandler RateLimitConfigType"

text \<open>The polling endpoints: a nil request is refused, the type of the endpoint replaces the one of
  the request.\<close>

type_synonym ('c, 'k, 'u) fetch_endpoint =
  "('c, 'k, 'u) xds_server \<Rightarrow> marshaler \<Rightarrow> go_context \<Rightarrow> DiscoveryRequest option \<Rightarrow> 'c \<Rightarrow> 'u \<Rightarrow>
     DiscoveryResponse option result \<times> 'u"

definition server_Fetch ::
  "('c, 'k, 'u) xds_server \<Rightarrow> marshaler \<Rightarrow> go_context \<Rightarrow> DiscoveryRequest \<Rightarrow> 'c \<Rightarrow> 'u \<Rightarrow>
     DiscoveryResponse option result \<times> 'u" where
  "server_Fetch s = rest_Fetch (server_rest s)"

definition fetchTyped :: "string \<Rightarrow> ('c, 'k, 'u) fetch_endpoint" where
  "fetchTyped typeURL s marshal ctx req c u =
     (case req of
        None \<Rightarrow> (Inl (StatusErr Unavailable ''empty request''), u)
      | Some req \<Rightarrow> server_Fetch s marshal ctx (req\<lparr>req_TypeUrl := typeURL\<rparr>) c u)"

definition FetchEndpoints :: "('c, 'k, 'u) fetch_endpoint" where
  "FetchEndpoints = fetchTyped EndpointType"

definition FetchClusters :: "('c, 'k, 'u) fetch_endpoint" where
  "FetchClusters = fetchTyped ClusterType"

definition FetchRoutes :: "('c, 'k, 'u) fetch_endpoint" where
  "FetchRoutes = fetchTyped RouteType"

definition FetchScopedRoutes :: "('c, 'k, 'u) fetch_endpoint" where
  "FetchScopedRoutes = fetchTyped ScopedRouteType"

definition FetchListeners :: "('c, 'k, 'u) fetch_endpoint" where
  "FetchListeners = fetchTyped ListenerType"

definition FetchSecrets :: "('c, 'k, 'u) fetch_endpoint" where
  "FetchSecrets = fetchTyped SecretType"

definition FetchRuntime :: "('c, 'k, 'u) fetch_endpoint" where
  "FetchRuntime = fetchTyped RuntimeType"

definition FetchExtensionConfigs :: "('c, 'k, 'u) fetch_endpoint" where
  "FetchExtensionConfigs = fetchTyped ExtensionConfigType"

definition FetchRlsConfigs :: "('c, 'k, 'u) fetch_endpoint" where
  "FetchRlsConfigs = fetchTyped RateLimitConfigType"

text \<open>The incremental endpoints.\<close>

type_synonym ('c, 'k, 'u) delta_endpoint =
  "('c, 'k, 'u) xds_server \<Rightarrow> delta_env \<Rightarrow> DeltaDiscoveryRequest option result list \<Rightarrow> choice list \<Rightarrow>
     ('c, 'k, 'u) delta_state \<Rightarrow> ('c, 'k, 'u) delta_state \<times> error option option"

definition server_DeltaStreamHandler :: "string \<Rightarrow> ('c, 'k, 'u) delta_endpoint" where
  "server_DeltaStreamHandler typeURL s env = DeltaStreamHandler (server_delta s) env typeURL"

definition DeltaAggregatedResources :: "('c, 'k, 'u) delta_endpoint" where
  "DeltaAggregatedResources = server_DeltaStreamHandler AnyType"

definition DeltaEndpoints :: "('c, 'k, 'u) delta_endpoint" where
  "DeltaEndpoints = server_DeltaStreamHandler EndpointType"

definition DeltaClusters :: "('c, 'k, 'u) delta_endpoint" where
  "DeltaClusters = server_DeltaStreamHandler ClusterType"

definition DeltaRoutes :: "('c, 'k, 'u) delta_endpoint" where
  "DeltaRoutes = server_DeltaStreamHandler RouteType"

definition DeltaScopedRoutes :: "('c, 'k, 'u) delta_endpoint" where
  "DeltaScopedRoutes = server_DeltaStreamHandler ScopedRouteType"

definition DeltaListeners :: "('c, 'k, 'u) delta_endpoint" where
  "DeltaListeners = server_DeltaStreamHandler ListenerType"

definition DeltaSecrets :: "('c, 'k, 'u) delta_endpoint" where
  "DeltaSecrets = server_DeltaStreamHandler SecretType"

definition DeltaRuntime :: "('c, 'k, 'u) delta_endpoint" where
  "DeltaRuntime = server_DeltaStreamHandler RuntimeType"

definition DeltaExtensionConfigs :: "('c, 'k, 'u) delta_endpoint" where
  "DeltaExtensionConfigs = server_DeltaStreamHandler ExtensionConfigType"

definition DeltaVirtualHosts :: "('c, 'k, 'u) delta_endpoint" where
  "DeltaVirtualHosts = server_DeltaStreamHandler VirtualHostType"

definition DeltaLocalityEndpoints :: "('c, 'k, 'u) delta_endpoint" where
  "DeltaLocalityEndpoints = server_DeltaStreamHandler LbEndpointType"

end
