(* ===== verification/Gateway.thy ===== *)
theory Gateway
  imports Rest_Server
begin

text \<open>
  The HTTP gateway, \<open>src/pkg/server/v3/gateway.go\<close>: it maps a request path to a resource type, parses the
  body, fetches from the server and encodes the response. The JSON codec of protobuf is given by the
  parameters \<open>unmarshal\<close> and \<open>marshalJSON\<close>; the body is nil, fails to read, or gives its bytes.
\<close>

section \<open>Definitions\<close>

subsection \<open>The paths\<close>

definition path_FetchEndpoints :: string where
  "path_FetchEndpoints = ''/v3/discovery:endpoints''"

definition path_FetchClusters :: string where
  "path_FetchClusters = ''/v3/discovery:clusters''"

definition path_FetchListeners :: string where
  "path_FetchListeners = ''/v3/discovery:listeners''"

definition path_FetchRoutes :: string where
  "path_FetchRoutes = ''/v3/discovery:routes''"

definition path_FetchScopedRoutes :: string where
  "path_FetchScopedRoutes = ''/v3/discovery:scoped-routes''"

definition path_FetchSecrets :: string where
  "path_FetchSecrets = ''/v3/discovery:secrets''"

definition path_FetchRuntimes :: string where
  "path_FetchRuntimes = ''/v3/discovery:runtime''"

definition path_FetchExtensionConfigs :: string where
  "path_FetchExtensionConfigs = ''/v3/discovery:extension_configs''"

definition typeOfPath :: "string \<Rightarrow> string option" where
  "typeOfPath p =
     (if p = path_FetchEndpoints then Some EndpointType
      else if p = path_FetchClusters then Some ClusterType
      else if p = path_FetchListeners then Some ListenerType
      else if p = path_FetchRoutes then Some RouteType
      else if p = path_FetchScopedRoutes then Some ScopedRouteType
      else if p = path_FetchSecrets then Some SecretType
      else if p = path_FetchRuntimes then Some RuntimeType
      else if p = path_FetchExtensionConfigs then Some ExtensionConfigType
      else None)"

subsection \<open>Package path\<close>

fun split_slash :: "string \<Rightarrow> string list" where
  "split_slash [] = [[]]"
| "split_slash (c # cs) =
     (if c = CHR ''/'' then [] # split_slash cs
      else (case split_slash cs of [] \<Rightarrow> [[c]] | e # es \<Rightarrow> (c # e) # es))"

fun join_slash :: "string list \<Rightarrow> string" where
  "join_slash [] = []"
| "join_slash [e] = e"
| "join_slash (e # es) = e @ CHR ''/'' # join_slash es"

definition clean_element :: "bool \<Rightarrow> string \<Rightarrow> string list \<Rightarrow> string list" where
  "clean_element rooted e acc =
     (if e = [] \<or> e = ''.'' then acc
      else if e = ''..'' then
        (if acc \<noteq> [] \<and> last acc \<noteq> ''..'' then butlast acc
         else if rooted then acc else acc @ [e])
      else acc @ [e])"

definition path_Clean :: "string \<Rightarrow> string" where
  "path_Clean p =
     (if p = [] then ''.''
      else
        (let rooted = (hd p = CHR ''/'');
             out = join_slash (fold (clean_element rooted) (split_slash p) [])
         in if rooted then CHR ''/'' # out else if out = [] then ''.'' else out))"

subsection \<open>The handler\<close>

record http_request =
  http_Path :: string
  http_Body :: "byte list result option"
  http_Context :: go_context

definition StatusOK :: nat where "StatusOK = 200"
definition StatusNotModified :: nat where "StatusNotModified = 304"
definition StatusBadRequest :: nat where "StatusBadRequest = 400"
definition StatusNotFound :: nat where "StatusNotFound = 404"
definition StatusInternalServerError :: nat where "StatusInternalServerError = 500"

lemmas http_status_defs =
  StatusOK_def StatusNotModified_def StatusBadRequest_def StatusNotFound_def
  StatusInternalServerError_def

definition ServeHTTP ::
  "('c, 'k, 'u) xds_server \<Rightarrow> (byte list \<Rightarrow> DiscoveryRequest result) \<Rightarrow>
     (DiscoveryResponse option \<Rightarrow> byte list result) \<Rightarrow> marshaler \<Rightarrow> http_request \<Rightarrow> 'c \<Rightarrow> 'u \<Rightarrow>
     (byte list option \<times> nat \<times> error option) \<times> 'u" where
  "ServeHTTP h unmarshal marshalJSON marshal req c u =
     (case typeOfPath (path_Clean (http_Path req)) of
        None \<Rightarrow> ((None, StatusNotFound, Some (Errorf ''no endpoint'' [])), u)
      | Some typeURL \<Rightarrow>
          (case http_Body req of
             None \<Rightarrow> ((None, StatusBadRequest, Some (Errorf ''empty body'' [])), u)
           | Some (Inl e) \<Rightarrow> ((None, StatusBadRequest, Some (Errorf ''cannot read body'' [])), u)
           | Some (Inr body) \<Rightarrow>
               (case unmarshal body of
                  Inl e \<Rightarrow>
                    ((None, StatusBadRequest, Some (Wrapf ''cannot parse JSON body: %w'' [] e)), u)
                | Inr out \<Rightarrow>
                    (case server_Fetch h marshal (http_Context req) (out\<lparr>req_TypeUrl := typeURL\<rparr>) c u of
                       (Inl e, u) \<Rightarrow>
                         if unwrapped e = SkipFetchError then ((None, StatusNotModified, None), u)
                         else ((None, StatusInternalServerError, Some (Wrapf ''fetch error: %w'' [] e)), u)
                     | (Inr res, u) \<Rightarrow>
                         (case marshalJSON res of
                            Inl e \<Rightarrow>
                              ((None, StatusInternalServerError, Some (Wrapf ''marshal error: %w'' [] e)), u)
                          | Inr b \<Rightarrow> ((Some b, StatusOK, None), u))))))"

end
