(* ===== verification/Gateway_Properties.thy ===== *)
theory Gateway_Properties
  imports Gateway Simple_Properties
begin

text \<open>
  The HTTP gateway over the snapshot cache: which status code a request gets and what the body of a
  successful one encodes.
\<close>

section \<open>Lemmas\<close>

text \<open>Errors of marshaling are never the sentinel that means \<open>not modified\<close>.\<close>

definition marshal_errors_ok :: "marshaler \<Rightarrow> bool" where
  "marshal_errors_ok m \<longleftrightarrow> (\<forall>r e. m r = Inl e \<longrightarrow> unwrapped e \<noteq> SkipFetchError)"

lemma rmap_error: "rmap f xs = Inl e \<Longrightarrow> \<exists>x\<in>set xs. f x = Inl e"
  by (induction xs) (auto split: sum.splits)

lemma marshalTTLResource_error:
  assumes "marshal_errors_ok m" and "cr_marshalFunc x = m y" and "marshalTTLResource m r x = Inl e"
  shows "unwrapped e \<noteq> SkipFetchError"
  using assms
  by (auto simp: marshalTTLResource_def getMarshaledResource_def MarshalResource_def marshal_errors_ok_def Let_def
      split: sum.splits option.splits if_splits)

lemma GetDiscoveryResponse_error:
  assumes "marshal_errors_ok m" and "fst (GetDiscoveryResponse m r) = Inl e"
    and "\<And>x. x \<in> set (raw_resources r) \<Longrightarrow> \<exists>y. cr_marshalFunc x = m y"
  shows "unwrapped e \<noteq> SkipFetchError"
proof -
  let ?f = "\<lambda>resource. case marshalTTLResource m r resource of
      Inl e \<Rightarrow> Inl (Wrapf ''processing %s: %w'' [GetResourceName (cr_resource resource)] e) | Inr a \<Rightarrow> Inr a"
  have "rmap ?f (raw_resources r) = Inl e"
    using assms(2) by (auto simp: GetDiscoveryResponse_def Let_def split: option.splits sum.splits)
  then obtain x where x: "x \<in> set (raw_resources r)" "?f x = Inl e" using rmap_error by blast
  then obtain e' where "marshalTTLResource m r x = Inl e'" "unwrapped e = unwrapped e'" by (auto split: sum.splits)
  with marshalTTLResource_error [OF assms(1) _ \<open>marshalTTLResource m r x = Inl e'\<close>] assms(3) [OF x(1)]
  show ?thesis by auto
qed

lemma GetDiscoveryResponse_fields:
  assumes "fst (GetDiscoveryResponse m r) = Inr d" and "raw_marshaledResponse r = None"
  shows "resp_VersionInfo d = raw_Version r \<and> resp_TypeUrl d = req_getTypeUrl (raw_Request r) \<and>
    length (resp_Resources d) = length (raw_resources r)"
  using assms
  by (auto simp: GetDiscoveryResponse_def Let_def rmap_Inr dest: list_all2_lengthD split: sum.splits)

text \<open>The result of a fetch through the REST server.\<close>

definition rest_result ::
  "marshaler \<Rightarrow> go_context \<Rightarrow> DiscoveryRequest \<Rightarrow> snapshotCache \<Rightarrow> DiscoveryResponse option result" where
  "rest_result m ctx q c =
     (case sc_Fetch m ctx q c of
        Inl e \<Rightarrow> Inl e
      | Inr r \<Rightarrow> (case fst (GetDiscoveryResponse m r) of Inl e \<Rightarrow> Inl e | Inr d \<Rightarrow> Inr (Some d)))"

lemma rest_Fetch_snapshot:
  assumes "rest_cache s = snapshot_cache m" and "rest_callbacks s = None"
  shows "rest_Fetch s m ctx q (c, now) u = (rest_result m ctx q c, u)"
  using assms
  by (auto simp: rest_Fetch_def snapshot_cache_def rest_result_def Let_def split: sum.splits)

lemma sc_Fetch_marshal:
  "sc_Fetch m ctx q c = Inr r \<Longrightarrow> x \<in> set (raw_resources r) \<Longrightarrow> \<exists>y. cr_marshalFunc x = m y"
  by (auto simp: sc_Fetch_def Let_def newCachedResourceWithTTL_def newCachedResource_def MarshalResource_def
      split: option.splits if_splits; rule exI; rule refl)

text \<open>A fetch is skipped exactly when the client has the version of the snapshot.\<close>

lemma rest_result_skip:
  assumes "marshal_errors_ok m"
  shows "(\<exists>e. rest_result m ctx q c = Inl e \<and> unwrapped e = SkipFetchError) \<longleftrightarrow>
    (\<exists>s. map_of (sc_snapshots c) (sc_hash c (req_Node q)) = Some s \<and>
       req_VersionInfo q = GetVersion (Some s) (req_TypeUrl q))"
proof (cases "sc_Fetch m ctx q c")
  case (Inl e)
  then show ?thesis
    by (auto simp: rest_result_def sc_Fetch_def Let_def split: option.splits if_splits)
next
  case (Inr r)
  have "unwrapped e \<noteq> SkipFetchError" if "fst (GetDiscoveryResponse m r) = Inl e" for e
    by (rule GetDiscoveryResponse_error [OF assms that]) (rule sc_Fetch_marshal [OF Inr])
  then show ?thesis
    using Inr by (auto simp: rest_result_def sc_Fetch_def Let_def split: option.splits if_splits sum.splits)
qed

lemma rest_result_ok:
  assumes "rest_result m ctx q c = Inr x"
  shows "\<exists>s d. map_of (sc_snapshots c) (sc_hash c (req_Node q)) = Some s \<and> x = Some d \<and>
    resp_VersionInfo d = GetVersion (Some s) (req_TypeUrl q) \<and> resp_TypeUrl d = req_TypeUrl q"
proof -
  obtain r d where r: "sc_Fetch m ctx q c = Inr r" "fst (GetDiscoveryResponse m r) = Inr d" "x = Some d"
    using assms by (auto simp: rest_result_def split: sum.splits)
  from r(1) obtain s where s: "map_of (sc_snapshots c) (sc_hash c (req_Node q)) = Some s"
    "raw_Version r = GetVersion (Some s) (req_TypeUrl q)" "raw_Request r = Some q" "raw_marshaledResponse r = None"
    by (auto simp: sc_Fetch_def Let_def split: option.splits if_splits)
  with GetDiscoveryResponse_fields [OF r(2)] r(3) show ?thesis by (auto simp: req_getTypeUrl_def)
qed

section \<open>Status codes\<close>

text \<open>C26: The gateway over a snapshot cache, with a REST server without callbacks, answers 404 exactly for paths it does not know, 400 exactly for
  a missing, unreadable or malformed body, 304 exactly when the client already has the version of its
  node's snapshot for the type of the path, and 200 exactly when it returns a body. That body encodes a
  response of the type of the path with the version of the snapshot. Everything else is 500, and an
  error is returned exactly with 400, 404 and 500.\<close>

theorem gateway_status:
  assumes m: "marshal_errors_ok m" and h: "rest_cache (server_rest h) = snapshot_cache m" "rest_callbacks (server_rest h) = None"
    and serve: "ServeHTTP h unmarshal marshalJSON m req (c, now) u = ((out, status, err), u')"
  defines "path \<equiv> typeOfPath (path_Clean (http_Path req))"
  shows "(status = StatusNotFound \<longleftrightarrow> path = None) \<and>
    (status = StatusBadRequest \<longleftrightarrow> path \<noteq> None \<and> \<not> (\<exists>b q. http_Body req = Some (Inr b) \<and> unmarshal b = Inr q)) \<and>
    (status = StatusNotModified \<longleftrightarrow> (\<exists>t b q s. path = Some t \<and> http_Body req = Some (Inr b) \<and> unmarshal b = Inr q \<and>
       map_of (sc_snapshots c) (sc_hash c (req_Node q)) = Some s \<and> req_VersionInfo q = GetVersion (Some s) t)) \<and>
    (status = StatusOK \<longleftrightarrow> out \<noteq> None) \<and>
    (err \<noteq> None \<longleftrightarrow> status \<in> {StatusBadRequest, StatusNotFound, StatusInternalServerError}) \<and>
    (\<forall>b. out = Some b \<longrightarrow> (\<exists>t b' q s d. path = Some t \<and> http_Body req = Some (Inr b') \<and> unmarshal b' = Inr q \<and>
       marshalJSON (Some d) = Inr b \<and> map_of (sc_snapshots c) (sc_hash c (req_Node q)) = Some s \<and>
       resp_TypeUrl d = t \<and> resp_VersionInfo d = GetVersion (Some s) t))"
proof -
  note eval = serve [unfolded ServeHTTP_def server_Fetch_def rest_Fetch_snapshot [OF h] path_def [symmetric]]
  consider (path) "path = None"
    | (body) t where "path = Some t" "\<not> (\<exists>b q. http_Body req = Some (Inr b) \<and> unmarshal b = Inr q)"
    | (fetch) t b q where "path = Some t" "http_Body req = Some (Inr b)" "unmarshal b = Inr q"
    by (cases path) auto
  then show ?thesis
  proof cases
    case path
    with eval show ?thesis by (auto simp: http_status_defs)
  next
    case body
    with eval show ?thesis
      by (auto simp: http_status_defs split: option.splits sum.splits)
  next
    case fetch
    let ?q = "q\<lparr>req_TypeUrl := t\<rparr>"
    note skip = rest_result_skip [OF m, of "http_Context req" ?q c]
    show ?thesis
    proof (cases "rest_result m (http_Context req) ?q c")
      case (Inl e)
      with eval fetch skip show ?thesis by (auto simp: http_status_defs split: if_splits)
    next
      case (Inr x)
      obtain s d where x: "map_of (sc_snapshots c) (sc_hash c (req_Node q)) = Some s" "x = Some d"
        "resp_VersionInfo d = GetVersion (Some s) t" "resp_TypeUrl d = t"
        using rest_result_ok [OF Inr] by auto
      have "req_VersionInfo q \<noteq> GetVersion (Some s) t" using skip Inr x(1) by auto
      moreover have "marshalJSON (Some d) = Inr b" if "out = Some b" for b
        using eval fetch Inr x(2) that by (auto split: sum.splits)
      moreover have "(out, status, err) = (case marshalJSON (Some d) of
          Inl e \<Rightarrow> (None, StatusInternalServerError, Some (Wrapf ''marshal error: %w'' [] e)) | Inr b \<Rightarrow> (Some b, StatusOK, None))"
        using eval fetch Inr x(2) by (auto split: sum.splits)
      ultimately show ?thesis
        using fetch x by (intro conjI) (auto simp: http_status_defs split: sum.splits)
    qed
  qed
qed

text \<open>A request for the runtime layers of a node whose snapshot the client already has.\<close>

definition exg_cache :: snapshotCache where
  "exg_cache = (NewSnapshotCache False IDHash)\<lparr>sc_snapshots := [(''n'', exs_snapshot)]\<rparr>"

definition exg_server :: "(clocked, sc_cancel, unit) xds_server" where
  "exg_server = NewServerAdvanced (rest_NewServer (snapshot_cache exs_marshal) None)
     (sotw_NewServer (snapshot_cache exs_marshal) None []) (delta_NewServer (snapshot_cache exs_marshal) None [])"

definition exg_request :: http_request where
  "exg_request = \<lparr>http_Path = ''/v3/./discovery:runtime'', http_Body = Some (Inr []), http_Context = Background\<rparr>"

definition exg_unmarshal :: "byte list \<Rightarrow> DiscoveryRequest result" where
  "exg_unmarshal b = Inr (exs_req ''v1'')"

lemma exg_path: "typeOfPath (path_Clean (http_Path exg_request)) = Some RuntimeType"
  by (simp add: exg_request_def path_Clean_def clean_element_def typeOfPath_def path_FetchEndpoints_def
      path_FetchClusters_def path_FetchListeners_def path_FetchRoutes_def path_FetchScopedRoutes_def
      path_FetchSecrets_def path_FetchRuntimes_def)

theorem gateway_status_witness:
  "fst (snd (fst (ServeHTTP exg_server exg_unmarshal (\<lambda>d. Inr []) exs_marshal exg_request (exg_cache, 0) ()))) = 304"
proof -
  obtain out status err u' where serve:
    "ServeHTTP exg_server exg_unmarshal (\<lambda>d. Inr []) exs_marshal exg_request (exg_cache, 0) () = ((out, status, err), u')"
    by (metis prod.exhaust)
  have ok: "marshal_errors_ok exs_marshal" by (simp add: marshal_errors_ok_def exs_marshal_def)
  have h: "rest_cache (server_rest exg_server) = snapshot_cache exs_marshal" "rest_callbacks (server_rest exg_server) = None"
    by (simp_all add: exg_server_def NewServerAdvanced_def rest_NewServer_def)
  have snap: "map_of (sc_snapshots exg_cache) (sc_hash exg_cache (req_Node (exs_req ''v1''))) = Some exs_snapshot"
    by (simp add: exg_cache_def NewSnapshotCache_def newSnapshotCache_def exs_defs IDHash_def)
  have "status = StatusNotModified"
    using gateway_status [OF ok h serve] exg_path snap
    by (auto simp: exg_request_def exg_unmarshal_def exs_req_def)
  with serve show ?thesis by (simp add: http_status_defs)
qed

end
