(* ===== verification/Matcher.thy ===== *)
theory Matcher
  imports Xds_Types
begin

text \<open>
  The evaluation library of the xDS matching API: \<open>src/xdsmatcher/pkg/matcher\<close>, with the registry of extensions
  (\<open>registry/registry.go\<close>), the result types (\<open>types/types.go\<close>), the construction of a match tree from its
  configuration and its evaluation (\<open>matcher.go\<close>).

  The configuration messages are modelled by the fields the code reads: a message field is an option (nil
  is \<open>None\<close>), the members of a \<open>oneof\<close> are constructors, with one constructor for all members the code does
  not handle. Elements of repeated fields and members of a \<open>oneof\<close> are not nil, as after decoding. An
  \<open>interface{}\<close> a factory returns is nil, a data input, or something else. \<open>anypb.UnmarshalNew\<close> and
  \<open>regexp.Compile\<close> are parameters, as is the matching data. The tracing logger only prints.
\<close>

section \<open>Definitions\<close>

subsection \<open>Results and inputs\<close>

datatype DataInputAvailability =
    NotAvailable
  | MoreDataMightBeAvailable
  | AllDataAvailable
  | UnknownAvailability int \<comment> \<open>any other value of the underlying integer type\<close>

record DataInputResult =
  Availability :: DataInputAvailability
  Data :: "string option"

type_synonym 'd DataInput = "'d \<Rightarrow> DataInputResult result"

text \<open>What an extension factory returns as \<open>interface{}\<close>.\<close>

datatype ('d, 'x) extension = NilValue | InputValue "'d DataInput" | OtherValue 'x

type_synonym ('d, 'x) Action = "('d, 'x) extension"

subsection \<open>Configuration messages\<close>

record TypedExtensionConfig =
  tec_Name :: string
  tec_TypedConfig :: "any option"

datatype StringMatcher = SafeRegex string | OtherMatchPattern

datatype ValueMatcher = ValueMatch StringMatcher | CustomMatch

datatype Predicate =
    Predicate_SinglePredicate "TypedExtensionConfig option" ValueMatcher
  | OrMatcher "Predicate list"
  | AndMatcher "Predicate list"
  | OtherPredicate

datatype pbMatcher = PbMatcher "pbOnMatch option" MatcherType
  and MatcherType =
    Matcher_MatcherList "FieldMatcher list"
  | Matcher_MatcherTree "TypedExtensionConfig option" TreeType
  | OtherMatcherType
  and FieldMatcher = FieldMatcher "Predicate option" "pbOnMatch option"
  and TreeType = ExactMatchMap "(string \<times> pbOnMatch option) list" | OtherTreeType
  and pbOnMatch =
    OnMatch_Matcher pbMatcher
  | OnMatch_Action "TypedExtensionConfig option"
  | OtherOnMatch

subsection \<open>Match trees\<close>

text \<open>A value matcher is a compiled regular expression; matching nil fails.\<close>

type_synonym regex = "string \<Rightarrow> bool"

datatype 'd predicateFunc =
    singlePredicate "'d DataInput" regex
  | conjunctionPredicate "'d predicateFunc list"
  | disjunctionPredicate "'d predicateFunc list"

datatype ('d, 'x) OnMatch =
    OnMatch (om_Matcher: "('d, 'x) MatcherTree option") (om_Action: "('d, 'x) Action")
  and ('d, 'x) MatcherTree =
    MatcherTree (mt_onNoMatch: "('d, 'x) OnMatch option") (mt_matchRoot: "('d, 'x) matchRoot")
  and ('d, 'x) matchRoot =
    matcherList "(('d, 'x) OnMatch option \<times> 'd predicateFunc) list"
  | exactMatchTree "(string \<times> ('d, 'x) OnMatch option) list" "'d DataInput"

record 'r Result =
  MatchResult :: "'r option"
  NeedMoreData :: bool

record matcherResult =
  mr_match :: bool
  mr_needMoreData :: bool

subsection \<open>The registry\<close>

type_synonym ('m, 'd, 'x) RegistryType = "(string, 'm \<Rightarrow> ('d, 'x) extension result) gomap"

record ('m, 'd, 'x) matcher_env =
  InputExtensions :: "('m, 'd, 'x) RegistryType"
  ActionExtensions :: "('m, 'd, 'x) RegistryType"
  UnmarshalNew :: "any \<Rightarrow> 'm result"
  Compile :: "string \<Rightarrow> regex result"

definition resolveExtension ::
  "('m, 'd, 'x) matcher_env \<Rightarrow> TypedExtensionConfig option \<Rightarrow> ('m, 'd, 'x) RegistryType \<Rightarrow>
     ('d, 'x) extension result" where
  "resolveExtension env tec registry =
     (case tec of
        None \<Rightarrow> Inl (Panic ''nil pointer dereference'')
      | Some tec \<Rightarrow>
          (case tec_TypedConfig tec of
             None \<Rightarrow> Inl (Panic ''nil pointer dereference'')
           | Some config \<Rightarrow>
               (case map_of registry (any_TypeUrl config) of
                  None \<Rightarrow> Inl (Errorf ''extension not implemented: extension %s'' [any_TypeUrl config])
                | Some factory \<Rightarrow>
                    (case UnmarshalNew env config of Inl e \<Rightarrow> Inl e | Inr m \<Rightarrow> factory m))))"

definition ResolveInputExtension ::
  "('m, 'd, 'x) matcher_env \<Rightarrow> TypedExtensionConfig option \<Rightarrow> 'd DataInput result" where
  "ResolveInputExtension env tec =
     (case resolveExtension env tec (InputExtensions env) of
        Inl e \<Rightarrow> Inl e
      | Inr (InputValue input) \<Rightarrow> Inr input
      | Inr _ \<Rightarrow> Inl (Panic ''interface conversion''))"

definition ResolveActionExtension ::
  "('m, 'd, 'x) matcher_env \<Rightarrow> TypedExtensionConfig option \<Rightarrow> ('d, 'x) Action result" where
  "ResolveActionExtension env tec = resolveExtension env tec (ActionExtensions env)"

subsection \<open>Evaluation\<close>

definition handlePossiblyMissingInput ::
  "'d DataInput \<Rightarrow> 'd \<Rightarrow> (string option \<Rightarrow> 'r option) \<Rightarrow> 'r Result result" where
  "handlePossiblyMissingInput dataInput data matchFunc =
     (case dataInput data of
        Inl e \<Rightarrow> Inl e
      | Inr input \<Rightarrow>
          (case Availability input of
             AllDataAvailable \<Rightarrow> Inr \<lparr>MatchResult = matchFunc (Data input), NeedMoreData = False\<rparr>
           | MoreDataMightBeAvailable \<Rightarrow>
               (let result = matchFunc (Data input)
                in Inr \<lparr>MatchResult = result, NeedMoreData = (result = None)\<rparr>)
           | NotAvailable \<Rightarrow> Inr \<lparr>MatchResult = None, NeedMoreData = True\<rparr>
           | UnknownAvailability n \<Rightarrow> Inl (Errorf ''unexpected return value'' [])))"

definition regexMatcher_match :: "regex \<Rightarrow> string option \<Rightarrow> bool" where
  "regexMatcher_match r s = (case s of None \<Rightarrow> False | Some str \<Rightarrow> r str)"

definition singlePredicate_match :: "'d DataInput \<Rightarrow> regex \<Rightarrow> 'd \<Rightarrow> matcherResult result" where
  "singlePredicate_match input matcher data =
     (case handlePossiblyMissingInput input data
             (\<lambda>i. if regexMatcher_match matcher i then Some () else None) of
        Inl e \<Rightarrow> Inl e
      | Inr result \<Rightarrow>
          Inr \<lparr>mr_match = (MatchResult result \<noteq> None), mr_needMoreData = NeedMoreData result\<rparr>)"

fun predicate_match :: "'d predicateFunc \<Rightarrow> 'd \<Rightarrow> matcherResult result"
  and conjunction_match :: "'d predicateFunc list \<Rightarrow> 'd \<Rightarrow> matcherResult result"
  and disjunction_match :: "'d predicateFunc list \<Rightarrow> 'd \<Rightarrow> bool \<Rightarrow> matcherResult result" where
  "predicate_match (singlePredicate input matcher) data = singlePredicate_match input matcher data"
| "predicate_match (conjunctionPredicate predicates) data = conjunction_match predicates data"
| "predicate_match (disjunctionPredicate predicates) data = disjunction_match predicates data False"
| "conjunction_match [] data = Inr \<lparr>mr_match = True, mr_needMoreData = False\<rparr>"
| "conjunction_match (p # ps) data =
     (case predicate_match p data of
        Inl e \<Rightarrow> Inl e
      | Inr result \<Rightarrow>
          if mr_needMoreData result then Inr result
          else if \<not> mr_match result then Inr result
          else conjunction_match ps data)"
| "disjunction_match [] data resultCouldChange =
     (if resultCouldChange then Inr \<lparr>mr_match = False, mr_needMoreData = True\<rparr>
      else Inr \<lparr>mr_match = False, mr_needMoreData = False\<rparr>)"
| "disjunction_match (p # ps) data resultCouldChange =
     (case predicate_match p data of
        Inl e \<Rightarrow> Inl e
      | Inr result \<Rightarrow>
          if mr_needMoreData result then disjunction_match ps data True
          else if mr_match result then Inr result
          else disjunction_match ps data resultCouldChange)"

fun matcherList_Match ::
  "('r option \<times> 'd predicateFunc) list \<Rightarrow> 'd \<Rightarrow> 'r Result result" where
  "matcherList_Match [] data = Inr \<lparr>MatchResult = None, NeedMoreData = False\<rparr>"
| "matcherList_Match ((onMatch, predicate) # entries) data =
     (case predicate_match predicate data of
        Inl e \<Rightarrow> Inl e
      | Inr result \<Rightarrow>
          if mr_match result then Inr \<lparr>MatchResult = onMatch, NeedMoreData = False\<rparr>
          else if mr_needMoreData result then Inr \<lparr>MatchResult = None, NeedMoreData = True\<rparr>
          else matcherList_Match entries data)"

definition exactMatchTree_Match ::
  "(string, 'r option) gomap \<Rightarrow> 'd DataInput \<Rightarrow> 'd \<Rightarrow> 'r Result result" where
  "exactMatchTree_Match tree input data =
     handlePossiblyMissingInput input data
       (\<lambda>d. case d of
              None \<Rightarrow> None
            | Some value \<Rightarrow> (case map_of tree value of None \<Rightarrow> None | Some r \<Rightarrow> r))"

fun matchRoot_Match :: "('d, 'x) matchRoot \<Rightarrow> 'd \<Rightarrow> ('d, 'x) OnMatch Result result" where
  "matchRoot_Match (matcherList entries) data = matcherList_Match entries data"
| "matchRoot_Match (exactMatchTree tree input) data = exactMatchTree_Match tree input data"

lemma handle_result:
  "handlePossiblyMissingInput input d f = Inr r \<Longrightarrow> MatchResult r = Some x \<Longrightarrow> \<exists>i. f i = Some x"
  by (auto simp: handlePossiblyMissingInput_def Let_def split: sum.splits DataInputAvailability.splits)

lemma matcherList_result:
  "matcherList_Match es d = Inr r \<Longrightarrow> MatchResult r = Some x \<Longrightarrow> Some x \<in> fst ` set es"
  by (induction es d rule: matcherList_Match.induct) (auto split: sum.splits if_splits)

lemma matchRoot_result:
  assumes "matchRoot_Match root d = Inr r" and "MatchResult r = Some (OnMatch (Some t) a)"
  shows "size t < size root"
proof (cases root)
  case (matcherList es)
  with assms matcherList_result obtain p where "(Some (OnMatch (Some t) a), p) \<in> set es" by fastforce
  then show ?thesis
    unfolding matcherList by (induction es) auto
next
  case (exactMatchTree tree input)
  with assms obtain i where "map_of tree i = Some (Some (OnMatch (Some t) a))"
    by (auto simp: exactMatchTree_Match_def dest!: handle_result split: option.splits)
  then have "(i, Some (OnMatch (Some t) a)) \<in> set tree" by (rule map_of_SomeD)
  then show ?thesis
    unfolding exactMatchTree by (induction tree) auto
qed

function MatcherTree_Match :: "('d, 'x) MatcherTree \<Rightarrow> 'd \<Rightarrow> ('d, 'x) OnMatch Result result" where
  "MatcherTree_Match (MatcherTree onNoMatch matchRoot) data =
     (case matchRoot_Match matchRoot data of
        Inl e \<Rightarrow> Inl e
      | Inr result \<Rightarrow>
          if MatchResult result \<noteq> None \<and> NeedMoreData result
          then Inl (Errorf ''invalid result, invariant violation'' [])
          else
            (case MatchResult result of
               Some (OnMatch (Some matcher) action) \<Rightarrow> MatcherTree_Match matcher data
             | Some (OnMatch None action) \<Rightarrow> Inr result
             | None \<Rightarrow>
                 if NeedMoreData result then Inr result
                 else Inr \<lparr>MatchResult = onNoMatch, NeedMoreData = False\<rparr>))"
  by pat_completeness auto
termination
  by (relation "measure (\<lambda>(t, d). size t)") (auto dest!: matchRoot_result)

subsection \<open>Construction\<close>

fun createValueMatcher :: "('m, 'd, 'x) matcher_env \<Rightarrow> StringMatcher \<Rightarrow> regex result" where
  "createValueMatcher env (SafeRegex regex) = Compile env regex"
| "createValueMatcher env OtherMatchPattern = Inl (Errorf ''not implemented: value match'' [])"

definition createSinglePredicate ::
  "('m, 'd, 'x) matcher_env \<Rightarrow> TypedExtensionConfig option \<Rightarrow> ValueMatcher \<Rightarrow> 'd predicateFunc result" where
  "createSinglePredicate env config matcher =
     (case ResolveInputExtension env config of
        Inl e \<Rightarrow> Inl e
      | Inr input \<Rightarrow>
          (case matcher of
             ValueMatch valueMatch \<Rightarrow>
               (case createValueMatcher env valueMatch of
                  Inl e \<Rightarrow> Inl e
                | Inr m \<Rightarrow> Inr (singlePredicate input m))
           | CustomMatch \<Rightarrow> Inl (Errorf ''not implemented: custom match'' [])))"

fun createPredicate :: "('m, 'd, 'x) matcher_env \<Rightarrow> Predicate \<Rightarrow> 'd predicateFunc result"
  and createPredicates :: "('m, 'd, 'x) matcher_env \<Rightarrow> Predicate list \<Rightarrow> 'd predicateFunc list result" where
  "createPredicate env (AndMatcher ps) =
     (case createPredicates env ps of Inl e \<Rightarrow> Inl e | Inr predicates \<Rightarrow> Inr (conjunctionPredicate predicates))"
| "createPredicate env (OrMatcher ps) =
     (case createPredicates env ps of Inl e \<Rightarrow> Inl e | Inr predicates \<Rightarrow> Inr (disjunctionPredicate predicates))"
| "createPredicate env (Predicate_SinglePredicate config matcher) = createSinglePredicate env config matcher"
| "createPredicate env OtherPredicate = Inl (Errorf ''unexpected predicate type'' [])"
| "createPredicates env [] = Inr []"
| "createPredicates env (p # ps) =
     (case createPredicate env p of
        Inl e \<Rightarrow> Inl e
      | Inr pp \<Rightarrow>
          (case createPredicates env ps of Inl e \<Rightarrow> Inl e | Inr predicates \<Rightarrow> Inr (pp # predicates)))"

fun create :: "('m, 'd, 'x) matcher_env \<Rightarrow> pbMatcher \<Rightarrow> ('d, 'x) MatcherTree result"
  and createOnMatch ::
    "('m, 'd, 'x) matcher_env \<Rightarrow> pbOnMatch option \<Rightarrow> ('d, 'x) OnMatch option result"
  and createMatcherList ::
    "('m, 'd, 'x) matcher_env \<Rightarrow> FieldMatcher list \<Rightarrow>
       (('d, 'x) OnMatch option \<times> 'd predicateFunc) list result"
  and createExactMap ::
    "('m, 'd, 'x) matcher_env \<Rightarrow> (string \<times> pbOnMatch option) list \<Rightarrow>
       (string, ('d, 'x) OnMatch option) gomap \<Rightarrow> (string, ('d, 'x) OnMatch option) gomap result" where
  "create env (PbMatcher onNoMatchConfig (Matcher_MatcherList list)) =
     (case createOnMatch env onNoMatchConfig of
        Inl e \<Rightarrow> Inl e
      | Inr onNoMatch \<Rightarrow>
          (case createMatcherList env list of
             Inl e \<Rightarrow> Inl e
           | Inr entries \<Rightarrow> Inr (MatcherTree onNoMatch (matcherList entries))))"
| "create env (PbMatcher onNoMatchConfig (Matcher_MatcherTree config (ExactMatchMap exactMap))) =
     (case createOnMatch env onNoMatchConfig of
        Inl e \<Rightarrow> Inl e
      | Inr onNoMatch \<Rightarrow>
          (case ResolveInputExtension env config of
             Inl e \<Rightarrow> Inl e
           | Inr input \<Rightarrow>
               (case createExactMap env exactMap [] of
                  Inl e \<Rightarrow> Inl e
                | Inr tree \<Rightarrow> Inr (MatcherTree onNoMatch (exactMatchTree tree input)))))"
| "create env (PbMatcher onNoMatchConfig (Matcher_MatcherTree config OtherTreeType)) =
     (case createOnMatch env onNoMatchConfig of
        Inl e \<Rightarrow> Inl e
      | Inr onNoMatch \<Rightarrow>
          (case ResolveInputExtension env config of
             Inl e \<Rightarrow> Inl e
           | Inr input \<Rightarrow> Inl (Errorf ''not implemented: tree type'' [])))"
| "create env (PbMatcher onNoMatchConfig OtherMatcherType) =
     (case createOnMatch env onNoMatchConfig of
        Inl e \<Rightarrow> Inl e
      | Inr onNoMatch \<Rightarrow> Inl (Errorf ''not implemented: matcher tree'' []))"
| "createOnMatch env None = Inr None"
| "createOnMatch env (Some (OnMatch_Matcher m)) =
     (case create env m of
        Inl e \<Rightarrow> Inl e
      | Inr matcher \<Rightarrow> Inr (Some (OnMatch (Some matcher) NilValue)))"
| "createOnMatch env (Some (OnMatch_Action config)) =
     (case ResolveActionExtension env config of
        Inl e \<Rightarrow> Inl e
      | Inr action \<Rightarrow> Inr (Some (OnMatch None action)))"
| "createOnMatch env (Some OtherOnMatch) = Inl (Errorf ''unexpected on match type'' [])"
| "createMatcherList env [] = Inr []"
| "createMatcherList env (FieldMatcher predicateConfig onMatchConfig # rest) =
     (case createOnMatch env onMatchConfig of
        Inl e \<Rightarrow> Inl e
      | Inr None \<Rightarrow> Inl (Errorf ''matcher list requires on match'' [])
      | Inr (Some onMatch) \<Rightarrow>
          (case predicateConfig of
             None \<Rightarrow> Inl (Panic ''nil pointer dereference'')
           | Some p \<Rightarrow>
               (case createPredicate env p of
                  Inl e \<Rightarrow> Inl e
                | Inr predicate \<Rightarrow>
                    (case createMatcherList env rest of
                       Inl e \<Rightarrow> Inl e
                     | Inr entries \<Rightarrow> Inr ((Some onMatch, predicate) # entries)))))"
| "createExactMap env [] tree = Inr tree"
| "createExactMap env ((k, v) # rest) tree =
     (case createOnMatch env v of
        Inl e \<Rightarrow> Inl e
      | Inr onMatch \<Rightarrow> createExactMap env rest (AList.update k onMatch tree))"

definition Create :: "('m, 'd, 'x) matcher_env \<Rightarrow> pbMatcher \<Rightarrow> ('d, 'x) MatcherTree result" where
  "Create env matcher = create env matcher"

text \<open>The legacy message is re-read as the new one; protobuf encoding and decoding are parameters.\<close>

definition CreateLegacy ::
  "('l \<Rightarrow> byte list result) \<Rightarrow> (byte list \<Rightarrow> pbMatcher result) \<Rightarrow> ('m, 'd, 'x) matcher_env \<Rightarrow> 'l \<Rightarrow>
     ('d, 'x) MatcherTree result" where
  "CreateLegacy Marshal Unmarshal env matcher =
     (case Marshal matcher of
        Inl e \<Rightarrow> Inl e
      | Inr b \<Rightarrow> (case Unmarshal b of Inl e \<Rightarrow> Inl e | Inr m \<Rightarrow> Create env m))"

end
