(* ===== verification/Matcher_Extensions.thy ===== *)
theory Matcher_Extensions
  imports Matcher
begin

text \<open>
  The input and action extensions the matcher library registers for testing (\<open>src/xdsmatcher/test/extensions.go\<close>) and
  the conversion of decoded YAML (\<open>src/xdsmatcher/internal/proto/proto.go\<close>). The messages are the generated ones,
  by the fields the code reads. They are the concrete environment on which the properties of the matcher
  are exercised.
\<close>

section \<open>Definitions\<close>

subsection \<open>Test extensions\<close>

datatype test_message =
    FooInput
  | BarInput "32 word"
  | MoreDataAvailableInput
  | ErrorInput
  | NoDataAvailableInput
  | MatchActionMessage
  | OtherMessage

record TestData =
  td_Foo :: string
  td_Bar :: "string list"

text \<open>\<open>types.MatchingData\<close> is \<open>interface{}\<close>; the inputs assert that it is a \<open>*TestData\<close>.\<close>

datatype test_data = TestDataValue TestData | OtherData

datatype test_action = matchAction

type_synonym test_extension = "(test_data, test_action) extension"

definition fooInput_Input :: "test_data DataInput" where
  "fooInput_Input d =
     (case d of
        OtherData \<Rightarrow> Inl (Errorf ''invlaid matching data type'' [])
      | TestDataValue testData \<Rightarrow>
          Inr \<lparr>Availability = AllDataAvailable, Data = Some (td_Foo testData)\<rparr>)"

definition fooInputFactory :: "test_message \<Rightarrow> test_extension result" where
  "fooInputFactory m =
     (case m of FooInput \<Rightarrow> Inr (InputValue fooInput_Input) | _ \<Rightarrow> Inl (Errorf ''unexpected proto'' []))"

definition barInput_Input :: "64 word \<Rightarrow> test_data DataInput" where
  "barInput_Input index d =
     (case d of
        OtherData \<Rightarrow> Inl (Errorf ''invalid matching data type'' [])
      | TestDataValue metricData \<Rightarrow>
          if index \<ge> of_nat (length (td_Bar metricData))
          then Inr \<lparr>Availability = AllDataAvailable, Data = None\<rparr>
          else Inr \<lparr>Availability = AllDataAvailable, Data = Some (td_Bar metricData ! unat index)\<rparr>)"

definition barInputFactory :: "test_message \<Rightarrow> test_extension result" where
  "barInputFactory m =
     (case m of
        BarInput index \<Rightarrow> Inr (InputValue (barInput_Input (ucast index)))
      | _ \<Rightarrow> Inl (Errorf ''unexpected proto'' []))"

definition moreDataAvailableInput_Input :: "test_data DataInput" where
  "moreDataAvailableInput_Input d = Inr \<lparr>Availability = MoreDataMightBeAvailable, Data = None\<rparr>"

definition moreDataAvailableInputFactory :: "test_message \<Rightarrow> test_extension result" where
  "moreDataAvailableInputFactory m = Inr (InputValue moreDataAvailableInput_Input)"

definition errorInput_Input :: "test_data DataInput" where
  "errorInput_Input d = Inl (Errorf ''test error'' [])"

definition errorInputFactory :: "test_message \<Rightarrow> test_extension result" where
  "errorInputFactory m = Inr (InputValue errorInput_Input)"

definition noDataInput_Input :: "test_data DataInput" where
  "noDataInput_Input d = Inr \<lparr>Availability = NotAvailable, Data = None\<rparr>"

definition noDataInputFactory :: "test_message \<Rightarrow> test_extension result" where
  "noDataInputFactory m = Inr (InputValue noDataInput_Input)"

definition matchActionFactory :: "test_message \<Rightarrow> test_extension result" where
  "matchActionFactory m =
     (case m of
        MatchActionMessage \<Rightarrow> Inr (OtherValue matchAction)
      | _ \<Rightarrow> Inl (Errorf ''unexpected proto'' []))"

definition testPrefix :: string where
  "testPrefix = ''type.googleapis.com/xdsmatcher.test.proto.''"

text \<open>What \<open>init\<close> puts into the registry.\<close>

definition test_env ::
  "(any \<Rightarrow> test_message result) \<Rightarrow> (string \<Rightarrow> regex result) \<Rightarrow>
     (test_message, test_data, test_action) matcher_env" where
  "test_env unmarshalNew compile =
     \<lparr>InputExtensions =
        [(testPrefix @ ''FooInput'', fooInputFactory), (testPrefix @ ''BarInput'', barInputFactory),
         (testPrefix @ ''MoreDataAvailableInput'', moreDataAvailableInputFactory),
         (testPrefix @ ''ErrorInput'', errorInputFactory),
         (testPrefix @ ''NoDataAvailableInput'', noDataInputFactory)],
      ActionExtensions = [(testPrefix @ ''MatchAction'', matchActionFactory)],
      UnmarshalNew = unmarshalNew, Compile = compile\<rparr>"

subsection \<open>Decoded YAML\<close>

text \<open>A decoded YAML value; \<open>JsonMap\<close> is a \<open>map[string]interface{}\<close>, which \<open>json.Marshal\<close> accepts.\<close>

datatype yaml =
    YamlString string
  | YamlScalar string
  | YamlMap "(yaml \<times> yaml) list"
  | YamlList "yaml list"
  | JsonMap "(string \<times> yaml) list"

fun convert :: "yaml \<Rightarrow> yaml result"
  and convert_entries :: "(yaml \<times> yaml) list \<Rightarrow> (string \<times> yaml) list \<Rightarrow> (string \<times> yaml) list result"
  and convert_list :: "yaml list \<Rightarrow> yaml list result" where
  "convert (YamlMap x) =
     (case convert_entries x [] of Inl e \<Rightarrow> Inl e | Inr m2 \<Rightarrow> Inr (JsonMap m2))"
| "convert (YamlList x) = (case convert_list x of Inl e \<Rightarrow> Inl e | Inr x \<Rightarrow> Inr (YamlList x))"
| "convert (YamlString s) = Inr (YamlString s)"
| "convert (YamlScalar s) = Inr (YamlScalar s)"
| "convert (JsonMap m) = Inr (JsonMap m)"
| "convert_entries [] m2 = Inr m2"
| "convert_entries ((k, v) # rest) m2 =
     (case k of
        YamlString s \<Rightarrow>
          (case convert v of Inl e \<Rightarrow> Inl e | Inr v2 \<Rightarrow> convert_entries rest (AList.update s v2 m2))
      | _ \<Rightarrow> Inl (Panic ''interface conversion''))"
| "convert_list [] = Inr []"
| "convert_list (v # rest) =
     (case convert v of
        Inl e \<Rightarrow> Inl e
      | Inr v2 \<Rightarrow> (case convert_list rest of Inl e \<Rightarrow> Inl e | Inr vs \<Rightarrow> Inr (v2 # vs)))"

definition ProtoFromYaml ::
  "(byte list \<Rightarrow> yaml result) \<Rightarrow> (yaml \<Rightarrow> byte list result) \<Rightarrow> (byte list \<Rightarrow> 'p result) \<Rightarrow>
     byte list \<Rightarrow> 'p result" where
  "ProtoFromYaml yamlUnmarshal jsonMarshal protojsonUnmarshal s =
     (case yamlUnmarshal s of
        Inl e \<Rightarrow> Inl e
      | Inr obj \<Rightarrow>
          (case convert obj of
             Inl e \<Rightarrow> Inl e
           | Inr obj \<Rightarrow>
               (case jsonMarshal obj of Inl e \<Rightarrow> Inl e | Inr rawJSON \<Rightarrow> protojsonUnmarshal rawJSON)))"

end
