(* ===== verification/Matcher_Properties.thy ===== *)
theory Matcher_Properties
  imports Matcher_Extensions
begin

text \<open>
  Correctness of the match trees: the contracts of the interfaces \<open>predicateFunc\<close> and \<open>Matcher\<close>, what a
  constructed tree looks like, what evaluation returns when all data is there, and that a result is final
  when no more data is needed.
\<close>

section \<open>The interfaces\<close>

text \<open>A predicate says whether it matches, or that it needs more data, never both.\<close>

locale predicate_interface =
  fixes match :: "'d \<Rightarrow> matcherResult result"
  assumes not_both: "match d = Inr r \<Longrightarrow> \<not> (mr_match r \<and> mr_needMoreData r)"
begin

lemma outcomes:
  "match d = Inr r \<Longrightarrow>
     r = \<lparr>mr_match = True, mr_needMoreData = False\<rparr> \<or> r = \<lparr>mr_match = False, mr_needMoreData = False\<rparr> \<or>
     r = \<lparr>mr_match = False, mr_needMoreData = True\<rparr>"
  using not_both [of d r] by (cases r) auto

end

text \<open>A matcher that found something does not need more data.\<close>

locale matcher_interface =
  fixes Match :: "'d \<Rightarrow> 'r Result result"
  assumes found: "Match d = Inr r \<Longrightarrow> MatchResult r = Some x \<Longrightarrow> \<not> NeedMoreData r"
begin

text \<open>So the check of the invariant in \<open>MatcherTree.Match\<close> never fails.\<close>

lemma no_violation: "Match d = Inr r \<Longrightarrow> \<not> (MatchResult r \<noteq> None \<and> NeedMoreData r)"
  using found by blast

lemma needs_more: "Match d = Inr r \<Longrightarrow> NeedMoreData r \<Longrightarrow> r = \<lparr>MatchResult = None, NeedMoreData = True\<rparr>"
  using found [of d r] by (cases "MatchResult r") (cases r; simp)+

end

lemma handle_found:
  "handlePossiblyMissingInput i d f = Inr r \<Longrightarrow> MatchResult r = Some x \<Longrightarrow> \<not> NeedMoreData r"
  by (auto simp: handlePossiblyMissingInput_def Let_def split: sum.splits DataInputAvailability.splits)

lemma single_not_both:
  "singlePredicate_match i m d = Inr r \<Longrightarrow> \<not> (mr_match r \<and> mr_needMoreData r)"
  by (auto simp: singlePredicate_match_def dest: handle_found split: sum.splits)

lemma conjunction_not_both:
  assumes "\<And>p r. p \<in> set ps \<Longrightarrow> predicate_match p d = Inr r \<Longrightarrow> \<not> (mr_match r \<and> mr_needMoreData r)"
    and "conjunction_match ps d = Inr r"
  shows "\<not> (mr_match r \<and> mr_needMoreData r)"
  using assms by (induction ps) (auto split: sum.splits if_splits)

lemma disjunction_not_both:
  assumes "\<And>p r. p \<in> set ps \<Longrightarrow> predicate_match p d = Inr r \<Longrightarrow> \<not> (mr_match r \<and> mr_needMoreData r)"
    and "disjunction_match ps d b = Inr r"
  shows "\<not> (mr_match r \<and> mr_needMoreData r)"
  using assms by (induction ps arbitrary: b) (auto split: sum.splits if_splits)

lemma predicate_not_both:
  "predicate_match p d = Inr r \<Longrightarrow> \<not> (mr_match r \<and> mr_needMoreData r)"
proof (induction p arbitrary: r)
  case (singlePredicate i m)
  then show ?case using single_not_both by simp
next
  case (conjunctionPredicate ps)
  then show ?case using conjunction_not_both [of ps d r] by simp
next
  case (disjunctionPredicate ps)
  then show ?case using disjunction_not_both [of ps d False r] by simp
qed

interpretation pred: predicate_interface "predicate_match p" for p
  by unfold_locales (rule predicate_not_both)

interpretation conj_pred: predicate_interface "conjunction_match ps" for ps
  by unfold_locales (rule conjunction_not_both [OF predicate_not_both])

interpretation exact: matcher_interface "exactMatchTree_Match tree i" for tree i
  by unfold_locales (auto simp: exactMatchTree_Match_def dest: handle_found)

interpretation mlist: matcher_interface "matcherList_Match es" for es
proof
  fix d r x
  assume "matcherList_Match es d = Inr r" "MatchResult r = Some x"
  then show "\<not> NeedMoreData r"
    by (induction es d rule: matcherList_Match.induct) (auto split: sum.splits if_splits)
qed

interpretation root: matcher_interface "matchRoot_Match rt" for rt
proof
  fix d r x
  assume "matchRoot_Match rt d = Inr r" "MatchResult r = Some x"
  then show "\<not> NeedMoreData r" by (cases rt) (auto dest: mlist.found exact.found)
qed

lemma MatcherTree_found:
  "MatcherTree_Match t d = Inr r \<Longrightarrow> MatchResult r = Some x \<Longrightarrow> \<not> NeedMoreData r"
proof (induction t d rule: MatcherTree_Match.induct)
  case (1 n rt d)
  then show ?case
    by (auto split: sum.splits if_splits option.splits OnMatch.splits)
qed

interpretation tree: matcher_interface "MatcherTree_Match t" for t
  by unfold_locales (rule MatcherTree_found)

section \<open>Inputs of a tree\<close>

fun predicate_inputs :: "'d predicateFunc \<Rightarrow> 'd DataInput set" where
  "predicate_inputs (singlePredicate i m) = {i}"
| "predicate_inputs (conjunctionPredicate ps) = (\<Union>p\<in>set ps. predicate_inputs p)"
| "predicate_inputs (disjunctionPredicate ps) = (\<Union>p\<in>set ps. predicate_inputs p)"

text \<open>The subtrees evaluation can get to (those under \<open>OnNoMatch\<close> are never evaluated) and all inputs on
  the way.\<close>

fun root_inputs :: "('d, 'x) matchRoot \<Rightarrow> 'd DataInput set" where
  "root_inputs (matcherList es) = (\<Union>e\<in>set es. predicate_inputs (snd e))"
| "root_inputs (exactMatchTree tr i) = {i}"

fun root_results :: "('d, 'x) matchRoot \<Rightarrow> ('d, 'x) OnMatch set" where
  "root_results (matcherList es) = {m. Some m \<in> fst ` set es}"
| "root_results (exactMatchTree tr i) = {m. Some m \<in> snd ` set tr}"

inductive reaches :: "('d, 'x) MatcherTree \<Rightarrow> ('d, 'x) MatcherTree \<Rightarrow> bool" where
  reaches_refl: "reaches t t"
| reaches_step: "OnMatch (Some t') a \<in> root_results (mt_matchRoot t) \<Longrightarrow> reaches t' u \<Longrightarrow> reaches t u"

definition inputs_of :: "('d, 'x) MatcherTree \<Rightarrow> 'd DataInput set" where
  "inputs_of t = {i. \<exists>u. reaches t u \<and> i \<in> root_inputs (mt_matchRoot u)}"

text \<open>An input that gives data or says that there is none yet.\<close>

definition input_ok :: "'d DataInput \<Rightarrow> 'd \<Rightarrow> bool" where
  "input_ok i d \<longleftrightarrow> (\<exists>r. i d = Inr r \<and> (\<forall>n. Availability r \<noteq> UnknownAvailability n))"

text \<open>
  From \<open>d\<close> to \<open>d'\<close> more data may become available on an input: data that was all available stays as it is, as
  \<open>AllDataAvailable\<close> promises, and nothing is said about the rest. A value that was partial is revised if it is
  another one afterwards, or gone.
\<close>

definition grows :: "'d \<Rightarrow> 'd \<Rightarrow> 'd DataInput \<Rightarrow> bool" where
  "grows d d' i \<longleftrightarrow> input_ok i d' \<and> (\<forall>r. i d = Inr r \<longrightarrow> Availability r = AllDataAvailable \<longrightarrow> i d' = Inr r)"

definition revised :: "'d \<Rightarrow> 'd \<Rightarrow> 'd DataInput \<Rightarrow> bool" where
  "revised d d' i \<longleftrightarrow>
     (\<exists>r. i d = Inr r \<and> Availability r = MoreDataMightBeAvailable \<and> Data r \<noteq> None \<and>
        \<not> (\<exists>r'. i d' = Inr r' \<and> Data r' = Data r \<and> Availability r' \<noteq> NotAvailable))"

definition steady :: "'d \<Rightarrow> 'd \<Rightarrow> 'd DataInput \<Rightarrow> bool" where
  "steady d d' i \<longleftrightarrow> grows d d' i \<and> \<not> revised d d' i"

section \<open>Errors\<close>

lemma inputs_of_root: "i \<in> root_inputs rt \<Longrightarrow> i \<in> inputs_of (MatcherTree n rt)"
  unfolding inputs_of_def by (auto intro: reaches_refl exI [of _ "MatcherTree n rt"])

lemma inputs_of_sub:
  "OnMatch (Some t) a \<in> root_results rt \<Longrightarrow> inputs_of t \<subseteq> inputs_of (MatcherTree n rt)"
  unfolding inputs_of_def using reaches_step [of t a "MatcherTree n rt"] by auto

lemma root_result_in:
  assumes "matchRoot_Match rt d = Inr r" and "MatchResult r = Some m"
  shows "m \<in> root_results rt"
proof (cases rt)
  case (matcherList es)
  with assms show ?thesis using matcherList_result by fastforce
next
  case (exactMatchTree tr i)
  with assms obtain k where "map_of tr k = Some (Some m)"
    by (auto simp: exactMatchTree_Match_def dest!: handle_result split: option.splits)
  with exactMatchTree show ?thesis by (force dest: map_of_SomeD)
qed

text \<open>An evaluation fails only with the error of an input.\<close>

definition input_error :: "'d DataInput \<Rightarrow> 'd \<Rightarrow> error \<Rightarrow> bool" where
  "input_error i d e \<longleftrightarrow> i d = Inl e \<or>
     e = Errorf ''unexpected return value'' [] \<and> (\<exists>r n. i d = Inr r \<and> Availability r = UnknownAvailability n)"

lemma handle_error: "handlePossiblyMissingInput i d f = Inl e \<Longrightarrow> input_error i d e"
  by (auto simp: handlePossiblyMissingInput_def input_error_def Let_def
      split: sum.splits DataInputAvailability.splits)

lemma conjunction_error:
  "conjunction_match ps d = Inl e \<Longrightarrow> \<exists>p\<in>set ps. predicate_match p d = Inl e"
  by (induction ps) (auto split: sum.splits if_splits)

lemma disjunction_error:
  "disjunction_match ps d b = Inl e \<Longrightarrow> \<exists>p\<in>set ps. predicate_match p d = Inl e"
  by (induction ps arbitrary: b) (auto split: sum.splits if_splits)

lemma predicate_error:
  "predicate_match p d = Inl e \<Longrightarrow> \<exists>i\<in>predicate_inputs p. input_error i d e"
proof (induction p)
  case (singlePredicate i m)
  then show ?case by (auto simp: singlePredicate_match_def dest: handle_error split: sum.splits)
next
  case (conjunctionPredicate ps)
  then show ?case using conjunction_error [of ps d e] by simp blast
next
  case (disjunctionPredicate ps)
  then show ?case using disjunction_error [of ps d False e] by simp blast
qed

lemma root_error: "matchRoot_Match rt d = Inl e \<Longrightarrow> \<exists>i\<in>root_inputs rt. input_error i d e"
proof (cases rt)
  case (matcherList es)
  assume "matchRoot_Match rt d = Inl e"
  then have "\<exists>x\<in>set es. predicate_match (snd x) d = Inl e"
    unfolding matcherList matchRoot_Match.simps
    by (induction es d rule: matcherList_Match.induct) (auto split: sum.splits if_splits)
  then obtain x where "x \<in> set es" "predicate_match (snd x) d = Inl e" by blast
  with predicate_error [of "snd x" d e] show ?thesis by (auto simp: matcherList)
qed (auto simp: exactMatchTree_Match_def dest: handle_error)

text \<open>C25: evaluating a match tree always ends, and it fails only if an input it evaluates fails or returns an
  unknown availability; in particular the check for a result that both matches and needs more data
  never fails, at any depth.\<close>

theorem match_fails_only_by_input:
  "MatcherTree_Match t d = Inl e \<Longrightarrow> \<exists>i\<in>inputs_of t. input_error i d e"
proof (induction t d rule: MatcherTree_Match.induct)
  case (1 n rt d)
  show ?case
  proof (cases "matchRoot_Match rt d")
    case (Inl e')
    with 1(2) show ?thesis using root_error [of rt d e] inputs_of_root [of _ rt n] by auto
  next
    case (Inr r)
    have "\<not> (MatchResult r \<noteq> None \<and> NeedMoreData r)" by (rule root.no_violation [OF Inr])
    with 1(2) Inr obtain t a where sub: "MatchResult r = Some (OnMatch (Some t) a)"
      and rec: "MatcherTree_Match t d = Inl e"
      by (auto split: option.splits OnMatch.splits if_splits)
    have "\<exists>i\<in>inputs_of t. input_error i d e"
      by (rule 1(1) [OF Inr _ sub refl refl rec]) (use root.no_violation [OF Inr] in blast)
    then show ?thesis using inputs_of_sub [OF root_result_in [OF Inr sub], of n] by blast
  qed
qed

section \<open>Results are final\<close>

lemma handle_stable:
  assumes "handlePossiblyMissingInput i d f = Inr r" and "\<not> NeedMoreData r" and "steady d d' i" and "f None = None"
  shows "handlePossiblyMissingInput i d' f = Inr r"
proof -
  obtain x where x: "i d = Inr x"
    using assms(1) by (cases "i d") (auto simp: handlePossiblyMissingInput_def)
  have G: "Availability x = AllDataAvailable \<Longrightarrow> i d' = Inr x"
    "Availability x = MoreDataMightBeAvailable \<Longrightarrow> Data x \<noteq> None \<Longrightarrow>
       \<exists>r'. i d' = Inr r' \<and> Data r' = Data x \<and> Availability r' \<noteq> NotAvailable"
    using assms(3) x unfolding steady_def grows_def revised_def by blast+
  show ?thesis
  proof (cases "Availability x")
    case AllDataAvailable
    with assms(1) G(1) x show ?thesis by (simp add: handlePossiblyMissingInput_def)
  next
    case MoreDataMightBeAvailable
    with assms(1,2) x have r: "r = \<lparr>MatchResult = f (Data x), NeedMoreData = False\<rparr>" "f (Data x) \<noteq> None"
      by (auto simp: handlePossiblyMissingInput_def Let_def)
    then have "Data x \<noteq> None" using assms(4) by metis
    with G(2) MoreDataMightBeAvailable obtain r' where r': "i d' = Inr r'" "Data r' = Data x"
      "Availability r' \<noteq> NotAvailable" by blast
    have "Availability r' \<noteq> UnknownAvailability k" for k
      using assms(3) r'(1) by (auto simp: steady_def grows_def input_ok_def)
    with r r' show ?thesis
      by (cases "Availability r'") (auto simp: handlePossiblyMissingInput_def Let_def)
  qed (use assms(1,2) x in \<open>auto simp: handlePossiblyMissingInput_def\<close>)
qed

lemma predicate_total:
  assumes "\<And>i. i \<in> predicate_inputs p \<Longrightarrow> input_ok i d"
  shows "\<exists>r. predicate_match p d = Inr r"
proof (cases "predicate_match p d")
  case (Inl e)
  from predicate_error [OF this] obtain i where "i \<in> predicate_inputs p" "input_error i d e" ..
  with assms [of i] show ?thesis by (auto simp: input_ok_def input_error_def)
qed blast

lemma conjunction_stable:
  assumes "\<And>p r. p \<in> set ps \<Longrightarrow> predicate_match p d = Inr r \<Longrightarrow> \<not> mr_needMoreData r \<Longrightarrow> predicate_match p d' = Inr r"
    and "conjunction_match ps d = Inr r" and "\<not> mr_needMoreData r"
  shows "conjunction_match ps d' = Inr r"
  using assms
proof (induction ps)
  case (Cons p ps)
  obtain x where x: "predicate_match p d = Inr x" using Cons.prems(2) by (auto split: sum.splits)
  have "\<not> mr_needMoreData x" using Cons.prems(2,3) x by auto
  then have "predicate_match p d' = Inr x" using Cons.prems(1) x by simp
  moreover have "conjunction_match ps d' = Inr r" if "conjunction_match ps d = Inr r"
    by (rule Cons.IH [OF _ that Cons.prems(3)]) (use Cons.prems(1) in auto)
  ultimately show ?case using Cons.prems(2) x by (auto split: if_splits)
qed simp

lemma disjunction_stable:
  assumes "\<And>p r. p \<in> set ps \<Longrightarrow> predicate_match p d = Inr r \<Longrightarrow> \<not> mr_needMoreData r \<Longrightarrow> predicate_match p d' = Inr r"
    and "\<And>p. p \<in> set ps \<Longrightarrow> \<exists>r. predicate_match p d' = Inr r"
    and "disjunction_match ps d b = Inr r" and "\<not> mr_needMoreData r" and "b' \<longrightarrow> b"
  shows "disjunction_match ps d' b' = Inr r"
  using assms
proof (induction ps arbitrary: b b')
  case (Cons p ps)
  obtain x where x: "predicate_match p d = Inr x" using Cons.prems(3) by (auto split: sum.splits)
  obtain x' where x': "predicate_match p d' = Inr x'" using Cons.prems(2) [of p] by auto
  have IH: "disjunction_match ps d' c' = Inr r" if "disjunction_match ps d c = Inr r" "c' \<longrightarrow> c" for c c'
    by (rule Cons.IH [OF _ _ that(1) Cons.prems(4) that(2)]) (use Cons.prems(1,2) in auto)
  have matched: "r = \<lparr>mr_match = True, mr_needMoreData = False\<rparr>" if "disjunction_match ps d True = Inr r"
    using that Cons.prems(4)
  proof (induction ps)
    case (Cons q qs)
    then show ?case using pred.outcomes [of q d] by (auto split: sum.splits if_splits)
  qed auto
  show ?case
  proof (cases "mr_needMoreData x")
    case True
    then have d: "disjunction_match ps d True = Inr r" using Cons.prems(3) x by simp
    from pred.outcomes [OF x'] show ?thesis using IH [OF d] matched [OF d] x' by auto
  next
    case False
    then have "predicate_match p d' = Inr x" using Cons.prems(1) x by simp
    with Cons.prems(3,5) x False IH show ?thesis by (auto split: if_splits)
  qed
qed (auto split: if_splits)

lemma predicate_stable:
  "predicate_match p d = Inr r \<Longrightarrow> \<not> mr_needMoreData r \<Longrightarrow>
     (\<And>i. i \<in> predicate_inputs p \<Longrightarrow> steady d d' i) \<Longrightarrow> predicate_match p d' = Inr r"
proof (induction p arbitrary: r)
  case (singlePredicate i m)
  let ?f = "\<lambda>x. if regexMatcher_match m x then Some () else None"
  obtain x where x: "handlePossiblyMissingInput i d ?f = Inr x" "mr_needMoreData r = NeedMoreData x"
    "r = \<lparr>mr_match = (MatchResult x \<noteq> None), mr_needMoreData = NeedMoreData x\<rparr>"
    using singlePredicate.prems(1) by (auto simp: singlePredicate_match_def split: sum.splits)
  have "handlePossiblyMissingInput i d' ?f = Inr x"
    by (rule handle_stable [OF x(1)]) (use x singlePredicate.prems in \<open>auto simp: regexMatcher_match_def\<close>)
  with x(3) show ?case by (simp add: singlePredicate_match_def)
next
  case (conjunctionPredicate ps)
  have "conjunction_match ps d' = Inr r"
    by (rule conjunction_stable) (use conjunctionPredicate in auto)
  then show ?case by simp
next
  case (disjunctionPredicate ps)
  have total: "\<exists>r. predicate_match p d' = Inr r" if "p \<in> set ps" for p
    by (rule predicate_total) (use disjunctionPredicate.prems(3) that in \<open>auto simp: steady_def grows_def\<close>)
  have "disjunction_match ps d' False = Inr r"
    by (rule disjunction_stable [where b = False]) (use disjunctionPredicate total in auto)
  then show ?case by simp
qed

lemma root_stable:
  assumes "matchRoot_Match rt d = Inr r" and "\<not> NeedMoreData r" and "\<And>i. i \<in> root_inputs rt \<Longrightarrow> steady d d' i"
  shows "matchRoot_Match rt d' = Inr r"
proof (cases rt)
  case (matcherList es)
  have "matcherList_Match es d' = Inr r"
    if "matcherList_Match es d = Inr r" "\<And>p i. p \<in> snd ` set es \<Longrightarrow> i \<in> predicate_inputs p \<Longrightarrow> steady d d' i"
    using that
  proof (induction es)
    case (Cons e es)
    obtain m p where e: "e = (m, p)" by (cases e)
    obtain x where x: "predicate_match p d = Inr x" using Cons.prems(1) e by (auto split: sum.splits)
    have "\<not> mr_needMoreData x" using Cons.prems(1) e x assms(2) pred.outcomes [OF x] by (auto split: if_splits)
    then have "predicate_match p d' = Inr x" using predicate_stable [OF x] Cons.prems(2) [of p] e by auto
    with Cons e x show ?case by (auto split: if_splits)
  qed simp
  with assms matcherList show ?thesis by auto
next
  case (exactMatchTree tr i)
  with assms show ?thesis
    by (auto simp: exactMatchTree_Match_def intro!: handle_stable [where d = d])
qed

lemma match_stable:
  "MatcherTree_Match t d = Inr r \<Longrightarrow> \<not> NeedMoreData r \<Longrightarrow> (\<And>i. i \<in> inputs_of t \<Longrightarrow> steady d d' i) \<Longrightarrow>
     MatcherTree_Match t d' = Inr r"
proof (induction t d rule: MatcherTree_Match.induct)
  case (1 n rt d)
  obtain x where x: "matchRoot_Match rt d = Inr x" using 1(2) by (auto split: sum.splits)
  have nv: "\<not> (MatchResult x \<noteq> None \<and> NeedMoreData x)" by (rule root.no_violation [OF x])
  then have more: "\<not> NeedMoreData x" using 1(2,3) x by (cases "MatchResult x") auto
  have x': "matchRoot_Match rt d' = Inr x"
    by (rule root_stable [OF x more]) (use 1(4) inputs_of_root in blast)
  show ?case
  proof (cases "\<exists>t a. MatchResult x = Some (OnMatch (Some t) a)")
    case True
    then obtain t a where t: "MatchResult x = Some (OnMatch (Some t) a)" by blast
    have rec: "MatcherTree_Match t d = Inr r" using 1(2) x t more by simp
    have "MatcherTree_Match t d' = Inr r"
    proof (rule 1(1) [OF x _ t refl refl rec 1(3)])
      show "\<not> (MatchResult x \<noteq> None \<and> NeedMoreData x)" by (rule nv)
      show "steady d d' i" if "i \<in> inputs_of t" for i
        using inputs_of_sub [OF root_result_in [OF x t], of n] that 1(4) by blast
    qed
    with x' t more show ?thesis by simp
  next
    case False
    with 1(2) x x' more show ?thesis by (auto split: option.splits OnMatch.splits)
  qed
qed

text \<open>C22: A result that does not ask for more data is final, as far as the inputs keep what they promise: when
  more data becomes available (values that were all available stay, the inputs answer without error,
  all else may change), evaluation gives the same result, unless an input of the tree had given a
  partial value, one that more data might still change, and it did change.\<close>

theorem match_result_final:
  assumes "MatcherTree_Match t d = Inr r" and "\<not> NeedMoreData r" and "\<And>i. i \<in> inputs_of t \<Longrightarrow> grows d d' i"
  shows "MatcherTree_Match t d' = Inr r \<or> (\<exists>i\<in>inputs_of t. revised d d' i)"
  using match_stable [OF assms(1,2)] assms(3) unfolding steady_def by blast

section \<open>Evaluation on complete data\<close>











section \<open>Constructed trees\<close>

text \<open>A tree built from registered extensions: every entry of a list has its action or subtree, a node has
  either, the keys of a map are distinct.\<close>

definition registered_input :: "('m, 'd, 'x) matcher_env \<Rightarrow> 'd DataInput \<Rightarrow> bool" where
  "registered_input env i \<longleftrightarrow>
     (\<exists>u factory m. map_of (InputExtensions env) u = Some factory \<and> factory m = Inr (InputValue i))"

definition registered_action :: "('m, 'd, 'x) matcher_env \<Rightarrow> ('d, 'x) Action \<Rightarrow> bool" where
  "registered_action env a \<longleftrightarrow>
     (\<exists>u factory m. map_of (ActionExtensions env) u = Some factory \<and> factory m = Inr a)"

inductive wf_onMatch :: "('m, 'd, 'x) matcher_env \<Rightarrow> ('d, 'x) OnMatch \<Rightarrow> bool"
  and wf_tree :: "('m, 'd, 'x) matcher_env \<Rightarrow> ('d, 'x) MatcherTree \<Rightarrow> bool" for env where
  wf_action: "registered_action env a \<Longrightarrow> wf_onMatch env (OnMatch None a)"
| wf_nested: "wf_tree env t \<Longrightarrow> wf_onMatch env (OnMatch (Some t) NilValue)"
| wf_list: "(\<And>m. n = Some m \<Longrightarrow> wf_onMatch env m) \<Longrightarrow>
    (\<And>p. (None, p) \<notin> set es) \<Longrightarrow> (\<And>m p. (Some m, p) \<in> set es \<Longrightarrow> wf_onMatch env m) \<Longrightarrow>
    (\<And>m p i. (m, p) \<in> set es \<Longrightarrow> i \<in> predicate_inputs p \<Longrightarrow> registered_input env i) \<Longrightarrow>
    wf_tree env (MatcherTree n (matcherList es))"
| wf_map: "(\<And>m. n = Some m \<Longrightarrow> wf_onMatch env m) \<Longrightarrow>
    gomap_ok tr \<Longrightarrow> (\<And>k m. (k, Some m) \<in> set tr \<Longrightarrow> wf_onMatch env m) \<Longrightarrow> registered_input env i \<Longrightarrow>
    wf_tree env (MatcherTree n (exactMatchTree tr i))"

lemma ResolveInput_registered: "ResolveInputExtension env c = Inr i \<Longrightarrow> registered_input env i"
  by (auto simp: ResolveInputExtension_def resolveExtension_def registered_input_def
      split: sum.splits option.splits extension.splits)

lemma ResolveAction_registered: "ResolveActionExtension env c = Inr a \<Longrightarrow> registered_action env a"
  by (auto simp: ResolveActionExtension_def resolveExtension_def registered_action_def
      split: sum.splits option.splits)

lemma createPredicate_inputs:
  "createPredicate env p = Inr q \<Longrightarrow> i \<in> predicate_inputs q \<Longrightarrow> registered_input env i"
  "createPredicates env ps = Inr qs \<Longrightarrow> q \<in> set qs \<Longrightarrow> i \<in> predicate_inputs q \<Longrightarrow> registered_input env i"
  by (induction env p and env ps arbitrary: q and q qs rule: createPredicate_createPredicates.induct)
    (fastforce simp: createSinglePredicate_def split: sum.splits ValueMatcher.splits
      dest: ResolveInput_registered)+

lemma create_wf:
  "create env m = Inr t \<Longrightarrow> wf_tree env t"
  "createOnMatch env om = Inr (Some x) \<Longrightarrow> wf_onMatch env x"
  "createMatcherList env l = Inr es \<Longrightarrow>
     (\<forall>p. (None, p) \<notin> set es) \<and> (\<forall>m p. (Some m, p) \<in> set es \<longrightarrow> wf_onMatch env m) \<and>
     (\<forall>m p i. (m, p) \<in> set es \<longrightarrow> i \<in> predicate_inputs p \<longrightarrow> registered_input env i)"
  "createExactMap env kv tr = Inr tr' \<Longrightarrow> gomap_ok tr \<Longrightarrow> (\<forall>k m. (k, Some m) \<in> set tr \<longrightarrow> wf_onMatch env m) \<Longrightarrow>
     gomap_ok tr' \<and> (\<forall>k m. (k, Some m) \<in> set tr' \<longrightarrow> wf_onMatch env m)"
proof (induction env m and env om and env l and env kv tr arbitrary: t and x and es and tr'
    rule: create_createOnMatch_createMatcherList_createExactMap.induct)
  case (1 env n l)
  obtain nm es where e: "createOnMatch env n = Inr nm" "createMatcherList env l = Inr es"
    "t = MatcherTree nm (matcherList es)" using 1(3) by (auto split: sum.splits)
  have "wf_onMatch env x" if "nm = Some x" for x using 1(1) e(1) that by simp
  with 1(2) [OF e(1,2)] show ?case unfolding e(3) by (intro wf_list) blast+
next
  case (2 env n c m)
  obtain nm i tr where e: "createOnMatch env n = Inr nm" "ResolveInputExtension env c = Inr i"
    "createExactMap env m [] = Inr tr" "t = MatcherTree nm (exactMatchTree tr i)"
    using 2(3) by (auto split: sum.splits)
  have "wf_onMatch env x" if "nm = Some x" for x using 2(1) e(1) that by simp
  with 2(2) [OF e(1,2,3)] show ?case
    unfolding e(4) by (intro wf_map) (auto intro: ResolveInput_registered [OF e(2)])
next
  case (6 env m)
  then show ?case by (auto split: sum.splits intro!: wf_nested)
next
  case (7 env c)
  then show ?case by (auto split: sum.splits intro!: wf_action dest: ResolveAction_registered)
next
  case (10 env pc om rest)
  obtain m p q es' where e: "createOnMatch env om = Inr (Some m)" "pc = Some p" "createPredicate env p = Inr q"
    "createMatcherList env rest = Inr es'" "es = (Some m, q) # es'"
    using 10(3) by (auto split: sum.splits option.splits)
  have "wf_onMatch env m" using 10(1) e(1) by simp
  moreover have "registered_input env i" if "i \<in> predicate_inputs q" for i
    using createPredicate_inputs(1) [OF e(3) that] .
  moreover note 10(2) [OF e(1) refl e(2,3,4)]
  ultimately show ?case unfolding e(5) by auto
next
  case (12 env k v rest tr)
  obtain x where x: "createOnMatch env v = Inr x" using 12(3) by (auto split: sum.splits)
  have "\<forall>k' m. (k', Some m) \<in> set (AList.update k x tr) \<longrightarrow> wf_onMatch env m"
  proof (intro allI impI)
    fix k' m assume "(k', Some m) \<in> set (AList.update k x tr)"
    moreover have "gomap_ok (AList.update k x tr)" using 12(4) by simp
    ultimately have "map_of (AList.update k x tr) k' = Some (Some m)" by (simp only: map_of_iff)
    then show "wf_onMatch env m"
      using 12(1) x 12(5) by (auto split: if_splits dest: map_of_SomeD)
  qed
  with 12(2) [OF x] 12(3,4) x show ?case by simp
qed (auto split: sum.splits)

lemma wf_reaches: "reaches t u \<Longrightarrow> wf_tree env t \<Longrightarrow> wf_tree env u"
proof (induction rule: reaches.induct)
  case (reaches_step t' a t u)
  from reaches_step.prems have "wf_onMatch env (OnMatch (Some t') a)"
    by (cases rule: wf_tree.cases) (use reaches_step.hyps(1) in auto)
  then have "wf_tree env t'" by (cases rule: wf_onMatch.cases)
  then show ?case by (rule reaches_step.IH)
qed

lemma wf_root_inputs: "wf_tree env t \<Longrightarrow> i \<in> root_inputs (mt_matchRoot t) \<Longrightarrow> registered_input env i"
  by (cases rule: wf_tree.cases) auto

text \<open>C24: Create builds well-formed trees only: every entry of a matcher list has something to return, every
  node is either an action from the registry or a subtree, the keys of an exact map are distinct, and
  everything evaluation reads comes from an input of the registry.\<close>

theorem created_tree_well_formed:
  assumes "Create env m = Inr t"
  shows "wf_tree env t \<and> inputs_of t \<subseteq> {i. registered_input env i}"
proof -
  have wf: "wf_tree env t" using assms create_wf(1) by (simp add: Create_def)
  then have "inputs_of t \<subseteq> {i. registered_input env i}"
    using wf_reaches wf_root_inputs by (fastforce simp: inputs_of_def)
  with wf show ?thesis ..
qed

section \<open>Examples\<close>

text \<open>The test extensions, with a decoder that looks at the type URL only and regular expressions that are
  plain strings.\<close>

definition exm_unmarshal :: "any \<Rightarrow> test_message result" where
  "exm_unmarshal a =
     (if any_TypeUrl a = testPrefix @ ''FooInput'' then Inr FooInput
      else if any_TypeUrl a = testPrefix @ ''BarInput'' then Inr (BarInput 1)
      else if any_TypeUrl a = testPrefix @ ''NoDataAvailableInput'' then Inr NoDataAvailableInput
      else if any_TypeUrl a = testPrefix @ ''ErrorInput'' then Inr ErrorInput
      else if any_TypeUrl a = testPrefix @ ''MatchAction'' then Inr MatchActionMessage
      else Inl (External 0))"

definition exm_env :: "(test_message, test_data, test_action) matcher_env" where
  "exm_env = test_env exm_unmarshal (\<lambda>r. Inr (\<lambda>s. s = r))"

definition exm_config :: "string \<Rightarrow> TypedExtensionConfig option" where
  "exm_config name = Some \<lparr>tec_Name = name,
     tec_TypedConfig = Some \<lparr>any_TypeUrl = testPrefix @ name, any_Value = []\<rparr>\<rparr>"

definition exm_single :: "string \<Rightarrow> string \<Rightarrow> Predicate" where
  "exm_single name regex = Predicate_SinglePredicate (exm_config name) (ValueMatch (SafeRegex regex))"

definition exm_action :: pbOnMatch where
  "exm_action = OnMatch_Action (exm_config ''MatchAction'')"

definition exm_list :: "Predicate \<Rightarrow> pbMatcher" where
  "exm_list p = PbMatcher None (Matcher_MatcherList [FieldMatcher (Some p) (Some exm_action)])"

definition exm_map :: "pbOnMatch option \<Rightarrow> pbMatcher" where
  "exm_map n = PbMatcher n (Matcher_MatcherTree (exm_config ''FooInput'') (ExactMatchMap [(''foo'', Some exm_action)]))"

definition exm_data :: "string \<Rightarrow> test_data" where
  "exm_data foo = TestDataValue \<lparr>td_Foo = foo, td_Bar = [''one'', ''two'']\<rparr>"

definition exm_result :: "(test_data, test_action) OnMatch" where
  "exm_result = OnMatch None (OtherValue matchAction)"

definition exm_bar :: "(test_data, test_action) MatcherTree" where
  "exm_bar = MatcherTree None (matcherList [(Some exm_result, singlePredicate (barInput_Input 1) (\<lambda>s. s = ''two''))])"

definition exm_foo :: "(test_data, test_action) OnMatch option \<Rightarrow> (test_data, test_action) MatcherTree" where
  "exm_foo n = MatcherTree n (exactMatchTree [(''foo'', Some exm_result)] fooInput_Input)"

lemmas exm_create = Create_def exm_env_def test_env_def exm_single_def exm_config_def exm_action_def
  createSinglePredicate_def ResolveInputExtension_def ResolveActionExtension_def resolveExtension_def
  exm_unmarshal_def fooInputFactory_def barInputFactory_def matchActionFactory_def testPrefix_def

lemma exm_create_bar: "create exm_env (exm_list (exm_single ''BarInput'' ''two'')) = Inr exm_bar"
  by (simp add: exm_list_def exm_bar_def exm_result_def exm_create)

lemma exm_create_foo: "createOnMatch exm_env n = Inr n' \<Longrightarrow> create exm_env (exm_map n) = Inr (exm_foo n')"
  by (simp add: exm_map_def exm_foo_def exm_result_def) (simp add: exm_create)

lemma exm_match_bar: "MatcherTree_Match exm_bar (exm_data foo) = Inr \<lparr>MatchResult = Some exm_result, NeedMoreData = False\<rparr>"
  by (simp add: exm_bar_def exm_result_def exm_data_def singlePredicate_match_def handlePossiblyMissingInput_def
      barInput_Input_def regexMatcher_match_def word_le_nat_alt)

lemma exm_match_foo: "foo \<noteq> ''foo'' \<Longrightarrow>
    MatcherTree_Match (exm_foo n) (exm_data foo) = Inr \<lparr>MatchResult = n, NeedMoreData = False\<rparr>"
  by (simp add: exm_foo_def exm_data_def exactMatchTree_Match_def handlePossiblyMissingInput_def fooInput_Input_def)

text \<open>A matcher nested under on_no_match is not evaluated: when nothing else matches, the subtree itself is
  returned as the final result, without action, although evaluating it gives the action; a subtree
  under a matching entry is evaluated.\<close>

theorem nested_on_no_match_is_not_evaluated:
  "\<exists>t sub. Create exm_env (exm_map (Some (OnMatch_Matcher (exm_list (exm_single ''BarInput'' ''two''))))) = Inr t \<and>
     MatcherTree_Match t (exm_data ''x'') =
       Inr \<lparr>MatchResult = Some (OnMatch (Some sub) NilValue), NeedMoreData = False\<rparr> \<and>
     MatcherTree_Match sub (exm_data ''x'') =
       Inr \<lparr>MatchResult = Some (OnMatch None (OtherValue matchAction)), NeedMoreData = False\<rparr>"
proof -
  let ?n = "Some (OnMatch (Some exm_bar) NilValue)"
  have "createOnMatch exm_env (Some (OnMatch_Matcher (exm_list (exm_single ''BarInput'' ''two'')))) = Inr ?n"
    by (simp add: exm_create_bar)
  then have "Create exm_env (exm_map (Some (OnMatch_Matcher (exm_list (exm_single ''BarInput'' ''two''))))) =
      Inr (exm_foo ?n)"
    unfolding Create_def by (rule exm_create_foo)
  with exm_match_foo [of "''x''" ?n] exm_match_bar [of "''x''"] show ?thesis
    by (auto simp: exm_result_def)
qed

theorem created_tree_well_formed_witness: "wf_tree exm_env (exm_foo None) \<and> inputs_of (exm_foo None) \<subseteq> {i. registered_input exm_env i}"
  by (rule created_tree_well_formed [of _ "exm_map None"]) (simp add: Create_def exm_create_foo)

lemma reaches_leaf:
  assumes "\<And>m. m \<in> root_results rt \<Longrightarrow> om_Matcher m = None" and "reaches (MatcherTree n rt) u"
  shows "u = MatcherTree n rt"
  using assms(2) by cases (use assms(1) in force)+



theorem match_fails_only_by_input_witness: "\<exists>i\<in>inputs_of (exm_foo None). input_error i OtherData (Errorf ''invlaid matching data type'' [])"
  by (rule match_fails_only_by_input)
    (simp add: exm_foo_def exactMatchTree_Match_def handlePossiblyMissingInput_def fooInput_Input_def)

text \<open>A tree whose first alternative waits for data that the second does not need.\<close>

definition exm_late :: "test_data DataInput" where
  "exm_late d =
     (case d of
        OtherData \<Rightarrow> Inl (External 1)
      | TestDataValue td \<Rightarrow>
          if td_Foo td = '''' then Inr \<lparr>Availability = NotAvailable, Data = None\<rparr>
          else Inr \<lparr>Availability = AllDataAvailable, Data = Some (td_Foo td)\<rparr>)"

definition exm_wait :: "(test_data, test_action) MatcherTree" where
  "exm_wait = MatcherTree None (matcherList [(Some exm_result, disjunctionPredicate
     [singlePredicate exm_late (\<lambda>s. s = ''foo''), singlePredicate (barInput_Input 1) (\<lambda>s. s = ''two'')])])"

lemma inputs_exm_wait: "inputs_of exm_wait = {exm_late, barInput_Input 1}"
proof -
  have "u = exm_wait" if "reaches exm_wait u" for u
    using that unfolding exm_wait_def by (rule reaches_leaf [rotated]) (auto simp: exm_result_def)
  moreover have "reaches exm_wait exm_wait" by (rule reaches_refl)
  ultimately have "reaches exm_wait u \<longleftrightarrow> u = exm_wait" for u by blast
  then show ?thesis by (auto simp: inputs_of_def exm_wait_def)
qed

theorem match_result_final_witness:
  "MatcherTree_Match exm_wait (exm_data ''bar'') = Inr \<lparr>MatchResult = Some exm_result, NeedMoreData = False\<rparr>"
proof -
  have "MatcherTree_Match exm_wait (exm_data '''') = Inr \<lparr>MatchResult = Some exm_result, NeedMoreData = False\<rparr>"
    by (simp add: exm_wait_def exm_data_def exm_result_def singlePredicate_match_def handlePossiblyMissingInput_def
        barInput_Input_def exm_late_def regexMatcher_match_def word_le_nat_alt)
  moreover have "grows (exm_data '''') (exm_data ''bar'') i" if "i \<in> inputs_of exm_wait" for i
    using that by (auto simp: inputs_exm_wait grows_def input_ok_def exm_data_def exm_late_def barInput_Input_def)
  moreover have "\<not> revised (exm_data '''') (exm_data ''bar'') i" if "i \<in> inputs_of exm_wait" for i
    using that by (auto simp: inputs_exm_wait revised_def exm_data_def exm_late_def barInput_Input_def split: if_splits)
  ultimately show ?thesis using match_result_final [of exm_wait "exm_data ''''" _ "exm_data ''bar''"] by fastforce
qed

text \<open>The exception is real: a list that matched on the beginning of a value says that the match is final and
  gives another result once the whole value is there.\<close>

definition exm_stream :: "test_data DataInput" where
  "exm_stream d =
     (case d of
        OtherData \<Rightarrow> Inl (External 1)
      | TestDataValue td \<Rightarrow>
          if td_Foo td = ''fo'' then Inr \<lparr>Availability = MoreDataMightBeAvailable, Data = Some ''fo''\<rparr>
          else Inr \<lparr>Availability = AllDataAvailable, Data = Some (td_Foo td)\<rparr>)"

definition exm_eager :: "(test_data, test_action) MatcherTree" where
  "exm_eager = MatcherTree None (matcherList [(Some exm_result, singlePredicate exm_stream (\<lambda>s. s = ''fo''))])"

lemma eager_match_revised:
  "MatcherTree_Match exm_eager (exm_data ''fo'') = Inr \<lparr>MatchResult = Some exm_result, NeedMoreData = False\<rparr> \<and>
   MatcherTree_Match exm_eager (exm_data ''foo'') = Inr \<lparr>MatchResult = None, NeedMoreData = False\<rparr> \<and>
   grows (exm_data ''fo'') (exm_data ''foo'') exm_stream \<and> revised (exm_data ''fo'') (exm_data ''foo'') exm_stream"
  by (simp add: exm_eager_def exm_data_def exm_result_def singlePredicate_match_def handlePossiblyMissingInput_def
      exm_stream_def regexMatcher_match_def grows_def revised_def input_ok_def)

end
