(* ===== verification/Conversion.thy ===== *)
theory Conversion
  imports Go_Prelude
begin

text \<open>
  The conversion between messages and \<open>Struct\<close> values, \<open>src/pkg/conversion/struct.go\<close>. Both go through JSON;
  the JSON coding of protobuf is given by the parameters. A nil message or struct is \<open>None\<close>.
\<close>

section \<open>Definitions\<close>

definition MessageToStruct ::
  "('m \<Rightarrow> 'j result) \<Rightarrow> ('j \<Rightarrow> 's result) \<Rightarrow> 'm option \<Rightarrow> 's result" where
  "MessageToStruct marshal unmarshalStruct msg =
     (case msg of
        None \<Rightarrow> Inl (Errorf ''nil message'' [])
      | Some m \<Rightarrow> (case marshal m of Inl e \<Rightarrow> Inl e | Inr b \<Rightarrow> unmarshalStruct b))"

definition StructToMessage ::
  "('s \<Rightarrow> 'j result) \<Rightarrow> ('j \<Rightarrow> 'm result) \<Rightarrow> 's option \<Rightarrow> 'm result" where
  "StructToMessage marshalStruct unmarshal pbst =
     (case pbst of
        None \<Rightarrow> Inl (Errorf ''nil struct'' [])
      | Some s \<Rightarrow> (case marshalStruct s of Inl e \<Rightarrow> Inl e | Inr b \<Rightarrow> unmarshal b))"

section \<open>Lemmas\<close>

text \<open>The two are inverse whenever decoding undoes encoding, for messages and for structs.\<close>

lemma StructToMessage_MessageToStruct:
  assumes "MessageToStruct marshal unmarshalStruct (Some m) = Inr s"
    and "\<And>x b. marshal x = Inr b \<Longrightarrow> unmarshal b = Inr x"
    and "\<And>y b. unmarshalStruct b = Inr y \<Longrightarrow> marshalStruct y = Inr b"
  shows "StructToMessage marshalStruct unmarshal (Some s) = Inr m"
  using assms by (auto simp: MessageToStruct_def StructToMessage_def split: sum.splits)

end
