(* ===== verification/Test_Callbacks.thy ===== *)
theory Test_Callbacks
  imports Rest_Server Sotw_Stream
begin

text \<open>
  The services of the integration test that run beside the server: the counting callbacks of
  \<open>src/pkg/test/v3/callbacks.go\<close> and the access log service of \<open>src/pkg/test/v3/accesslog.go\<close>.

  Each method holds the mutex, so it is one function on the state. \<open>tcb_closed\<close> lists the channels that were
  closed; printing to the standard log is left out, except that it reads \<open>node.Id\<close>, which panics when the node
  is nil. \<open>time.Now()\<close> is the parameter \<open>now\<close>, by the number of its calls.
\<close>

section \<open>Definitions\<close>

subsection \<open>Callbacks\<close>

record test_Callbacks =
  tcb_Signal :: "chan option"
  tcb_Debug :: bool
  tcb_Fetches :: "64 word"
  tcb_Requests :: "64 word"
  tcb_Responses :: "64 word"
  tcb_DeltaRequests :: "64 word"
  tcb_DeltaResponses :: "64 word"
  tcb_closed :: "chan list"

text \<open>The first request of any kind closes the signal, and the field is cleared so that it is closed once.\<close>

definition closeSignal :: "test_Callbacks \<Rightarrow> test_Callbacks" where
  "closeSignal cb =
     (case tcb_Signal cb of
        None \<Rightarrow> cb
      | Some ch \<Rightarrow> cb\<lparr>tcb_closed := tcb_closed cb @ [ch], tcb_Signal := None\<rparr>)"

definition test_OnStreamOpen ::
  "go_context \<Rightarrow> 64 word \<Rightarrow> string \<Rightarrow> test_Callbacks \<Rightarrow> error option \<times> test_Callbacks" where
  "test_OnStreamOpen ctx streamID typ cb = (None, cb)"

definition test_OnStreamClosed :: "64 word \<Rightarrow> Node option \<Rightarrow> test_Callbacks \<Rightarrow> test_Callbacks result" where
  "test_OnStreamClosed streamID node cb =
     (if tcb_Debug cb \<and> node = None then Inl (Panic ''nil pointer dereference'') else Inr cb)"

definition test_OnDeltaStreamOpen ::
  "go_context \<Rightarrow> 64 word \<Rightarrow> string \<Rightarrow> test_Callbacks \<Rightarrow> error option \<times> test_Callbacks" where
  "test_OnDeltaStreamOpen ctx streamID typ cb = (None, cb)"

definition test_OnDeltaStreamClosed :: "64 word \<Rightarrow> Node option \<Rightarrow> test_Callbacks \<Rightarrow> test_Callbacks result" where
  "test_OnDeltaStreamClosed streamID node cb =
     (if tcb_Debug cb \<and> node = None then Inl (Panic ''nil pointer dereference'') else Inr cb)"

definition test_OnStreamRequest ::
  "64 word \<Rightarrow> DiscoveryRequest \<Rightarrow> test_Callbacks \<Rightarrow> error option \<times> test_Callbacks" where
  "test_OnStreamRequest streamID req cb = (None, closeSignal (cb\<lparr>tcb_Requests := tcb_Requests cb + 1\<rparr>))"

definition test_OnStreamResponse ::
  "go_context \<Rightarrow> 64 word \<Rightarrow> DiscoveryRequest option \<Rightarrow> DiscoveryResponse \<Rightarrow> test_Callbacks \<Rightarrow> test_Callbacks" where
  "test_OnStreamResponse ctx streamID req resp cb = cb\<lparr>tcb_Responses := tcb_Responses cb + 1\<rparr>"

definition test_OnStreamDeltaRequest ::
  "64 word \<Rightarrow> DeltaDiscoveryRequest \<Rightarrow> test_Callbacks \<Rightarrow> error option \<times> test_Callbacks" where
  "test_OnStreamDeltaRequest streamID req cb =
     (None, closeSignal (cb\<lparr>tcb_DeltaRequests := tcb_DeltaRequests cb + 1\<rparr>))"

definition test_OnStreamDeltaResponse ::
  "64 word \<Rightarrow> DeltaDiscoveryRequest option \<Rightarrow> DeltaDiscoveryResponse \<Rightarrow> test_Callbacks \<Rightarrow> test_Callbacks" where
  "test_OnStreamDeltaResponse streamID req resp cb = cb\<lparr>tcb_DeltaResponses := tcb_DeltaResponses cb + 1\<rparr>"

definition test_OnFetchRequest ::
  "go_context \<Rightarrow> DiscoveryRequest \<Rightarrow> test_Callbacks \<Rightarrow> error option \<times> test_Callbacks" where
  "test_OnFetchRequest ctx req cb = (None, closeSignal (cb\<lparr>tcb_Fetches := tcb_Fetches cb + 1\<rparr>))"

definition test_OnFetchResponse ::
  "DiscoveryRequest \<Rightarrow> DiscoveryResponse option \<Rightarrow> test_Callbacks \<Rightarrow> test_Callbacks" where
  "test_OnFetchResponse req resp cb = cb"

text \<open>As an implementation of the interface of the servers. The servers call the two closing callbacks
  with the node of the stream, which is never nil.\<close>

definition test_callbacks :: "test_Callbacks Callbacks" where
  "test_callbacks =
     \<lparr>cbs_rest = \<lparr>cb_OnFetchRequest = test_OnFetchRequest, cb_OnFetchResponse = test_OnFetchResponse\<rparr>,
      cbs_sotw =
        \<lparr>cb_OnStreamOpen = test_OnStreamOpen,
         cb_OnStreamClosed = (\<lambda>streamID node cb. case test_OnStreamClosed streamID node cb of Inl e \<Rightarrow> cb | Inr cb' \<Rightarrow> cb'),
         cb_OnStreamRequest = test_OnStreamRequest, cb_OnStreamResponse = test_OnStreamResponse\<rparr>,
      cbs_delta =
        \<lparr>cb_OnDeltaStreamOpen = test_OnDeltaStreamOpen,
         cb_OnDeltaStreamClosed =
           (\<lambda>streamID node cb. case test_OnDeltaStreamClosed streamID node cb of Inl e \<Rightarrow> cb | Inr cb' \<Rightarrow> cb'),
         cb_OnStreamDeltaRequest = test_OnStreamDeltaRequest,
         cb_OnStreamDeltaResponse = test_OnStreamDeltaResponse\<rparr>\<rparr>"

text \<open>The calls of the servers, which arrive from many goroutines in some order.\<close>

datatype callback_call =
    CallStreamRequest "64 word" DiscoveryRequest
  | CallStreamResponse go_context "64 word" "DiscoveryRequest option" DiscoveryResponse
  | CallDeltaRequest "64 word" DeltaDiscoveryRequest
  | CallDeltaResponse "64 word" "DeltaDiscoveryRequest option" DeltaDiscoveryResponse
  | CallFetchRequest go_context DiscoveryRequest
  | CallFetchResponse DiscoveryRequest "DiscoveryResponse option"

fun run_call :: "callback_call \<Rightarrow> test_Callbacks \<Rightarrow> test_Callbacks" where
  "run_call (CallStreamRequest streamID req) cb = snd (test_OnStreamRequest streamID req cb)"
| "run_call (CallStreamResponse ctx streamID req resp) cb = test_OnStreamResponse ctx streamID req resp cb"
| "run_call (CallDeltaRequest streamID req) cb = snd (test_OnStreamDeltaRequest streamID req cb)"
| "run_call (CallDeltaResponse streamID req resp) cb = test_OnStreamDeltaResponse streamID req resp cb"
| "run_call (CallFetchRequest ctx req) cb = snd (test_OnFetchRequest ctx req cb)"
| "run_call (CallFetchResponse req resp) cb = test_OnFetchResponse req resp cb"

fun is_request :: "callback_call \<Rightarrow> bool" where
  "is_request (CallStreamRequest _ _) = True"
| "is_request (CallDeltaRequest _ _) = True"
| "is_request (CallFetchRequest _ _) = True"
| "is_request _ = False"

subsection \<open>The access log service\<close>

record AccessLogService =
  als_entries :: "string list"
  als_now :: nat \<comment> \<open>how often the clock was read\<close>

definition als_log :: "string \<Rightarrow> AccessLogService \<Rightarrow> AccessLogService" where
  "als_log entry svc = svc\<lparr>als_entries := als_entries svc @ [entry]\<rparr>"

text \<open>\<open>Dump f\<close> calls \<open>f\<close> on every entry, in order, and clears the list.\<close>

definition Dump :: "(string \<Rightarrow> 'o \<Rightarrow> 'o) \<Rightarrow> AccessLogService \<Rightarrow> 'o \<Rightarrow> AccessLogService \<times> 'o" where
  "Dump f svc out = (svc\<lparr>als_entries := []\<rparr>, fold f (als_entries svc) out)"

text \<open>Log messages, by the fields that are printed; an address is given by its printed form. A missing
  submessage reads as the empty one.\<close>

record AccessLogCommon =
  alc_UpstreamCluster :: string
  alc_UpstreamLocalAddress :: string

record HTTPRequestProperties =
  hrq_Authority :: string
  hrq_Path :: string
  hrq_Scheme :: string
  hrq_RequestId :: string

record HTTPAccessLogEntry =
  hle_Common :: "AccessLogCommon option"
  hle_Request :: "HTTPRequestProperties option"
  hle_ResponseCode :: "32 word option option" \<comment> \<open>the response, and in it the wrapped code\<close>

datatype log_entries =
    NoLogEntries
  | HttpLogs "HTTPAccessLogEntry option list"
  | TcpLogs "AccessLogCommon option option list"

record StreamAccessLogsMessage =
  slm_Identifier :: "string option" \<comment> \<open>the log name of the identifier\<close>
  slm_LogEntries :: log_entries

definition join_fields :: "string list \<Rightarrow> string" where
  "join_fields fs = concat (map (\<lambda>f. '' '' @ f) fs)"

definition http_line :: "string \<Rightarrow> string \<Rightarrow> HTTPAccessLogEntry \<Rightarrow> string" where
  "http_line logName time entry =
     (let common = (case hle_Common entry of None \<Rightarrow> \<lparr>alc_UpstreamCluster = '''', alc_UpstreamLocalAddress = ''''\<rparr>
                    | Some c \<Rightarrow> c);
          req = (case hle_Request entry of
                   None \<Rightarrow> \<lparr>hrq_Authority = '''', hrq_Path = '''', hrq_Scheme = '''', hrq_RequestId = ''''\<rparr>
                 | Some r \<Rightarrow> r);
          code = (case hle_ResponseCode entry of Some (Some c) \<Rightarrow> c | _ \<Rightarrow> 0)
      in ''['' @ logName @ time @ '']'' @
         join_fields [hrq_Authority req, hrq_Path req, hrq_Scheme req, dec_nat (unat code), hrq_RequestId req,
                      alc_UpstreamCluster common])"

definition tcp_line :: "string \<Rightarrow> string \<Rightarrow> AccessLogCommon option \<Rightarrow> string" where
  "tcp_line logName time entry =
     (let common = (case entry of None \<Rightarrow> \<lparr>alc_UpstreamCluster = '''', alc_UpstreamLocalAddress = ''''\<rparr>
                    | Some c \<Rightarrow> c)
      in ''['' @ logName @ time @ ''] tcp'' @
         join_fields [alc_UpstreamLocalAddress common, alc_UpstreamCluster common])"

text \<open>The loops over the entries of one message: nil entries are skipped.\<close>

definition log_entry :: "(nat \<Rightarrow> string) \<Rightarrow> (string \<Rightarrow> 'e \<Rightarrow> string) \<Rightarrow> 'e option \<Rightarrow> AccessLogService \<Rightarrow> AccessLogService" where
  "log_entry now line entry svc =
     (case entry of
        None \<Rightarrow> svc
      | Some e \<Rightarrow> als_log (line (now (als_now svc)) e) (svc\<lparr>als_now := Suc (als_now svc)\<rparr>))"

definition log_message ::
  "(nat \<Rightarrow> string) \<Rightarrow> string \<Rightarrow> StreamAccessLogsMessage \<Rightarrow> AccessLogService \<Rightarrow> AccessLogService" where
  "log_message now logName msg svc =
     (case slm_LogEntries msg of
        NoLogEntries \<Rightarrow> svc
      | HttpLogs entries \<Rightarrow> fold (log_entry now (http_line logName)) entries svc
      | TcpLogs entries \<Rightarrow> fold (log_entry now (tcp_line logName)) entries svc)"

text \<open>\<open>StreamAccessLogs\<close> over the results of \<open>Recv\<close>. \<open>None\<close>: all were consumed and the loop waits for more.\<close>

fun StreamAccessLogs ::
  "(nat \<Rightarrow> string) \<Rightarrow> string \<Rightarrow> StreamAccessLogsMessage result list \<Rightarrow> AccessLogService \<Rightarrow>
     AccessLogService \<times> error option option" where
  "StreamAccessLogs now logName [] svc = (svc, None)"
| "StreamAccessLogs now logName (Inl err # rest) svc =
     (if unwrapped err = EOF then (svc, Some None) else (svc, Some (Some err)))"
| "StreamAccessLogs now logName (Inr msg # rest) svc =
     (let logName = (case slm_Identifier msg of None \<Rightarrow> logName | Some name \<Rightarrow> name) in
      StreamAccessLogs now logName rest (log_message now logName msg svc))"

subsection \<open>What is logged\<close>

text \<open>The log name in force at a message is the last one given up to it.\<close>

definition current_name :: "string \<Rightarrow> StreamAccessLogsMessage list \<Rightarrow> string" where
  "current_name logName msgs = last (logName # List.map_filter slm_Identifier msgs)"

text \<open>The printed entries of one message, by the time they are printed at.\<close>

definition message_lines :: "string \<Rightarrow> StreamAccessLogsMessage \<Rightarrow> (string \<Rightarrow> string) list" where
  "message_lines logName msg =
     (case slm_LogEntries msg of
        NoLogEntries \<Rightarrow> []
      | HttpLogs entries \<Rightarrow> map (\<lambda>e time. http_line logName time e) (List.map_filter id entries)
      | TcpLogs entries \<Rightarrow> map (\<lambda>e time. tcp_line logName time e) (List.map_filter id entries))"

definition stream_lines :: "string \<Rightarrow> StreamAccessLogsMessage list \<Rightarrow> (string \<Rightarrow> string) list" where
  "stream_lines logName msgs =
     concat (map (\<lambda>i. message_lines (current_name logName (take (Suc i) msgs)) (msgs ! i)) [0..<length msgs])"

text \<open>Lines printed one after the other, from the \<open>n\<close>-th reading of the clock.\<close>

primrec print_lines :: "(nat \<Rightarrow> string) \<Rightarrow> nat \<Rightarrow> (string \<Rightarrow> string) list \<Rightarrow> string list" where
  "print_lines now n [] = []"
| "print_lines now n (l # ls) = l (now n) # print_lines now (Suc n) ls"

text \<open>A stream on which nothing but the counters matters: the invariant of \<open>callbacks_count_stream\<close>.\<close>

definition counted :: "test_Callbacks \<Rightarrow> ('c, 'k, test_Callbacks) sotw_state \<Rightarrow> bool" where
  "counted cb0 s \<longleftrightarrow>
     (let cb = ss_callbacks s in
      tcb_Responses cb = tcb_Responses cb0 + of_nat (length (sw_sent (ss_stream s))) \<and>
      tcb_DeltaRequests cb = tcb_DeltaRequests cb0 \<and> tcb_DeltaResponses cb = tcb_DeltaResponses cb0 \<and>
      tcb_Fetches cb = tcb_Fetches cb0 \<and>
      (if tcb_Signal cb = tcb_Signal cb0
       then tcb_closed cb = tcb_closed cb0 \<and> (tcb_Signal cb0 \<noteq> None \<longrightarrow> tcb_Requests cb = tcb_Requests cb0)
       else tcb_Signal cb = None \<and> tcb_closed cb = tcb_closed cb0 @ [the (tcb_Signal cb0)]))"

text \<open>An example: a stream on a linear cache, counted.\<close>

definition ex_callbacks :: test_Callbacks where
  "ex_callbacks = \<lparr>tcb_Signal = Some 5, tcb_Debug = False, tcb_Fetches = 0, tcb_Requests = 0, tcb_Responses = 0,
     tcb_DeltaRequests = 0, tcb_DeltaResponses = 0, tcb_closed = []\<rparr>"

definition ex_cb_state :: "(LinearCache, cancel, test_Callbacks) sotw_state" where
  "ex_cb_state = \<lparr>ss_cache = ext_cache, ss_callbacks = ex_callbacks, ss_streamCount = 0, ss_chans = 0,
     ss_pending = [],
     ss_stream = \<lparr>sw_ID = 0, sw_nonce = 0, sw_watches = sotw_newWatches, sw_node = None, sw_sent = []\<rparr>\<rparr>"

section \<open>Lemmas\<close>

lemma counted_send:
  assumes "counted cb0 s" and "sotw_send (srv\<lparr>srv_callbacks := Some (cbs_sotw test_callbacks)\<rparr>) env resp s = (s', e)"
  shows "counted cb0 s'"
  using assms unfolding sotw_send_def
  by (auto simp: Let_def counted_def test_callbacks_def test_OnStreamResponse_def
      split: option.splits if_splits sum.splits)

lemma counted_request:
  assumes "counted cb0 s" and "onStreamRequest (srv\<lparr>srv_callbacks := Some (cbs_sotw test_callbacks)\<rparr>) req s = (s', e)"
  shows "counted cb0 s'"
  using assms
  by (cases "tcb_Signal cb0") (auto simp: onStreamRequest_def counted_def Let_def test_callbacks_def test_OnStreamRequest_def closeSignal_def
      split: option.splits if_splits)

lemma counted_frame:
  "counted cb0 s \<Longrightarrow> ss_callbacks s' = ss_callbacks s \<Longrightarrow> sw_nonce (ss_stream s') = sw_nonce (ss_stream s) \<Longrightarrow>
     sw_sent (ss_stream s') = sw_sent (ss_stream s) \<Longrightarrow> counted cb0 s'"
  by (simp add: counted_def)

interpretation counting: stream_invariant "srv\<lparr>srv_callbacks := Some (cbs_sotw test_callbacks)\<rparr>" env "counted cb0"
  for srv env cb0
  by unfold_locales (rule counted_send counted_request counted_frame, assumption+)+

subsection \<open>Access logs\<close>

lemma print_lines_append:
  "print_lines now n (ls @ ls') = print_lines now n ls @ print_lines now (n + length ls) ls'"
  by (induction ls arbitrary: n) simp_all

lemma log_entry_simps [simp]:
  "log_entry now line None svc = svc"
  "log_entry now line (Some e) svc =
     svc\<lparr>als_now := Suc (als_now svc), als_entries := als_entries svc @ [line (now (als_now svc)) e]\<rparr>"
  by (simp_all add: log_entry_def als_log_def)

lemma log_entries_fold:
  "fold (log_entry now line) es svc =
     svc\<lparr>als_entries := als_entries svc @
           print_lines now (als_now svc) (map (\<lambda>e time. line time e) (List.map_filter id es)),
         als_now := als_now svc + length (List.map_filter id es)\<rparr>"
proof (induction es arbitrary: svc)
  case (Cons e es)
  show ?case by (cases e) (simp_all add: Cons.IH List.map_filter_simps)
qed (simp add: List.map_filter_simps)

lemma log_message_lines:
  "log_message now logName msg svc =
     svc\<lparr>als_entries := als_entries svc @ print_lines now (als_now svc) (message_lines logName msg),
         als_now := als_now svc + length (message_lines logName msg)\<rparr>"
  by (simp add: log_message_def message_lines_def log_entries_fold split: log_entries.splits)

lemma stream_lines_Cons:
  "stream_lines logName (msg # msgs) =
     (let logName = (case slm_Identifier msg of None \<Rightarrow> logName | Some name \<Rightarrow> name)
      in message_lines logName msg @ stream_lines logName msgs)"
proof -
  have name: "current_name logName (msg # ms) =
      current_name (case slm_Identifier msg of None \<Rightarrow> logName | Some name \<Rightarrow> name) ms" for ms
    by (auto simp: current_name_def List.map_filter_simps split: option.splits)
  show ?thesis
    unfolding stream_lines_def Let_def length_Cons upt_conv_Cons [OF zero_less_Suc] map_Suc_upt [symmetric]
    by (simp add: name comp_def) (simp add: current_name_def List.map_filter_simps)
qed

lemma StreamAccessLogs_lines:
  "StreamAccessLogs now logName (map Inr msgs @ rest) svc =
     StreamAccessLogs now (current_name logName msgs) rest
       (svc\<lparr>als_entries := als_entries svc @ print_lines now (als_now svc) (stream_lines logName msgs),
            als_now := als_now svc + length (stream_lines logName msgs)\<rparr>)"
proof (induction msgs arbitrary: logName svc)
  case Nil
  show ?case by (simp add: current_name_def List.map_filter_simps stream_lines_def)
next
  case (Cons msg msgs)
  have name: "current_name logName (msg # msgs) =
      current_name (case slm_Identifier msg of None \<Rightarrow> logName | Some name \<Rightarrow> name) msgs"
    by (auto simp: current_name_def List.map_filter_simps split: option.splits)
  show ?case
    by (simp add: Cons.IH name Let_def stream_lines_Cons print_lines_append log_message_lines add.assoc)
qed

section \<open>Properties\<close>

text \<open>Whatever the order in which the servers call the callbacks, each counter counts its calls (modulo
  \<open>2 ^ 64\<close>), and the signal is closed exactly once, by the first request of any kind, or never.\<close>

theorem callbacks_count:
  "let cb' = fold run_call calls cb in
   tcb_Requests cb' = tcb_Requests cb + of_nat (length (filter (\<lambda>c. case c of CallStreamRequest _ _ \<Rightarrow> True | _ \<Rightarrow> False) calls)) \<and>
   tcb_Responses cb' = tcb_Responses cb + of_nat (length (filter (\<lambda>c. case c of CallStreamResponse _ _ _ _ \<Rightarrow> True | _ \<Rightarrow> False) calls)) \<and>
   tcb_DeltaRequests cb' = tcb_DeltaRequests cb + of_nat (length (filter (\<lambda>c. case c of CallDeltaRequest _ _ \<Rightarrow> True | _ \<Rightarrow> False) calls)) \<and>
   tcb_DeltaResponses cb' = tcb_DeltaResponses cb + of_nat (length (filter (\<lambda>c. case c of CallDeltaResponse _ _ _ \<Rightarrow> True | _ \<Rightarrow> False) calls)) \<and>
   tcb_Fetches cb' = tcb_Fetches cb + of_nat (length (filter (\<lambda>c. case c of CallFetchRequest _ _ \<Rightarrow> True | _ \<Rightarrow> False) calls)) \<and>
   tcb_Signal cb' = (if \<exists>c\<in>set calls. is_request c then None else tcb_Signal cb) \<and>
   tcb_closed cb' = tcb_closed cb @
     (if \<exists>c\<in>set calls. is_request c then case tcb_Signal cb of None \<Rightarrow> [] | Some ch \<Rightarrow> [ch] else [])"
proof (induction calls arbitrary: cb)
  case (Cons c calls)
  from Cons.IH [of "run_call c cb"] show ?case
    by (cases c; cases "tcb_Signal cb")
      (auto simp: Let_def test_OnStreamRequest_def test_OnStreamResponse_def test_OnStreamDeltaRequest_def
        test_OnStreamDeltaResponse_def test_OnFetchRequest_def test_OnFetchResponse_def closeSignal_def)
qed simp

text \<open>C29: the counters against a running server. On a state-of-the-world stream of a server with the test
  callbacks and any cache, \<open>Responses\<close> grows by the number of responses passed to \<open>Send\<close>, the counters of the
  other protocols do not move, and the signal is closed at most once: either it is still open and no request
  was counted, or it was closed once and cleared.\<close>

theorem callbacks_count_stream:
  assumes "StreamHandler (server_sotw (NewServer cache (Some test_callbacks) opts)) env typeURL recvs choices s = (s', r)"
    and "tcb_Signal (ss_callbacks s) = Some ch"
  shows "tcb_Responses (ss_callbacks s') = tcb_Responses (ss_callbacks s) + of_nat (length (sw_sent (ss_stream s'))) \<and>
    tcb_DeltaRequests (ss_callbacks s') = tcb_DeltaRequests (ss_callbacks s) \<and>
    tcb_DeltaResponses (ss_callbacks s') = tcb_DeltaResponses (ss_callbacks s) \<and>
    tcb_Fetches (ss_callbacks s') = tcb_Fetches (ss_callbacks s) \<and>
    (tcb_Signal (ss_callbacks s') = Some ch \<and> tcb_closed (ss_callbacks s') = tcb_closed (ss_callbacks s) \<and>
       tcb_Requests (ss_callbacks s') = tcb_Requests (ss_callbacks s) \<or>
     tcb_Signal (ss_callbacks s') = None \<and> tcb_closed (ss_callbacks s') = tcb_closed (ss_callbacks s) @ [ch])"
proof -
  let ?srv = "server_sotw (NewServer cache (Some test_callbacks) opts)"
  have srv: "?srv = ?srv\<lparr>srv_callbacks := Some (cbs_sotw test_callbacks)\<rparr>"
    by (simp add: NewServer_def NewServerAdvanced_def sotw_NewServer_def)
  have "counted (ss_callbacks s) s'"
  proof (rule counting.process)
    show "process (?srv\<lparr>srv_callbacks := Some (cbs_sotw test_callbacks)\<rparr>) env typeURL
        (schedule choices (recvLoop recvs)) s = (s', r)"
      using assms(1) srv by (simp add: StreamHandler_def)
    show "counted (ss_callbacks s) s1"
      if "stream_open (?srv\<lparr>srv_callbacks := Some (cbs_sotw test_callbacks)\<rparr>) env typeURL s = (s1, e)" for s1 e
      using that by (auto simp: stream_open_def Let_def counted_def test_callbacks_def test_OnStreamOpen_def)
    show "counted (ss_callbacks s) (shutdown (?srv\<lparr>srv_callbacks := Some (cbs_sotw test_callbacks)\<rparr>) s1)"
      if "counted (ss_callbacks s) s1" for s1
      using that by (auto simp: shutdown_def Let_def counted_def test_callbacks_def test_OnStreamClosed_def)
  qed
  with assms(2) show ?thesis by (auto simp: counted_def Let_def split: if_splits)
qed

theorem callbacks_count_stream_witness:
  "\<exists>s'. StreamHandler (server_sotw (NewServer linear_cache (Some test_callbacks) [])) ext_env ''T''
       [Inr (Some (ext_request ''''))] [TakeRequest, TakeResponse 2] ex_cb_state = (s', None) \<and>
     tcb_Responses (ss_callbacks s') = of_nat (length (sw_sent (ss_stream s'))) \<and>
     length (sw_sent (ss_stream s')) = 1 \<and> tcb_closed (ss_callbacks s') = [5]"
proof -
  obtain s' r where run: "StreamHandler (server_sotw (NewServer linear_cache (Some test_callbacks) [])) ext_env ''T''
       [Inr (Some (ext_request ''''))] [TakeRequest, TakeResponse 2] ex_cb_state = (s', r)"
    by (cases "StreamHandler (server_sotw (NewServer linear_cache (Some test_callbacks) [])) ext_env ''T''
       [Inr (Some (ext_request ''''))] [TakeRequest, TakeResponse 2] ex_cb_state")
  have "r = None \<and> length (sw_sent (ss_stream s')) = 1 \<and> tcb_Signal (ss_callbacks s') = None"
    using run
    by (simp add: StreamHandler_def stream_eval ext_defs ex_cb_state_def NewServer_def NewServerAdvanced_def
        test_callbacks_def test_OnStreamOpen_def test_OnStreamRequest_def test_OnStreamResponse_def closeSignal_def
        ex_callbacks_def Let_def ext_sub_eq ext_create [unfolded ext_sub_def] AnyType_def ext_response_def ext_sub_def) auto
  with callbacks_count_stream [OF run, of 5] run show ?thesis
    by (simp add: ex_cb_state_def ex_callbacks_def)
qed

text \<open>The access log service keeps every entry of every message, in order and under the log name in force,
  until it is dumped. After a stream of messages that ends, \<open>StreamAccessLogs\<close> returns no error, the next \<open>Dump\<close>
  hands over the earlier entries and one line per entry that is not nil, and a second one nothing.\<close>

theorem access_log_roundtrip:
  "\<exists>svc'. StreamAccessLogs now '''' (map Inr msgs @ [Inl EOF]) svc = (svc', Some None) \<and>
     Dump f svc' out =
       (svc'\<lparr>als_entries := []\<rparr>,
        fold f (als_entries svc @ print_lines now (als_now svc) (stream_lines '''' msgs)) out) \<and>
     snd (Dump f (fst (Dump f svc' out)) out') = out'"
  by (simp add: StreamAccessLogs_lines Dump_def)

end
