(* ===== verification/Envoy_Messages.thy ===== *)
theory Envoy_Messages
  imports Snapshot
begin

text \<open>
  The Envoy messages that the sample resources are made of (\<open>src/pkg/test/resource/v3\<close>,
  \<open>src/internal/example/resource.go\<close>, \<open>src/examples/dyplomat/main.go\<close>), by the fields these sources set.
  A field that a composite literal leaves out has the zero value of its type, a oneof is a datatype, a
  message pointer that may be nil is an option.

  The caches read only some fields of a resource. \<open>to_resource\<close> gives the \<open>Resource\<close> they see; what they do
  not read becomes one opaque string by the parameter \<open>pb_rest\<close>. \<open>anypb.New\<close> is code of the protobuf
  module: the parameter \<open>pb_New\<close>. \<open>codec_for\<close> is the documented relation to \<open>anypb.UnmarshalTo\<close>: what was
  packed as one message type is unpacked as that type and refused as any other.
\<close>

section \<open>Definitions\<close>

subsection \<open>Addresses and endpoints\<close>

datatype socket_protocol = TCP | UDP

record SocketAddress =
  sa_Protocol :: socket_protocol
  sa_Address :: string
  sa_PortValue :: "32 word"

datatype Address = Address_SocketAddress SocketAddress

datatype LbEndpoint_msg = LbEndpoint_Endpoint Address

record LocalityLbEndpoints =
  lle_LbEndpoints :: "LbEndpoint_msg list"

record ClusterLoadAssignment =
  cla_ClusterName :: string
  cla_Endpoints :: "LocalityLbEndpoints list"

subsection \<open>Configuration sources\<close>

datatype ApiVersion = ApiVersion_AUTO | ApiVersion_V2 | ApiVersion_V3

definition DefaultAPIVersion :: ApiVersion where
  "DefaultAPIVersion = ApiVersion_V3"

datatype ApiType = ApiConfigSource_REST | ApiConfigSource_GRPC | ApiConfigSource_DELTA_GRPC

datatype GrpcService = GrpcService_EnvoyGrpc string \<comment> \<open>the cluster name\<close>

record ApiConfigSource =
  acs_ApiType :: ApiType
  acs_TransportApiVersion :: ApiVersion
  acs_SetNodeOnFirstMessageOnly :: bool
  acs_GrpcServices :: "GrpcService list"
  acs_ClusterNames :: "string list"
  acs_RefreshDelay :: "duration option"

datatype ConfigSourceSpecifier =
  NoConfigSource | ConfigSource_Ads | ConfigSource_ApiConfigSource ApiConfigSource

record ConfigSource =
  cs_ResourceApiVersion :: ApiVersion
  cs_ConfigSourceSpecifier :: ConfigSourceSpecifier

subsection \<open>Clusters\<close>

record EdsClusterConfig =
  eds_EdsConfig :: ConfigSource
  eds_ServiceName :: string

datatype LbPolicy = ROUND_ROBIN | LEAST_REQUEST | RING_HASH | RANDOM

datatype DnsLookupFamily = AUTO | V4_ONLY | V6_ONLY

record Cluster_msg =
  clm_Name :: string
  clm_ConnectTimeout :: duration
  clm_ClusterDiscoveryType :: cluster_discovery
  clm_EdsClusterConfig :: "EdsClusterConfig option"
  clm_LbPolicy :: LbPolicy
  clm_LoadAssignment :: "ClusterLoadAssignment option"
  clm_DnsLookupFamily :: DnsLookupFamily

subsection \<open>Routes\<close>

record RouteAction =
  ra_Cluster :: string
  ra_HostRewriteLiteral :: "string option"

record Route_msg =
  rte_MatchPrefix :: string
  rte_Action :: RouteAction

record VirtualHost_msg =
  vh_Name :: string
  vh_Domains :: "string list"
  vh_Routes :: "Route_msg list"

record RouteConfiguration =
  rc_Name :: string
  rc_VirtualHosts :: "VirtualHost_msg list"
  rc_Vhds :: "ConfigSource option"

record ScopedRouteConfiguration =
  srte_OnDemand :: bool
  srte_Name :: string
  srte_RouteConfigurationName :: string
  srte_Key :: "string list option" \<comment> \<open>the string keys of the fragments\<close>

subsection \<open>The HTTP connection manager\<close>

record HttpFilter =
  hf_Name :: string
  hf_TypedConfig :: "any option"

record AccessLog =
  al_Name :: string
  al_TypedConfig :: "any option"

record CommonGrpcAccessLogConfig =
  als_LogName :: string
  als_TransportApiVersion :: ApiVersion
  als_GrpcService :: GrpcService

record HeaderValueExtractor =
  hve_Name :: string
  hve_Index :: "32 word"

datatype ScopedConfigSpecifier =
  ScopedRoutes_ScopedRds ConfigSource
| ScopedRoutes_ScopedRouteConfigurationsList "ScopedRouteConfiguration list"

record ScopedRoutes =
  scr_Name :: string
  scr_ScopeKeyBuilder :: "HeaderValueExtractor list"
  scr_RdsConfigSource :: ConfigSource
  scr_ConfigSpecifier :: ScopedConfigSpecifier

record Rds =
  rds_ConfigSource :: ConfigSource
  rds_RouteConfigName :: string

datatype RouteSpecifier =
  NoRouteSpecifier
| HttpConnectionManager_Rds Rds
| HttpConnectionManager_ScopedRoutes ScopedRoutes

datatype CodecType = CodecType_AUTO | CodecType_HTTP1 | CodecType_HTTP2

record HttpConnectionManager =
  hm_CodecType :: CodecType
  hm_StatPrefix :: string
  hm_RouteSpecifier :: RouteSpecifier
  hm_HttpFilters :: "HttpFilter list"
  hm_AccessLog :: "AccessLog list"

subsection \<open>Other filters, transport sockets and listeners\<close>

record TcpProxy =
  tp_StatPrefix :: string
  tp_Cluster :: string

record SdsSecretConfig =
  sds_Name :: string
  sds_SdsConfig :: ConfigSource

record DownstreamTlsContext =
  tls_TlsCertificateSdsSecretConfigs :: "SdsSecretConfig list"
  tls_ValidationContextSdsSecretConfig :: SdsSecretConfig

record TransportSocket =
  tsk_Name :: string
  tsk_TypedConfig :: "any option"

record Filter_msg =
  lf_Name :: string
  lf_TypedConfig :: "any option"

record FilterChain =
  fc_Filters :: "Filter_msg list"
  fc_TransportSocket :: "TransportSocket option"

record Listener_msg =
  lm_Name :: string
  lm_Address :: Address
  lm_FilterChains :: "FilterChain list"
  lm_DefaultFilterChain :: "FilterChain option"

subsection \<open>Runtimes, extension configurations and secrets\<close>

datatype pb_value = NumberValue int | StringValue string

record Runtime_msg =
  rtm_Name :: string
  rtm_Layer :: "(string, pb_value) gomap"

record ExtensionConfig_msg =
  tec_Name :: string
  tec_TypedConfig :: "any option"

datatype secret_kind =
  Secret_TlsCertificate "byte list" "byte list" \<comment> \<open>private key, certificate chain\<close>
| Secret_ValidationContext "byte list" \<comment> \<open>trusted CA\<close>

record Secret_msg =
  sec_Name :: string
  sec_Type :: secret_kind

subsection \<open>Packed messages and resources\<close>

text \<open>The messages the sources pack with \<open>anypb.New\<close>.\<close>

datatype packed =
    PackRouter
  | PackAccessLog CommonGrpcAccessLogConfig
  | PackHttpConnectionManager HttpConnectionManager
  | PackTcpProxy TcpProxy
  | PackDownstreamTlsContext DownstreamTlsContext

text \<open>The messages the sources use as resources.\<close>

datatype message =
    MsgEndpoint ClusterLoadAssignment
  | MsgCluster Cluster_msg
  | MsgRoute RouteConfiguration
  | MsgScopedRoute ScopedRouteConfiguration
  | MsgVirtualHost VirtualHost_msg
  | MsgListener Listener_msg
  | MsgRuntime Runtime_msg
  | MsgExtensionConfig ExtensionConfig_msg
  | MsgSecret Secret_msg

record pb_codec =
  pb_New :: "packed \<Rightarrow> any result"
  pb_rest :: "message \<Rightarrow> string"

text \<open>\<open>mt, _ := anypb.New(m)\<close>: nil when it fails.\<close>

definition New_or_nil :: "pb_codec \<Rightarrow> packed \<Rightarrow> any option" where
  "New_or_nil k m = (case pb_New k m of Inl e \<Rightarrow> None | Inr a \<Rightarrow> Some a)"

definition chain_view :: "FilterChain \<Rightarrow> filter_chain" where
  "chain_view c = map (\<lambda>f. \<lparr>flt_TypedConfig = lf_TypedConfig f\<rparr>) (fc_Filters c)"

fun to_resource :: "pb_codec \<Rightarrow> message \<Rightarrow> Resource" where
  "to_resource k (MsgEndpoint m) =
     MClusterLoadAssignment (cla_ClusterName m) (pb_rest k (MsgEndpoint m))"
| "to_resource k (MsgCluster m) =
     MCluster \<lparr>cl_Name = clm_Name m, cl_Discovery = clm_ClusterDiscoveryType m,
       cl_EdsServiceName = map_option eds_ServiceName (clm_EdsClusterConfig m),
       cl_Rest = pb_rest k (MsgCluster m)\<rparr>"
| "to_resource k (MsgRoute m) = MRouteConfiguration (rc_Name m) (pb_rest k (MsgRoute m))"
| "to_resource k (MsgScopedRoute m) =
     MScopedRouteConfiguration (srte_Name m) (srte_RouteConfigurationName m) (pb_rest k (MsgScopedRoute m))"
| "to_resource k (MsgVirtualHost m) =
     MNamed ''envoy.config.route.v3.VirtualHost'' (vh_Name m) (pb_rest k (MsgVirtualHost m))"
| "to_resource k (MsgListener m) =
     MListener \<lparr>ln_Name = lm_Name m, ln_FilterChains = map chain_view (lm_FilterChains m),
       ln_DefaultFilterChain = map_option chain_view (lm_DefaultFilterChain m),
       ln_Rest = pb_rest k (MsgListener m)\<rparr>"
| "to_resource k (MsgRuntime m) = MRuntime (rtm_Name m) (pb_rest k (MsgRuntime m))"
| "to_resource k (MsgExtensionConfig m) =
     MNamed ''envoy.config.core.v3.TypedExtensionConfig'' (tec_Name m) (pb_rest k (MsgExtensionConfig m))"
| "to_resource k (MsgSecret m) =
     MNamed ''envoy.extensions.transport_sockets.tls.v3.Secret'' (sec_Name m) (pb_rest k (MsgSecret m))"

text \<open>What \<open>getListenerReferencesFromChain\<close> reads of a connection manager.\<close>

definition hcm_view :: "HttpConnectionManager \<Rightarrow> http_connection_manager" where
  "hcm_view m =
     \<lparr>hcm_RdsRouteConfigName =
        (case hm_RouteSpecifier m of HttpConnectionManager_Rds r \<Rightarrow> rds_RouteConfigName r | _ \<Rightarrow> ''''),
      hcm_ScopedRouteConfigurationNames =
        (case hm_RouteSpecifier m of
           HttpConnectionManager_ScopedRoutes s \<Rightarrow>
             (case scr_ConfigSpecifier s of
                ScopedRoutes_ScopedRouteConfigurationsList rs \<Rightarrow> map srte_RouteConfigurationName rs
              | _ \<Rightarrow> [])
         | _ \<Rightarrow> [])\<rparr>"

definition codec_for :: "unmarshaler \<Rightarrow> pb_codec \<Rightarrow> bool" where
  "codec_for u k \<longleftrightarrow>
     (\<forall>m. \<exists>a. pb_New k m = Inr a \<and>
        (case m of
           PackHttpConnectionManager h \<Rightarrow> u a = Inr (hcm_view h)
         | _ \<Rightarrow> (\<exists>e. u a = Inl e)))"

subsection \<open>A codec\<close>

text \<open>A concrete codec with the law, for the examples: the type URL tells the message type, the value
  holds the names a connection manager refers to, each byte of a name after a byte 1, each name ended by
  a byte 0.\<close>

definition ex_put :: "string \<Rightarrow> byte list" where
  "ex_put s = concat (map (\<lambda>c. [1, of_nat (of_char c)]) s) @ [0]"

fun ex_get :: "string \<Rightarrow> byte list \<Rightarrow> string list" where
  "ex_get acc (b # c # bs) = (if b = 1 then ex_get (acc @ [char_of (unat c)]) bs else acc # ex_get [] (c # bs))"
| "ex_get acc [b] = [acc]"
| "ex_get acc [] = []"

fun ex_New :: "packed \<Rightarrow> any result" where
  "ex_New (PackHttpConnectionManager h) =
     Inr \<lparr>any_TypeUrl = ''hcm'', any_Value = concat (map ex_put
       (hcm_RdsRouteConfigName (hcm_view h) # hcm_ScopedRouteConfigurationNames (hcm_view h)))\<rparr>"
| "ex_New m = Inr \<lparr>any_TypeUrl = ''other'', any_Value = []\<rparr>"

definition ex_codec :: pb_codec where
  "ex_codec = \<lparr>pb_New = ex_New, pb_rest = (\<lambda>m. '''')\<rparr>"

definition ex_unmarshal :: unmarshaler where
  "ex_unmarshal a =
     (if any_TypeUrl a = ''hcm''
      then Inr \<lparr>hcm_RdsRouteConfigName = hd (ex_get [] (any_Value a)),
                hcm_ScopedRouteConfigurationNames = tl (ex_get [] (any_Value a))\<rparr>
      else Inl (External 0))"

section \<open>Lemmas\<close>

lemma codec_for_hcm:
  "codec_for u k \<Longrightarrow> \<exists>a. pb_New k (PackHttpConnectionManager h) = Inr a \<and> u a = Inr (hcm_view h)"
  unfolding codec_for_def by (drule spec [of _ "PackHttpConnectionManager h"]) simp

lemma codec_for_tcp: "codec_for u k \<Longrightarrow> \<exists>a e. pb_New k (PackTcpProxy p) = Inr a \<and> u a = Inl e"
  unfolding codec_for_def by (drule spec [of _ "PackTcpProxy p"]) auto

lemma codec_for_New: "codec_for u k \<Longrightarrow> \<exists>a. pb_New k m = Inr a"
  unfolding codec_for_def by blast

lemma ex_get_put: "ex_get acc (ex_put s @ bs) = (acc @ s) # ex_get [] bs"
proof (induction s arbitrary: acc)
  case Nil
  show ?case by (cases bs) (simp_all add: ex_put_def)
next
  case (Cons c s)
  have "unat (of_nat (of_char c) :: byte) = of_char c" by (simp add: unat_of_nat)
  then have "char_of (unat (of_nat (of_char c) :: byte)) = c" by (simp only: char_of_char)
  with Cons [of "acc @ [c]"] show ?case by (simp add: ex_put_def)
qed

lemma ex_get_concat: "ex_get [] (concat (map ex_put ns)) = ns"
  by (induction ns) (simp_all add: ex_get_put)

lemma ex_codec_for: "codec_for ex_unmarshal ex_codec"
proof -
  have "\<exists>a. ex_New m = Inr a \<and>
      (case m of PackHttpConnectionManager h \<Rightarrow> ex_unmarshal a = Inr (hcm_view h) | _ \<Rightarrow> (\<exists>e. ex_unmarshal a = Inl e))" for m
  proof (cases m)
    case (PackHttpConnectionManager h)
    then show ?thesis
      using ex_get_concat [of "hcm_RdsRouteConfigName (hcm_view h) # hcm_ScopedRouteConfigurationNames (hcm_view h)"]
      by (simp add: ex_unmarshal_def)
  qed (simp_all add: ex_unmarshal_def)
  then show ?thesis by (simp add: codec_for_def ex_codec_def)
qed

end
