(* ===== verification/Test_Resources.thy ===== *)
theory Test_Resources
  imports Envoy_Messages
begin

text \<open>
  The sample resources of the integration test, \<open>src/pkg/test/resource/v3/resource.go\<close> and \<open>secret.go\<close>: the
  constructors of messages and \<open>TestSnapshot\<close>, which generates a whole snapshot.

  \<open>panic(err)\<close> ends a function with the error \<open>Wrapf ''panic: %v'' [] err\<close>. Methods that move \<open>currentPort\<close>
  return the receiver. A Go \<open>int\<close> is an integer; \<open>range n\<close> runs for 0, ..., n - 1 and not at all for negative n;
  \<open>make\<close> panics on a negative length. The resources are \<open>message\<close>s and become cache resources where the source
  stores them as \<open>types.Resource\<close> in a snapshot. The PEM texts of \<open>secret.go\<close> are passed as a parameter.
\<close>

section \<open>Definitions\<close>

subsection \<open>Constants\<close>

definition localhost :: string where "localhost = ''127.0.0.1''"
definition XdsCluster :: string where "XdsCluster = ''xds_cluster''"
definition AlsCluster :: string where "AlsCluster = ''als_cluster''"
definition Ads :: string where "Ads = ''ads''"
definition Xds :: string where "Xds = ''xds''"
definition Rest :: string where "Rest = ''rest''"
definition Delta :: string where "Delta = ''delta''"
definition DeltaAds :: string where "DeltaAds = ''delta-ads''"
definition tlsName :: string where "tlsName = ''tlssecret''"
definition rootName :: string where "rootName = ''rootsecret''"

definition Millisecond :: duration where "Millisecond = 1000000"
definition Second :: duration where "Second = 1000 * Millisecond"
definition RefreshDelay :: duration where "RefreshDelay = 500 * Millisecond"

subsection \<open>Messages\<close>

definition panic :: "error \<Rightarrow> error" where
  "panic e = Wrapf ''panic: %v'' [] e"

definition configSource :: "string \<Rightarrow> ConfigSource" where
  "configSource mode =
     \<lparr>cs_ResourceApiVersion = DefaultAPIVersion,
      cs_ConfigSourceSpecifier =
        (if mode = Ads then ConfigSource_Ads
         else if mode = DeltaAds then ConfigSource_Ads
         else if mode = Xds then
           ConfigSource_ApiConfigSource
             \<lparr>acs_ApiType = ApiConfigSource_GRPC,
              acs_TransportApiVersion = DefaultAPIVersion,
              acs_SetNodeOnFirstMessageOnly = True,
              acs_GrpcServices = [GrpcService_EnvoyGrpc XdsCluster],
              acs_ClusterNames = [],
              acs_RefreshDelay = None\<rparr>
         else if mode = Rest then
           ConfigSource_ApiConfigSource
             \<lparr>acs_ApiType = ApiConfigSource_REST,
              acs_TransportApiVersion = DefaultAPIVersion,
              acs_SetNodeOnFirstMessageOnly = False,
              acs_GrpcServices = [],
              acs_ClusterNames = [XdsCluster],
              acs_RefreshDelay = Some RefreshDelay\<rparr>
         else if mode = Delta then
           ConfigSource_ApiConfigSource
             \<lparr>acs_ApiType = ApiConfigSource_DELTA_GRPC,
              acs_TransportApiVersion = DefaultAPIVersion,
              acs_SetNodeOnFirstMessageOnly = True,
              acs_GrpcServices = [GrpcService_EnvoyGrpc XdsCluster],
              acs_ClusterNames = [],
              acs_RefreshDelay = None\<rparr>
         else NoConfigSource)\<rparr>"

definition MakeEndpoint :: "string \<Rightarrow> 32 word \<Rightarrow> ClusterLoadAssignment" where
  "MakeEndpoint clusterName port =
     \<lparr>cla_ClusterName = clusterName,
      cla_Endpoints =
        [\<lparr>lle_LbEndpoints =
            [LbEndpoint_Endpoint (Address_SocketAddress
               \<lparr>sa_Protocol = TCP, sa_Address = localhost, sa_PortValue = port\<rparr>)]\<rparr>]\<rparr>"

definition MakeCluster :: "string \<Rightarrow> string \<Rightarrow> Cluster_msg" where
  "MakeCluster mode clusterName =
     (let edsSource = configSource mode; connectTimeout = 5 * Second in
      \<lparr>clm_Name = clusterName,
       clm_ConnectTimeout = connectTimeout,
       clm_ClusterDiscoveryType = Cluster_Type EDS,
       clm_EdsClusterConfig = Some \<lparr>eds_EdsConfig = edsSource, eds_ServiceName = ''''\<rparr>,
       clm_LbPolicy = ROUND_ROBIN,
       clm_LoadAssignment = None,
       clm_DnsLookupFamily = AUTO\<rparr>)"

definition MakeVHDSRouteConfig :: "string \<Rightarrow> string \<Rightarrow> RouteConfiguration" where
  "MakeVHDSRouteConfig mode routeName =
     \<lparr>rc_Name = routeName, rc_VirtualHosts = [], rc_Vhds = Some (configSource mode)\<rparr>"

definition MakeVirtualHost :: "string \<Rightarrow> string \<Rightarrow> VirtualHost_msg" where
  "MakeVirtualHost virtualHostName clusterName =
     \<lparr>vh_Name = virtualHostName,
      vh_Domains = [''*''],
      vh_Routes =
        [\<lparr>rte_MatchPrefix = ''/'',
          rte_Action = \<lparr>ra_Cluster = clusterName, ra_HostRewriteLiteral = None\<rparr>\<rparr>]\<rparr>"

definition MakeRouteConfig :: "string \<Rightarrow> string \<Rightarrow> RouteConfiguration" where
  "MakeRouteConfig routeName clusterName =
     \<lparr>rc_Name = routeName,
      rc_VirtualHosts =
        [\<lparr>vh_Name = routeName,
          vh_Domains = [''*''],
          vh_Routes =
            [\<lparr>rte_MatchPrefix = ''/'',
              rte_Action = \<lparr>ra_Cluster = clusterName, ra_HostRewriteLiteral = None\<rparr>\<rparr>]\<rparr>],
      rc_Vhds = None\<rparr>"

definition MakeScopedRouteConfig :: "string \<Rightarrow> string \<Rightarrow> string list \<Rightarrow> ScopedRouteConfiguration" where
  "MakeScopedRouteConfig scopedRouteName routeConfigurationName keyFragments =
     (let k = fold (\<lambda>key fragments. fragments @ [key]) keyFragments [] in
      \<lparr>srte_OnDemand = False,
       srte_Name = scopedRouteName,
       srte_RouteConfigurationName = routeConfigurationName,
       srte_Key = Some k\<rparr>)"

definition buildHTTPConnectionManager :: "pb_codec \<Rightarrow> HttpConnectionManager result" where
  "buildHTTPConnectionManager k =
     (let alsConfig =
        \<lparr>als_LogName = ''echo'',
         als_TransportApiVersion = DefaultAPIVersion,
         als_GrpcService = GrpcService_EnvoyGrpc AlsCluster\<rparr>
      in case pb_New k (PackAccessLog alsConfig) of
           Inl e \<Rightarrow> Inl (panic e)
         | Inr alsConfigPbst \<Rightarrow>
             (let routerConfig = New_or_nil k PackRouter in
              Inr \<lparr>hm_CodecType = CodecType_AUTO,
                   hm_StatPrefix = ''http'',
                   hm_RouteSpecifier = NoRouteSpecifier,
                   hm_HttpFilters = [\<lparr>hf_Name = ''http-router'', hf_TypedConfig = routerConfig\<rparr>],
                   hm_AccessLog =
                     [\<lparr>al_Name = ''access-logger'', al_TypedConfig = Some alsConfigPbst\<rparr>]\<rparr>))"

definition makeListener :: "string \<Rightarrow> 32 word \<Rightarrow> FilterChain list \<Rightarrow> Listener_msg" where
  "makeListener listenerName port filterChains =
     \<lparr>lm_Name = listenerName,
      lm_Address = Address_SocketAddress
        \<lparr>sa_Protocol = TCP, sa_Address = localhost, sa_PortValue = port\<rparr>,
      lm_FilterChains = filterChains,
      lm_DefaultFilterChain = None\<rparr>"

definition makeListenerDefaultFilterChain ::
  "string \<Rightarrow> 32 word \<Rightarrow> FilterChain \<Rightarrow> FilterChain list \<Rightarrow> Listener_msg" where
  "makeListenerDefaultFilterChain listenerName port defaultFilterChain filterChains =
     \<lparr>lm_Name = listenerName,
      lm_Address = Address_SocketAddress
        \<lparr>sa_Protocol = TCP, sa_Address = localhost, sa_PortValue = port\<rparr>,
      lm_FilterChains = filterChains,
      lm_DefaultFilterChain = Some defaultFilterChain\<rparr>"

text \<open>The middle of the HTTP listener constructors: build the manager, set the route specifier, pack it.\<close>

definition packManager :: "pb_codec \<Rightarrow> RouteSpecifier \<Rightarrow> any result" where
  "packManager k routeSpecifier =
     (case buildHTTPConnectionManager k of
        Inl e \<Rightarrow> Inl e
      | Inr manager \<Rightarrow>
          (case pb_New k (PackHttpConnectionManager (manager\<lparr>hm_RouteSpecifier := routeSpecifier\<rparr>)) of
             Inl e \<Rightarrow> Inl (panic e)
           | Inr pbst \<Rightarrow> Inr pbst))"

definition filterChain :: "string \<Rightarrow> any \<Rightarrow> FilterChain" where
  "filterChain name pbst =
     \<lparr>fc_Filters = [\<lparr>lf_Name = name, lf_TypedConfig = Some pbst\<rparr>], fc_TransportSocket = None\<rparr>"

definition MakeRouteHTTPListener ::
  "pb_codec \<Rightarrow> string \<Rightarrow> string \<Rightarrow> 32 word \<Rightarrow> string \<Rightarrow> Listener_msg result" where
  "MakeRouteHTTPListener k mode listenerName port route =
     (let rdsSource = configSource mode;
          routeSpecifier = HttpConnectionManager_Rds
            \<lparr>rds_ConfigSource = rdsSource, rds_RouteConfigName = route\<rparr>
      in case packManager k routeSpecifier of
           Inl e \<Rightarrow> Inl e
         | Inr pbst \<Rightarrow> Inr (makeListener listenerName port [filterChain ''http_connection_manager'' pbst]))"

definition MakeRouteHTTPListenerDefaultFilterChain ::
  "pb_codec \<Rightarrow> string \<Rightarrow> string \<Rightarrow> 32 word \<Rightarrow> string \<Rightarrow> Listener_msg result" where
  "MakeRouteHTTPListenerDefaultFilterChain k mode listenerName port route =
     (let rdsSource = configSource mode;
          routeSpecifier = HttpConnectionManager_Rds
            \<lparr>rds_ConfigSource = rdsSource, rds_RouteConfigName = route\<rparr>
      in case packManager k routeSpecifier of
           Inl e \<Rightarrow> Inl e
         | Inr pbst \<Rightarrow>
             Inr (makeListenerDefaultFilterChain listenerName port
                    (filterChain ''http_connection_manager'' pbst) []))"

text \<open>The scoped-route specifiers of the next two constructors differ in how the scopes are found.\<close>

definition scopedRoutesBy :: "ConfigSource \<Rightarrow> ScopedConfigSpecifier \<Rightarrow> ScopedRoutes" where
  "scopedRoutesBy source specifier =
     \<lparr>scr_Name = ''scoped-route-config'',
      scr_ScopeKeyBuilder = [\<lparr>hve_Name = ''Host'', hve_Index = 0\<rparr>],
      scr_RdsConfigSource = source,
      scr_ConfigSpecifier = specifier\<rparr>"

definition MakeScopedRouteHTTPListener ::
  "pb_codec \<Rightarrow> string \<Rightarrow> string \<Rightarrow> 32 word \<Rightarrow> Listener_msg result" where
  "MakeScopedRouteHTTPListener k mode listenerName port =
     (let source = configSource mode;
          routeSpecifier = HttpConnectionManager_ScopedRoutes
            (scopedRoutesBy source (ScopedRoutes_ScopedRds source))
      in case packManager k routeSpecifier of
           Inl e \<Rightarrow> Inl e
         | Inr pbst \<Rightarrow> Inr (makeListener listenerName port [filterChain ''http-connection-manager'' pbst]))"

definition MakeScopedRouteHTTPListenerForRoute ::
  "pb_codec \<Rightarrow> string \<Rightarrow> string \<Rightarrow> 32 word \<Rightarrow> string \<Rightarrow> Listener_msg result" where
  "MakeScopedRouteHTTPListenerForRoute k mode listenerName port routeConfigName =
     (let source = configSource mode;
          routeSpecifier = HttpConnectionManager_ScopedRoutes
            (scopedRoutesBy source (ScopedRoutes_ScopedRouteConfigurationsList
               [\<lparr>srte_OnDemand = False, srte_Name = '''',
                 srte_RouteConfigurationName = routeConfigName, srte_Key = None\<rparr>]))
      in case packManager k routeSpecifier of
           Inl e \<Rightarrow> Inl e
         | Inr pbst \<Rightarrow> Inr (makeListener listenerName port [filterChain ''http-connection-manager'' pbst]))"

definition MakeTCPListener :: "pb_codec \<Rightarrow> string \<Rightarrow> 32 word \<Rightarrow> string \<Rightarrow> Listener_msg result" where
  "MakeTCPListener k listenerName port clusterName =
     (let config = \<lparr>tp_StatPrefix = ''tcp'', tp_Cluster = clusterName\<rparr>
      in case pb_New k (PackTcpProxy config) of
           Inl e \<Rightarrow> Inl (panic e)
         | Inr pbst \<Rightarrow> Inr (makeListener listenerName port [filterChain ''tcp-proxy'' pbst]))"

definition MakeRuntime :: "string \<Rightarrow> Runtime_msg" where
  "MakeRuntime runtimeName =
     \<lparr>rtm_Name = runtimeName,
      rtm_Layer = [(''field-0'', NumberValue 100), (''field-1'', StringValue ''foobar'')]\<rparr>"

definition MakeExtensionConfig ::
  "pb_codec \<Rightarrow> string \<Rightarrow> string \<Rightarrow> string \<Rightarrow> ExtensionConfig_msg result" where
  "MakeExtensionConfig k mode extensionConfigName route =
     (let rdsSource = configSource mode;
          routerConfig = New_or_nil k PackRouter;
          manager =
            \<lparr>hm_CodecType = CodecType_AUTO,
             hm_StatPrefix = ''http'',
             hm_RouteSpecifier = HttpConnectionManager_Rds
               \<lparr>rds_ConfigSource = rdsSource, rds_RouteConfigName = route\<rparr>,
             hm_HttpFilters = [\<lparr>hf_Name = ''http-router'', hf_TypedConfig = routerConfig\<rparr>],
             hm_AccessLog = []\<rparr>
      in case pb_New k (PackHttpConnectionManager manager) of
           Inl e \<Rightarrow> Inl (panic e)
         | Inr pbst \<Rightarrow> Inr \<lparr>tec_Name = extensionConfigName, tec_TypedConfig = Some pbst\<rparr>)"

record pem_texts =
  privateKey :: "byte list"
  privateChain :: "byte list"
  rootCert :: "byte list"

definition MakeSecrets :: "pem_texts \<Rightarrow> string \<Rightarrow> string \<Rightarrow> Secret_msg list" where
  "MakeSecrets pem tls root =
     [\<lparr>sec_Name = tls, sec_Type = Secret_TlsCertificate (privateKey pem) (privateChain pem)\<rparr>,
      \<lparr>sec_Name = root, sec_Type = Secret_ValidationContext (rootCert pem)\<rparr>]"

subsection \<open>Test snapshots\<close>

record TestSnapshot =
  ts_Xds :: string
  ts_Version :: string
  ts_UpstreamPort :: "32 word"
  ts_BasePort :: "32 word"
  ts_NumClusters :: int
  ts_NumHTTPListeners :: int
  ts_NumScopedHTTPListeners :: int
  ts_NumVHDSHTTPListeners :: int
  ts_NumTCPListeners :: int
  ts_NumRuntimes :: int
  ts_TLS :: bool
  ts_NumExtension :: int
  ts_currentPort :: "32 word"

text \<open>\<open>%d\<close> of an unsigned 32-bit number, and the names the generator makes.\<close>

definition dec32 :: "32 word \<Rightarrow> string" where
  "dec32 w = dec_nat (unat w)"

definition listener_name :: "TestSnapshot \<Rightarrow> string" where
  "listener_name ts = ''listener-'' @ dec32 (ts_currentPort ts - ts_BasePort ts)"

definition route_name :: "TestSnapshot \<Rightarrow> string" where
  "route_name ts = ''route-'' @ ts_Version ts @ ''-'' @ dec32 (ts_currentPort ts)"

definition addTLS :: "pb_codec \<Rightarrow> TestSnapshot \<Rightarrow> Listener_msg \<Rightarrow> Listener_msg" where
  "addTLS k ts l =
     (if ts_TLS ts then
        l\<lparr>lm_FilterChains :=
            map (\<lambda>chain.
                   let tlsc =
                     \<lparr>tls_TlsCertificateSdsSecretConfigs =
                        [\<lparr>sds_Name = tlsName, sds_SdsConfig = configSource (ts_Xds ts)\<rparr>],
                      tls_ValidationContextSdsSecretConfig =
                        \<lparr>sds_Name = rootName, sds_SdsConfig = configSource (ts_Xds ts)\<rparr>\<rparr>;
                       mt = New_or_nil k (PackDownstreamTlsContext tlsc)
                   in chain\<lparr>fc_TransportSocket :=
                        Some \<lparr>tsk_Name = ''envoy.transport_sockets.tls'', tsk_TypedConfig = mt\<rparr>\<rparr>)
              (lm_FilterChains l)\<rparr>
      else l)"

definition getPath :: "TestSnapshot \<Rightarrow> string" where
  "getPath ts = localhost @ '':'' @ dec32 (ts_currentPort ts)"

definition nextPort :: "TestSnapshot \<Rightarrow> TestSnapshot" where
  "nextPort ts = ts\<lparr>ts_currentPort := ts_currentPort ts + 1\<rparr>"

text \<open>\<open>cache.GetResourceName(clusters[i%len(clusters)])\<close>.\<close>

definition cluster_of :: "pb_codec \<Rightarrow> message list \<Rightarrow> nat \<Rightarrow> string" where
  "cluster_of k clusters i = GetResourceName (to_resource k (clusters ! (i mod length clusters)))"

text \<open>Each loop is a fold over its indices with the slices and the receiver as the state.\<close>

definition generateHTTPListeners ::
  "pb_codec \<Rightarrow> int \<Rightarrow> message list \<Rightarrow> TestSnapshot \<Rightarrow> ((message list \<times> message list) \<times> TestSnapshot) result" where
  "generateHTTPListeners k numListeners clusters ts =
     (if length clusters = 0 then Inr (([], []), ts)
      else
        rfold (\<lambda>i ((listeners, routeConfigs), ts).
                 let listenerName = listener_name ts; routeName = route_name ts;
                     routeConfigs = routeConfigs @ [MsgRoute (MakeRouteConfig routeName (cluster_of k clusters i))]
                 in case MakeRouteHTTPListener k (ts_Xds ts) listenerName (ts_currentPort ts) routeName of
                      Inl e \<Rightarrow> Inl e
                    | Inr listener \<Rightarrow>
                        Inr ((listeners @ [MsgListener (addTLS k ts listener)], routeConfigs), nextPort ts))
          [0..<nat numListeners] (([], []), ts))"

definition generateScopedHTTPListeners ::
  "pb_codec \<Rightarrow> int \<Rightarrow> message list \<Rightarrow> TestSnapshot \<Rightarrow>
     ((message list \<times> message list \<times> message list) \<times> TestSnapshot) result" where
  "generateScopedHTTPListeners k numListeners clusters ts =
     (if length clusters = 0 then Inr (([], [], []), ts)
      else
        rfold (\<lambda>i ((listeners, scopedRouteConfigs, routeConfigs), ts).
                 let listenerName = listener_name ts; scopedRouteName = ''scopedroute-'' @ dec_nat i;
                     routeName = route_name ts;
                     routeConfigs = routeConfigs @ [MsgRoute (MakeRouteConfig routeName (cluster_of k clusters i))];
                     scopedRouteConfigs = scopedRouteConfigs @
                       [MsgScopedRoute (MakeScopedRouteConfig scopedRouteName routeName [getPath ts])]
                 in case MakeScopedRouteHTTPListener k (ts_Xds ts) listenerName (ts_currentPort ts) of
                      Inl e \<Rightarrow> Inl e
                    | Inr listener \<Rightarrow>
                        Inr ((listeners @ [MsgListener (addTLS k ts listener)], scopedRouteConfigs, routeConfigs),
                             nextPort ts))
          [0..<nat numListeners] (([], [], []), ts))"

definition generateVHDSHTTPListeners ::
  "pb_codec \<Rightarrow> int \<Rightarrow> message list \<Rightarrow> TestSnapshot \<Rightarrow>
     ((message list \<times> message list \<times> message list) \<times> TestSnapshot) result" where
  "generateVHDSHTTPListeners k numListeners clusters ts =
     (if length clusters = 0 then Inr (([], [], []), ts)
      else
        rfold (\<lambda>i ((listeners, routeConfigs, virtualHosts), ts).
                 let listenerName = listener_name ts; routeName = route_name ts;
                     virtualHostName = routeName @ ''/'' @ getPath ts;
                     virtualHosts = virtualHosts @
                       [MsgVirtualHost (MakeVirtualHost virtualHostName (cluster_of k clusters i))];
                     routeConfigs = routeConfigs @ [MsgRoute (MakeVHDSRouteConfig (ts_Xds ts) routeName)]
                 in case MakeRouteHTTPListener k (ts_Xds ts) listenerName (ts_currentPort ts) routeName of
                      Inl e \<Rightarrow> Inl e
                    | Inr listener \<Rightarrow>
                        Inr ((listeners @ [MsgListener (addTLS k ts listener)], routeConfigs, virtualHosts),
                             nextPort ts))
          [0..<nat numListeners] (([], [], []), ts))"

text \<open>This one takes the remainder by \<open>NumClusters\<close>, which may be zero or too large for the slice.\<close>

definition generateTCPListeners ::
  "pb_codec \<Rightarrow> int \<Rightarrow> message list \<Rightarrow> TestSnapshot \<Rightarrow> (message list \<times> TestSnapshot) result" where
  "generateTCPListeners k numListeners clusters ts =
     (if length clusters = 0 then Inr ([], ts)
      else
        rfold (\<lambda>i (listeners, ts).
                 let listenerName = listener_name ts in
                 if ts_NumClusters ts = 0 then Inl (Panic ''integer divide by zero'')
                 else
                   let j = i mod nat \<bar>ts_NumClusters ts\<bar> in
                   if length clusters \<le> j then Inl (Panic ''index out of range'')
                   else
                     case MakeTCPListener k listenerName (ts_currentPort ts)
                            (GetResourceName (to_resource k (clusters ! j))) of
                       Inl e \<Rightarrow> Inl e
                     | Inr listener \<Rightarrow>
                         Inr (listeners @ [MsgListener (addTLS k ts listener)], nextPort ts))
          [0..<nat numListeners] ([], ts))"

definition makeslice :: "int \<Rightarrow> unit result" where
  "makeslice n = (if n < 0 then Inl (Panic ''makeslice: len out of range'') else Inr ())"

definition cluster_name :: "TestSnapshot \<Rightarrow> nat \<Rightarrow> string" where
  "cluster_name ts i = ''cluster-'' @ ts_Version ts @ ''-'' @ dec_nat i"

definition generateExtensions :: "pb_codec \<Rightarrow> TestSnapshot \<Rightarrow> message list result" where
  "generateExtensions k ts =
     rmap (\<lambda>i. let routeName = ''route-'' @ ts_Version ts @ ''-'' @ dec_nat i;
                    extensionConfigName = ''extensionConfig-'' @ dec_nat i
                in case MakeExtensionConfig k Ads extensionConfigName routeName of
                     Inl e \<Rightarrow> Inl e
                   | Inr m \<Rightarrow> Inr (MsgExtensionConfig m))
       [0..<nat (ts_NumExtension ts)]"

text \<open>The end of \<open>Generate\<close>, where the slices are collected in a snapshot.\<close>

definition assemble ::
  "pb_codec \<Rightarrow> string \<Rightarrow> message list \<Rightarrow> message list \<Rightarrow> message list \<Rightarrow> message list \<Rightarrow> message list \<Rightarrow>
     message list \<Rightarrow> message list \<Rightarrow> message list \<Rightarrow> message list \<Rightarrow> Snapshot option" where
  "assemble k version endpoints clusters routes scopedRoutes virtualHosts listeners runtimes secrets extensions =
     (case NewSnapshot version
        [(EndpointType, map (to_resource k) endpoints),
         (ClusterType, map (to_resource k) clusters),
         (RouteType, map (to_resource k) routes),
         (ScopedRouteType, map (to_resource k) scopedRoutes),
         (VirtualHostType, map (to_resource k) virtualHosts),
         (ListenerType, map (to_resource k) listeners),
         (RuntimeType, map (to_resource k) runtimes),
         (SecretType, map (to_resource k) secrets),
         (ExtensionConfigType, map (to_resource k) extensions)] of
        Inl e \<Rightarrow> None
      | Inr out \<Rightarrow> Some out)"

definition Generate :: "pb_codec \<Rightarrow> pem_texts \<Rightarrow> TestSnapshot \<Rightarrow> (Snapshot option \<times> TestSnapshot) result" where
  "Generate k pem ts =
     (let ts = ts\<lparr>ts_currentPort := ts_BasePort ts\<rparr> in
      case makeslice (ts_NumClusters ts) of
        Inl e \<Rightarrow> Inl e
      | Inr _ \<Rightarrow>
      (let clusters = map (\<lambda>i. MsgCluster (MakeCluster (ts_Xds ts) (cluster_name ts i)))
             [0..<nat (ts_NumClusters ts)];
           endpoints = map (\<lambda>i. MsgEndpoint (MakeEndpoint (cluster_name ts i) (ts_UpstreamPort ts)))
             [0..<nat (ts_NumClusters ts)]
       in case generateHTTPListeners k (ts_NumHTTPListeners ts) clusters ts of
        Inl e \<Rightarrow> Inl e
      | Inr ((l1, r1), ts) \<Rightarrow>
      (case generateScopedHTTPListeners k (ts_NumScopedHTTPListeners ts) clusters ts of
        Inl e \<Rightarrow> Inl e
      | Inr ((l2, sr1, r2), ts) \<Rightarrow>
      (case generateTCPListeners k (ts_NumTCPListeners ts) clusters ts of
        Inl e \<Rightarrow> Inl e
      | Inr (l3, ts) \<Rightarrow>
      (case generateVHDSHTTPListeners k (ts_NumVHDSHTTPListeners ts) clusters ts of
        Inl e \<Rightarrow> Inl e
      | Inr ((l4, r3, vh1), ts) \<Rightarrow>
      (case makeslice (ts_NumRuntimes ts) of
        Inl e \<Rightarrow> Inl e
      | Inr _ \<Rightarrow>
      (let runtimes = map (\<lambda>i. MsgRuntime (MakeRuntime (''runtime-'' @ dec_nat i))) [0..<nat (ts_NumRuntimes ts)];
           secrets = (if ts_TLS ts then map MsgSecret (MakeSecrets pem tlsName rootName) else [])
       in case makeslice (ts_NumExtension ts) of
        Inl e \<Rightarrow> Inl e
      | Inr _ \<Rightarrow>
      (case generateExtensions k ts of
        Inl e \<Rightarrow> Inl e
      | Inr extensions \<Rightarrow>
          Inr (assemble k (ts_Version ts) endpoints clusters (r1 @ r2 @ r3) sr1 vh1 (l1 @ l2 @ l3 @ l4)
                 runtimes secrets extensions, ts)))))))))"

end
