(* ===== verification/Test_Snapshot.thy ===== *)
theory Test_Snapshot
  imports Test_Resources
begin

text \<open>
  What \<open>TestSnapshot.Generate\<close> of \<open>src/pkg/test/resource/v3/resource.go\<close> produces: the loops in closed form, the
  listeners and their ports, the distribution of the routes over the clusters, and the consistency of the
  snapshot in the sense of \<open>Snapshot.Consistent\<close>.
\<close>

section \<open>Definitions\<close>

text \<open>The receiver after \<open>i\<close> listeners, and the listener that each loop makes in such a state.\<close>

definition shift :: "TestSnapshot \<Rightarrow> nat \<Rightarrow> TestSnapshot" where
  "shift ts i = ts\<lparr>ts_currentPort := ts_currentPort ts + of_nat i\<rparr>"

definition http_listener :: "pb_codec \<Rightarrow> TestSnapshot \<Rightarrow> Listener_msg" where
  "http_listener k ts = addTLS k ts
     (projr (MakeRouteHTTPListener k (ts_Xds ts) (listener_name ts) (ts_currentPort ts) (route_name ts)))"

definition scoped_listener :: "pb_codec \<Rightarrow> TestSnapshot \<Rightarrow> Listener_msg" where
  "scoped_listener k ts = addTLS k ts
     (projr (MakeScopedRouteHTTPListener k (ts_Xds ts) (listener_name ts) (ts_currentPort ts)))"

definition tcp_listener :: "pb_codec \<Rightarrow> string \<Rightarrow> TestSnapshot \<Rightarrow> Listener_msg" where
  "tcp_listener k c ts = addTLS k ts
     (projr (MakeTCPListener k (listener_name ts) (ts_currentPort ts) c))"

fun listener_port :: "Listener_msg \<Rightarrow> 32 word" where
  "listener_port l = (case lm_Address l of Address_SocketAddress a \<Rightarrow> sa_PortValue a)"

text \<open>The number of listeners of each kind, and of all.\<close>

definition num_http :: "TestSnapshot \<Rightarrow> nat" where "num_http ts = nat (ts_NumHTTPListeners ts)"
definition num_scoped :: "TestSnapshot \<Rightarrow> nat" where "num_scoped ts = nat (ts_NumScopedHTTPListeners ts)"
definition num_tcp :: "TestSnapshot \<Rightarrow> nat" where "num_tcp ts = nat (ts_NumTCPListeners ts)"
definition num_vhds :: "TestSnapshot \<Rightarrow> nat" where "num_vhds ts = nat (ts_NumVHDSHTTPListeners ts)"

definition num_listeners :: "TestSnapshot \<Rightarrow> nat" where
  "num_listeners ts = num_http ts + num_scoped ts + num_tcp ts + num_vhds ts"

definition generable :: "TestSnapshot \<Rightarrow> bool" where
  "generable ts \<longleftrightarrow> 0 \<le> ts_NumClusters ts \<and> 0 \<le> ts_NumRuntimes ts \<and> 0 \<le> ts_NumExtension ts"

text \<open>The generator from the base port, and the clusters it makes.\<close>

definition start :: "TestSnapshot \<Rightarrow> TestSnapshot" where
  "start ts = ts\<lparr>ts_currentPort := ts_BasePort ts\<rparr>"

definition gen_clusters :: "TestSnapshot \<Rightarrow> message list" where
  "gen_clusters ts = map (\<lambda>i. MsgCluster (MakeCluster (ts_Xds ts) (cluster_name ts i))) [0..<nat (ts_NumClusters ts)]"

definition gen_endpoints :: "TestSnapshot \<Rightarrow> message list" where
  "gen_endpoints ts =
     map (\<lambda>i. MsgEndpoint (MakeEndpoint (cluster_name ts i) (ts_UpstreamPort ts))) [0..<nat (ts_NumClusters ts)]"

text \<open>The listeners, in the order of their ports, and the routes.\<close>

definition gen_listener :: "pb_codec \<Rightarrow> TestSnapshot \<Rightarrow> nat \<Rightarrow> Listener_msg" where
  "gen_listener k ts j =
     (if j < num_http ts then http_listener k (shift (start ts) j)
      else if j < num_http ts + num_scoped ts then scoped_listener k (shift (start ts) j)
      else if j < num_http ts + num_scoped ts + num_tcp ts then
        tcp_listener k (cluster_of k (gen_clusters ts) (j - num_http ts - num_scoped ts)) (shift (start ts) j)
      else http_listener k (shift (start ts) j))"

definition gen_route :: "pb_codec \<Rightarrow> TestSnapshot \<Rightarrow> nat \<Rightarrow> RouteConfiguration" where
  "gen_route k ts j =
     (if j < num_http ts then
        MakeRouteConfig (route_name (shift (start ts) j)) (cluster_of k (gen_clusters ts) j)
      else if j < num_http ts + num_scoped ts then
        MakeRouteConfig (route_name (shift (start ts) j)) (cluster_of k (gen_clusters ts) (j - num_http ts))
      else MakeVHDSRouteConfig (ts_Xds ts) (route_name (shift (start ts) j)))"

definition route_indices :: "TestSnapshot \<Rightarrow> nat list" where
  "route_indices ts = [0..<num_http ts + num_scoped ts] @
     [num_http ts + num_scoped ts + num_tcp ts..<num_listeners ts]"

definition gen_scoped :: "TestSnapshot \<Rightarrow> nat \<Rightarrow> ScopedRouteConfiguration" where
  "gen_scoped ts i = MakeScopedRouteConfig (''scopedroute-'' @ dec_nat i)
     (route_name (shift (start ts) (num_http ts + i))) [getPath (shift (start ts) (num_http ts + i))]"

text \<open>The clusters a route configuration sends its requests to.\<close>

fun route_targets :: "message \<Rightarrow> string list" where
  "route_targets (MsgRoute r) = concat (map (\<lambda>v. map (\<lambda>a. ra_Cluster (rte_Action a)) (vh_Routes v)) (rc_VirtualHosts r))"
| "route_targets m = []"

text \<open>An example.\<close>

definition ex_test :: TestSnapshot where
  "ex_test = \<lparr>ts_Xds = Delta, ts_Version = ''v0'', ts_UpstreamPort = 18080, ts_BasePort = 9000, ts_NumClusters = 2,
     ts_NumHTTPListeners = 3, ts_NumScopedHTTPListeners = 1, ts_NumVHDSHTTPListeners = 1, ts_NumTCPListeners = 1,
     ts_NumRuntimes = 1, ts_TLS = True, ts_NumExtension = 1, ts_currentPort = 0\<rparr>"

definition ex_pem :: pem_texts where
  "ex_pem = \<lparr>privateKey = [], privateChain = [], rootCert = []\<rparr>"

section \<open>Lemmas\<close>

subsection \<open>The loops\<close>

lemma rfold_upt:
  assumes "\<And>i. i < n \<Longrightarrow> f i (g i) = Inr (g (Suc i))" and "s = g 0" and "t = g n"
  shows "rfold f [0..<n] s = Inr t"
proof -
  have "rfold f [0..<n] (g 0) = Inr (g n)" using assms(1) by (induction n) (simp_all add: rfold_append)
  with assms(2,3) show ?thesis by simp
qed

lemma case_sum_Inr: "x \<in> range Inr \<Longrightarrow> case_sum f g x = g (projr x)"
  by auto

lemma shift_simps [simp]:
  "ts_Xds (shift ts i) = ts_Xds ts" "ts_Version (shift ts i) = ts_Version ts"
  "ts_BasePort (shift ts i) = ts_BasePort ts" "ts_TLS (shift ts i) = ts_TLS ts"
  "ts_NumClusters (shift ts i) = ts_NumClusters ts" "ts_NumRuntimes (shift ts i) = ts_NumRuntimes ts"
  "ts_NumExtension (shift ts i) = ts_NumExtension ts"
  "ts_NumHTTPListeners (shift ts i) = ts_NumHTTPListeners ts"
  "ts_NumScopedHTTPListeners (shift ts i) = ts_NumScopedHTTPListeners ts"
  "ts_NumTCPListeners (shift ts i) = ts_NumTCPListeners ts"
  "ts_NumVHDSHTTPListeners (shift ts i) = ts_NumVHDSHTTPListeners ts"
  "ts_currentPort (shift ts i) = ts_currentPort ts + of_nat i"
  "shift ts 0 = ts" "shift (shift ts i) j = shift ts (i + j)" "nextPort (shift ts i) = shift ts (Suc i)"
  by (simp_all add: shift_def nextPort_def algebra_simps)

lemma packManager_ok:
  assumes "codec_for u k"
  shows "\<exists>a m. packManager k r = Inr a \<and> u a = Inr (hcm_view (m\<lparr>hm_RouteSpecifier := r\<rparr>))"
proof -
  obtain b where "pb_New k (PackAccessLog \<lparr>als_LogName = ''echo'', als_TransportApiVersion = DefaultAPIVersion,
      als_GrpcService = GrpcService_EnvoyGrpc AlsCluster\<rparr>) = Inr b"
    using codec_for_New [OF assms] by blast
  then obtain m where m: "buildHTTPConnectionManager k = Inr m"
    by (simp add: buildHTTPConnectionManager_def Let_def)
  obtain a where "pb_New k (PackHttpConnectionManager (m\<lparr>hm_RouteSpecifier := r\<rparr>)) = Inr a"
      "u a = Inr (hcm_view (m\<lparr>hm_RouteSpecifier := r\<rparr>))"
    using codec_for_hcm [OF assms] by blast
  with m show ?thesis by (auto simp: packManager_def)
qed

text \<open>A listener with one filter chain around a packed configuration, and its view after \<open>addTLS\<close>.\<close>

lemma addTLS_view:
  "lm_Name (addTLS k ts (makeListener n p [filterChain f a])) = n"
  "listener_port (addTLS k ts (makeListener n p [filterChain f a])) = p"
  "resource_refs u RouteType (to_resource k (MsgListener (addTLS k ts (makeListener n p [filterChain f a])))) =
     (case u a of Inl e \<Rightarrow> {} | Inr c \<Rightarrow> set (hcm_ScopedRouteConfigurationNames c) \<union> ({hcm_RdsRouteConfigName c} - {''''}))"
  by (auto simp: addTLS_def makeListener_def filterChain_def resource_refs_def listener_refs_def chain_refs_def
      chain_view_def GetHTTPConnectionManager_def Let_def split: sum.splits)

lemma route_name_not_Nil [simp]: "route_name ts \<noteq> ''''"
  by (simp add: route_name_def)

lemma http_listener:
  assumes "codec_for u k"
  shows "MakeRouteHTTPListener k (ts_Xds ts) (listener_name ts) (ts_currentPort ts) (route_name ts) \<in> range Inr"
    and "lm_Name (http_listener k ts) = listener_name ts"
    and "listener_port (http_listener k ts) = ts_currentPort ts"
    and "resource_refs u RouteType (to_resource k (MsgListener (http_listener k ts))) = {route_name ts}"
proof -
  define r where "r = HttpConnectionManager_Rds
    \<lparr>rds_ConfigSource = configSource (ts_Xds ts), rds_RouteConfigName = route_name ts\<rparr>"
  obtain a m where a: "packManager k r = Inr a" "u a = Inr (hcm_view (m\<lparr>hm_RouteSpecifier := r\<rparr>))"
    using packManager_ok [OF assms] by blast
  then have mk: "MakeRouteHTTPListener k (ts_Xds ts) (listener_name ts) (ts_currentPort ts) (route_name ts) =
      Inr (makeListener (listener_name ts) (ts_currentPort ts) [filterChain ''http_connection_manager'' a])"
    by (simp add: MakeRouteHTTPListener_def r_def)
  then show "MakeRouteHTTPListener k (ts_Xds ts) (listener_name ts) (ts_currentPort ts) (route_name ts) \<in> range Inr"
    by simp
  show "lm_Name (http_listener k ts) = listener_name ts" "listener_port (http_listener k ts) = ts_currentPort ts"
    by (simp_all only: http_listener_def mk sum.sel addTLS_view)
  show "resource_refs u RouteType (to_resource k (MsgListener (http_listener k ts))) = {route_name ts}"
    unfolding http_listener_def mk sum.sel addTLS_view by (simp add: a hcm_view_def r_def insert_Diff_if)
qed

lemma scoped_listener:
  assumes "codec_for u k"
  shows "MakeScopedRouteHTTPListener k (ts_Xds ts) (listener_name ts) (ts_currentPort ts) \<in> range Inr"
    and "lm_Name (scoped_listener k ts) = listener_name ts"
    and "listener_port (scoped_listener k ts) = ts_currentPort ts"
    and "resource_refs u RouteType (to_resource k (MsgListener (scoped_listener k ts))) = {}"
proof -
  define r where "r = HttpConnectionManager_ScopedRoutes
    (scopedRoutesBy (configSource (ts_Xds ts)) (ScopedRoutes_ScopedRds (configSource (ts_Xds ts))))"
  obtain a m where a: "packManager k r = Inr a" "u a = Inr (hcm_view (m\<lparr>hm_RouteSpecifier := r\<rparr>))"
    using packManager_ok [OF assms] by blast
  then have mk: "MakeScopedRouteHTTPListener k (ts_Xds ts) (listener_name ts) (ts_currentPort ts) =
      Inr (makeListener (listener_name ts) (ts_currentPort ts) [filterChain ''http-connection-manager'' a])"
    by (simp add: MakeScopedRouteHTTPListener_def r_def)
  then show "MakeScopedRouteHTTPListener k (ts_Xds ts) (listener_name ts) (ts_currentPort ts) \<in> range Inr"
    by simp
  show "lm_Name (scoped_listener k ts) = listener_name ts" "listener_port (scoped_listener k ts) = ts_currentPort ts"
    by (simp_all only: scoped_listener_def mk sum.sel addTLS_view)
  show "resource_refs u RouteType (to_resource k (MsgListener (scoped_listener k ts))) = {}"
    unfolding scoped_listener_def mk sum.sel addTLS_view by (simp add: a hcm_view_def r_def scopedRoutesBy_def)
qed

lemma tcp_listener:
  assumes "codec_for u k"
  shows "MakeTCPListener k (listener_name ts) (ts_currentPort ts) c \<in> range Inr"
    and "lm_Name (tcp_listener k c ts) = listener_name ts"
    and "listener_port (tcp_listener k c ts) = ts_currentPort ts"
    and "resource_refs u RouteType (to_resource k (MsgListener (tcp_listener k c ts))) = {}"
proof -
  obtain a e where a: "pb_New k (PackTcpProxy \<lparr>tp_StatPrefix = ''tcp'', tp_Cluster = c\<rparr>) = Inr a" "u a = Inl e"
    using codec_for_tcp [OF assms] by blast
  then have mk: "MakeTCPListener k (listener_name ts) (ts_currentPort ts) c =
      Inr (makeListener (listener_name ts) (ts_currentPort ts) [filterChain ''tcp-proxy'' a])"
    by (simp add: MakeTCPListener_def)
  then show "MakeTCPListener k (listener_name ts) (ts_currentPort ts) c \<in> range Inr" by simp
  show "lm_Name (tcp_listener k c ts) = listener_name ts" "listener_port (tcp_listener k c ts) = ts_currentPort ts"
    by (simp_all only: tcp_listener_def mk sum.sel addTLS_view)
  show "resource_refs u RouteType (to_resource k (MsgListener (tcp_listener k c ts))) = {}"
    unfolding tcp_listener_def mk sum.sel addTLS_view by (simp add: a)
qed

lemma generateHTTPListeners_ok:
  assumes "codec_for u k" and "clusters \<noteq> []"
  shows "generateHTTPListeners k n clusters ts =
    Inr ((map (\<lambda>i. MsgListener (http_listener k (shift ts i))) [0..<nat n],
          map (\<lambda>i. MsgRoute (MakeRouteConfig (route_name (shift ts i)) (cluster_of k clusters i))) [0..<nat n]),
      shift ts (nat n))"
proof -
  have "MakeRouteHTTPListener k (ts_Xds ts) (listener_name (shift ts i)) (ts_currentPort ts + of_nat i)
      (route_name (shift ts i)) \<in> range Inr" for i
    using http_listener(1) [OF assms(1), of "shift ts i"] by simp
  then show ?thesis
    using assms(2) unfolding generateHTTPListeners_def
    by (auto simp: Let_def http_listener_def case_sum_Inr
        intro!: rfold_upt [where g = "\<lambda>j. ((map (\<lambda>i. MsgListener (http_listener k (shift ts i))) [0..<j],
          map (\<lambda>i. MsgRoute (MakeRouteConfig (route_name (shift ts i)) (cluster_of k clusters i))) [0..<j]), shift ts j)"])
qed

lemma generateScopedHTTPListeners_ok:
  assumes "codec_for u k" and "clusters \<noteq> []"
  shows "generateScopedHTTPListeners k n clusters ts =
    Inr ((map (\<lambda>i. MsgListener (scoped_listener k (shift ts i))) [0..<nat n],
          map (\<lambda>i. MsgScopedRoute (MakeScopedRouteConfig (''scopedroute-'' @ dec_nat i) (route_name (shift ts i))
                [getPath (shift ts i)])) [0..<nat n],
          map (\<lambda>i. MsgRoute (MakeRouteConfig (route_name (shift ts i)) (cluster_of k clusters i))) [0..<nat n]),
      shift ts (nat n))"
proof -
  have "MakeScopedRouteHTTPListener k (ts_Xds ts) (listener_name (shift ts i)) (ts_currentPort ts + of_nat i)
      \<in> range Inr" for i
    using scoped_listener(1) [OF assms(1), of "shift ts i"] by simp
  then show ?thesis
    using assms(2) unfolding generateScopedHTTPListeners_def
    by (auto simp: Let_def scoped_listener_def case_sum_Inr
        intro!: rfold_upt [where g = "\<lambda>j. ((map (\<lambda>i. MsgListener (scoped_listener k (shift ts i))) [0..<j],
          map (\<lambda>i. MsgScopedRoute (MakeScopedRouteConfig (''scopedroute-'' @ dec_nat i) (route_name (shift ts i))
            [getPath (shift ts i)])) [0..<j],
          map (\<lambda>i. MsgRoute (MakeRouteConfig (route_name (shift ts i)) (cluster_of k clusters i))) [0..<j]), shift ts j)"])
qed

lemma generateVHDSHTTPListeners_ok:
  assumes "codec_for u k" and "clusters \<noteq> []"
  shows "generateVHDSHTTPListeners k n clusters ts =
    Inr ((map (\<lambda>i. MsgListener (http_listener k (shift ts i))) [0..<nat n],
          map (\<lambda>i. MsgRoute (MakeVHDSRouteConfig (ts_Xds ts) (route_name (shift ts i)))) [0..<nat n],
          map (\<lambda>i. MsgVirtualHost (MakeVirtualHost (route_name (shift ts i) @ ''/'' @ getPath (shift ts i))
                (cluster_of k clusters i))) [0..<nat n]),
      shift ts (nat n))"
proof -
  have "MakeRouteHTTPListener k (ts_Xds ts) (listener_name (shift ts i)) (ts_currentPort ts + of_nat i)
      (route_name (shift ts i)) \<in> range Inr" for i
    using http_listener(1) [OF assms(1), of "shift ts i"] by simp
  then show ?thesis
    using assms(2) unfolding generateVHDSHTTPListeners_def
    by (auto simp: Let_def http_listener_def case_sum_Inr
        intro!: rfold_upt [where g = "\<lambda>j. ((map (\<lambda>i. MsgListener (http_listener k (shift ts i))) [0..<j],
          map (\<lambda>i. MsgRoute (MakeVHDSRouteConfig (ts_Xds ts) (route_name (shift ts i)))) [0..<j],
          map (\<lambda>i. MsgVirtualHost (MakeVirtualHost (route_name (shift ts i) @ ''/'' @ getPath (shift ts i))
            (cluster_of k clusters i))) [0..<j]), shift ts j)"])
qed

lemma generateTCPListeners_ok:
  assumes "codec_for u k" and "clusters \<noteq> []" and "ts_NumClusters ts = int (length clusters)"
  shows "generateTCPListeners k n clusters ts =
    Inr (map (\<lambda>i. MsgListener (tcp_listener k (cluster_of k clusters i) (shift ts i))) [0..<nat n], shift ts (nat n))"
proof -
  have "MakeTCPListener k (listener_name (shift ts i)) (ts_currentPort ts + of_nat i) c \<in> range Inr" for i c
    using tcp_listener(1) [OF assms(1), of "shift ts i"] by simp
  moreover have "i mod length clusters < length clusters" for i using assms(2) by simp
  ultimately show ?thesis
    using assms(2,3) unfolding generateTCPListeners_def
    by (auto simp: Let_def tcp_listener_def case_sum_Inr cluster_of_def not_le
        intro!: rfold_upt [where g = "\<lambda>j. (map (\<lambda>i. MsgListener (tcp_listener k (cluster_of k clusters i) (shift ts i)))
          [0..<j], shift ts j)"])
qed

lemma generateExtensions_ok:
  assumes "codec_for u k"
  shows "generateExtensions k ts \<in> range Inr"
proof -
  have "pb_New k m \<in> range Inr" for m using codec_for_New [OF assms, of m] by auto
  then have "MakeExtensionConfig k Ads c r \<in> range Inr" for c r
    by (simp add: MakeExtensionConfig_def Let_def case_sum_Inr)
  then show ?thesis
    unfolding generateExtensions_def
    by (subst rmap_total [where g = "\<lambda>i. MsgExtensionConfig (projr (MakeExtensionConfig k Ads
        (''extensionConfig-'' @ dec_nat i) (''route-'' @ ts_Version ts @ ''-'' @ dec_nat i)))"])
      (simp_all add: Let_def case_sum_Inr)
qed

subsection \<open>The snapshot\<close>

lemma map_upt_shift: "map f [m..<m + n] = map (\<lambda>i. f (m + i)) [0..<n]"
  by (induction n) simp_all

lemma upt_split4: "[0..<a + b + c + d] = [0..<a] @ [a..<a + b] @ [a + b..<a + b + c] @ [a + b + c..<a + b + c + (d::nat)]"
  using upt_add_eq_append [of 0 a b] upt_add_eq_append [of 0 "a + b" c] upt_add_eq_append [of 0 "a + b + c" d] by simp

lemma gen_listeners_split:
  "map (\<lambda>j. MsgListener (gen_listener k ts j)) [0..<num_listeners ts] =
     map (\<lambda>i. MsgListener (http_listener k (shift (start ts) i))) [0..<num_http ts] @
     map (\<lambda>i. MsgListener (scoped_listener k (shift (start ts) (num_http ts + i)))) [0..<num_scoped ts] @
     map (\<lambda>i. MsgListener (tcp_listener k (cluster_of k (gen_clusters ts) i)
       (shift (start ts) (num_http ts + num_scoped ts + i)))) [0..<num_tcp ts] @
     map (\<lambda>i. MsgListener (http_listener k (shift (start ts) (num_http ts + num_scoped ts + num_tcp ts + i))))
       [0..<num_vhds ts]"
  unfolding num_listeners_def upt_split4 map_append map_upt_shift
  by (intro arg_cong2 [where f = append] map_cong) (simp_all add: gen_listener_def)

lemma gen_routes_split:
  "map (\<lambda>j. MsgRoute (gen_route k ts j)) (route_indices ts) =
     map (\<lambda>i. MsgRoute (MakeRouteConfig (route_name (shift (start ts) i)) (cluster_of k (gen_clusters ts) i)))
       [0..<num_http ts] @
     map (\<lambda>i. MsgRoute (MakeRouteConfig (route_name (shift (start ts) (num_http ts + i)))
       (cluster_of k (gen_clusters ts) i))) [0..<num_scoped ts] @
     map (\<lambda>i. MsgRoute (MakeVHDSRouteConfig (ts_Xds ts)
       (route_name (shift (start ts) (num_http ts + num_scoped ts + num_tcp ts + i))))) [0..<num_vhds ts]"
  unfolding route_indices_def num_listeners_def upt_add_eq_append [OF le0] map_append map_upt_shift append_assoc
  by (intro arg_cong2 [where f = append] map_cong) (simp_all add: gen_route_def)

lemma start_simps [simp]:
  "ts_NumHTTPListeners (start ts) = ts_NumHTTPListeners ts" "ts_Xds (start ts) = ts_Xds ts"
  "ts_NumScopedHTTPListeners (start ts) = ts_NumScopedHTTPListeners ts"
  "ts_NumTCPListeners (start ts) = ts_NumTCPListeners ts" "ts_NumClusters (start ts) = ts_NumClusters ts"
  "ts_NumVHDSHTTPListeners (start ts) = ts_NumVHDSHTTPListeners ts" "ts_Version (start ts) = ts_Version ts"
  "ts_NumRuntimes (start ts) = ts_NumRuntimes ts" "ts_NumExtension (start ts) = ts_NumExtension ts"
  "ts_TLS (start ts) = ts_TLS ts" "ts_BasePort (start ts) = ts_BasePort ts"
  "ts_currentPort (start ts) = ts_BasePort ts" "ts_UpstreamPort (start ts) = ts_UpstreamPort ts"
  "cluster_name (start ts) = cluster_name ts" "gen_clusters (start ts) = gen_clusters ts"
  by (simp_all add: start_def cluster_name_def gen_clusters_def fun_eq_iff)

lemma num_simps [simp]:
  "num_http (shift ts i) = num_http ts" "num_scoped (shift ts i) = num_scoped ts"
  "num_tcp (shift ts i) = num_tcp ts" "num_vhds (shift ts i) = num_vhds ts"
  "num_http (start ts) = num_http ts" "num_scoped (start ts) = num_scoped ts"
  "num_tcp (start ts) = num_tcp ts" "num_vhds (start ts) = num_vhds ts"
  by (simp_all add: num_http_def num_scoped_def num_tcp_def num_vhds_def)

lemma Generate_ok:
  assumes k: "codec_for u k" and g: "generable ts" and c: "0 < ts_NumClusters ts"
  shows "\<exists>vh rt sec ext. Generate k pem ts =
    Inr (assemble k (ts_Version ts) (gen_endpoints ts) (gen_clusters ts)
           (map (\<lambda>j. MsgRoute (gen_route k ts j)) (route_indices ts))
           (map (\<lambda>i. MsgScopedRoute (gen_scoped ts i)) [0..<num_scoped ts]) vh
           (map (\<lambda>j. MsgListener (gen_listener k ts j)) [0..<num_listeners ts]) rt sec ext,
         shift (start ts) (num_listeners ts))"
proof -
  have c': "gen_clusters ts \<noteq> []" "ts_NumClusters ts = int (length (gen_clusters ts))"
    using c by (simp_all add: gen_clusters_def)
  obtain ext where ext: "generateExtensions k (shift (start ts) (num_listeners ts)) = Inr ext"
    using generateExtensions_ok [OF k] by blast
  have m: "makeslice (ts_NumClusters ts) = Inr ()" "makeslice (ts_NumRuntimes ts) = Inr ()"
      "makeslice (ts_NumExtension ts) = Inr ()"
    using g by (simp_all add: makeslice_def generable_def)
  have tcp: "ts_NumClusters (shift (start ts) i) = int (length (gen_clusters ts))" for i
    using c'(2) by simp
  show ?thesis
    unfolding gen_listeners_split gen_routes_split
    using ext m generateHTTPListeners_ok [OF k c'(1)] generateScopedHTTPListeners_ok [OF k c'(1)]
      generateVHDSHTTPListeners_ok [OF k c'(1)] generateTCPListeners_ok [OF k c'(1) tcp]
    by (simp add: Generate_def Let_def start_def [symmetric] gen_clusters_def [symmetric] gen_endpoints_def [symmetric]
        num_http_def [symmetric] num_scoped_def [symmetric] num_tcp_def [symmetric] num_vhds_def [symmetric]
        num_listeners_def gen_scoped_def add.assoc) blast
qed

lemma Generate_no_clusters:
  assumes k: "codec_for u k" and g: "generable ts" and c: "ts_NumClusters ts = 0"
  shows "\<exists>rt sec ext. Generate k pem ts = Inr (assemble k (ts_Version ts) [] [] [] [] [] [] rt sec ext, start ts)"
proof -
  obtain ext where ext: "generateExtensions k (start ts) = Inr ext"
    using generateExtensions_ok [OF k] by blast
  have m: "makeslice 0 = Inr ()" "makeslice (ts_NumRuntimes ts) = Inr ()" "makeslice (ts_NumExtension ts) = Inr ()"
    using g by (simp_all add: makeslice_def generable_def)
  show ?thesis
    using ext m c
    by (simp add: Generate_def Let_def start_def [symmetric] generateHTTPListeners_def generateScopedHTTPListeners_def
        generateVHDSHTTPListeners_def generateTCPListeners_def) blast
qed

lemma assemble_resources:
  "\<exists>s. assemble k v e c r sr vh l rt sec ext = Some s \<and>
     (\<forall>t. gomap_ok (rs_Items (sn_Resources s t))) \<and>
     sn_Resources s Endpoint = NewResources v (map (to_resource k) e) \<and>
     sn_Resources s Cluster = NewResources v (map (to_resource k) c) \<and>
     sn_Resources s Route = NewResources v (map (to_resource k) r) \<and>
     sn_Resources s ScopedRoute = NewResources v (map (to_resource k) sr) \<and>
     sn_Resources s Listener = NewResources v (map (to_resource k) l)"
  by (simp add: assemble_def NewSnapshot_def Let_def emptySnapshot_def)

subsection \<open>Names and references\<close>

lemma fst_NewResources: "fst ` set (rs_Items (NewResources v items)) = GetResourceName ` set items"
proof -
  have "fst ` set (fold (\<lambda>item. AList.update (GetResourceName (rt_Resource item)) item)
      (map (\<lambda>r. \<lparr>rt_Resource = r, rt_TTL = None\<rparr>) items) a) = GetResourceName ` set items \<union> fst ` set a" for a
    by (induction items arbitrary: a) (auto simp: dom_update)
  then show ?thesis by (simp add: NewResources_def NewResourcesWithTTL_def IndexResourcesByName_def)
qed

lemma snapshot_refs_distinct:
  assumes "distinct (map (GetResourceName \<circ> f) xs)"
  shows "(\<Union>(n, r)\<in>set (rs_Items (NewResources v (map f xs))). resource_refs u t (rt_Resource r)) =
    (\<Union>x\<in>set xs. resource_refs u t (f x))"
  using NewResources_distinct [of "map f xs" v] assms by (auto simp: comp_def)

lemma gen_listener:
  assumes "codec_for u k"
  shows "lm_Name (gen_listener k ts j) = listener_name (shift (start ts) j)"
    and "listener_port (gen_listener k ts j) = ts_BasePort ts + of_nat j"
    and "resource_refs u RouteType (to_resource k (MsgListener (gen_listener k ts j))) =
      (if num_http ts \<le> j \<and> j < num_http ts + num_scoped ts + num_tcp ts then {}
       else {route_name (shift (start ts) j)})"
  using http_listener [OF assms] scoped_listener [OF assms] tcp_listener [OF assms]
  by (simp_all add: gen_listener_def del: to_resource.simps listener_port.simps)

lemma listener_name_shift:
  "j < 2 ^ 32 \<Longrightarrow> listener_name (shift (start ts) j) = ''listener-'' @ dec_nat j"
  by (simp add: listener_name_def dec32_def unat_of_nat)

lemma distinct_listener_names:
  assumes "codec_for u k" and "n \<le> 2 ^ 32"
  shows "distinct (map (GetResourceName \<circ> (\<lambda>j. to_resource k (MsgListener (gen_listener k ts j)))) [0..<n])"
proof -
  have "map (GetResourceName \<circ> (\<lambda>j. to_resource k (MsgListener (gen_listener k ts j)))) [0..<n] =
      map (\<lambda>j. ''listener-'' @ dec_nat j) [0..<n]"
    using assms(2) by (auto simp: gen_listener(1) [OF assms(1)] listener_name_shift)
  then show ?thesis by (simp add: distinct_map inj_on_def)
qed

lemma gen_route_name [simp]: "rc_Name (gen_route k ts j) = route_name (shift (start ts) j)"
  by (simp add: gen_route_def MakeRouteConfig_def MakeVHDSRouteConfig_def)

lemma gen_scoped_simps [simp]:
  "srte_Name (gen_scoped ts i) = ''scopedroute-'' @ dec_nat i"
  "srte_RouteConfigurationName (gen_scoped ts i) = route_name (shift (start ts) (num_http ts + i))"
  by (simp_all add: gen_scoped_def MakeScopedRouteConfig_def)

lemma set_route_indices:
  "set (route_indices ts) = {j. j < num_listeners ts \<and>
     \<not> (num_http ts + num_scoped ts \<le> j \<and> j < num_http ts + num_scoped ts + num_tcp ts)}"
  by (auto simp: route_indices_def num_listeners_def)

text \<open>The routes that the listeners and the scoped routes refer to.\<close>

lemma gen_route_refs:
  assumes "codec_for u k"
  shows "(\<Union>j<num_listeners ts. resource_refs u RouteType (to_resource k (MsgListener (gen_listener k ts j)))) \<union>
      (\<Union>i<num_scoped ts. {route_name (shift (start ts) (num_http ts + i))}) =
    (\<lambda>j. route_name (shift (start ts) j)) ` set (route_indices ts)" (is "?L \<union> ?S = ?R")
proof -
  let ?f = "\<lambda>j. route_name (shift (start ts) j)"
  let ?A = "{j. j < num_listeners ts \<and> \<not> (num_http ts \<le> j \<and> j < num_http ts + num_scoped ts + num_tcp ts)}"
  have "?S = ?f ` ((\<lambda>i. num_http ts + i) ` {..<num_scoped ts})" by (simp add: image_image UNION_singleton_eq_range)
  moreover have "?L = ?f ` ?A"
    unfolding gen_listener(3) [OF assms] by (auto simp del: route_name_not_Nil split: if_splits)
  moreover have "?A \<union> (\<lambda>i. num_http ts + i) ` {..<num_scoped ts} = set (route_indices ts)"
  proof -
    have "(\<lambda>i. num_http ts + i) ` {..<num_scoped ts} = {num_http ts..<num_http ts + num_scoped ts}"
      by (simp add: lessThan_atLeast0 add.commute)
    then show ?thesis unfolding set_route_indices by (auto simp: num_listeners_def)
  qed
  ultimately show ?thesis by (simp only: image_Un [symmetric])
qed

lemma cluster_refs_gen:
  "resource_refs u EndpointType (to_resource k (MsgCluster (MakeCluster m c))) = {c}"
  by (simp add: resource_refs_def cluster_refs_def MakeCluster_def)

lemma distinct_cluster_names:
  "distinct (map (GetResourceName \<circ> (\<lambda>i. to_resource k (MsgCluster (MakeCluster m (cluster_name ts i))))) [0..<n])"
  by (simp add: distinct_map inj_on_def MakeCluster_def cluster_name_def)

lemma distinct_scoped_names:
  "distinct (map (GetResourceName \<circ> (\<lambda>i. to_resource k (MsgScopedRoute (gen_scoped ts i)))) [0..<n])"
  by (simp add: distinct_map inj_on_def)

lemma Generate_consistent:
  assumes k: "codec_for u k" and g: "generable ts" and n: "num_listeners ts \<le> 2 ^ 32"
  shows "\<exists>s ts'. Generate k pem ts = Inr (Some s, ts') \<and> Consistent u (Some s) = Inr ()"
proof (cases "ts_NumClusters ts = 0")
  case True
  obtain rt sec ext where gen: "Generate k pem ts = Inr (assemble k (ts_Version ts) [] [] [] [] [] [] rt sec ext, start ts)"
    using Generate_no_clusters [OF k g True] by blast
  obtain s where s: "assemble k (ts_Version ts) [] [] [] [] [] [] rt sec ext = Some s"
      "\<forall>t. gomap_ok (rs_Items (sn_Resources s t))"
      "\<forall>t\<in>{Endpoint, Cluster, Route, ScopedRoute, Listener}. sn_Resources s t = NewResources (ts_Version ts) []"
    using assemble_resources [of k "ts_Version ts" "[]" "[]" "[]" "[]" "[]" "[]" rt sec ext] by auto
  have "rs_Items (NewResources v []) = []" for v using NewResources_distinct [of "[]"] by simp
  with s have "Consistent u (Some s) = Inr ()" by (simp add: Consistent_Inr snapshot_refs_def)
  with gen s(1) show ?thesis by auto
next
  case False
  with g have c: "0 < ts_NumClusters ts" by (simp add: generable_def)
  let ?v = "ts_Version ts" and ?routes = "map (\<lambda>j. MsgRoute (gen_route k ts j)) (route_indices ts)"
    and ?scoped = "map (\<lambda>i. MsgScopedRoute (gen_scoped ts i)) [0..<num_scoped ts]"
    and ?listeners = "map (\<lambda>j. MsgListener (gen_listener k ts j)) [0..<num_listeners ts]"
  obtain vh rt sec ext where gen: "Generate k pem ts = Inr (assemble k ?v (gen_endpoints ts) (gen_clusters ts)
      ?routes ?scoped vh ?listeners rt sec ext, shift (start ts) (num_listeners ts))"
    using Generate_ok [OF k g c] by blast
  obtain s where s: "assemble k ?v (gen_endpoints ts) (gen_clusters ts) ?routes ?scoped vh ?listeners rt sec ext = Some s"
      "\<And>t. gomap_ok (rs_Items (sn_Resources s t))"
    and R: "sn_Resources s Endpoint = NewResources ?v (map (to_resource k) (gen_endpoints ts))"
      "sn_Resources s Cluster = NewResources ?v (map (to_resource k) (gen_clusters ts))"
      "sn_Resources s Route = NewResources ?v (map (to_resource k) ?routes)"
      "sn_Resources s ScopedRoute = NewResources ?v (map (to_resource k) ?scoped)"
      "sn_Resources s Listener = NewResources ?v (map (to_resource k) ?listeners)"
    using assemble_resources [of k ?v "gen_endpoints ts" "gen_clusters ts" ?routes ?scoped vh ?listeners rt sec ext]
    by blast
  have refs: "snapshot_refs u (sn_Resources s) t =
      (\<Union>i<nat (ts_NumClusters ts). resource_refs u t (to_resource k (MsgCluster (MakeCluster (ts_Xds ts) (cluster_name ts i))))) \<union>
      (\<Union>j<num_listeners ts. resource_refs u t (to_resource k (MsgListener (gen_listener k ts j)))) \<union>
      (\<Union>i<num_scoped ts. resource_refs u t (to_resource k (MsgScopedRoute (gen_scoped ts i))))" for t
    unfolding snapshot_refs_def R(2,4,5) gen_clusters_def map_map comp_def UN_insert UN_empty
      snapshot_refs_distinct [OF distinct_cluster_names] snapshot_refs_distinct [OF distinct_scoped_names]
      snapshot_refs_distinct [OF distinct_listener_names [OF k n]]
    by (auto simp: lessThan_atLeast0)
  have "snapshot_refs u (sn_Resources s) EndpointType = cluster_name ts ` {..<nat (ts_NumClusters ts)}"
    unfolding refs cluster_refs_gen by (auto simp: resource_refs_def)
  moreover have "snapshot_refs u (sn_Resources s) RouteType = (\<lambda>j. route_name (shift (start ts) j)) ` set (route_indices ts)"
    unfolding refs gen_route_refs [OF k, symmetric] by (auto simp: resource_refs_def MakeCluster_def)
  moreover have "fst ` set (rs_Items (sn_Resources s Endpoint)) = cluster_name ts ` {..<nat (ts_NumClusters ts)}"
    by (simp add: R(1) fst_NewResources gen_endpoints_def image_image MakeEndpoint_def lessThan_atLeast0)
  moreover have "fst ` set (rs_Items (sn_Resources s Route)) = (\<lambda>j. route_name (shift (start ts) j)) ` set (route_indices ts)"
    by (simp add: R(3) fst_NewResources image_image)
  ultimately have "Consistent u (Some s) = Inr ()" using Consistent_Inr [OF s(2)] by simp
  with gen s(1) show ?thesis by auto
qed

lemma Generate_listeners:
  assumes "codec_for u k" and "generable ts" and "num_listeners ts \<le> 2 ^ 32" and "0 < ts_NumClusters ts"
  shows "\<exists>s ls. Generate k pem ts = Inr (Some s, ts\<lparr>ts_currentPort := ts_BasePort ts + of_nat (num_listeners ts)\<rparr>) \<and>
    length ls = num_listeners ts \<and>
    GetResources (Some s) ListenerType =
      map (\<lambda>j. (''listener-'' @ dec_nat j, to_resource k (MsgListener (ls ! j)))) [0..<num_listeners ts] \<and>
    (\<forall>j<num_listeners ts. listener_port (ls ! j) = ts_BasePort ts + of_nat j)"
proof -
  let ?f = "\<lambda>j. to_resource k (MsgListener (gen_listener k ts j))"
  obtain s where gen: "Generate k pem ts = Inr (Some s, shift (start ts) (num_listeners ts))"
    and R: "sn_Resources s Listener = NewResources (ts_Version ts) (map ?f [0..<num_listeners ts])"
  proof -
    obtain vh rt sec ext where gen: "Generate k pem ts = Inr (assemble k (ts_Version ts) (gen_endpoints ts) (gen_clusters ts)
        (map (\<lambda>j. MsgRoute (gen_route k ts j)) (route_indices ts))
        (map (\<lambda>i. MsgScopedRoute (gen_scoped ts i)) [0..<num_scoped ts]) vh
        (map (\<lambda>j. MsgListener (gen_listener k ts j)) [0..<num_listeners ts]) rt sec ext,
        shift (start ts) (num_listeners ts))"
      using Generate_ok [OF assms(1,2,4)] by blast
    then show thesis
      using assemble_resources [of k "ts_Version ts" "gen_endpoints ts" "gen_clusters ts"
          "map (\<lambda>j. MsgRoute (gen_route k ts j)) (route_indices ts)"
          "map (\<lambda>i. MsgScopedRoute (gen_scoped ts i)) [0..<num_scoped ts]" vh
          "map (\<lambda>j. MsgListener (gen_listener k ts j)) [0..<num_listeners ts]" rt sec ext] that
      by (auto simp: comp_def simp del: to_resource.simps)
  qed
  have "map (\<lambda>j. (GetResourceName (?f j), ?f j)) [0..<num_listeners ts] =
      map (\<lambda>j. (''listener-'' @ dec_nat j, ?f j)) [0..<num_listeners ts]"
    using assms(3) by (auto simp: gen_listener(1) [OF assms(1)] listener_name_shift)
  then have "GetResources (Some s) ListenerType = map (\<lambda>j. (''listener-'' @ dec_nat j, ?f j)) [0..<num_listeners ts]"
    using distinct_listener_names [OF assms(1,3)] NewResources_distinct [of "map ?f [0..<num_listeners ts]"]
    by (simp add: GetResources_def GetResourcesAndTTL_def R comp_def del: to_resource.simps)
  with gen gen_listener(2) [OF assms(1)] show ?thesis
    by (intro exI [of _ s] exI [of _ "map (gen_listener k ts) [0..<num_listeners ts]"])
      (auto simp: shift_def start_def simp del: to_resource.simps listener_port.simps)
qed

subsection \<open>Round robin\<close>

lemma count_mod:
  assumes "0 < m" and "c < m"
  shows "length (filter (\<lambda>i. i mod m = c) [0..<n]) = n div m + (if c < n mod m then 1 else 0)"
proof (induction n)
  case (Suc n)
  show ?case
  proof (cases "Suc (n mod m) = m")
    case True
    then have "Suc n div m = Suc (n div m)" "Suc n mod m = 0" by (simp_all add: div_Suc mod_Suc)
    with Suc True assms show ?thesis by auto
  next
    case False
    then have "Suc n div m = n div m" "Suc n mod m = Suc (n mod m)" by (simp_all add: div_Suc mod_Suc)
    with Suc show ?thesis by auto
  qed
qed simp

lemma cluster_of_eq:
  assumes "distinct (map (\<lambda>m. GetResourceName (to_resource k m)) clusters)" and "c < length clusters"
  shows "cluster_of k clusters i = GetResourceName (to_resource k (clusters ! c)) \<longleftrightarrow> i mod length clusters = c"
proof -
  have "i mod length clusters < length clusters" using assms(2) by (intro mod_less_divisor) linarith
  then show ?thesis
    using assms nth_eq_iff_index_eq [of "map (\<lambda>m. GetResourceName (to_resource k m)) clusters" "i mod length clusters" c]
    by (simp add: cluster_of_def)
qed

section \<open>Properties\<close>

lemma ex_test_simps: "generable ex_test" "num_listeners ex_test = 6" "0 < ts_NumClusters ex_test"
  by (simp_all add: generable_def num_listeners_def num_http_def num_scoped_def num_tcp_def num_vhds_def ex_test_def)

text \<open>C28: \<open>Generate\<close> always gives a consistent snapshot. For every mode, version and TLS setting, and for all
  numbers of clusters, runtimes and extensions that are not negative and at most \<open>2 ^ 32\<close> listeners,
  \<open>Generate\<close> returns a snapshot, and \<open>Consistent\<close> accepts it: the endpoints are those the clusters name, and the
  routes those that the HTTP and VHDS listeners and the scoped routes name.\<close>

theorem test_snapshot_consistent:
  assumes "codec_for u k" and "generable ts" and "num_listeners ts \<le> 2 ^ 32"
  shows "\<exists>s ts'. Generate k pem ts = Inr (Some s, ts') \<and> Consistent u (Some s) = Inr ()"
  using assms by (rule Generate_consistent)

theorem test_snapshot_consistent_witness:
  "\<exists>s ts'. Generate ex_codec ex_pem ex_test = Inr (Some s, ts') \<and> Consistent ex_unmarshal (Some s) = Inr ()"
  using test_snapshot_consistent [OF ex_codec_for ex_test_simps(1)] ex_test_simps(2) by simp

text \<open>The listeners of a generated snapshot with clusters. There are as many as asked for, the \<open>j\<close>-th has the
  name \<open>listener-j\<close> and the port \<open>BasePort + j\<close>, and the receiver ends with the port after the last one.\<close>

theorem test_snapshot_listeners:
  assumes "codec_for u k" and "generable ts" and "num_listeners ts \<le> 2 ^ 32" and "0 < ts_NumClusters ts"
  shows "\<exists>s ls. Generate k pem ts = Inr (Some s, ts\<lparr>ts_currentPort := ts_BasePort ts + of_nat (num_listeners ts)\<rparr>) \<and>
    length ls = num_listeners ts \<and>
    GetResources (Some s) ListenerType =
      map (\<lambda>j. (''listener-'' @ dec_nat j, to_resource k (MsgListener (ls ! j)))) [0..<num_listeners ts] \<and>
    (\<forall>j<num_listeners ts. listener_port (ls ! j) = ts_BasePort ts + of_nat j)"
  using assms by (rule Generate_listeners)

theorem test_snapshot_listeners_witness:
  "\<exists>s l. Generate ex_codec ex_pem ex_test = Inr (Some s, ex_test\<lparr>ts_currentPort := 9006\<rparr>) \<and>
    GetResources (Some s) ListenerType ! 5 = (''listener-'' @ dec_nat 5, to_resource ex_codec (MsgListener l)) \<and>
    listener_port l = 9005"
proof -
  have b: "ts_BasePort ex_test = 9000" by (simp add: ex_test_def)
  have "num_listeners ex_test \<le> 2 ^ 32" by (simp add: ex_test_simps)
  from test_snapshot_listeners [OF ex_codec_for ex_test_simps(1) this ex_test_simps(3), of ex_pem]
  obtain s ls where "Generate ex_codec ex_pem ex_test = Inr (Some s, ex_test\<lparr>ts_currentPort := 9006\<rparr>)"
      "GetResources (Some s) ListenerType =
         map (\<lambda>j. (''listener-'' @ dec_nat j, to_resource ex_codec (MsgListener (ls ! j)))) [0..<6]"
      "\<forall>j<6. listener_port (ls ! j) = 9000 + of_nat j"
    unfolding ex_test_simps(2) b by (auto simp del: to_resource.simps listener_port.simps)
  moreover have "listener_port (ls ! 5) = 9005" using calculation(3) [rule_format, of 5] by simp
  ultimately show ?thesis by (auto simp del: to_resource.simps listener_port.simps)
qed

text \<open>The routes are evenly distributed. Of the route configurations made for \<open>n\<close> HTTP listeners over \<open>m\<close>
  clusters with different names, \<open>n div m\<close> send to the \<open>c\<close>-th cluster, and one more when \<open>c < n mod m\<close>.\<close>

theorem routes_evenly_distributed:
  assumes "codec_for u k" and "distinct (map (\<lambda>m. GetResourceName (to_resource k m)) clusters)"
    and "c < length clusters"
  shows "\<exists>ls rs ts'. generateHTTPListeners k n clusters ts = Inr ((ls, rs), ts') \<and> length rs = nat n \<and>
    length (filter (\<lambda>r. route_targets r = [GetResourceName (to_resource k (clusters ! c))]) rs) =
      nat n div length clusters + (if c < nat n mod length clusters then 1 else 0)"
proof -
  have pos: "clusters \<noteq> []" "0 < length clusters" using assms(3) by auto
  note gen = generateHTTPListeners_ok [OF assms(1) pos(1), of n ts]
  have "route_targets (MsgRoute (MakeRouteConfig r d)) = [d]" for r d by (simp add: MakeRouteConfig_def)
  then have "length (filter (\<lambda>r. route_targets r = [GetResourceName (to_resource k (clusters ! c))])
      (map (\<lambda>i. MsgRoute (MakeRouteConfig (route_name (shift ts i)) (cluster_of k clusters i))) [0..<nat n])) =
      length (filter (\<lambda>i. i mod length clusters = c) [0..<nat n])"
    by (simp add: filter_map comp_def cluster_of_eq [OF assms(2,3)])
  then show ?thesis using gen count_mod [OF pos(2) assms(3), of "nat n"] by auto
qed

theorem routes_evenly_distributed_witness:
  "\<exists>ls rs ts'. generateHTTPListeners ex_codec 3 (gen_clusters ex_test) (start ex_test) = Inr ((ls, rs), ts') \<and>
     length rs = 3 \<and> length (filter (\<lambda>r. route_targets r = [''cluster-v0-0'']) rs) = 2"
proof -
  have c: "gen_clusters ex_test = [MsgCluster (MakeCluster Delta ''cluster-v0-0''), MsgCluster (MakeCluster Delta ''cluster-v0-1'')]"
    by (simp add: gen_clusters_def ex_test_def cluster_name_def upt_rec dec_nat.simps)
  have "distinct (map (\<lambda>m. GetResourceName (to_resource ex_codec m)) (gen_clusters ex_test))"
    by (simp add: c MakeCluster_def)
  moreover have len: "length (gen_clusters ex_test) = 2"
      and name: "GetResourceName (to_resource ex_codec (gen_clusters ex_test ! 0)) = ''cluster-v0-0''"
    by (simp_all add: c MakeCluster_def)
  ultimately show ?thesis
    using routes_evenly_distributed [OF ex_codec_for, of "gen_clusters ex_test" 0 3 "start ex_test"]
    unfolding len name by (simp flip: numeral_2_eq_2)
qed

end
