(* ===== verification/Test_Driver.thy ===== *)
theory Test_Driver
  imports Test_Callbacks Test_Snapshot Gateway
begin

text \<open>
  The driver of the integration test, \<open>src/pkg/test/main/main.go\<close>, with the HTTP handler of
  \<open>src/pkg/test/server.go\<close>.

  The driver sets one generated snapshot after the other and calls the listeners of the proxy until they
  all answer with the expected message. What the proxy answers is a parameter: \<open>client\<close> gives the outcome of
  a request by its URL, and \<open>order\<close> the order in which the goroutines of \<open>callEcho\<close> report. The server goroutines
  that use the caches meanwhile are the parameter \<open>serve\<close>. Flags are fields of a record; printing and
  profiling are left out; the sleep between batches is left out, its other case \<open>ctx.Done()\<close> is never ready.
\<close>

section \<open>Definitions\<close>

subsection \<open>The gateway handler\<close>

text \<open>What the handler writes: an error text with a status, a status only, or a body.\<close>

datatype http_reply = ReplyError error nat | ReplyStatus nat | ReplyBody "byte list"

definition test_ServeHTTP ::
  "('c, 'k, 'u) xds_server \<Rightarrow> (byte list \<Rightarrow> DiscoveryRequest result) \<Rightarrow>
     (DiscoveryResponse option \<Rightarrow> byte list result) \<Rightarrow> marshaler \<Rightarrow> http_request \<Rightarrow> 'c \<Rightarrow> 'u \<Rightarrow> http_reply \<times> 'u" where
  "test_ServeHTTP h unmarshal marshalJSON marshal req c u =
     (case ServeHTTP h unmarshal marshalJSON marshal req c u of
        ((bytes, code, err), u) \<Rightarrow>
          (case err of
             Some e \<Rightarrow> (ReplyError e code, u)
           | None \<Rightarrow>
               (case bytes of
                  None \<Rightarrow> (ReplyStatus StatusNotModified, u)
                | Some b \<Rightarrow> (ReplyBody b, u))))"

fun reply_status :: "http_reply \<Rightarrow> nat" where
  "reply_status (ReplyError e code) = code"
| "reply_status (ReplyStatus code) = code"
| "reply_status (ReplyBody b) = StatusOK"

subsection \<open>Calling the listeners\<close>

text \<open>What a GET gives: the request cannot be made or sent, or there is a response, whose body is read and
  closed.\<close>

record echo_response =
  er_body :: "string result"
  er_close :: "error option"

type_synonym http_client = "string \<Rightarrow> echo_response result"

definition echo_url :: "bool \<Rightarrow> 64 word \<Rightarrow> nat \<Rightarrow> string" where
  "echo_url tls basePort n =
     (if tls then ''https'' else ''http'') @ ''://127.0.0.1:'' @ FormatUint (basePort + of_nat n)"

text \<open>The body of a goroutine: what it sends on the channel.\<close>

definition echo :: "http_client \<Rightarrow> string \<Rightarrow> bool \<Rightarrow> 64 word \<Rightarrow> nat \<Rightarrow> error option" where
  "echo client upstreamMessage tls basePort i =
     (case client (echo_url tls basePort i) of
        Inl err \<Rightarrow> Some err
      | Inr resp \<Rightarrow>
          (case er_body resp of
             Inl err \<Rightarrow> Some err
           | Inr body \<Rightarrow>
               (case er_close resp of
                  Some err \<Rightarrow> Some err
                | None \<Rightarrow>
                    if body \<noteq> upstreamMessage then Some (Errorf ''unexpected return %q'' [body]) else None)))"

text \<open>The receiving loop over what arrives on the channel; \<open>None\<close> when it waits forever.\<close>

fun echo_loop :: "int \<Rightarrow> error option list \<Rightarrow> int \<Rightarrow> int \<Rightarrow> (int \<times> int) option" where
  "echo_loop tot [] ok failed = None"
| "echo_loop tot (out # rest) ok failed =
     (let (ok, failed) = (if out = None then (ok + 1, failed) else (ok, failed + 1))
      in if ok + failed = tot then Some (ok, failed) else echo_loop tot rest ok failed)"

record flags =
  fl_upstreamPort :: "64 word"
  fl_upstreamMessage :: string
  fl_basePort :: "64 word"
  fl_requests :: int
  fl_updates :: int
  fl_mode :: string
  fl_clusters :: int
  fl_httpListeners :: int
  fl_scopedHTTPListeners :: int
  fl_vhdsHTTPListeners :: int
  fl_tcpListeners :: int
  fl_runtimes :: int
  fl_tls :: bool
  fl_mux :: bool
  fl_extensionNum :: int
  fl_nodeID :: string

definition default_flags :: flags where
  "default_flags =
     \<lparr>fl_upstreamPort = 18080, fl_upstreamMessage = ''Default message'', fl_basePort = 9000, fl_requests = 5,
      fl_updates = 3, fl_mode = Ads, fl_clusters = 4, fl_httpListeners = 2, fl_scopedHTTPListeners = 2,
      fl_vhdsHTTPListeners = 2, fl_tcpListeners = 2, fl_runtimes = 1, fl_tls = False, fl_mux = False,
      fl_extensionNum = 1, fl_nodeID = ''test-id''\<rparr>"

definition echo_total :: "flags \<Rightarrow> int" where
  "echo_total fl =
     fl_httpListeners fl + fl_scopedHTTPListeners fl + fl_tcpListeners fl + fl_vhdsHTTPListeners fl"

text \<open>\<open>callEcho\<close> with the goroutines reporting in the given order; making the channel panics on a negative
  capacity.\<close>

definition callEcho :: "flags \<Rightarrow> http_client \<Rightarrow> nat list \<Rightarrow> (int \<times> int) option result" where
  "callEcho fl client order =
     (let tot = echo_total fl in
      if tot < 0 then Inl (Panic ''makechan: size out of range'')
      else Inr (echo_loop tot
        (map (echo client (fl_upstreamMessage fl) (fl_tls fl) (fl_basePort fl)) order) 0 0))"

subsection \<open>The driver\<close>

record driver_state =
  dr_config :: snapshotCache
  dr_eds :: LinearCache
  dr_als :: AccessLogService
  dr_snapshots :: TestSnapshot

datatype driver_end = Exit nat | Crash error | Hang

text \<open>The world around the driver, by update and batch.\<close>

record driver_world =
  dw_signalled :: bool \<comment> \<open>a first request arrives before the timeout\<close>
  dw_client :: "nat \<Rightarrow> nat \<Rightarrow> http_client"
  dw_order :: "nat \<Rightarrow> nat \<Rightarrow> nat list"
  dw_serve :: "nat \<Rightarrow> snapshotCache \<times> LinearCache \<times> AccessLogService \<Rightarrow> snapshotCache \<times> LinearCache \<times> AccessLogService"

text \<open>What the server goroutines do to the shared objects before an update.\<close>

definition served :: "driver_world \<Rightarrow> nat \<Rightarrow> driver_state \<Rightarrow> driver_state" where
  "served w i st =
     (case dw_serve w i (dr_config st, dr_eds st, dr_als st) of
        (config, eds, als) \<Rightarrow> st\<lparr>dr_config := config, dr_eds := eds, dr_als := als\<rparr>)"

text \<open>The batches of one update: \<open>Inr pass\<close>, or how the program ends.\<close>

fun driver_batches :: "flags \<Rightarrow> (nat \<Rightarrow> http_client) \<Rightarrow> (nat \<Rightarrow> nat list) \<Rightarrow> nat list \<Rightarrow> bool \<Rightarrow> driver_end + bool" where
  "driver_batches fl client order [] pass = Inr pass"
| "driver_batches fl client order (j # js) pass =
     (case callEcho fl (client j) (order j) of
        Inl e \<Rightarrow> Inl (Crash e)
      | Inr None \<Rightarrow> Inl Hang
      | Inr (Some (ok, failed)) \<Rightarrow>
          driver_batches fl client order js (if failed = 0 \<and> \<not> pass then True else pass))"

text \<open>The loop over the endpoints in mux mode; the first error ends it.\<close>

fun update_eds :: "marshaler \<Rightarrow> (string, Resource) gomap \<Rightarrow> LinearCache \<Rightarrow> LinearCache \<times> error option" where
  "update_eds marshal [] eds = (eds, None)"
| "update_eds marshal ((name, res) # rest) eds =
     (case UpdateResource marshal name res eds of
        (eds, out, Some e) \<Rightarrow> (eds, Some e)
      | (eds, out, None) \<Rightarrow> update_eds marshal rest eds)"

text \<open>One update: \<open>Inr\<close> goes on with the next one. A nil snapshot does not occur (see
  \<open>test_snapshot_consistent\<close>); it is shown as a crash.\<close>

definition driver_update ::
  "marshaler \<Rightarrow> pb_codec \<Rightarrow> pem_texts \<Rightarrow> flags \<Rightarrow> driver_world \<Rightarrow> nat \<Rightarrow> driver_state \<Rightarrow> driver_state \<times> (driver_end + unit)" where
  "driver_update marshal k pem fl w i st =
     (let st = served w i st; snapshots = (dr_snapshots st)\<lparr>ts_Version := ''v'' @ dec_nat i\<rparr> in
      case Generate k pem snapshots of
        Inl e \<Rightarrow> (st, Inl (Crash e))
      | Inr (None, snapshots) \<Rightarrow> (st, Inl (Crash (Errorf ''nil snapshot'' [])))
      | Inr (Some snapshot, snapshots) \<Rightarrow>
          (case SetSnapshot marshal Background (fl_nodeID fl) snapshot (dr_config st) of
             (config, out, Some e) \<Rightarrow> (st\<lparr>dr_config := config, dr_snapshots := snapshots\<rparr>, Inl (Exit 1))
           | (config, out, None) \<Rightarrow>
               (case (if fl_mux fl then update_eds marshal (GetResources (Some snapshot) EndpointType) (dr_eds st)
                      else (dr_eds st, None)) of
                  (eds, Some e) \<Rightarrow>
                    (st\<lparr>dr_config := config, dr_eds := eds, dr_snapshots := snapshots\<rparr>, Inl (Exit 1))
                | (eds, None) \<Rightarrow>
                    (let st = st\<lparr>dr_config := config, dr_eds := eds, dr_snapshots := snapshots\<rparr> in
                     case driver_batches fl (dw_client w i) (dw_order w i) [0..<nat (fl_requests fl)] False of
                       Inl e \<Rightarrow> (st, Inl e)
                     | Inr pass \<Rightarrow>
                         (let st = st\<lparr>dr_als := fst (Dump (\<lambda>s u. u) (dr_als st) ())\<rparr> in
                          if \<not> pass then (st, Inl (Exit 1)) else (st, Inr ()))))))"

fun driver_loop ::
  "marshaler \<Rightarrow> pb_codec \<Rightarrow> pem_texts \<Rightarrow> flags \<Rightarrow> driver_world \<Rightarrow> nat list \<Rightarrow> driver_state \<Rightarrow> driver_state \<times> driver_end" where
  "driver_loop marshal k pem fl w [] st = (st, Exit 0)"
| "driver_loop marshal k pem fl w (i # is) st =
     (case driver_update marshal k pem fl w i st of
        (st, Inl e) \<Rightarrow> (st, e)
      | (st, Inr _) \<Rightarrow> driver_loop marshal k pem fl w is st)"

definition driver_flags :: "flags \<Rightarrow> flags" where
  "driver_flags fl = (if fl_mode fl \<noteq> Delta then fl\<lparr>fl_vhdsHTTPListeners := 0\<rparr> else fl)"

text \<open>The classification of the multiplexing cache in mux mode.\<close>

definition driver_Classify :: "DiscoveryRequest \<Rightarrow> string" where
  "driver_Classify req = (if req_TypeUrl req = EndpointType then ''eds'' else ''default'')"

text \<open>The caches and the snapshot parameters that \<open>main\<close> starts with.\<close>

definition driver_start :: "flags \<Rightarrow> marshaler \<Rightarrow> driver_state" where
  "driver_start fl marshal =
     \<lparr>dr_config = NewSnapshotCache (fl_mode fl = Ads) IDHash,
      dr_eds = NewLinearCache marshal EndpointType [],
      dr_als = \<lparr>als_entries = [], als_now = 0\<rparr>,
      dr_snapshots =
        \<lparr>ts_Xds = fl_mode fl, ts_Version = '''', ts_UpstreamPort = ucast (fl_upstreamPort fl),
         ts_BasePort = ucast (fl_basePort fl), ts_NumClusters = fl_clusters fl,
         ts_NumHTTPListeners = fl_httpListeners fl, ts_NumScopedHTTPListeners = fl_scopedHTTPListeners fl,
         ts_NumVHDSHTTPListeners = fl_vhdsHTTPListeners fl, ts_NumTCPListeners = fl_tcpListeners fl,
         ts_NumRuntimes = fl_runtimes fl, ts_TLS = fl_tls fl, ts_NumExtension = fl_extensionNum fl,
         ts_currentPort = 0\<rparr>\<rparr>"

definition driver_main ::
  "marshaler \<Rightarrow> pb_codec \<Rightarrow> pem_texts \<Rightarrow> flags \<Rightarrow> driver_world \<Rightarrow> driver_state \<times> driver_end" where
  "driver_main marshal k pem fl w =
     (let fl = driver_flags fl; st = driver_start fl marshal in
      if \<not> dw_signalled w then (st, Exit 1)
      else driver_loop marshal k pem fl w [0..<nat (fl_updates fl)] st)"

subsection \<open>What a pass means\<close>

text \<open>The URL of a listener, and the snapshot parameters of the \<open>i\<close>-th update.\<close>

definition listener_url :: "bool \<Rightarrow> Listener_msg \<Rightarrow> string" where
  "listener_url tls l = (if tls then ''https'' else ''http'') @ ''://127.0.0.1:'' @ dec32 (listener_port l)"

definition driver_ts :: "flags \<Rightarrow> nat \<Rightarrow> TestSnapshot" where
  "driver_ts fl i = (dr_snapshots (driver_start fl (\<lambda>r. Inr [])))\<lparr>ts_Version := ''v'' @ dec_nat i\<rparr>"

text \<open>Flags with which everything can be generated, and the ports do not wrap.\<close>

definition flags_ok :: "flags \<Rightarrow> bool" where
  "flags_ok fl \<longleftrightarrow>
     0 < fl_clusters fl \<and> 0 \<le> fl_runtimes fl \<and> 0 \<le> fl_extensionNum fl \<and>
     0 \<le> fl_httpListeners fl \<and> 0 \<le> fl_scopedHTTPListeners fl \<and> 0 \<le> fl_tcpListeners fl \<and>
     0 \<le> fl_vhdsHTTPListeners fl \<and> uint (fl_basePort fl) + echo_total fl < 2 ^ 32"

subsection \<open>Examples\<close>

text \<open>A proxy whose listeners all answer with the message.\<close>

definition ex_flags :: flags where
  "ex_flags = \<lparr>fl_upstreamPort = 18080, fl_upstreamMessage = ''hi'', fl_basePort = 9000, fl_requests = 1, fl_updates = 1,
     fl_mode = Delta, fl_clusters = 1, fl_httpListeners = 1, fl_scopedHTTPListeners = 0, fl_vhdsHTTPListeners = 2,
     fl_tcpListeners = 1, fl_runtimes = 0, fl_tls = False, fl_mux = False, fl_extensionNum = 0, fl_nodeID = ''n''\<rparr>"

definition ex_client :: http_client where
  "ex_client url = Inr \<lparr>er_body = Inr ''hi'', er_close = None\<rparr>"

definition ex_world :: driver_world where
  "ex_world = \<lparr>dw_signalled = True, dw_client = (\<lambda>i j. ex_client), dw_order = (\<lambda>i j. [2, 0, 1, 3]), dw_serve = (\<lambda>i x. x)\<rparr>"

section \<open>Lemmas\<close>

lemma echo_loop_counts:
  assumes "ok + failed + int (length outs) = tot" and "outs \<noteq> []" and "0 \<le> ok" and "0 \<le> failed"
  shows "echo_loop tot outs ok failed =
    Some (ok + int (length (filter (\<lambda>e. e = None) outs)), failed + int (length (filter (\<lambda>e. e \<noteq> None) outs)))"
  using assms
proof (induction outs arbitrary: ok failed)
  case (Cons out rest)
  let ?ok = "if out = None then ok + 1 else ok" and ?failed = "if out = None then failed else failed + 1"
  have step: "echo_loop tot (out # rest) ok failed =
      (if ?ok + ?failed = tot then Some (?ok, ?failed) else echo_loop tot rest ?ok ?failed)"
    by simp
  show ?case
  proof (cases "rest = []")
    case True
    with Cons.prems step show ?thesis by auto
  next
    case False
    then have "?ok + ?failed \<noteq> tot" using Cons.prems(1) by (cases rest) auto
    moreover have "echo_loop tot rest ?ok ?failed = Some (?ok + int (length (filter (\<lambda>e. e = None) rest)),
        ?failed + int (length (filter (\<lambda>e. e \<noteq> None) rest)))"
      by (rule Cons.IH) (use Cons.prems False in auto)
    ultimately show ?thesis unfolding step by (auto simp del: echo_loop.simps)
  qed
qed simp

lemma length_filter_perm: "mset xs = mset ys \<Longrightarrow> length (filter P xs) = length (filter P ys)"
  by (metis mset_filter size_mset)

lemma callEcho_total:
  assumes "0 < echo_total fl" and "mset order = mset [0..<nat (echo_total fl)]"
  shows "callEcho fl client order =
    Inr (Some (int (length (filter (\<lambda>i. echo client (fl_upstreamMessage fl) (fl_tls fl) (fl_basePort fl) i = None)
                 [0..<nat (echo_total fl)])),
               int (length (filter (\<lambda>i. echo client (fl_upstreamMessage fl) (fl_tls fl) (fl_basePort fl) i \<noteq> None)
                 [0..<nat (echo_total fl)]))))"
proof -
  let ?e = "echo client (fl_upstreamMessage fl) (fl_tls fl) (fl_basePort fl)"
  have len: "length order = nat (echo_total fl)" using assms(2) by (metis size_mset length_upt minus_nat.diff_0)
  have "echo_loop (echo_total fl) (map ?e order) 0 0 =
      Some (0 + int (length (filter (\<lambda>e. e = None) (map ?e order))), 0 + int (length (filter (\<lambda>e. e \<noteq> None) (map ?e order))))"
    by (rule echo_loop_counts) (use len assms(1) in auto)
  moreover have "length (filter (\<lambda>e. P e) (map ?e order)) = length (filter (\<lambda>i. P (?e i)) [0..<nat (echo_total fl)])" for P
    using length_filter_perm [OF assms(2)] by (simp add: filter_map comp_def)
  ultimately show ?thesis using assms(1) by (simp add: callEcho_def Let_def)
qed

lemma echo_None_iff:
  "echo client msg tls base i = None \<longleftrightarrow> client (echo_url tls base i) = Inr \<lparr>er_body = Inr msg, er_close = None\<rparr>"
  by (auto simp: echo_def split: sum.splits option.splits if_splits)

lemma driver_batches_pass:
  assumes "driver_batches fl client order js pass = Inr True"
    and "\<And>j. mset (order j) = mset [0..<nat (echo_total fl)]"
  shows "pass \<or> (\<exists>j\<in>set js. \<forall>p<nat (echo_total fl).
    client j (echo_url (fl_tls fl) (fl_basePort fl) p) = Inr \<lparr>er_body = Inr (fl_upstreamMessage fl), er_close = None\<rparr>)"
  using assms(1)
proof (induction js arbitrary: pass)
  case (Cons j js)
  then obtain ok failed where call: "callEcho fl (client j) (order j) = Inr (Some (ok, failed))"
    and rest: "driver_batches fl client order js (failed = 0 \<and> \<not> pass \<or> pass) = Inr True"
    by (auto split: sum.splits option.splits if_splits)
  have pos: "0 < echo_total fl"
  proof (rule ccontr)
    assume "\<not> 0 < echo_total fl"
    then have "order j = []" using assms(2) [of j] by simp
    with call show False by (simp add: callEcho_def Let_def split: if_splits)
  qed
  from Cons.IH [OF rest] show ?case
  proof
    assume "failed = 0 \<and> \<not> pass \<or> pass"
    then consider "failed = 0" | pass by blast
    then show ?thesis
    proof cases
      case 1
      then have "filter (\<lambda>i. echo (client j) (fl_upstreamMessage fl) (fl_tls fl) (fl_basePort fl) i \<noteq> None)
          [0..<nat (echo_total fl)] = []"
        using call callEcho_total [OF pos assms(2) [of j], of "client j"] by (simp only: sum.inject option.inject prod.inject) simp
      then show ?thesis by (auto simp: filter_empty_conv echo_None_iff)
    qed simp
  qed auto
qed simp

lemma driver_update_Inr:
  assumes "driver_update marshal k pem fl w i st = (st', Inr ())"
  shows "driver_batches fl (dw_client w i) (dw_order w i) [0..<nat (fl_requests fl)] False = Inr True"
  using assms by (auto simp: driver_update_def Let_def split: sum.splits prod.splits option.splits if_splits)

lemma driver_batches_Inl: "driver_batches fl client order js pass = Inl e \<Longrightarrow> e \<noteq> Exit n"
  by (induction js arbitrary: pass) (auto split: sum.splits option.splits prod.splits)

lemma driver_update_not_Exit0: "driver_update marshal k pem fl w i st = (st', Inl e) \<Longrightarrow> e \<noteq> Exit 0"
  by (auto simp: driver_update_def Let_def dest: driver_batches_Inl
      split: sum.splits prod.splits option.splits if_splits)

lemma driver_loop_Exit0:
  "driver_loop marshal k pem fl w is st = (st', Exit 0) \<Longrightarrow> i \<in> set is \<Longrightarrow>
     \<exists>st0 st1. driver_update marshal k pem fl w i st0 = (st1, Inr ())"
proof (induction "is" arbitrary: st)
  case (Cons i' "is")
  then show ?case
    by (cases "driver_update marshal k pem fl w i' st"; cases "snd (driver_update marshal k pem fl w i' st)")
      (auto dest: driver_update_not_Exit0)
qed simp

lemma echo_total_listeners:
  assumes "flags_ok fl"
  shows "num_listeners (driver_ts fl i) = nat (echo_total fl)" and "generable (driver_ts fl i)"
    and "0 < ts_NumClusters (driver_ts fl i)" and "nat (echo_total fl) \<le> 2 ^ 32"
proof -
  have "0 \<le> uint (fl_basePort fl)" by simp
  then have "echo_total fl \<le> 2 ^ 32" using assms unfolding flags_ok_def by linarith
  then show "nat (echo_total fl) \<le> 2 ^ 32" by (simp add: nat_le_iff)
qed (use assms in \<open>simp_all add: flags_ok_def driver_ts_def driver_start_def echo_total_def num_listeners_def
      num_http_def num_scoped_def num_tcp_def num_vhds_def generable_def nat_add_distrib\<close>)

lemma echo_url_listener:
  assumes "flags_ok fl" and "p < nat (echo_total fl)" and "listener_port l = ts_BasePort (driver_ts fl i) + of_nat p"
  shows "echo_url tls (fl_basePort fl) p = listener_url tls l"
proof -
  let ?b = "fl_basePort fl"
  have "uint ?b + int p < 2 ^ 32"
    using assms(1,2) unfolding flags_ok_def zless_nat_eq_int_zless by linarith
  then have "int (unat ?b + p) < int (2 ^ 32)" unfolding uint_nat by simp
  then have b: "unat ?b + p < 2 ^ 32" by (rule of_nat_less_imp_less)
  then have p: "unat (of_nat p :: 64 word) = p" "unat (of_nat p :: 32 word) = p" "unat ?b < 2 ^ 32"
    by (simp_all add: unat_of_nat)
  have u: "unat (ucast ?b :: 32 word) = unat ?b"
    using p(3) by (simp add: unsigned_ucast_eq take_bit_nat_eq_self)
  have "unat (?b + of_nat p) = unat ?b + p"
    using unat_word_ariths(1) [of ?b "of_nat p"] b by (simp add: p)
  moreover have "unat ((ucast ?b :: 32 word) + of_nat p) = unat ?b + p"
    using unat_word_ariths(1) [of "ucast ?b :: 32 word" "of_nat p"] b by (simp add: p u)
  moreover have "ts_BasePort (driver_ts fl i) = ucast ?b" by (simp add: driver_ts_def driver_start_def)
  ultimately show ?thesis by (simp only: echo_url_def listener_url_def FormatUint_def dec32_def assms(3))
qed

lemma default_flags_ok: "flags_ok (driver_flags (default_flags\<lparr>fl_mode := mode\<rparr>))"
  by (simp add: driver_flags_def default_flags_def flags_ok_def echo_total_def)

text \<open>The handler answers with the status that the gateway decided on, and with a body exactly when the
  gateway has one.\<close>

lemma test_gateway_reply:
  "reply_status (fst (test_ServeHTTP h um mj m req c v)) = fst (snd (fst (ServeHTTP h um mj m req c v)))"
  "(\<exists>b. fst (test_ServeHTTP h um mj m req c v) = ReplyBody b) \<longleftrightarrow> fst (fst (ServeHTTP h um mj m req c v)) \<noteq> None"
  by (auto simp: test_ServeHTTP_def ServeHTTP_def split: option.splits sum.splits prod.splits)

section \<open>Properties\<close>

text \<open>\<open>callEcho\<close> ends after exactly one report per listener, in whatever order they come, with the numbers of
  answered and failed calls; it counts no failure exactly when every call gave the expected message. With
  no listeners at all it waits forever.\<close>

theorem call_echo_counts:
  assumes "0 \<le> echo_total fl" and "mset order = mset [0..<nat (echo_total fl)]"
  shows "if echo_total fl = 0 then callEcho fl client order = Inr None
    else \<exists>ok failed. callEcho fl client order = Inr (Some (ok, failed)) \<and> ok + failed = echo_total fl \<and>
      0 \<le> ok \<and> 0 \<le> failed \<and>
      (failed = 0 \<longleftrightarrow> (\<forall>p<nat (echo_total fl). client (echo_url (fl_tls fl) (fl_basePort fl) p) =
         Inr \<lparr>er_body = Inr (fl_upstreamMessage fl), er_close = None\<rparr>))"
proof (cases "echo_total fl = 0")
  case True
  then have "order = []" using assms(2) by simp
  with True show ?thesis by (simp add: callEcho_def)
next
  case False
  let ?P = "\<lambda>i. echo client (fl_upstreamMessage fl) (fl_tls fl) (fl_basePort fl) i = None"
  have pos: "0 < echo_total fl" using assms(1) False by simp
  have "length (filter ?P xs) + length (filter (\<lambda>i. \<not> ?P i) xs) = length xs" for xs
    by (rule sum_length_filter_compl)
  then have "int (length (filter ?P [0..<nat (echo_total fl)])) + int (length (filter (\<lambda>i. \<not> ?P i) [0..<nat (echo_total fl)])) =
      echo_total fl"
    using pos by (simp only: of_nat_add [symmetric] length_upt)
  moreover have "int (length (filter (\<lambda>i. \<not> ?P i) [0..<nat (echo_total fl)])) = 0 \<longleftrightarrow> (\<forall>p<nat (echo_total fl). ?P p)"
    by (auto simp: filter_empty_conv)
  ultimately show ?thesis
    using False callEcho_total [OF pos assms(2), of client] by (simp add: echo_None_iff)
qed

theorem call_echo_counts_witness:
  "(if echo_total ex_flags = 0 then callEcho ex_flags ex_client [2, 0, 1, 3] = Inr None
    else \<exists>ok failed. callEcho ex_flags ex_client [2, 0, 1, 3] = Inr (Some (ok, failed)) \<and> ok + failed = 4 \<and> failed = 0)"
proof -
  have t: "echo_total ex_flags = 4" by (simp add: echo_total_def ex_flags_def)
  have "mset [2, 0, 1, 3] = mset [0..<nat (echo_total ex_flags)]" by (simp add: t upt_rec numeral_2_eq_2 numeral_3_eq_3)
  from call_echo_counts [OF _ this, of ex_client] t show ?thesis
    by (auto simp: ex_client_def ex_flags_def)
qed

text \<open>C27: what it means that the integration test passes. When the driver exits with 0, a first request came in,
  and for each update there was a batch of calls in which every listener of the generated snapshot, called
  on its own port, answered with the expected message.\<close>

theorem driver_pass_sound:
  assumes "driver_main marshal k pem fl w = (st, Exit 0)" and "codec_for u k" and "flags_ok (driver_flags fl)"
    and "\<And>i j. mset (dw_order w i j) = mset [0..<nat (echo_total (driver_flags fl))]"
    and "i < nat (fl_updates fl)"
  shows "dw_signalled w \<and>
    (\<exists>j<nat (fl_requests fl). \<exists>s ts' ls. Generate k pem (driver_ts (driver_flags fl) i) = Inr (Some s, ts') \<and>
       GetResources (Some s) ListenerType =
         map (\<lambda>p. (''listener-'' @ dec_nat p, to_resource k (MsgListener (ls ! p)))) [0..<length ls] \<and>
       (\<forall>l\<in>set ls. dw_client w i j (listener_url (fl_tls fl) l) =
         Inr \<lparr>er_body = Inr (fl_upstreamMessage fl), er_close = None\<rparr>))"
proof -
  let ?fl = "driver_flags fl" and ?ts = "driver_ts (driver_flags fl) i"
  have same: "fl_updates ?fl = fl_updates fl" "fl_requests ?fl = fl_requests fl" "fl_tls ?fl = fl_tls fl"
      "fl_upstreamMessage ?fl = fl_upstreamMessage fl" "fl_basePort ?fl = fl_basePort fl"
    by (simp_all add: driver_flags_def)
  have sig: "dw_signalled w" and loop: "driver_loop marshal k pem ?fl w [0..<nat (fl_updates ?fl)] (driver_start ?fl marshal) = (st, Exit 0)"
    using assms(1) by (auto simp: driver_main_def Let_def split: if_splits)
  obtain st0 st1 where "driver_update marshal k pem ?fl w i st0 = (st1, Inr ())"
    using driver_loop_Exit0 [OF loop, of i] assms(5) same(1) by auto
  then have "driver_batches ?fl (dw_client w i) (dw_order w i) [0..<nat (fl_requests ?fl)] False = Inr True"
    by (rule driver_update_Inr)
  from driver_batches_pass [OF this assms(4)] obtain j where j: "j < nat (fl_requests fl)" and
    all: "\<forall>p<nat (echo_total ?fl). dw_client w i j (echo_url (fl_tls fl) (fl_basePort fl) p) =
      Inr \<lparr>er_body = Inr (fl_upstreamMessage fl), er_close = None\<rparr>"
    by (auto simp: same)
  note n = echo_total_listeners(1-3) [OF assms(3), of i] echo_total_listeners(4) [OF assms(3)]
  obtain s ts' ls where gen: "Generate k pem ?ts = Inr (Some s, ts')" and len: "length ls = nat (echo_total ?fl)"
    and res: "GetResources (Some s) ListenerType =
         map (\<lambda>p. (''listener-'' @ dec_nat p, to_resource k (MsgListener (ls ! p)))) [0..<length ls]"
    and ports: "\<forall>p<nat (echo_total ?fl). listener_port (ls ! p) = ts_BasePort ?ts + of_nat p"
  proof -
    have "num_listeners ?ts \<le> 2 ^ 32" using n(1,4) by simp
    from Generate_listeners [OF assms(2) n(2) this n(3), of pem] show thesis
      unfolding n(1) by (elim exE conjE) (rule that, simp_all)
  qed
  have "\<forall>l\<in>set ls. dw_client w i j (listener_url (fl_tls fl) l) =
      Inr \<lparr>er_body = Inr (fl_upstreamMessage fl), er_close = None\<rparr>"
    using all ports echo_url_listener [OF assms(3)] same(5) len by (metis in_set_conv_nth)
  with sig j gen res show ?thesis by blast
qed

lemma ex_driver_flags: "driver_flags ex_flags = ex_flags" "flags_ok ex_flags" "echo_total ex_flags = 4"
  by (simp_all add: driver_flags_def ex_flags_def flags_ok_def echo_total_def)

lemma ex_driver_run: "\<exists>st. driver_main (\<lambda>r. Inr []) ex_codec ex_pem ex_flags ex_world = (st, Exit 0)"
proof -
  let ?st = "driver_start ex_flags (\<lambda>r. Inr [])"
  have "num_listeners (driver_ts ex_flags 0) \<le> 2 ^ 32"
    using echo_total_listeners(1,4) [OF ex_driver_flags(2)] by simp
  then obtain s ts' where gen: "Generate ex_codec ex_pem (driver_ts ex_flags 0) = Inr (Some s, ts')"
    using Generate_consistent [OF ex_codec_for echo_total_listeners(2) [OF ex_driver_flags(2)]] by blast
  have set: "SetSnapshot (\<lambda>r. Inr []) Background (fl_nodeID ex_flags) s (dr_config ?st) =
      ((dr_config ?st)\<lparr>sc_snapshots := [(fl_nodeID ex_flags, s)]\<rparr>, [], None)"
    by (simp add: SetSnapshot_def driver_start_def NewSnapshotCache_def newSnapshotCache_def)
  have "callEcho ex_flags ex_client [2, 0, 1, 3] = Inr (Some (4, 0))"
    by (simp add: callEcho_def ex_driver_flags echo_def ex_client_def) (simp add: ex_flags_def)
  then have batch: "driver_batches ex_flags (dw_client ex_world 0) (dw_order ex_world 0) [0..<nat (fl_requests ex_flags)] False = Inr True"
    by (simp add: ex_world_def) (simp add: ex_flags_def)
  have "served ex_world 0 ?st = ?st" by (simp add: served_def ex_world_def)
  then have "\<exists>st. driver_update (\<lambda>r. Inr []) ex_codec ex_pem ex_flags ex_world 0 ?st = (st, Inr ())"
    using gen set batch by (simp add: driver_update_def Let_def driver_ts_def) (simp add: ex_flags_def)
  then show ?thesis
    by (auto simp: driver_main_def Let_def ex_driver_flags) (auto simp: ex_flags_def ex_world_def)
qed

theorem driver_pass_sound_witness:
  "\<exists>s ts' ls. Generate ex_codec ex_pem (driver_ts (driver_flags ex_flags) 0) = Inr (Some s, ts') \<and>
     GetResources (Some s) ListenerType =
       map (\<lambda>p. (''listener-'' @ dec_nat p, to_resource ex_codec (MsgListener (ls ! p)))) [0..<length ls] \<and>
     (\<forall>l\<in>set ls. ex_client (listener_url False l) = Inr \<lparr>er_body = Inr ''hi'', er_close = None\<rparr>)"
proof -
  obtain st where run: "driver_main (\<lambda>r. Inr []) ex_codec ex_pem ex_flags ex_world = (st, Exit 0)"
    using ex_driver_run ..
  have perm: "mset (dw_order ex_world i j) = mset [0..<nat (echo_total (driver_flags ex_flags))]" for i j
    by (simp add: ex_world_def ex_driver_flags upt_rec numeral_2_eq_2 numeral_3_eq_3)
  have ok: "flags_ok (driver_flags ex_flags)" by (simp add: ex_driver_flags)
  have upd: "0 < nat (fl_updates ex_flags)" by (simp add: ex_flags_def)
  have ex: "fl_tls ex_flags = False" "fl_upstreamMessage ex_flags = ''hi''" "dw_client ex_world = (\<lambda>i j. ex_client)"
    by (simp_all add: ex_flags_def ex_world_def)
  from driver_pass_sound [OF run ex_codec_for ok perm upd] show ?thesis unfolding ex by blast
qed

end
