(* ===== verification/Example_Server.thy ===== *)
theory Example_Server
  imports Test_Resources Simple
begin

text \<open>
  The example server: \<open>src/internal/example/resource.go\<close> makes the snapshot it serves,
  \<open>src/internal/example/main/main.go\<close> checks it and puts it into a snapshot cache.
\<close>

section \<open>Definitions\<close>

definition ClusterName :: string where "ClusterName = ''example_proxy_cluster''"
definition RouteName :: string where "RouteName = ''local_route''"
definition ListenerName :: string where "ListenerName = ''listener_0''"
definition ListenerPort :: "32 word" where "ListenerPort = 10000"
definition UpstreamHost :: string where "UpstreamHost = ''www.envoyproxy.io''"
definition UpstreamPort :: "32 word" where "UpstreamPort = 80"

definition makeEndpoint :: "string \<Rightarrow> ClusterLoadAssignment" where
  "makeEndpoint clusterName =
     \<lparr>cla_ClusterName = clusterName,
      cla_Endpoints =
        [\<lparr>lle_LbEndpoints =
            [LbEndpoint_Endpoint (Address_SocketAddress
               \<lparr>sa_Protocol = TCP, sa_Address = UpstreamHost, sa_PortValue = UpstreamPort\<rparr>)]\<rparr>]\<rparr>"

definition makeCluster :: "string \<Rightarrow> Cluster_msg" where
  "makeCluster clusterName =
     \<lparr>clm_Name = clusterName,
      clm_ConnectTimeout = 5 * Second,
      clm_ClusterDiscoveryType = Cluster_Type LOGICAL_DNS,
      clm_EdsClusterConfig = None,
      clm_LbPolicy = ROUND_ROBIN,
      clm_LoadAssignment = Some (makeEndpoint clusterName),
      clm_DnsLookupFamily = V4_ONLY\<rparr>"

definition makeRoute :: "string \<Rightarrow> string \<Rightarrow> RouteConfiguration" where
  "makeRoute routeName clusterName =
     \<lparr>rc_Name = routeName,
      rc_VirtualHosts =
        [\<lparr>vh_Name = ''local_service'',
          vh_Domains = [''*''],
          vh_Routes =
            [\<lparr>rte_MatchPrefix = ''/'',
              rte_Action = \<lparr>ra_Cluster = clusterName, ra_HostRewriteLiteral = Some UpstreamHost\<rparr>\<rparr>]\<rparr>],
      rc_Vhds = None\<rparr>"

definition makeConfigSource :: ConfigSource where
  "makeConfigSource =
     \<lparr>cs_ResourceApiVersion = DefaultAPIVersion,
      cs_ConfigSourceSpecifier = ConfigSource_ApiConfigSource
        \<lparr>acs_ApiType = ApiConfigSource_GRPC,
         acs_TransportApiVersion = DefaultAPIVersion,
         acs_SetNodeOnFirstMessageOnly = True,
         acs_GrpcServices = [GrpcService_EnvoyGrpc ''xds_cluster''],
         acs_ClusterNames = [],
         acs_RefreshDelay = None\<rparr>\<rparr>"

definition makeHTTPListener :: "pb_codec \<Rightarrow> string \<Rightarrow> string \<Rightarrow> Listener_msg result" where
  "makeHTTPListener k listenerName route =
     (let routerConfig = New_or_nil k PackRouter;
          manager =
            \<lparr>hm_CodecType = CodecType_AUTO,
             hm_StatPrefix = ''http'',
             hm_RouteSpecifier = HttpConnectionManager_Rds
               \<lparr>rds_ConfigSource = makeConfigSource, rds_RouteConfigName = route\<rparr>,
             hm_HttpFilters = [\<lparr>hf_Name = ''http-router'', hf_TypedConfig = routerConfig\<rparr>],
             hm_AccessLog = []\<rparr>
      in case pb_New k (PackHttpConnectionManager manager) of
           Inl e \<Rightarrow> Inl (panic e)
         | Inr pbst \<Rightarrow>
             Inr \<lparr>lm_Name = listenerName,
                  lm_Address = Address_SocketAddress
                    \<lparr>sa_Protocol = TCP, sa_Address = ''0.0.0.0'', sa_PortValue = ListenerPort\<rparr>,
                  lm_FilterChains =
                    [\<lparr>fc_Filters = [\<lparr>lf_Name = ''http-connection-manager'', lf_TypedConfig = Some pbst\<rparr>],
                      fc_TransportSocket = None\<rparr>],
                  lm_DefaultFilterChain = None\<rparr>)"

definition GenerateSnapshot :: "pb_codec \<Rightarrow> Snapshot option result" where
  "GenerateSnapshot k =
     (case makeHTTPListener k ListenerName RouteName of
        Inl e \<Rightarrow> Inl e
      | Inr listener \<Rightarrow>
          Inr (case NewSnapshot ''1''
                 [(ClusterType, [to_resource k (MsgCluster (makeCluster ClusterName))]),
                  (RouteType, [to_resource k (MsgRoute (makeRoute RouteName ClusterName))]),
                  (ListenerType, [to_resource k (MsgListener listener)])] of
                 Inl e \<Rightarrow> None
               | Inr snap \<Rightarrow> Some snap))"

text \<open>\<open>main\<close>: it exits with 1, crashes, or goes on to serve from the cache. \<open>SetSnapshot\<close> of a nil snapshot is
  not reached, because \<open>Consistent\<close> refuses it.\<close>

datatype example_end = ExampleExit nat | ExampleCrash error | ExampleServes snapshotCache

definition example_main ::
  "marshaler \<Rightarrow> pb_codec \<Rightarrow> unmarshaler \<Rightarrow> string \<Rightarrow> example_end" where
  "example_main marshal k unmarshal nodeID =
     (let cache = NewSnapshotCache False IDHash in
      case GenerateSnapshot k of
        Inl e \<Rightarrow> ExampleCrash e
      | Inr snapshot \<Rightarrow>
          (case (Consistent unmarshal snapshot, snapshot) of
             (Inl e, _) \<Rightarrow> ExampleExit 1
           | (Inr _, None) \<Rightarrow> ExampleExit 1
           | (Inr _, Some s) \<Rightarrow>
               (case SetSnapshot marshal Background nodeID s cache of
                  (cache, out, Some e) \<Rightarrow> ExampleExit 1
                | (cache, out, None) \<Rightarrow> ExampleServes cache)))"

section \<open>Lemmas\<close>

lemma GenerateSnapshot_consistent:
  assumes "codec_for u k"
  shows "\<exists>s. GenerateSnapshot k = Inr (Some s) \<and> Consistent u (Some s) = Inr ()"
proof -
  obtain a where a: "pb_New k (PackHttpConnectionManager
      \<lparr>hm_CodecType = CodecType_AUTO, hm_StatPrefix = ''http'',
       hm_RouteSpecifier = HttpConnectionManager_Rds
         \<lparr>rds_ConfigSource = makeConfigSource, rds_RouteConfigName = RouteName\<rparr>,
       hm_HttpFilters = [\<lparr>hf_Name = ''http-router'', hf_TypedConfig = New_or_nil k PackRouter\<rparr>],
       hm_AccessLog = []\<rparr>) = Inr a"
    and u: "u a = Inr \<lparr>hcm_RdsRouteConfigName = RouteName, hcm_ScopedRouteConfigurationNames = []\<rparr>"
    using codec_for_hcm [OF assms] by (fastforce simp: hcm_view_def)
  obtain s where gen: "GenerateSnapshot k = Inr (Some s)" and ok: "\<And>t. gomap_ok (rs_Items (sn_Resources s t))"
    and refs: "snapshot_refs u (sn_Resources s) RouteType = {RouteName}" "snapshot_refs u (sn_Resources s) EndpointType = {}"
    and items: "fst ` set (rs_Items (sn_Resources s Route)) = {RouteName}" "rs_Items (sn_Resources s Endpoint) = []"
    using a u
    by (auto simp: GenerateSnapshot_def makeHTTPListener_def NewSnapshot_def Let_def emptySnapshot_def
        NewResources_def NewResourcesWithTTL_def IndexResourcesByName_def snapshot_refs_def resource_refs_def
        cluster_refs_def listener_refs_def chain_refs_def chain_view_def GetHTTPConnectionManager_def makeCluster_def
        makeRoute_def RouteName_def)
  show ?thesis using gen Consistent_Inr [OF ok, of u] refs items by auto
qed

section \<open>Properties\<close>

text \<open>The example server comes up: the snapshot it generates is consistent, and \<open>main\<close> goes on to serve it to
  the node it was started for, whatever the marshaling of resources does.\<close>

theorem example_serves:
  assumes "codec_for u k"
  shows "\<exists>s c. GenerateSnapshot k = Inr (Some s) \<and> Consistent u (Some s) = Inr () \<and>
    example_main marshal k u nodeID = ExampleServes c \<and> GetSnapshot nodeID c = Inr s"
proof -
  obtain s where s: "GenerateSnapshot k = Inr (Some s)" "Consistent u (Some s) = Inr ()"
    using GenerateSnapshot_consistent [OF assms] by blast
  then show ?thesis
    by (simp add: example_main_def Let_def SetSnapshot_def NewSnapshotCache_def newSnapshotCache_def GetSnapshot_def)
qed

theorem example_serves_witness:
  "\<exists>s c. GenerateSnapshot ex_codec = Inr (Some s) \<and> Consistent ex_unmarshal (Some s) = Inr () \<and>
    example_main (\<lambda>r. Inr []) ex_codec ex_unmarshal ''test-id'' = ExampleServes c \<and> GetSnapshot ''test-id'' c = Inr s"
  by (rule example_serves [OF ex_codec_for])

end
