(* ===== verification/Dyplomat.thy ===== *)
theory Dyplomat
  imports Envoy_Messages Simple
begin

text \<open>
  The example \<open>src/examples/dyplomat\<close>, a control plane that publishes the endpoints of Kubernetes services:
  \<open>HandleEndpointsUpdate\<close> and \<open>MakeEndpointsForCluster\<close> of \<open>main.go\<close>, and the cached tokens and the
  authenticating transport of \<open>auth.go\<close>.

  Kubernetes objects are given by the fields that are read; the lists of the informers' stores are a
  parameter of the handler. The token generator and the clock are parameters of \<open>refresh\<close> and \<open>Token\<close>, the
  transport below is a parameter of \<open>RoundTrip\<close>. Printing is left out.
\<close>

section \<open>Definitions\<close>

subsection \<open>Endpoints\<close>

record EndpointSubset =
  ss_Addresses :: "string list" \<comment> \<open>by their IP\<close>
  ss_Ports :: "32 word list" \<comment> \<open>by their port, an \<open>int32\<close>\<close>

record k8s_Endpoints =
  ep_Name :: string
  ep_Labels :: "(string, string) gomap"
  ep_Subsets :: "EndpointSubset list"

record EnvoyCluster =
  ec_name :: string
  ec_port :: "32 word"
  ec_endpoints :: "string list"

text \<open>The loop over the addresses of a subset: the port is taken at the index of the address.\<close>

fun add_addresses :: "32 word list \<Rightarrow> nat \<Rightarrow> string list \<Rightarrow> EnvoyCluster \<Rightarrow> EnvoyCluster result" where
  "add_addresses ports i [] c = Inr c"
| "add_addresses ports i (addr # addrs) c =
     (if i < length ports
      then add_addresses ports (Suc i) addrs
             (c\<lparr>ec_port := ports ! i, ec_endpoints := ec_endpoints c @ [addr]\<rparr>)
      else Inl (Panic ''index out of range''))"

definition add_subsets :: "EndpointSubset list \<Rightarrow> EnvoyCluster \<Rightarrow> EnvoyCluster result" where
  "add_subsets subsets c = rfold (\<lambda>subset c. add_addresses (ss_Ports subset) 0 (ss_Addresses subset) c) subsets c"

text \<open>One iteration over the endpoints of an informer.\<close>

definition add_endpoints ::
  "k8s_Endpoints \<Rightarrow> (string, EnvoyCluster) gomap \<Rightarrow> (string, EnvoyCluster) gomap result" where
  "add_endpoints ep edsServiceData =
     (if map_of (ep_Labels ep) ''xds'' = None then Inr edsServiceData
      else
        (let c = (case map_of edsServiceData (ep_Name ep) of
                    None \<Rightarrow> \<lparr>ec_name = ep_Name ep, ec_port = 0, ec_endpoints = []\<rparr>
                  | Some c \<Rightarrow> c)
         in case add_subsets (ep_Subsets ep) c of
              Inl e \<Rightarrow> Inl e
            | Inr c \<Rightarrow> Inr (AList.update (ep_Name ep) c edsServiceData)))"

definition collect :: "k8s_Endpoints list list \<Rightarrow> (string, EnvoyCluster) gomap result" where
  "collect informers = rfold add_endpoints (concat informers) []"

definition MakeEndpointsForCluster :: "EnvoyCluster \<Rightarrow> ClusterLoadAssignment" where
  "MakeEndpointsForCluster service =
     \<lparr>cla_ClusterName = ec_name service,
      cla_Endpoints =
        map (\<lambda>endpoint.
               \<lparr>lle_LbEndpoints =
                  [LbEndpoint_Endpoint (Address_SocketAddress
                     \<lparr>sa_Protocol = TCP, sa_Address = endpoint, sa_PortValue = ec_port service\<rparr>)]\<rparr>)
          (ec_endpoints service)\<rparr>"

record dyplomat =
  dy_version :: int
  dy_cache :: snapshotCache

text \<open>\<open>make\<close> with a length fills the slice with nil resources before the loop appends the others. An error of
  \<open>SetSnapshot\<close> is only printed.\<close>

definition edsEndpoints :: "pb_codec \<Rightarrow> (string, EnvoyCluster) gomap \<Rightarrow> Resource list" where
  "edsEndpoints k edsServiceData =
     replicate (length edsServiceData) MNil @
     map (\<lambda>(name, c). to_resource k (MsgEndpoint (MakeEndpointsForCluster c))) edsServiceData"

definition dec_int :: "int \<Rightarrow> string" where
  "dec_int n = (if n < 0 then ''-'' @ dec_nat (nat (- n)) else dec_nat (nat n))"

definition HandleEndpointsUpdate ::
  "marshaler \<Rightarrow> pb_codec \<Rightarrow> k8s_Endpoints list list \<Rightarrow> dyplomat \<Rightarrow> (dyplomat \<times> sends) result" where
  "HandleEndpointsUpdate marshal k informers d =
     (case collect informers of
        Inl e \<Rightarrow> Inl e
      | Inr edsServiceData \<Rightarrow>
          (case NewSnapshot (dec_int (dy_version d) @ ''.0'') [(EndpointType, edsEndpoints k edsServiceData)] of
             Inl e \<Rightarrow> Inr (d, [])
           | Inr snapshot \<Rightarrow>
               (case fold (\<lambda>node (cache, out).
                        case SetSnapshot marshal Background node snapshot cache of
                          (cache, out', e) \<Rightarrow> (cache, out @ out'))
                      (GetStatusKeys (dy_cache d)) (dy_cache d, []) of
                  (cache, out) \<Rightarrow> Inr (\<lparr>dy_version = dy_version d + 1, dy_cache = cache\<rparr>, out))))"

text \<open>The addresses of a service, over all informers, in order.\<close>

definition service_addresses :: "k8s_Endpoints list \<Rightarrow> string \<Rightarrow> string list" where
  "service_addresses eps name =
     concat (map (\<lambda>ep. concat (map ss_Addresses (ep_Subsets ep)))
       (filter (\<lambda>ep. map_of (ep_Labels ep) ''xds'' \<noteq> None \<and> ep_Name ep = name) eps))"

definition published :: "k8s_Endpoints list \<Rightarrow> string set" where
  "published eps = {ep_Name ep |ep. ep \<in> set eps \<and> map_of (ep_Labels ep) ''xds'' \<noteq> None}"

text \<open>Every address of published endpoints has a port at its index.\<close>

definition enough_ports :: "k8s_Endpoints \<Rightarrow> bool" where
  "enough_ports ep \<longleftrightarrow> map_of (ep_Labels ep) ''xds'' = None \<or>
     (\<forall>s\<in>set (ep_Subsets ep). length (ss_Addresses s) \<le> length (ss_Ports s))"

text \<open>What the loop over the endpoints has collected.\<close>

definition collected :: "k8s_Endpoints list \<Rightarrow> (string, EnvoyCluster) gomap \<Rightarrow> bool" where
  "collected eps data \<longleftrightarrow>
     gomap_ok data \<and> fst ` set data = published eps \<and>
     (\<forall>n c. map_of data n = Some c \<longrightarrow> ec_name c = n \<and> ec_endpoints c = service_addresses eps n)"

subsection \<open>Tokens\<close>

datatype TokenKind = HeptioTokenKind | NullTokenKind

record AuthToken =
  at_Token :: string
  at_expires :: int

definition Expired :: "int \<Rightarrow> AuthToken \<Rightarrow> bool" where
  "Expired now t \<longleftrightarrow> at_expires t < now"

record heptioTokenProvider =
  hp_lastToken :: "AuthToken option"
  hp_clusterName :: string

text \<open>The generator: what asking for a token for a cluster gives.\<close>

type_synonym token_source = "string \<Rightarrow> (string \<times> int) result"

definition refresh :: "token_source \<Rightarrow> heptioTokenProvider \<Rightarrow> heptioTokenProvider \<times> error option" where
  "refresh gen t =
     (case gen (hp_clusterName t) of
        Inl err \<Rightarrow> (t, Some err)
      | Inr (token, expiration) \<Rightarrow>
          (t\<lparr>hp_lastToken := Some \<lparr>at_Token = token, at_expires = expiration\<rparr>\<rparr>, None))"

definition hp_Token :: "token_source \<Rightarrow> int \<Rightarrow> heptioTokenProvider \<Rightarrow> heptioTokenProvider \<times> AuthToken option result" where
  "hp_Token gen now t =
     (case hp_lastToken t of
        Some lastToken \<Rightarrow>
          if at_expires lastToken < now then
            (case refresh gen t of
               (t, Some err) \<Rightarrow> (t, Inl err)
             | (t, None) \<Rightarrow> (t, Inr (hp_lastToken t)))
          else (t, Inr (hp_lastToken t))
      | None \<Rightarrow>
          (case refresh gen t of
             (t, Some err) \<Rightarrow> (t, Inl err)
           | (t, None) \<Rightarrow> (t, Inr (hp_lastToken t))))"

definition hp_Kind :: "heptioTokenProvider \<Rightarrow> TokenKind" where
  "hp_Kind t = HeptioTokenKind"

definition NewHeptioProvider :: "string \<Rightarrow> heptioTokenProvider" where
  "NewHeptioProvider clusterName = \<lparr>hp_lastToken = None, hp_clusterName = clusterName\<rparr>"

text \<open>\<open>sync.Map.LoadOrStore\<close> of the generator.\<close>

definition ProviderForCluster ::
  "string \<Rightarrow> (string, heptioTokenProvider) gomap \<Rightarrow> (string, heptioTokenProvider) gomap \<times> heptioTokenProvider" where
  "ProviderForCluster cluster clusters =
     (case map_of clusters cluster of
        Some provider \<Rightarrow> (clusters, provider)
      | None \<Rightarrow> (AList.update cluster (NewHeptioProvider cluster) clusters, NewHeptioProvider cluster))"

text \<open>A request by its \<open>Authorization\<close> header (empty when absent) and the rest. The token provider of the
  transport is a heptio provider.\<close>

record outgoing =
  og_Authorization :: string
  og_Rest :: string

definition RoundTrip ::
  "token_source \<Rightarrow> int \<Rightarrow> (outgoing \<Rightarrow> 'resp result) \<Rightarrow> outgoing \<Rightarrow> heptioTokenProvider \<Rightarrow>
     heptioTokenProvider \<times> 'resp result" where
  "RoundTrip gen now rt req t =
     (if length (og_Authorization req) \<noteq> 0 then (t, rt req)
      else
        (case hp_Token gen now t of
           (t, Inl err) \<Rightarrow> (t, Inl err)
         | (t, Inr None) \<Rightarrow> (t, Inl (Panic ''nil pointer dereference''))
         | (t, Inr (Some token)) \<Rightarrow>
             (t, rt (req\<lparr>og_Authorization := ''Bearer '' @ at_Token token\<rparr>))))"

subsection \<open>Examples\<close>

definition ex_endpoints :: "string \<Rightarrow> string list \<Rightarrow> 32 word list \<Rightarrow> k8s_Endpoints" where
  "ex_endpoints name addrs ports =
     \<lparr>ep_Name = name, ep_Labels = [(''xds'', '''')], ep_Subsets = [\<lparr>ss_Addresses = addrs, ss_Ports = ports\<rparr>]\<rparr>"

section \<open>Lemmas\<close>

lemma add_addresses_Inr:
  "i + length addrs \<le> length ports \<Longrightarrow>
     \<exists>c'. add_addresses ports i addrs c = Inr c' \<and> ec_name c' = ec_name c \<and> ec_endpoints c' = ec_endpoints c @ addrs"
proof (induction addrs arbitrary: i c)
  case (Cons addr addrs)
  from Cons.prems Cons.IH [of "Suc i" "c\<lparr>ec_port := ports ! i, ec_endpoints := ec_endpoints c @ [addr]\<rparr>"]
  show ?case by auto
qed simp

lemma add_addresses_Inl:
  "i \<le> length ports \<Longrightarrow> length ports < i + length addrs \<Longrightarrow>
     add_addresses ports i addrs c = Inl (Panic ''index out of range'')"
  by (induction addrs arbitrary: i c) auto

lemma add_subsets_Inr:
  "\<forall>s\<in>set subs. length (ss_Addresses s) \<le> length (ss_Ports s) \<Longrightarrow>
     \<exists>c'. add_subsets subs c = Inr c' \<and> ec_name c' = ec_name c \<and>
       ec_endpoints c' = ec_endpoints c @ concat (map ss_Addresses subs)"
proof (induction subs arbitrary: c)
  case (Cons s subs)
  obtain c1 where "add_addresses (ss_Ports s) 0 (ss_Addresses s) c = Inr c1" "ec_name c1 = ec_name c"
      "ec_endpoints c1 = ec_endpoints c @ ss_Addresses s"
    using add_addresses_Inr [of 0 "ss_Addresses s" "ss_Ports s" c] Cons.prems by auto
  with Cons.IH [of c1] Cons.prems show ?case by (auto simp: add_subsets_def)
qed (simp add: add_subsets_def)

lemma collected_step:
  assumes "collected eps data" and "enough_ports ep"
  shows "\<exists>data'. add_endpoints ep data = Inr data' \<and> collected (eps @ [ep]) data'"
proof (cases "map_of (ep_Labels ep) ''xds''")
  case None
  with assms(1) show ?thesis by (auto simp: add_endpoints_def collected_def published_def service_addresses_def)
next
  case (Some label)
  define c where "c = (case map_of data (ep_Name ep) of
    None \<Rightarrow> \<lparr>ec_name = ep_Name ep, ec_port = 0, ec_endpoints = []\<rparr> | Some c \<Rightarrow> c)"
  obtain c' where c': "add_subsets (ep_Subsets ep) c = Inr c'" "ec_name c' = ec_name c"
      "ec_endpoints c' = ec_endpoints c @ concat (map ss_Addresses (ep_Subsets ep))"
    using add_subsets_Inr [of "ep_Subsets ep" c] assms(2) Some unfolding enough_ports_def by auto
  have none: "service_addresses eps n = []" if "n \<notin> published eps" for n
  proof -
    have "filter (\<lambda>ep. map_of (ep_Labels ep) ''xds'' \<noteq> None \<and> ep_Name ep = n) eps = []"
      using that unfolding filter_empty_conv published_def by blast
    then show ?thesis by (simp only: service_addresses_def) simp
  qed
  have "ec_name c = ep_Name ep" "ec_endpoints c = service_addresses eps (ep_Name ep)"
    using assms(1) none [of "ep_Name ep"]
    by (auto simp: c_def collected_def map_of_in_dom split: option.splits)
  moreover have "service_addresses (eps @ [ep]) n = service_addresses eps n @
      (if ep_Name ep = n then concat (map ss_Addresses (ep_Subsets ep)) else [])" for n
    using Some by (simp add: service_addresses_def)
  moreover have "published (eps @ [ep]) = insert (ep_Name ep) (published eps)"
    using Some by (auto simp: published_def)
  moreover have "add_endpoints ep data = Inr (AList.update (ep_Name ep) c' data)"
    using Some c'(1) by (simp add: add_endpoints_def c_def)
  ultimately show ?thesis
    using assms(1) c'(2,3) by (auto simp: collected_def dom_update)
qed

lemma collected_fold:
  "collected eps data \<Longrightarrow> \<forall>ep\<in>set eps'. enough_ports ep \<Longrightarrow>
     \<exists>data'. rfold add_endpoints eps' data = Inr data' \<and> collected (eps @ eps') data'"
proof (induction eps' arbitrary: eps data)
  case (Cons ep eps')
  obtain data1 where d: "add_endpoints ep data = Inr data1" "collected (eps @ [ep]) data1"
    using collected_step [OF Cons.prems(1)] Cons.prems(2) by auto
  with Cons.IH [OF d(2)] Cons.prems(2) show ?case by auto
qed simp

lemma collect_collected:
  assumes "\<forall>ep\<in>set (concat informers). enough_ports ep"
  shows "\<exists>data. collect informers = Inr data \<and> collected (concat informers) data"
proof -
  have "collected [] []" by (simp add: collected_def published_def)
  from collected_fold [OF this assms] show ?thesis by (simp add: collect_def)
qed

text \<open>An address without a port ends the handler, and only that does.\<close>

lemma add_subsets_Inl:
  "\<not> (\<forall>s\<in>set subs. length (ss_Addresses s) \<le> length (ss_Ports s)) \<Longrightarrow>
     add_subsets subs c = Inl (Panic ''index out of range'')"
proof (induction subs arbitrary: c)
  case (Cons s subs)
  show ?case
  proof (cases "length (ss_Addresses s) \<le> length (ss_Ports s)")
    case True
    then obtain c1 where "add_addresses (ss_Ports s) 0 (ss_Addresses s) c = Inr c1"
      using add_addresses_Inr [of 0 "ss_Addresses s" "ss_Ports s" c] by auto
    with Cons.IH [of c1] Cons.prems True show ?thesis by (simp add: add_subsets_def)
  next
    case False
    with add_addresses_Inl [of 0 "ss_Ports s" "ss_Addresses s" c] show ?thesis by (simp add: add_subsets_def)
  qed
qed simp

lemma collected_panic:
  "collected eps data \<Longrightarrow> \<not> (\<forall>ep\<in>set eps'. enough_ports ep) \<Longrightarrow>
     rfold add_endpoints eps' data = Inl (Panic ''index out of range'')"
proof (induction eps' arbitrary: eps data)
  case (Cons ep eps')
  show ?case
  proof (cases "enough_ports ep")
    case True
    obtain data1 where d: "add_endpoints ep data = Inr data1" "collected (eps @ [ep]) data1"
      using collected_step [OF Cons.prems(1) True] by auto
    with Cons.IH [OF d(2)] Cons.prems(2) True show ?thesis by auto
  next
    case False
    then have "map_of (ep_Labels ep) ''xds'' \<noteq> None"
      "\<not> (\<forall>s\<in>set (ep_Subsets ep). length (ss_Addresses s) \<le> length (ss_Ports s))"
      by (auto simp: enough_ports_def)
    then have "add_endpoints ep data = Inl (Panic ''index out of range'')"
      using add_subsets_Inl [of "ep_Subsets ep"] by (simp add: add_endpoints_def Let_def)
    then show ?thesis by simp
  qed
qed simp

lemma IndexResources_nil_first:
  assumes "\<forall>r\<in>set rs. GetResourceName r \<noteq> ''''" and "n \<noteq> 0"
  shows "map_of (rs_Items (NewResources v (replicate n MNil @ rs))) '''' = Some \<lparr>rt_Resource = MNil, rt_TTL = None\<rparr>"
proof -
  let ?upd = "fold (\<lambda>item indexed. AList.update (GetResourceName (rt_Resource item)) item indexed)"
  let ?ttl = "map (\<lambda>r. \<lparr>rt_Resource = r, rt_TTL = None\<rparr>)"
  have "map_of (?upd (?ttl rs) a) '''' = map_of a ''''" for a
    using assms(1) by (induction rs arbitrary: a) auto
  moreover have "map_of (?upd (?ttl (replicate n MNil)) a) '''' = Some \<lparr>rt_Resource = MNil, rt_TTL = None\<rparr>"
    if "n \<noteq> 0 \<or> map_of a '''' = Some \<lparr>rt_Resource = MNil, rt_TTL = None\<rparr>" for a n
    using that by (induction n arbitrary: a) auto
  ultimately show ?thesis
    using assms(2) by (simp add: NewResources_def NewResourcesWithTTL_def IndexResourcesByName_def)
qed

section \<open>Properties\<close>

text \<open>C30: what \<open>HandleEndpointsUpdate\<close> collects. It panics exactly when published endpoints have a subset with
  more addresses than ports, because it takes the port at the index of the address; otherwise the map it collects has one
  entry per published name, with the addresses of that name over all informers in order.\<close>

theorem dyplomat_collects:
  "if \<exists>ep\<in>set (concat informers). map_of (ep_Labels ep) ''xds'' \<noteq> None \<and>
        (\<exists>s\<in>set (ep_Subsets ep). length (ss_Ports s) < length (ss_Addresses s))
   then HandleEndpointsUpdate marshal k informers d = Inl (Panic ''index out of range'')
   else \<exists>data. collect informers = Inr data \<and> gomap_ok data \<and> fst ` set data = published (concat informers) \<and>
     (\<forall>n c. map_of data n = Some c \<longrightarrow> ec_name c = n \<and> ec_endpoints c = service_addresses (concat informers) n)"
proof (cases "\<forall>ep\<in>set (concat informers). enough_ports ep")
  case True
  then have "\<not> (\<exists>ep\<in>set (concat informers). map_of (ep_Labels ep) ''xds'' \<noteq> None \<and>
        (\<exists>s\<in>set (ep_Subsets ep). length (ss_Ports s) < length (ss_Addresses s)))"
    by (fastforce simp: enough_ports_def)
  with collect_collected [OF True] show ?thesis by (simp only: if_False collected_def)
next
  case False
  have "collected [] []" by (simp add: collected_def published_def)
  from collected_panic [OF this False] have "collect informers = Inl (Panic ''index out of range'')"
    by (simp add: collect_def)
  moreover have "\<exists>ep\<in>set (concat informers). map_of (ep_Labels ep) ''xds'' \<noteq> None \<and>
        (\<exists>s\<in>set (ep_Subsets ep). length (ss_Ports s) < length (ss_Addresses s))"
    using False unfolding enough_ports_def not_le [symmetric] by blast
  ultimately show ?thesis by (simp only: if_True HandleEndpointsUpdate_def sum.case)
qed

text \<open>One published service with two addresses behind one port, the usual form of Kubernetes endpoints,
  ends the handler; with a port for each address it is collected.\<close>

theorem dyplomat_collects_witness:
  "HandleEndpointsUpdate (\<lambda>r. Inr []) ex_codec [[ex_endpoints ''svc'' [''10.0.0.1'', ''10.0.0.2''] [80]]]
     \<lparr>dy_version = 0, dy_cache = NewSnapshotCache False IDHash\<rparr> = Inl (Panic ''index out of range'') \<and>
   (\<exists>data. collect [[ex_endpoints ''svc'' [''10.0.0.1'', ''10.0.0.2''] [80, 80]]] = Inr data \<and> fst ` set data = {''svc''})"
  using dyplomat_collects [of "[[ex_endpoints ''svc'' [''10.0.0.1'', ''10.0.0.2''] [80]]]" "\<lambda>r. Inr []" ex_codec
      "\<lparr>dy_version = 0, dy_cache = NewSnapshotCache False IDHash\<rparr>"]
    dyplomat_collects [of "[[ex_endpoints ''svc'' [''10.0.0.1'', ''10.0.0.2''] [80, 80]]]"]
  by (auto simp: ex_endpoints_def published_def)

text \<open>A snapshot of published services also holds a nil resource under the empty name, because the slice is
  made with a length before the resources are appended.\<close>

theorem dyplomat_nil_resource:
  assumes "collect informers = Inr data" and "\<forall>ep\<in>set (concat informers). enough_ports ep"
    and "data \<noteq> []" and "'''' \<notin> published (concat informers)"
  shows "\<exists>s. NewSnapshot v [(EndpointType, edsEndpoints k data)] = Inr s \<and>
    map_of (GetResources (Some s) EndpointType) '''' = Some MNil"
proof -
  have c: "collected (concat informers) data" using collect_collected [OF assms(2)] assms(1) by auto
  have "ec_name c \<noteq> ''''" if "(n, c) \<in> set data" for n c
  proof -
    have "map_of data n = Some c" using c that by (simp add: collected_def map_of_iff)
    then have "ec_name c = n" "n \<in> published (concat informers)" using c that by (force simp: collected_def)+
    with assms(4) show ?thesis by auto
  qed
  then have "map_of (rs_Items (NewResources v (edsEndpoints k data))) '''' = Some \<lparr>rt_Resource = MNil, rt_TTL = None\<rparr>"
    unfolding edsEndpoints_def using assms(3)
    by (intro IndexResources_nil_first) (auto simp: MakeEndpointsForCluster_def)
  then show ?thesis
    by (simp add: NewSnapshot_def Let_def GetResources_def GetResourcesAndTTL_def map_of_map_values [of "\<lambda>n. rt_Resource"])
qed

theorem dyplomat_nil_resource_witness:
  "\<exists>s. NewSnapshot ''0.0'' [(EndpointType, edsEndpoints ex_codec [(''svc'', \<lparr>ec_name = ''svc'', ec_port = 80, ec_endpoints = [''10.0.0.1'']\<rparr>)])] = Inr s \<and>
    map_of (GetResources (Some s) EndpointType) '''' = Some MNil"
proof -
  let ?i = "[[ex_endpoints ''svc'' [''10.0.0.1''] [80]]]"
  have a: "collect ?i = Inr [(''svc'', \<lparr>ec_name = ''svc'', ec_port = 80, ec_endpoints = [''10.0.0.1'']\<rparr>)]"
    by (simp add: collect_def add_endpoints_def add_subsets_def ex_endpoints_def Let_def)
  have b: "\<forall>ep\<in>set (concat ?i). enough_ports ep" by (simp add: enough_ports_def ex_endpoints_def)
  have c: "'''' \<notin> published (concat ?i)" by (simp add: published_def ex_endpoints_def)
  show ?thesis by (rule dyplomat_nil_resource [OF a b _ c]) simp
qed

text \<open>The authenticating transport. A request that has an authorization is passed on as it is. Any other one
  is passed on with the token of the provider, which is not expired when the generator gives tokens that are
  not, or fails with the error of the generator; an unexpired token is reused without asking for a new one.\<close>

theorem round_trip_authorized:
  assumes "\<And>c token e. gen c = Inr (token, e) \<Longrightarrow> now \<le> e" and "RoundTrip gen now rt req t = (t', r)"
  shows "if og_Authorization req \<noteq> '''' then r = rt req \<and> t' = t
    else (\<exists>a. hp_lastToken t' = Some a \<and> \<not> Expired now a \<and>
            r = rt (req\<lparr>og_Authorization := ''Bearer '' @ at_Token a\<rparr>) \<and>
            (\<forall>b. hp_lastToken t = Some b \<and> \<not> Expired now b \<longrightarrow> t' = t)) \<or>
         (\<exists>err. gen (hp_clusterName t) = Inl err \<and> r = Inl err \<and> t' = t)"
  using assms(2) assms(1) [of "hp_clusterName t"]
  by (auto simp: RoundTrip_def hp_Token_def refresh_def Expired_def not_less
      split: option.splits if_splits prod.splits sum.splits)

theorem round_trip_authorized_witness:
  "\<exists>t' a. RoundTrip (\<lambda>c. Inr (''tok'', 10)) 5 (\<lambda>q. Inr (og_Authorization q)) \<lparr>og_Authorization = '''', og_Rest = ''''\<rparr>
      (NewHeptioProvider ''c'') = (t', Inr ''Bearer tok'') \<and> hp_lastToken t' = Some a \<and> \<not> Expired 5 a"
proof -
  obtain t' r where run: "RoundTrip (\<lambda>c. Inr (''tok'', 10)) 5 (\<lambda>q. Inr (og_Authorization q))
      \<lparr>og_Authorization = '''', og_Rest = ''''\<rparr> (NewHeptioProvider ''c'') = (t', r)" by force
  then have "r = Inr ''Bearer tok''"
    by (simp add: RoundTrip_def hp_Token_def refresh_def NewHeptioProvider_def split: prod.splits)
  with run round_trip_authorized [OF _ run] show ?thesis by auto
qed

end
