(* ===== verification/Support.thy ===== *)
theory Support
  imports Rest_Server
begin

text \<open>
  What the programs around the servers use: the loggers of \<open>src/pkg/log\<close> and \<open>src/internal/example/logger.go\<close>,
  the registration of the services (\<open>src/pkg/test/v3/register.go\<close>, \<open>src/internal/example/server.go\<close>), and the
  names of \<open>src/pkg/wellknown/wellknown.go\<close>.

  A logging function acts on a state \<open>'w\<close> of its own; the arguments are given as strings. The constants of
  \<open>wellknown\<close> carry the prefix \<open>wk_\<close>.
\<close>

section \<open>Definitions\<close>

subsection \<open>Loggers\<close>

type_synonym 'w log_func = "string \<Rightarrow> string list \<Rightarrow> 'w \<Rightarrow> 'w"

record 'w Logger =
  log_Debugf :: "'w log_func"
  log_Infof :: "'w log_func"
  log_Warnf :: "'w log_func"
  log_Errorf :: "'w log_func"

record 'w LoggerFuncs =
  DebugFunc :: "'w log_func option"
  InfoFunc :: "'w log_func option"
  WarnFunc :: "'w log_func option"
  ErrorFunc :: "'w log_func option"

definition funcs_Debugf :: "'w LoggerFuncs \<Rightarrow> 'w log_func" where
  "funcs_Debugf f format args w = (case DebugFunc f of None \<Rightarrow> w | Some g \<Rightarrow> g format args w)"

definition funcs_Infof :: "'w LoggerFuncs \<Rightarrow> 'w log_func" where
  "funcs_Infof f format args w = (case InfoFunc f of None \<Rightarrow> w | Some g \<Rightarrow> g format args w)"

definition funcs_Warnf :: "'w LoggerFuncs \<Rightarrow> 'w log_func" where
  "funcs_Warnf f format args w = (case WarnFunc f of None \<Rightarrow> w | Some g \<Rightarrow> g format args w)"

definition funcs_Errorf :: "'w LoggerFuncs \<Rightarrow> 'w log_func" where
  "funcs_Errorf f format args w = (case ErrorFunc f of None \<Rightarrow> w | Some g \<Rightarrow> g format args w)"

definition funcs_Logger :: "'w LoggerFuncs \<Rightarrow> 'w Logger" where
  "funcs_Logger f = \<lparr>log_Debugf = funcs_Debugf f, log_Infof = funcs_Infof f, log_Warnf = funcs_Warnf f,
     log_Errorf = funcs_Errorf f\<rparr>"

definition NewDefaultLogger :: "'w Logger" where
  "NewDefaultLogger = \<lparr>log_Debugf = (\<lambda>format args w. w), log_Infof = (\<lambda>format args w. w),
     log_Warnf = (\<lambda>format args w. w), log_Errorf = (\<lambda>format args w. w)\<rparr>"

text \<open>The logger of a test: \<open>Logf\<close> of \<open>testing.TB\<close> is the parameter \<open>logf\<close>.\<close>

definition NewTestLogger :: "'w log_func \<Rightarrow> 'w Logger" where
  "NewTestLogger logf =
     \<lparr>log_Debugf = (\<lambda>msg args. logf (''[debug] '' @ msg) args),
      log_Infof = (\<lambda>msg args. logf (''[info] '' @ msg) args),
      log_Warnf = (\<lambda>msg args. logf (''[warn] '' @ msg) args),
      log_Errorf = (\<lambda>msg args. logf (''[error] '' @ msg) args)\<rparr>"

text \<open>The logger of the example; \<open>log.Printf\<close> is the parameter \<open>printf\<close>.\<close>

definition example_Logger :: "'w log_func \<Rightarrow> bool \<Rightarrow> 'w Logger" where
  "example_Logger printf debug =
     \<lparr>log_Debugf = (\<lambda>format args w. if debug then printf (format @ [CHR 10]) args w else w),
      log_Infof = (\<lambda>format args w. if debug then printf (format @ [CHR 10]) args w else w),
      log_Warnf = (\<lambda>format args w. printf (format @ [CHR 10]) args w),
      log_Errorf = (\<lambda>format args w. printf (format @ [CHR 10]) args w)\<rparr>"

subsection \<open>Registration of services\<close>

datatype xds_service =
    AggregatedDiscoveryService
  | EndpointDiscoveryService
  | LocalityEndpointDiscoveryService
  | ClusterDiscoveryService
  | RouteDiscoveryService
  | ScopedRoutesDiscoveryService
  | VirtualHostDiscoveryService
  | ListenerDiscoveryService
  | SecretDiscoveryService
  | RuntimeDiscoveryService

text \<open>A gRPC server as far as it is used here: the services registered with it, in order.\<close>

definition RegisterServer :: "xds_service list \<Rightarrow> xds_service list" where
  "RegisterServer grpcServer = grpcServer @
     [AggregatedDiscoveryService, EndpointDiscoveryService, ClusterDiscoveryService, RouteDiscoveryService,
      ScopedRoutesDiscoveryService, VirtualHostDiscoveryService, ListenerDiscoveryService, SecretDiscoveryService,
      RuntimeDiscoveryService, LocalityEndpointDiscoveryService]"

definition example_registerServer :: "xds_service list \<Rightarrow> xds_service list" where
  "example_registerServer grpcServer = grpcServer @
     [AggregatedDiscoveryService, EndpointDiscoveryService, LocalityEndpointDiscoveryService, ClusterDiscoveryService,
      RouteDiscoveryService, ListenerDiscoveryService, SecretDiscoveryService, RuntimeDiscoveryService]"

subsection \<open>Well-known names\<close>

definition wk_Buffer :: string where "wk_Buffer = ''envoy.filters.http.buffer''"
definition wk_CORS :: string where "wk_CORS = ''envoy.filters.http.cors''"
definition wk_Dynamo :: string where "wk_Dynamo = ''envoy.filters.http.dynamo''"
definition wk_Fault :: string where "wk_Fault = ''envoy.filters.http.fault''"
definition wk_GRPCHTTP1Bridge :: string where "wk_GRPCHTTP1Bridge = ''envoy.filters.http.grpc_http1_bridge''"
definition wk_GRPCJSONTranscoder :: string where "wk_GRPCJSONTranscoder = ''envoy.filters.http.grpc_json_transcoder''"
definition wk_GRPCWeb :: string where "wk_GRPCWeb = ''envoy.filters.http.grpc_web''"
definition wk_Gzip :: string where "wk_Gzip = ''envoy.filters.http.gzip''"
definition wk_IPTagging :: string where "wk_IPTagging = ''envoy.filters.http.ip_tagging''"
definition wk_HTTPRateLimit :: string where "wk_HTTPRateLimit = ''envoy.filters.http.ratelimit''"
definition wk_Router :: string where "wk_Router = ''envoy.filters.http.router''"
definition wk_HealthCheck :: string where "wk_HealthCheck = ''envoy.filters.http.health_check''"
definition wk_Lua :: string where "wk_Lua = ''envoy.filters.http.lua''"
definition wk_Squash :: string where "wk_Squash = ''envoy.filters.http.squash''"
definition wk_HTTPExternalAuthorization :: string where "wk_HTTPExternalAuthorization = ''envoy.filters.http.ext_authz''"
definition wk_HTTPRoleBasedAccessControl :: string where "wk_HTTPRoleBasedAccessControl = ''envoy.filters.http.rbac''"
definition wk_HTTPGRPCStats :: string where "wk_HTTPGRPCStats = ''envoy.filters.http.grpc_stats''"
definition wk_HTTPWasm :: string where "wk_HTTPWasm = ''envoy.extensions.filters.http.wasm.v3.Wasm''"
definition wk_ClientSSLAuth :: string where "wk_ClientSSLAuth = ''envoy.filters.network.client_ssl_auth''"
definition wk_Echo :: string where "wk_Echo = ''envoy.filters.network.echo''"
definition wk_HTTPConnectionManager :: string where "wk_HTTPConnectionManager = ''envoy.filters.network.http_connection_manager''"
definition wk_TCPProxy :: string where "wk_TCPProxy = ''envoy.filters.network.tcp_proxy''"
definition wk_RateLimit :: string where "wk_RateLimit = ''envoy.filters.network.ratelimit''"
definition wk_MongoProxy :: string where "wk_MongoProxy = ''envoy.filters.network.mongo_proxy''"
definition wk_ThriftProxy :: string where "wk_ThriftProxy = ''envoy.filters.network.thrift_proxy''"
definition wk_RedisProxy :: string where "wk_RedisProxy = ''envoy.filters.network.redis_proxy''"
definition wk_MySQLProxy :: string where "wk_MySQLProxy = ''envoy.filters.network.mysql_proxy''"
definition wk_ExternalAuthorization :: string where "wk_ExternalAuthorization = ''envoy.filters.network.ext_authz''"
definition wk_RoleBasedAccessControl :: string where "wk_RoleBasedAccessControl = ''envoy.filters.network.rbac''"
definition wk_OriginalDestination :: string where "wk_OriginalDestination = ''envoy.filters.listener.original_dst''"
definition wk_ProxyProtocol :: string where "wk_ProxyProtocol = ''envoy.filters.listener.proxy_protocol''"
definition wk_TlsInspector :: string where "wk_TlsInspector = ''envoy.filters.listener.tls_inspector''"
definition wk_TLSInspector :: string where "wk_TLSInspector = ''envoy.filters.listener.tls_inspector''"
definition wk_HttpInspector :: string where "wk_HttpInspector = ''envoy.filters.listener.http_inspector''"
definition wk_HTTPInspector :: string where "wk_HTTPInspector = ''envoy.filters.listener.http_inspector''"
definition wk_OriginalSource :: string where "wk_OriginalSource = ''envoy.filters.listener.original_src''"
definition wk_Lightstep :: string where "wk_Lightstep = ''envoy.tracers.lightstep''"
definition wk_Zipkin :: string where "wk_Zipkin = ''envoy.tracers.zipkin''"
definition wk_DynamicOT :: string where "wk_DynamicOT = ''envoy.tracers.dynamic_ot''"
definition wk_Datadog :: string where "wk_Datadog = ''envoy.tracers.datadog''"
definition wk_Statsd :: string where "wk_Statsd = ''envoy.stat_sinks.statsd''"
definition wk_DogStatsd :: string where "wk_DogStatsd = ''envoy.stat_sinks.dog_statsd''"
definition wk_MetricsService :: string where "wk_MetricsService = ''envoy.stat_sinks.metrics_service''"
definition wk_FileAccessLog :: string where "wk_FileAccessLog = ''envoy.access_loggers.file''"
definition wk_HTTPGRPCAccessLog :: string where "wk_HTTPGRPCAccessLog = ''envoy.access_loggers.http_grpc''"
definition wk_TransportSocketAlts :: string where "wk_TransportSocketAlts = ''envoy.transport_sockets.alts''"
definition wk_TransportSocketTap :: string where "wk_TransportSocketTap = ''envoy.transport_sockets.tap''"
definition wk_TransportSocketRawBuffer :: string where "wk_TransportSocketRawBuffer = ''envoy.transport_sockets.raw_buffer''"
definition wk_TransportSocketTls :: string where "wk_TransportSocketTls = ''envoy.transport_sockets.tls''"
definition wk_TransportSocketTLS :: string where "wk_TransportSocketTLS = ''envoy.transport_sockets.tls''"
definition wk_TransportSocketQuic :: string where "wk_TransportSocketQuic = ''envoy.transport_sockets.quic''"

text \<open>The names without the deprecated spellings.\<close>

definition wk_names :: "string list" where
  "wk_names =
    [wk_Buffer, wk_CORS, wk_Dynamo, wk_Fault, wk_GRPCHTTP1Bridge,
     wk_GRPCJSONTranscoder, wk_GRPCWeb, wk_Gzip, wk_IPTagging, wk_HTTPRateLimit,
     wk_Router, wk_HealthCheck, wk_Lua, wk_Squash, wk_HTTPExternalAuthorization,
     wk_HTTPRoleBasedAccessControl, wk_HTTPGRPCStats, wk_HTTPWasm, wk_ClientSSLAuth, wk_Echo,
     wk_HTTPConnectionManager, wk_TCPProxy, wk_RateLimit, wk_MongoProxy, wk_ThriftProxy,
     wk_RedisProxy, wk_MySQLProxy, wk_ExternalAuthorization, wk_RoleBasedAccessControl, wk_OriginalDestination,
     wk_ProxyProtocol, wk_TLSInspector, wk_HTTPInspector, wk_OriginalSource, wk_Lightstep,
     wk_Zipkin, wk_DynamicOT, wk_Datadog, wk_Statsd, wk_DogStatsd,
     wk_MetricsService, wk_FileAccessLog, wk_HTTPGRPCAccessLog, wk_TransportSocketAlts, wk_TransportSocketTap,
     wk_TransportSocketRawBuffer, wk_TransportSocketTLS, wk_TransportSocketQuic]"

section \<open>Lemmas\<close>

lemmas wk_defs =
  wk_Buffer_def wk_CORS_def wk_Dynamo_def wk_Fault_def wk_GRPCHTTP1Bridge_def
  wk_GRPCJSONTranscoder_def wk_GRPCWeb_def wk_Gzip_def wk_IPTagging_def wk_HTTPRateLimit_def
  wk_Router_def wk_HealthCheck_def wk_Lua_def wk_Squash_def wk_HTTPExternalAuthorization_def
  wk_HTTPRoleBasedAccessControl_def wk_HTTPGRPCStats_def wk_HTTPWasm_def wk_ClientSSLAuth_def
  wk_Echo_def wk_HTTPConnectionManager_def wk_TCPProxy_def wk_RateLimit_def wk_MongoProxy_def
  wk_ThriftProxy_def wk_RedisProxy_def wk_MySQLProxy_def wk_ExternalAuthorization_def
  wk_RoleBasedAccessControl_def wk_OriginalDestination_def wk_ProxyProtocol_def wk_TlsInspector_def
  wk_TLSInspector_def wk_HttpInspector_def wk_HTTPInspector_def wk_OriginalSource_def wk_Lightstep_def
  wk_Zipkin_def wk_DynamicOT_def wk_Datadog_def wk_Statsd_def wk_DogStatsd_def wk_MetricsService_def
  wk_FileAccessLog_def wk_HTTPGRPCAccessLog_def wk_TransportSocketAlts_def wk_TransportSocketTap_def
  wk_TransportSocketRawBuffer_def wk_TransportSocketTls_def wk_TransportSocketTLS_def
  wk_TransportSocketQuic_def

text \<open>A logger without functions is the default one, and one with all functions calls the one of the level.\<close>

lemma funcs_Logger_none:
  "funcs_Logger \<lparr>DebugFunc = None, InfoFunc = None, WarnFunc = None, ErrorFunc = None\<rparr> = NewDefaultLogger"
  by (simp add: funcs_Logger_def NewDefaultLogger_def funcs_Debugf_def funcs_Infof_def funcs_Warnf_def
      funcs_Errorf_def fun_eq_iff)

lemma funcs_Logger_all:
  "funcs_Logger \<lparr>DebugFunc = Some d, InfoFunc = Some i, WarnFunc = Some v, ErrorFunc = Some e\<rparr> =
     \<lparr>log_Debugf = d, log_Infof = i, log_Warnf = v, log_Errorf = e\<rparr>"
  by (simp add: funcs_Logger_def funcs_Debugf_def funcs_Infof_def funcs_Warnf_def funcs_Errorf_def fun_eq_iff)

text \<open>The servers of the test and of the example register each service once; the example serves neither
  scoped routes nor virtual hosts.\<close>

lemma registered:
  "distinct (RegisterServer [])" "distinct (example_registerServer [])"
  "set (RegisterServer []) - set (example_registerServer []) = {ScopedRoutesDiscoveryService, VirtualHostDiscoveryService}"
  by (auto simp: RegisterServer_def example_registerServer_def)

text \<open>The deprecated spellings are aliases, all other names differ.\<close>

lemma wk_aliases:
  "wk_TlsInspector = wk_TLSInspector" "wk_HttpInspector = wk_HTTPInspector" "wk_TransportSocketTls = wk_TransportSocketTLS"
  by (simp_all add: wk_defs)

lemma wk_names_distinct: "distinct wk_names"
  unfolding wk_names_def wk_defs by code_simp

end
