(* ===== verification/Spec2Isabelle.thy ===== *)
theory Spec2Isabelle
  imports Stream_Properties Linear_Properties Simple_Properties Snapshot_Stream Delta_Stream
    Mux_Properties Client_Protocol Gateway_Properties Matcher_Properties Conversion
    Test_Driver Example_Server Dyplomat Support
begin

text \<open>
  Verification of go-control-plane, the Go library for management servers of Envoy.

  \<^bold>\<open>The program.\<close> A management server keeps configuration resources (listeners, clusters, routes, ...) in a
  cache and streams them to proxies over the xDS protocols. The library has three layers, modelled from
  their sources under \<^verbatim>\<open>src/pkg\<close>, and a separate evaluation library under \<^verbatim>\<open>src/xdsmatcher\<close>:

  \<^item> \<^bold>\<open>Caches\<close> (\<^verbatim>\<open>cache/v3\<close>). A client opens a \<^emph>\<open>watch\<close>: a request, a subscription and a channel. The cache
    answers at once, or keeps the watch open and answers it when the resources change. The linear
    cache (\<^verbatim>\<open>linear.go\<close>) keeps one versioned collection of one type; the snapshot cache (\<^verbatim>\<open>simple.go\<close>)
    keeps a consistent set of all types per node; the multiplexing cache (\<^verbatim>\<open>mux.go\<close>) dispatches to others.
  \<^item> \<^bold>\<open>Servers\<close> (\<^verbatim>\<open>server\<close>). A stream is one goroutine that loops over a \<open>select\<close>: requests open and replace
    watches, responses arriving on channels are numbered and sent. There is a state-of-the-world server
    (\<^verbatim>\<open>sotw/v3\<close>, unordered and ordered for ADS), a delta server (\<^verbatim>\<open>delta/v3\<close>), a REST server (\<^verbatim>\<open>rest/v3\<close>) and an
    HTTP gateway (\<^verbatim>\<open>v3/gateway.go\<close>).
  \<^item> \<^bold>\<open>Client\<close> (\<^verbatim>\<open>client/sotw/v3\<close>). It fetches, acknowledges and rejects state-of-the-world responses.
  \<^item> \<^bold>\<open>Match trees\<close> (\<^verbatim>\<open>xdsmatcher\<close>). A match tree is built from its configuration with the extensions of a
    registry, and evaluated on data that may still be arriving.
  \<^item> \<^bold>\<open>Programs around the library\<close> (\<^verbatim>\<open>src/pkg/test\<close>, \<^verbatim>\<open>src/internal/example\<close>, \<^verbatim>\<open>src/examples/dyplomat\<close>). The integration test
    generates snapshots, sets them in a cache and calls the listeners of a proxy; an example server serves
    one fixed snapshot; another one publishes the endpoints of Kubernetes services.

  \<^bold>\<open>Theories and sources.\<close>

  \<^item> \<open>Go_Prelude\<close>: Go maps as association lists with distinct keys, errors as values (a Go panic is the error
    \<open>Panic\<close>), 64-bit counters as words, decimal formatting, string prefixes; the shared lemmas.
  \<^item> \<open>Sha256\<close>: the hash behind resource versions, computed in full.
  \<^item> \<open>Xds_Types\<close>: \<^verbatim>\<open>cache/types/types.go\<close>, \<^verbatim>\<open>resource/v3/resource.go\<close>, \<^verbatim>\<open>cache/v3/resource.go\<close>: resource types, names,
    references; protobuf messages by the fields the code reads.
  \<^item> \<open>Subscription\<close>: \<^verbatim>\<open>server/stream/v3/subscription.go\<close>: what a stream asks for and what it was returned.
  \<^item> \<open>Responses\<close>, \<open>Watches\<close>: \<^verbatim>\<open>cache.go\<close>, \<^verbatim>\<open>cached_resource.go\<close>, \<^verbatim>\<open>status.go\<close>, \<^verbatim>\<open>order.go\<close> of \<^verbatim>\<open>cache/v3\<close>.
  \<^item> \<open>Linear\<close> with \<open>Linear_Response\<close> (what a response is computed from), \<open>Linear_Watch\<close> (the indexes of open
    watches refine one table), \<open>Linear_Notify\<close> (updates and reachable states), \<open>Linear_Properties\<close>.
  \<^item> \<open>Snapshot\<close>: \<^verbatim>\<open>snapshot.go\<close>, \<^verbatim>\<open>resources.go\<close>. \<open>Simple\<close> with \<open>Simple_Response\<close>, \<open>Simple_Run\<close>, \<open>Simple_Properties\<close>:
    the snapshot cache, its responses, its reachable states.
  \<^item> \<open>Cache_Interface\<close>: the interfaces of \<^verbatim>\<open>cache.go\<close> as a record of functions on a state, the two caches as
    implementations, and \<^verbatim>\<open>mux.go\<close>.
  \<^item> \<open>Server_Config\<close>, \<open>Sotw_Server\<close>, \<open>Delta_Server\<close>, \<open>Rest_Server\<close>, \<open>Gateway\<close>, \<open>Ads_Client\<close>: the servers, their options,
    the bundled server of \<^verbatim>\<open>server/v3/server.go\<close>, the gateway and the client.
  \<^item> \<open>Sotw_Stream\<close>, \<open>Linear_Channel\<close>, \<open>Linear_Stream\<close>, \<open>Stream_Correctness\<close>: a state-of-the-world stream on a linear
    cache, end to end. \<open>Config_Watcher\<close>: what a stream relies on in any cache, and the life of its watches.
    \<open>Snapshot_Stream\<close>: a stream on the snapshot cache. \<open>Ads_Order\<close>: the ordered loop. \<open>Delta_Stream\<close>: the delta loop. \<open>Mux_Properties\<close>: a stream
    on a multiplexing cache. \<open>Client_Protocol\<close>: client and server together. \<open>Gateway_Properties\<close>: the gateway over
    the snapshot cache. \<open>Stream_Properties\<close>: properties of subscriptions, type tables and responses.
  \<^item> \<open>Matcher\<close>: \<^verbatim>\<open>matcher.go\<close>, \<^verbatim>\<open>types.go\<close> and \<^verbatim>\<open>registry.go\<close> of \<^verbatim>\<open>xdsmatcher/pkg/matcher\<close>. \<open>Matcher_Extensions\<close>: the registered
    test extensions and the YAML loader. \<open>Matcher_Properties\<close>: their properties.
  \<^item> \<open>Conversion\<close>: \<^verbatim>\<open>pkg/conversion/struct.go\<close>.
  \<^item> \<open>Envoy_Messages\<close>: the messages that programs build, by the fields they set, with the codec that packs them
    into resources. \<open>Test_Resources\<close>: \<^verbatim>\<open>pkg/test/resource/v3\<close>; \<open>Test_Snapshot\<close>: what the generated snapshots hold.
    \<open>Test_Callbacks\<close>: \<^verbatim>\<open>callbacks.go\<close> and \<^verbatim>\<open>accesslog.go\<close> of \<^verbatim>\<open>pkg/test/v3\<close>. \<open>Test_Driver\<close>: \<^verbatim>\<open>pkg/test/main/main.go\<close> and the
    handler of \<^verbatim>\<open>pkg/test/server.go\<close>. \<open>Example_Server\<close>: \<^verbatim>\<open>internal/example\<close>. \<open>Dyplomat\<close>: \<^verbatim>\<open>main.go\<close> and \<^verbatim>\<open>auth.go\<close> of
    \<^verbatim>\<open>examples/dyplomat\<close>. \<open>Support\<close>: \<^verbatim>\<open>pkg/log\<close>, the lists of registered services, \<^verbatim>\<open>pkg/wellknown\<close>.

  \<^bold>\<open>How state and effects are modelled.\<close> Every method under a mutex is one function from state to state. What it
  puts on channels is returned as a list in order. A stream handler is one function per \<open>select\<close> event, and
  a run of a stream folds them over any list of events, so theorems hold for every schedule. Pending
  channel contents are part of the stream state. Nothing is bounded and no fuel is used: the recursion is
  over lists of events, resources or watches. Subscriptions are values: the Go code shares their maps
  between a watch and its stream but changes them only after closing the watch. Callbacks are functions on
  a state of their own and are taken not to change the messages they see. Parameters of the model are
  protobuf marshaling and JSON coding, \<open>Send\<close> of gRPC, the node hash, the classification functions of the
  multiplexing cache, and for match trees the decoding of extension messages and regular expressions.

  \<^bold>\<open>Runs and their ghosts.\<close> The reachable states are inductive predicates over all operations, failing ones included.
  Updates that report an error have changed the cache and may have left before all watches were notified, so
  the runs remember what such updates touched, beside the state and without influence on it:

  \<^item> \<open>linear_run m c cs M\<close> and \<open>linear_stream m srv env t mine s cs M\<close>: \<open>cs\<close> are the cancel functions handed out, \<open>M\<close> the
    names changed by an update that reported an error and not changed since by one that did not; \<open>mine\<close>
    are the channels of the stream.
  \<^item> \<open>snapshot_run m c F\<close>: \<open>F\<close> are the nodes whose last \<open>SetSnapshot\<close> reported an error.
  \<^item> \<open>watched_stream\<close>, on the snapshot cache with the past \<open>(F, lost)\<close>: \<open>lost\<close> are the cancel functions of watches that
    \<open>ClearSnapshot\<close> removed while they were open.

  Runs of a stream end when its loop returns. They also stop before a counter wraps around: the version of the
  linear cache in \<open>linear_stream\<close>, the number of watches of the snapshot cache in \<open>watched_stream\<close>. Other streams use
  channels of their own and do not call this stream's cancel functions. A channel is a list of any length in
  the model, so a blocking send is not represented; that no send on a channel of a linear-cache stream with
  the unordered loop blocks is a theorem about the length of its contents.

  \<^bold>\<open>What is shown.\<close>

  \<^item> End to end on the linear cache (\<open>Stream_Correctness\<close>), for the unordered loop: in every interleaving of stream
    events, cache updates and other streams, a client that has nothing queued knows and was sent the current
    content of all it subscribed to, unless a failing update concerned it (below); a queued response stays
    until it is sent, its marshaling error ends the stream, or a newer request of the client gives it up;
    channels stay within their capacity; shutdown leaves no watch behind.
  \<^item> End to end on the snapshot cache (\<open>Snapshot_Stream\<close>), for both loops: every watch of a stream is queued,
    open, answered, was dropped in ADS mode, or was removed by \<open>ClearSnapshot\<close>; an open one is up to date unless the last
    \<open>SetSnapshot\<close> of its node failed; a queued response stays until it is sent or a request of its own type gives
    it up.
  \<^item> Linear cache: a reachable state has no stale open watch but those a failing update concerned, an update without
    error answers exactly the watches it makes stale, responses are exactly the view of the subscription,
    minimal for delta and complete for full state, versions are fresh until the counter wraps.
  \<^item> Snapshot cache: the same for each node whose last \<open>SetSnapshot\<close> succeeded, with the ADS conditions and the response
    order.
  \<^item> Servers: nonces are consecutive; a request of a type that has a watch is handled after the queued responses
    of the other types (ordered ADS) or of all types (delta) are sent.
  \<^item> Multiplexing cache: a stream whose types are all classified to one key cannot tell it from the cache of that
    key.
  \<^item> Client: acknowledgements and rejections reach the server as answers to what it sent last.
  \<^item> Gateway: which requests get which status code and body.
  \<^item> Match trees: evaluation ends; on complete data its result is the declarative meaning of the tree, or a nested
    fallback tree with that meaning; a result that asks for no more data changes later only if a partial value
    changes; \<open>Create\<close> builds well-formed trees only.
  \<^item> Snapshots: consistency is equality of referenced and present names; version maps are hashes.
  \<^item> Programs: every generated test snapshot is consistent, with one listener per port and routes spread evenly
    over the clusters; the test driver passes only if all listeners answered in a batch of each update; the
    test callbacks count the responses of a running stream; the example server's snapshot is consistent and
    served; the Kubernetes example collects the published addresses or panics on a stated condition.
  \<^item> Where the code does something its comments do not say, a theorem shows it on the model.

  \<^bold>\<open>Interfaces.\<close> \<open>Config_Watcher\<close> states what a stream relies on in a cache, as a locale interpreted on the
  snapshot cache; \<open>Sotw_Stream\<close> what an invariant of one stream has to satisfy to hold over all its events, as the
  locale \<open>stream_invariant\<close>, interpreted for the nonces and, in \<open>Test_Callbacks\<close>, for the counters of the test callbacks;
  \<open>Watches\<close> what caches rely on for every kind of watch, \<open>Matcher_Properties\<close> what match trees rely on for every
  predicate and every nested matcher. All are interpreted on the model's definitions.

  \<^bold>\<open>Not modelled.\<close> The generated message types, gRPC stubs and validators (\<^verbatim>\<open>envoy\<close>, \<^verbatim>\<open>contrib\<close>, \<^verbatim>\<open>ratelimit\<close>): they are
  produced from the protocol definitions, which are not part of the repository's own code. Of the programs:
  opening sockets, flag parsing and profiling (\<^verbatim>\<open>RunAccessLogServer\<close> and its siblings in \<^verbatim>\<open>pkg/test/server.go\<close>,
  \<^verbatim>\<open>RunServer\<close> of \<^verbatim>\<open>internal/example/server.go\<close>), the discovery of clusters through cloud packages
  (\<^verbatim>\<open>examples/dyplomat/bootstrap.go\<close>), and the echo server of \<^verbatim>\<open>internal/upstream\<close>: they only call third-party and
  system packages. Printing has no effect on any state.
\<close>

end
